(* ===== verification/JsValue.thy ===== *)
theory JsValue
  imports Prelude
begin

section \<open>JavaScript values, objects and numbers\<close>

text \<open>
  The part of the JavaScript value model that the sources rely on. A number is a rational or one
  of the three non-finite values: every finite double is rational, rounding errors are not
  modelled and the sign of zero is dropped. An object is its list of own properties in insertion
  order; assignment keeps the position of an existing key, as the language does. Functions,
  symbols and prototype lookups do not occur in the modelled code.

  The contract of a keyed store is the locale \<open>kv_store\<close>. Objects interpret it here, the
  browser's \<open>localStorage\<close> in theory \<open>Browser\<close>.
\<close>

datatype jnum = Fin rat | PInf | NInf | NaN

datatype val =
    VUndef
  | VNull
  | VBool bool
  | VNum jnum
  | VStr string
  | VArr "val list"
  | VObj "(string \<times> val) list"

type_synonym props = "(string \<times> val) list"

abbreviation vrat :: "rat \<Rightarrow> val" where
  "vrat q \<equiv> VNum (Fin q)"

abbreviation vint :: "int \<Rightarrow> val" where
  "vint k \<equiv> VNum (Fin (of_int k))"

named_theorems obj_simps \<open>reading properties back from built objects\<close>

subsection \<open>Truth, defaulting and conversions\<close>

fun truthy :: "val \<Rightarrow> bool" where
  "truthy VUndef = False"
| "truthy VNull = False"
| "truthy (VBool b) = b"
| "truthy (VNum n) = (n \<noteq> Fin 0 \<and> n \<noteq> NaN)"
| "truthy (VStr s) = (s \<noteq> [])"
| "truthy (VArr _) = True"
| "truthy (VObj _) = True"

text \<open>\<open>a || b\<close> on strings and \<open>a ?? b\<close> on values.\<close>

definition or_str :: "string \<Rightarrow> string \<Rightarrow> string" where
  "or_str a b = (if a = [] then b else a)"

definition or_undef :: "string \<Rightarrow> val" where
  "or_undef s = (if s = [] then VUndef else VStr s)"

fun nullish :: "val \<Rightarrow> bool" where
  "nullish VUndef = True"
| "nullish VNull = True"
| "nullish _ = False"

lemma or_str_nonempty: "a \<noteq> [] \<or> b \<noteq> [] \<Longrightarrow> or_str a b \<noteq> []"
  by (simp add: or_str_def)

text \<open>A value read as a string, the empty string standing for everything else.\<close>

fun str_of :: "val \<Rightarrow> string" where
  "str_of (VStr s) = s"
| "str_of _ = []"

text \<open>\<open>Math.round\<close>, \<open>Math.trunc\<close>.\<close>

definition js_round :: "rat \<Rightarrow> int" where
  "js_round q = \<lfloor>q + 1 / 2\<rfloor>"

definition js_trunc :: "rat \<Rightarrow> int" where
  "js_trunc q = (if q < 0 then \<lceil>q\<rceil> else \<lfloor>q\<rfloor>)"

lemma js_round_int [simp]: "js_round (of_int k) = k"
  unfolding js_round_def by linarith

lemma js_round_nearest: "\<bar>of_int (js_round q) - q\<bar> \<le> 1 / 2"
  unfolding js_round_def by linarith

lemma js_round_mono: "p \<le> q \<Longrightarrow> js_round p \<le> js_round q"
  unfolding js_round_def by (intro floor_mono) simp

lemma js_trunc_int [simp]: "js_trunc (of_int k) = k"
  by (simp add: js_trunc_def)

lemma js_trunc_nonneg: "0 \<le> q \<Longrightarrow> 0 \<le> js_trunc q \<and> of_int (js_trunc q) \<le> q"
  by (simp add: js_trunc_def)

subsection \<open>Objects\<close>

fun getp :: "props \<Rightarrow> string \<Rightarrow> val" where
  "getp [] k = VUndef"
| "getp ((k', v) # ps) k = (if k = k' then v else getp ps k)"

fun setp :: "string \<Rightarrow> val \<Rightarrow> props \<Rightarrow> props" where
  "setp k v [] = [(k, v)]"
| "setp k v ((k', w) # ps) = (if k = k' then (k, v) # ps else (k', w) # setp k v ps)"

fun without :: "string \<Rightarrow> props \<Rightarrow> props" where
  "without k [] = []"
| "without k ((k', v) # ps) = (if k = k' then without k ps else (k', v) # without k ps)"

text \<open>\<open>{...base, ...over}\<close>.\<close>

definition spread :: "props \<Rightarrow> props \<Rightarrow> props" where
  "spread base over = foldl (\<lambda>ps (k, v). setp k v ps) base over"

abbreviation keys :: "props \<Rightarrow> string list" where
  "keys ps \<equiv> map fst ps"

definition wf_obj :: "props \<Rightarrow> bool" where
  "wf_obj ps \<longleftrightarrow> distinct (keys ps)"

text \<open>\<open>o.k\<close> on a value that may not be an object: \<open>undefined\<close>.\<close>

fun field :: "val \<Rightarrow> string \<Rightarrow> val" where
  "field (VObj ps) k = getp ps k"
| "field _ k = VUndef"

lemma getp_setp [obj_simps]: "getp (setp k v ps) k' = (if k' = k then v else getp ps k')"
  by (induction k v ps rule: setp.induct) auto

lemma set_keys_setp [simp]: "set (keys (setp k v ps)) = insert k (set (keys ps))"
  by (induction k v ps rule: setp.induct) auto

lemma wf_setp [simp]: "wf_obj ps \<Longrightarrow> wf_obj (setp k v ps)"
proof (induction k v ps rule: setp.induct)
  case (2 k v k' w ps)
  have "fst ` set (setp k v ps) = insert k (fst ` set ps)"
    using set_keys_setp [of k v ps] by simp
  with 2 show ?case by (auto simp: wf_obj_def)
qed (simp add: wf_obj_def)

lemma getp_absent: "k \<notin> set (keys ps) \<Longrightarrow> getp ps k = VUndef"
  by (induction ps) auto

lemma getp_without [obj_simps]: "getp (without k ps) k' = (if k' = k then VUndef else getp ps k')"
  by (induction k ps rule: without.induct) auto

lemma keys_without: "keys (without k ps) = filter (\<lambda>x. x \<noteq> k) (keys ps)"
  by (induction k ps rule: without.induct) auto

lemma spread_Nil [simp]: "spread ps [] = ps"
  by (simp add: spread_def)

lemma spread_Cons [simp]: "spread ps ((k, v) # qs) = spread (setp k v ps) qs"
  by (simp add: spread_def)

lemma wf_spread [simp]: "wf_obj ps \<Longrightarrow> wf_obj (spread ps qs)"
  by (induction qs arbitrary: ps) auto

lemma set_keys_spread [simp]: "set (keys (spread ps qs)) = set (keys ps) \<union> set (keys qs)"
  by (induction qs arbitrary: ps) (auto simp del: set_map)

lemma getp_spread [obj_simps]:
  "wf_obj qs \<Longrightarrow> getp (spread ps qs) k = (if k \<in> set (keys qs) then getp qs k else getp ps k)"
proof (induction qs arbitrary: ps)
  case Nil
  then show ?case by simp
next
  case (Cons q qs)
  obtain k' v where q: "q = (k', v)" by fastforce
  have wf: "wf_obj qs" and fresh: "k' \<notin> set (keys qs)"
    using Cons.prems by (auto simp: wf_obj_def q)
  show ?case using Cons.IH [OF wf, of "setp k' v ps"] fresh
    by (auto simp: q getp_setp)
qed

lemma wf_obj_map_of: "wf_obj ps \<Longrightarrow> (k, v) \<in> set ps \<Longrightarrow> getp ps k = v"
  by (induction ps) (auto simp: wf_obj_def, force+)

subsection \<open>Keyed stores\<close>

text \<open>
  What every keyed store of the program promises: a lookup after a write sees the write, other
  keys are untouched, and a removed key is gone. The clients' reasoning about sequences of writes
  is done once, here.
\<close>

locale kv_store =
  fixes look :: "'s \<Rightarrow> 'k \<Rightarrow> 'v"
    and absent :: 'v
    and store :: "'k \<Rightarrow> 'v \<Rightarrow> 's \<Rightarrow> 's"
    and remove :: "'k \<Rightarrow> 's \<Rightarrow> 's"
  assumes look_store: "look (store k v s) k' = (if k' = k then v else look s k')"
    and look_remove: "look (remove k s) k' = (if k' = k then absent else look s k')"
begin

lemma look_store_same: "look (store k v s) k = v"
  by (simp add: look_store)

lemma look_store_other: "k' \<noteq> k \<Longrightarrow> look (store k v s) k' = look s k'"
  by (simp add: look_store)

lemma look_stores_frame:
  "k \<notin> fst ` set ws \<Longrightarrow> look (fold (\<lambda>(a, b). store a b) ws s) k = look s k"
  by (induction ws arbitrary: s) (auto simp: look_store)

lemma look_removes:
  "look (fold remove ks s) k = (if k \<in> set ks then absent else look s k)"
  by (induction ks arbitrary: s) (auto simp: look_remove)

lemma store_then_remove: "look (remove k (store k v s)) k' = look (remove k s) k'"
  by (simp add: look_store look_remove)

end

interpretation obj_store: kv_store getp VUndef setp without
  by unfold_locales (simp_all add: obj_simps)

lemmas getp_setp_frame = obj_store.look_stores_frame

subsection \<open>Decimal text of numbers\<close>

text \<open>
  \<open>String(n)\<close>. The fractional part is written digit by digit, at most \<open>frac_limit\<close> of
  them: a number whose decimal expansion is longer (it has no short double text either) is cut.
  Numbers of at least \<open>10^21\<close>, which the language writes with an exponent, are outside the
  model.
\<close>

definition frac_limit :: nat where
  "frac_limit = 20"

fun frac_text :: "nat \<Rightarrow> rat \<Rightarrow> string" where
  "frac_text 0 q = []"
| "frac_text (Suc n) q =
     (if q = 0 then []
      else digit_char (nat \<lfloor>q * 10\<rfloor>) # frac_text n (q * 10 - of_int \<lfloor>q * 10\<rfloor>))"

definition frac_val :: "string \<Rightarrow> rat" where
  "frac_val s = of_nat (nat_of_digits s) / 10 ^ length s"

definition rat_text :: "rat \<Rightarrow> string" where
  "rat_text q =
     (if q < 0 then ''-'' else [])
     @ nat_text (nat \<lfloor>\<bar>q\<bar>\<rfloor>)
     @ (if frac \<bar>q\<bar> = 0 then [] else CHR ''.'' # frac_text frac_limit (frac \<bar>q\<bar>))"

fun num_text :: "jnum \<Rightarrow> string" where
  "num_text (Fin q) = rat_text q"
| "num_text PInf = ''Infinity''"
| "num_text NInf = ''-Infinity''"
| "num_text NaN = ''NaN''"

text \<open>The numbers whose text is exact.\<close>

definition short_decimal :: "rat \<Rightarrow> bool" where
  "short_decimal q \<longleftrightarrow> of_int \<lfloor>q * 10 ^ frac_limit\<rfloor> = q * 10 ^ frac_limit"

lemma short_decimal_int [simp]: "short_decimal (of_int k)"
proof -
  have "(of_int k :: rat) * 10 ^ frac_limit = of_int (k * 10 ^ frac_limit)" by simp
  then show ?thesis unfolding short_decimal_def by (metis floor_of_int)
qed

lemma foldl_digits:
  "foldl (\<lambda>a c. a * 10 + digit_val c) a s = a * 10 ^ length s + nat_of_digits s"
proof (induction s arbitrary: a)
  case (Cons c s)
  have "nat_of_digits (c # s) = foldl (\<lambda>a c. a * 10 + digit_val c) (digit_val c) s"
    by (simp add: nat_of_digits_def)
  with Cons [of "digit_val c"] Cons [of "a * 10 + digit_val c"] show ?case
    by (simp add: algebra_simps)
qed (simp add: nat_of_digits_def)

lemma frac_val_Cons: "frac_val (c # s) = (of_nat (digit_val c) + frac_val s) / 10"
proof -
  have "nat_of_digits (c # s) = digit_val c * 10 ^ length s + nat_of_digits s"
    using foldl_digits [of "digit_val c" s] by (simp add: nat_of_digits_def)
  then show ?thesis by (simp add: frac_val_def field_simps)
qed

lemma frac_val_Nil [simp]: "frac_val [] = 0"
  by (simp add: frac_val_def nat_of_digits_def)

lemma tenfold_digit:
  fixes q :: rat
  assumes "0 \<le> q" "q < 1"
  shows "0 \<le> \<lfloor>q * 10\<rfloor>" "\<lfloor>q * 10\<rfloor> < 10" "nat \<lfloor>q * 10\<rfloor> < 10"
    "0 \<le> q * 10 - of_int \<lfloor>q * 10\<rfloor>" "q * 10 - of_int \<lfloor>q * 10\<rfloor> < 1"
  using assms by (auto simp: floor_less_iff, linarith+)

lemma frac_text_digits:
  "0 \<le> q \<Longrightarrow> q < 1 \<Longrightarrow> c \<in> set (frac_text n q) \<Longrightarrow> is_digit c"
proof (induction n arbitrary: q)
  case (Suc n)
  note d = tenfold_digit [OF Suc.prems(1,2)]
  show ?case using Suc.IH [OF d(4,5)] Suc.prems(3) d(3) by (auto split: if_splits)
qed simp

lemma frac_val_frac_text:
  "0 \<le> q \<Longrightarrow> q < 1 \<Longrightarrow> of_int \<lfloor>q * 10 ^ n\<rfloor> = q * 10 ^ n \<Longrightarrow> frac_val (frac_text n q) = q"
proof (induction n arbitrary: q)
  case 0
  then have "of_int \<lfloor>q\<rfloor> = q" and "\<lfloor>q\<rfloor> = 0" by (auto simp: floor_eq_iff)
  then show ?case by simp
next
  case (Suc n)
  note d = tenfold_digit [OF Suc.prems(1,2)]
  define r where "r = q * 10 - of_int \<lfloor>q * 10\<rfloor>"
  obtain m where m: "q * 10 ^ Suc n = of_int m" using Suc.prems(3) by metis
  have "r * 10 ^ n = q * 10 ^ Suc n - of_int (\<lfloor>q * 10\<rfloor> * 10 ^ n)"
    by (simp add: r_def algebra_simps)
  also have "\<dots> = of_int (m - \<lfloor>q * 10\<rfloor> * 10 ^ n)"
    unfolding m by simp
  finally have "of_int \<lfloor>r * 10 ^ n\<rfloor> = r * 10 ^ n" by (metis floor_of_int)
  with Suc.IH [of r] d have "frac_val (frac_text n r) = r" by (simp add: r_def)
  then show ?case using d by (auto simp: frac_val_Cons r_def field_simps)
qed

lemma frac_short: "short_decimal q \<Longrightarrow> of_int \<lfloor>frac \<bar>q\<bar> * 10 ^ frac_limit\<rfloor> = frac \<bar>q\<bar> * 10 ^ frac_limit"
proof -
  assume a: "short_decimal q"
  obtain k where "q * 10 ^ frac_limit = of_int k" using a unfolding short_decimal_def by metis
  then have "\<bar>q\<bar> * 10 ^ frac_limit = of_int \<bar>k\<bar>" by (metis abs_mult abs_numeral of_int_abs power_abs)
  then have "frac \<bar>q\<bar> * 10 ^ frac_limit = of_int (\<bar>k\<bar> - \<lfloor>\<bar>q\<bar>\<rfloor> * 10 ^ frac_limit)"
    by (simp add: frac_def algebra_simps)
  then show ?thesis by (metis floor_of_int)
qed

subsection \<open>Reading numbers\<close>

text \<open>An optional exponent part: its power of ten, and the rest.\<close>

definition scan_exponent :: "string \<Rightarrow> (rat \<times> string) option" where
  "scan_exponent s =
     (case s of
        c # r \<Rightarrow>
          if c = CHR ''e'' \<or> c = CHR ''E'' then
            (let (neg, t) = (case r of
                 d # r' \<Rightarrow> if d = CHR ''-'' then (True, r')
                           else if d = CHR ''+'' then (False, r') else (False, r)
               | [] \<Rightarrow> (False, r));
                 ds = takeWhile is_digit t
             in if ds = [] then None
                else Some (if neg then 1 / 10 ^ nat_of_digits ds else 10 ^ nat_of_digits ds,
                           dropWhile is_digit t))
          else Some (1, s)
      | [] \<Rightarrow> Some (1, s))"

text \<open>
  \<open>Number(text)\<close>: blanks around the literal are skipped, the empty text is zero, decimal
  literals may start or end with the point, and anything else is \<open>NaN\<close>. The
  \<open>0x\<close>, \<open>0o\<close> and \<open>0b\<close> literals are not needed by the sources.
\<close>

definition unsigned_number :: "string \<Rightarrow> jnum" where
  "unsigned_number s =
     (if s = ''Infinity'' then PInf
      else
        let ip = takeWhile is_digit s; r = dropWhile is_digit s;
            (fp, r') = (case r of c # t \<Rightarrow> if c = CHR ''.'' then (takeWhile is_digit t, dropWhile is_digit t)
                                         else ([], r)
                              | [] \<Rightarrow> ([], r))
        in if ip = [] \<and> fp = [] then NaN
           else case scan_exponent r' of
                  Some (e, []) \<Rightarrow> Fin ((of_nat (nat_of_digits ip) + frac_val fp) * e)
                | _ \<Rightarrow> NaN)"

fun neg_num :: "jnum \<Rightarrow> jnum" where
  "neg_num (Fin q) = Fin (- q)"
| "neg_num PInf = NInf"
| "neg_num NInf = PInf"
| "neg_num NaN = NaN"

definition js_number :: "string \<Rightarrow> jnum" where
  "js_number text =
     (let s = js_trim text in
      case s of
        [] \<Rightarrow> Fin 0
      | c # r \<Rightarrow> if c = CHR ''-'' then neg_num (unsigned_number r)
                else if c = CHR ''+'' then unsigned_number r
                else unsigned_number s)"

lemma takeWhile_all: "\<forall>c \<in> set s. P c \<Longrightarrow> takeWhile P s = s \<and> dropWhile P s = []"
  by (induction s) auto

lemma all_digits_nat_text: "\<forall>c \<in> set (nat_text n). is_digit c"
  using nat_text_digits by blast

lemma scan_nat_text [simp]:
  "takeWhile is_digit (nat_text n) = nat_text n" "dropWhile is_digit (nat_text n) = []"
  using takeWhile_all [OF all_digits_nat_text [of n]] by blast+

lemma unsigned_number_nat_text [simp]: "unsigned_number (nat_text n) = Fin (of_nat n)"
proof -
  have "nat_text n \<noteq> ''Infinity''"
    using all_digits_nat_text [of n] by (auto simp: char_simps)
  then show ?thesis by (simp add: unsigned_number_def scan_exponent_def)
qed

lemma js_number_nat_text [simp]: "js_number (nat_text n) = Fin (of_nat n)"
proof -
  have ws: "js_trim (nat_text n) = nat_text n"
    using nat_text_digits digit_not_space by (blast intro: js_trim_id)
  obtain c r where cr: "nat_text n = c # r" by (cases "nat_text n") auto
  then have "is_digit c" using nat_text_digits [of c n] by simp
  then have "c \<noteq> CHR ''-''" "c \<noteq> CHR ''+''" by (auto simp: char_simps)
  then show ?thesis using ws cr unsigned_number_nat_text [of n] by (simp add: js_number_def)
qed

subsection \<open>Text of a value\<close>

fun js_string :: "val \<Rightarrow> string" where
  "js_string VUndef = ''undefined''"
| "js_string VNull = ''null''"
| "js_string (VBool b) = (if b then ''true'' else ''false'')"
| "js_string (VNum n) = num_text n"
| "js_string (VStr s) = s"
| "js_string (VArr vs) = join '','' (map (\<lambda>v. if nullish v then [] else js_string v) vs)"
| "js_string (VObj _) = ''[object Object]''"

end
