(* ===== verification/Json.thy ===== *)
theory Json
  imports JsValue
begin

section \<open>JSON text\<close>

text \<open>
  The tracker keeps its session, its offline queue and the payloads it sends as JSON text, and the
  console keeps its preferences that way. This theory models \<open>JSON.stringify\<close> and
  \<open>JSON.parse\<close> on the text itself. The main fact is the round trip
  \<open>json_parse (json_text v) = Some (json_clean v)\<close>: what is read back is the written value
  without its undefined properties and with its non-finite numbers turned into \<open>null\<close>. The
  clients see it through the locale \<open>text_codec\<close>.
\<close>

subsection \<open>Writing\<close>

text \<open>What survives a trip through JSON.\<close>

fun json_clean :: "val \<Rightarrow> val"
  and clean_list :: "val list \<Rightarrow> val list"
  and clean_members :: "props \<Rightarrow> props" where
  "json_clean VUndef = VNull"
| "json_clean VNull = VNull"
| "json_clean (VBool b) = VBool b"
| "json_clean (VNum n) = (case n of Fin q \<Rightarrow> VNum (Fin q) | _ \<Rightarrow> VNull)"
| "json_clean (VStr s) = VStr s"
| "json_clean (VArr vs) = VArr (clean_list vs)"
| "json_clean (VObj ps) = VObj (clean_members ps)"
| "clean_list [] = []"
| "clean_list (v # vs) = json_clean v # clean_list vs"
| "clean_members [] = []"
| "clean_members ((k, v) # ps) =
     (if v = VUndef then clean_members ps else (k, json_clean v) # clean_members ps)"

lemma clean_list_map: "clean_list vs = map json_clean vs"
  by (induction vs) auto

definition hex_digit :: "nat \<Rightarrow> char" where
  "hex_digit d = (if d < 10 then digit_char d else char_of (87 + d))"

definition escape_char :: "char \<Rightarrow> string" where
  "escape_char c =
     (if c = CHR 0x22 then [CHR 0x5C, CHR 0x22]
      else if c = CHR 0x5C then [CHR 0x5C, CHR 0x5C]
      else if code_of c = 8 then [CHR 0x5C, CHR ''b'']
      else if code_of c = 9 then [CHR 0x5C, CHR ''t'']
      else if code_of c = 10 then [CHR 0x5C, CHR ''n'']
      else if code_of c = 12 then [CHR 0x5C, CHR ''f'']
      else if code_of c = 13 then [CHR 0x5C, CHR ''r'']
      else if code_of c < 32
        then [CHR 0x5C, CHR ''u'', CHR ''0'', CHR ''0'',
              hex_digit (code_of c div 16), hex_digit (code_of c mod 16)]
      else [c])"

fun escape_text :: "string \<Rightarrow> string" where
  "escape_text [] = []"
| "escape_text (c # cs) = escape_char c @ escape_text cs"

definition quote :: "string \<Rightarrow> string" where
  "quote s = CHR 0x22 # escape_text s @ [CHR 0x22]"

fun json_print :: "val \<Rightarrow> string"
  and print_elems :: "val list \<Rightarrow> string"
  and print_members :: "props \<Rightarrow> string" where
  "json_print VUndef = ''null''"
| "json_print VNull = ''null''"
| "json_print (VBool b) = (if b then ''true'' else ''false'')"
| "json_print (VNum n) = num_text n"
| "json_print (VStr s) = quote s"
| "json_print (VArr vs) = CHR ''['' # print_elems vs @ '']''"
| "json_print (VObj ps) = CHR ''{'' # print_members ps @ ''}''"
| "print_elems [] = []"
| "print_elems [v] = json_print v"
| "print_elems (v # w # vs) = json_print v @ CHR '','' # print_elems (w # vs)"
| "print_members [] = []"
| "print_members [(k, v)] = quote k @ CHR '':'' # json_print v"
| "print_members ((k, v) # q # ps) =
     quote k @ CHR '':'' # json_print v @ CHR '','' # print_members (q # ps)"

definition json_text :: "val \<Rightarrow> string" where
  "json_text v = json_print (json_clean v)"

subsection \<open>Reading\<close>

definition json_ws :: "char \<Rightarrow> bool" where
  "json_ws c \<longleftrightarrow> code_of c = 32 \<or> code_of c = 9 \<or> code_of c = 10 \<or> code_of c = 13"

abbreviation skip_ws :: "string \<Rightarrow> string" where
  "skip_ws s \<equiv> dropWhile json_ws s"

definition hex_val :: "char \<Rightarrow> nat option" where
  "hex_val c =
     (if is_digit c then Some (digit_val c)
      else if in_range 97 102 c then Some (code_of c - 87)
      else if in_range 65 70 c then Some (code_of c - 55)
      else None)"

text \<open>A code unit outside the model's 8-bit range is read as a question mark.\<close>

definition unit_char :: "nat \<Rightarrow> char" where
  "unit_char n = (if n < 256 then char_of n else CHR ''?'')"

definition hex4 :: "char \<Rightarrow> char \<Rightarrow> char \<Rightarrow> char \<Rightarrow> char option" where
  "hex4 a b c d =
     (case (hex_val a, hex_val b, hex_val c, hex_val d) of
        (Some w, Some x, Some y, Some z) \<Rightarrow> Some (unit_char (((w * 16 + x) * 16 + y) * 16 + z))
      | _ \<Rightarrow> None)"

definition unescape :: "char \<Rightarrow> char option" where
  "unescape c =
     (if c = CHR 0x22 \<or> c = CHR 0x5C \<or> c = CHR ''/'' then Some c
      else if c = CHR ''b'' then Some (char_of (8 :: nat))
      else if c = CHR ''t'' then Some (char_of (9 :: nat))
      else if c = CHR ''n'' then Some (char_of (10 :: nat))
      else if c = CHR ''f'' then Some (char_of (12 :: nat))
      else if c = CHR ''r'' then Some (char_of (13 :: nat))
      else None)"

abbreviation with_char :: "char \<Rightarrow> (string \<times> string) option \<Rightarrow> (string \<times> string) option" where
  "with_char c r \<equiv> map_option (\<lambda>(t, rest). (c # t, rest)) r"

text \<open>The body of a string literal, after its opening quote: the text and the rest.\<close>

fun scan_string :: "string \<Rightarrow> (string \<times> string) option" where
  "scan_string [] = None"
| "scan_string (c # cs) =
     (if c = CHR 0x22 then Some ([], cs)
      else if c = CHR 0x5C then
        (case cs of
           [] \<Rightarrow> None
         | d # ds \<Rightarrow>
             if d = CHR ''u'' then
               (case ds of
                  h1 # h2 # h3 # h4 # r \<Rightarrow>
                    (case hex4 h1 h2 h3 h4 of
                       None \<Rightarrow> None
                     | Some e \<Rightarrow> with_char e (scan_string r))
                | _ \<Rightarrow> None)
             else (case unescape d of
                     None \<Rightarrow> None
                   | Some e \<Rightarrow> with_char e (scan_string ds)))
      else if code_of c < 32 then None
      else with_char c (scan_string cs))"

text \<open>A number literal: no leading zero, digits after the point and in the exponent.\<close>

definition scan_fraction :: "string \<Rightarrow> (rat \<times> string) option" where
  "scan_fraction r =
     (case r of
        c # t \<Rightarrow> if c = CHR ''.''
                  then (if takeWhile is_digit t = [] then None
                        else Some (frac_val (takeWhile is_digit t), dropWhile is_digit t))
                  else Some (0, r)
      | [] \<Rightarrow> Some (0, r))"

definition scan_unsigned :: "string \<Rightarrow> (rat \<times> string) option" where
  "scan_unsigned s =
     (let ip = takeWhile is_digit s in
      if ip = [] \<or> (hd ip = CHR ''0'' \<and> length ip > 1) then None
      else case scan_fraction (dropWhile is_digit s) of
        None \<Rightarrow> None
      | Some (f, r) \<Rightarrow>
          map_option (\<lambda>(e, rest). ((of_nat (nat_of_digits ip) + f) * e, rest)) (scan_exponent r))"

definition scan_number :: "string \<Rightarrow> (val \<times> string) option" where
  "scan_number s =
     (case s of
        c # r \<Rightarrow> if c = CHR ''-'' then map_option (\<lambda>(q, rest). (vrat (- q), rest)) (scan_unsigned r)
                  else map_option (\<lambda>(q, rest). (vrat q, rest)) (scan_unsigned s)
      | [] \<Rightarrow> None)"

text \<open>
  The recursive-descent parser. The first argument is fuel; \<open>json_parse\<close> gives twice the
  length of the text, and every call consumes a character at least on every second level, so it
  never runs out on a text that is JSON (theorem \<open>json_roundtrip\<close> for the texts the
  program writes).
\<close>

fun parse_val :: "nat \<Rightarrow> string \<Rightarrow> (val \<times> string) option"
  and parse_elems :: "nat \<Rightarrow> string \<Rightarrow> (val list \<times> string) option"
  and parse_members :: "nat \<Rightarrow> string \<Rightarrow> (props \<times> string) option" where
  "parse_val 0 s = None"
| "parse_val (Suc n) s =
     (case skip_ws s of
        [] \<Rightarrow> None
      | c # r \<Rightarrow>
          if c = CHR 0x22 then map_option (\<lambda>(t, rest). (VStr t, rest)) (scan_string r)
          else if c = CHR ''['' then
            (case skip_ws r of
               [] \<Rightarrow> None
             | d # r' \<Rightarrow> if d = CHR '']'' then Some (VArr [], r')
                       else map_option (\<lambda>(vs, rest). (VArr vs, rest)) (parse_elems n r))
          else if c = CHR ''{'' then
            (case skip_ws r of
               [] \<Rightarrow> None
             | d # r' \<Rightarrow> if d = CHR ''}'' then Some (VObj [], r')
                       else map_option (\<lambda>(ps, rest). (VObj (spread [] ps), rest)) (parse_members n r))
          else if prefix ''null'' (c # r) then Some (VNull, drop 4 (c # r))
          else if prefix ''true'' (c # r) then Some (VBool True, drop 4 (c # r))
          else if prefix ''false'' (c # r) then Some (VBool False, drop 5 (c # r))
          else scan_number (c # r))"
| "parse_elems 0 s = None"
| "parse_elems (Suc n) s =
     (case parse_val n s of
        None \<Rightarrow> None
      | Some (v, r) \<Rightarrow>
          (case skip_ws r of
             [] \<Rightarrow> None
           | d # r' \<Rightarrow>
               if d = CHR '','' then map_option (\<lambda>(vs, rest). (v # vs, rest)) (parse_elems n r')
               else if d = CHR '']'' then Some ([v], r')
               else None))"
| "parse_members 0 s = None"
| "parse_members (Suc n) s =
     (case skip_ws s of
        [] \<Rightarrow> None
      | c # r \<Rightarrow>
          if c \<noteq> CHR 0x22 then None
          else
            (case scan_string r of
               None \<Rightarrow> None
             | Some (k, r1) \<Rightarrow>
                 (case skip_ws r1 of
                    [] \<Rightarrow> None
                  | d # r2 \<Rightarrow>
                      if d \<noteq> CHR '':'' then None
                      else
                        (case parse_val n r2 of
                           None \<Rightarrow> None
                         | Some (v, r3) \<Rightarrow>
                             (case skip_ws r3 of
                                [] \<Rightarrow> None
                              | e # r4 \<Rightarrow>
                                  if e = CHR '','' then
                                    map_option (\<lambda>(ps, rest). ((k, v) # ps, rest)) (parse_members n r4)
                                  else if e = CHR ''}'' then Some ([(k, v)], r4)
                                  else None)))))"

text \<open>\<open>None\<close> is the \<open>SyntaxError\<close> that \<open>JSON.parse\<close> throws.\<close>

definition json_parse :: "string \<Rightarrow> val option" where
  "json_parse s =
     (case parse_val (2 * length s + 2) s of
        Some (v, r) \<Rightarrow> if skip_ws r = [] then Some v else None
      | None \<Rightarrow> None)"

subsection \<open>Round trip: strings\<close>

lemma hex4_control:
  assumes "n < 32"
  shows "hex4 (CHR ''0'') (CHR ''0'') (hex_digit (n div 16)) (hex_digit (n mod 16)) = Some (char_of n)"
proof -
  have h: "hex_val (hex_digit d) = Some d" if "d < 16" for d
    using that by (auto simp: hex_val_def hex_digit_def char_simps digit_char_def digit_val_def)
  have "hex_val (CHR ''0'') = Some 0" by (simp add: hex_val_def char_simps digit_val_def)
  moreover have "hex_val (hex_digit (n div 16)) = Some (n div 16)" using assms by (intro h) simp
  moreover have "hex_val (hex_digit (n mod 16)) = Some (n mod 16)" by (intro h) simp
  ultimately show ?thesis using assms
    by (simp add: hex4_def unit_char_def div_mult_mod_eq del: mult_div_mod_eq)
qed

lemma scan_escape_char: "scan_string (escape_char c @ t) = with_char c (scan_string t)"
proof -
  have eq: "char_of n = c" if "code_of c = n" for n
    using that by (metis char_of_char)
  show ?thesis
    using hex4_control [of "code_of c"]
    by (auto simp: escape_char_def unescape_def eq)
qed

lemma scan_escape_text: "scan_string (escape_text s @ CHR 0x22 # r) = Some (s, r)"
  by (induction s) (auto simp: scan_escape_char)

subsection \<open>Round trip: numbers\<close>

definition stops :: "string \<Rightarrow> bool" where
  "stops r \<longleftrightarrow> r = [] \<or> (\<not> is_digit (hd r) \<and> hd r \<noteq> CHR ''.'' \<and> hd r \<noteq> CHR ''e'' \<and> hd r \<noteq> CHR ''E'')"

lemma stops_Nil [simp]: "stops []"
  by (simp add: stops_def)

lemma stops_punct [simp]: "stops (CHR '','' # r)" "stops (CHR '']'' # r)" "stops (CHR ''}'' # r)"
  by (simp_all add: stops_def char_simps)

lemma scan_append:
  "\<forall>c \<in> set s. P c \<Longrightarrow> r = [] \<or> \<not> P (hd r) \<Longrightarrow> takeWhile P (s @ r) = s \<and> dropWhile P (s @ r) = r"
  by (induction s) (cases r; auto)+

lemma scan_exponent_stops: "stops r \<Longrightarrow> scan_exponent r = Some (1, r)"
  by (cases r) (auto simp: scan_exponent_def stops_def)

lemma nat_text_no_leading_zero: "\<not> (hd (nat_text n) = CHR ''0'' \<and> length (nat_text n) > 1)"
proof
  assume a: "hd (nat_text n) = CHR ''0'' \<and> length (nat_text n) > 1"
  then have "n = 0" using nat_text_leading by blast
  moreover have "length (nat_text 0) = 1" by (subst nat_text.simps) simp
  ultimately show False using a by simp
qed

lemma scan_unsigned_text:
  assumes r: "stops r" and q: "0 \<le> q" "short_decimal q"
  shows "scan_unsigned
    (nat_text (nat \<lfloor>q\<rfloor>) @ (if frac q = 0 then [] else CHR ''.'' # frac_text frac_limit (frac q)) @ r)
    = Some (q, r)"
proof -
  let ?n = "nat \<lfloor>q\<rfloor>" and ?f = "frac_text frac_limit (frac q)"
  have f01: "0 \<le> frac q" "frac q < 1" by (simp_all add: frac_lt_1)
  have qsplit: "q = of_nat ?n + frac q" using q(1) by (simp add: frac_def)
  have fv: "frac_val ?f = frac q"
    using frac_val_frac_text [OF f01] frac_short [OF q(2)] q(1) by simp
  have nod: "r = [] \<or> \<not> is_digit (hd r)" using r by (auto simp: stops_def)
  have fd: "takeWhile is_digit (?f @ r) = ?f" "dropWhile is_digit (?f @ r) = r"
    using scan_append [of ?f is_digit r] frac_text_digits [OF f01] nod by blast+
  show ?thesis
  proof (cases "frac q = 0")
    case True
    have ip: "takeWhile is_digit (nat_text ?n @ r) = nat_text ?n"
      "dropWhile is_digit (nat_text ?n @ r) = r"
      using scan_append [of "nat_text ?n" is_digit r] nat_text_digits nod by blast+
    have fr: "scan_fraction r = Some (0, r)"
      using r by (auto simp: stops_def scan_fraction_def split: list.splits)
    have "scan_unsigned (nat_text ?n @ r) = Some (q, r)"
      using qsplit True nat_text_no_leading_zero [of ?n]
      by (simp add: scan_unsigned_def Let_def ip fr scan_exponent_stops [OF r] del: frac_eq_0_iff)
    with True show ?thesis by simp
  next
    case False
    have fne: "?f \<noteq> []"
    proof
      assume "?f = []"
      then have "frac q = 0" using fv by simp
      with False show False by simp
    qed
    have ip: "takeWhile is_digit (nat_text ?n @ CHR ''.'' # ?f @ r) = nat_text ?n"
      "dropWhile is_digit (nat_text ?n @ CHR ''.'' # ?f @ r) = CHR ''.'' # ?f @ r"
      using scan_append [of "nat_text ?n" is_digit "CHR ''.'' # ?f @ r"] nat_text_digits
      by (auto simp: char_simps)
    have fr: "scan_fraction (CHR ''.'' # ?f @ r) = Some (frac q, r)"
      using fne by (simp add: scan_fraction_def fd fv)
    have "scan_unsigned (nat_text ?n @ CHR ''.'' # ?f @ r) = Some (q, r)"
      using qsplit nat_text_no_leading_zero [of ?n]
      by (simp add: scan_unsigned_def Let_def ip fr scan_exponent_stops [OF r])
    with False show ?thesis by simp
  qed
qed

lemma scan_number_text:
  assumes "stops r" "short_decimal q"
  shows "scan_number (rat_text q @ r) = Some (vrat q, r)"
proof -
  let ?t = "nat_text (nat \<lfloor>\<bar>q\<bar>\<rfloor>)
    @ (if frac \<bar>q\<bar> = 0 then [] else CHR ''.'' # frac_text frac_limit (frac \<bar>q\<bar>))"
  have sd: "short_decimal \<bar>q\<bar>"
  proof (cases "q < 0")
    case True
    obtain k where "q * 10 ^ frac_limit = of_int k"
      using assms(2) unfolding short_decimal_def by metis
    with True have "\<bar>q\<bar> * 10 ^ frac_limit = of_int (- k)" by simp
    then show ?thesis unfolding short_decimal_def by (metis floor_of_int)
  qed (use assms(2) in simp)
  have u: "scan_unsigned (?t @ r) = Some (\<bar>q\<bar>, r)"
    using scan_unsigned_text [OF assms(1) _ sd] by simp
  obtain c cs where c: "nat_text (nat \<lfloor>\<bar>q\<bar>\<rfloor>) = c # cs" by (cases "nat_text (nat \<lfloor>\<bar>q\<bar>\<rfloor>)") auto
  then have "is_digit c" using nat_text_digits [of c "nat \<lfloor>\<bar>q\<bar>\<rfloor>"] by simp
  then have "c \<noteq> CHR ''-''" by (auto simp: char_simps)
  then show ?thesis using u c by (cases "q < 0") (simp_all add: rat_text_def scan_number_def)
qed

subsection \<open>Round trip: values\<close>

text \<open>
  The values the round trip covers: numbers with an exact decimal text, objects whose keys are
  distinct (which every JavaScript object has). \<open>json_value\<close> says the same of a value that
  is already clean.
\<close>

fun json_ok :: "val \<Rightarrow> bool"
  and list_ok :: "val list \<Rightarrow> bool"
  and members_ok :: "props \<Rightarrow> bool" where
  "json_ok (VNum n) = (case n of Fin q \<Rightarrow> short_decimal q | _ \<Rightarrow> True)"
| "json_ok (VArr vs) = list_ok vs"
| "json_ok (VObj ps) = (wf_obj ps \<and> members_ok ps)"
| "json_ok _ = True"
| "list_ok [] = True"
| "list_ok (v # vs) = (json_ok v \<and> list_ok vs)"
| "members_ok [] = True"
| "members_ok ((k, v) # ps) = (json_ok v \<and> members_ok ps)"

fun json_value :: "val \<Rightarrow> bool"
  and list_value :: "val list \<Rightarrow> bool"
  and members_value :: "props \<Rightarrow> bool" where
  "json_value VUndef = False"
| "json_value (VNum n) = (case n of Fin q \<Rightarrow> short_decimal q | _ \<Rightarrow> False)"
| "json_value (VArr vs) = list_value vs"
| "json_value (VObj ps) = (wf_obj ps \<and> members_value ps)"
| "json_value _ = True"
| "list_value [] = True"
| "list_value (v # vs) = (json_value v \<and> list_value vs)"
| "members_value [] = True"
| "members_value ((k, v) # ps) = (json_value v \<and> members_value ps)"

lemma set_keys_clean: "set (keys (clean_members ps)) \<subseteq> set (keys ps)"
proof (induction ps)
  case (Cons p ps)
  then show ?case by (cases p) auto
qed simp

lemma wf_clean: "wf_obj ps \<Longrightarrow> wf_obj (clean_members ps)"
proof (induction ps)
  case (Cons p ps)
  obtain k v where p: "p = (k, v)" by fastforce
  with Cons have "wf_obj (clean_members ps)" "k \<notin> set (keys (clean_members ps))"
    using set_keys_clean [of ps] by (auto simp: wf_obj_def)
  then show ?case by (simp add: p wf_obj_def)
qed simp

lemma clean_json_value:
  "json_ok v \<Longrightarrow> json_value (json_clean v)"
  "list_ok vs \<Longrightarrow> list_value (clean_list vs)"
  "members_ok ps \<Longrightarrow> members_value (clean_members ps)"
  by (induction v and vs and ps rule: json_clean_clean_list_clean_members.induct)
    (auto split: jnum.splits simp: wf_clean)

lemma json_value_ok:
  "json_value v \<Longrightarrow> json_ok v" "list_value vs \<Longrightarrow> list_ok vs" "members_value ps \<Longrightarrow> members_ok ps"
  by (induction v and vs and ps rule: json_ok_list_ok_members_ok.induct)
    (auto split: jnum.splits)

lemma clean_of_json_value:
  "json_value v \<Longrightarrow> json_clean v = v"
  "list_value vs \<Longrightarrow> clean_list vs = vs"
  "members_value ps \<Longrightarrow> clean_members ps = ps"
  by (induction v and vs and ps rule: json_clean_clean_list_clean_members.induct)
    (auto split: jnum.splits)

lemma json_clean_idem: "json_ok v \<Longrightarrow> json_clean (json_clean v) = json_clean v"
  by (simp add: clean_json_value(1) clean_of_json_value(1))

lemma spread_fresh: "distinct (keys (ps @ qs)) \<Longrightarrow> spread ps qs = ps @ qs"
proof (induction qs arbitrary: ps)
  case (Cons q qs)
  obtain k v where q: "q = (k, v)" by fastforce
  have snoc: "k \<notin> set (keys ps) \<Longrightarrow> setp k v ps = ps @ [(k, v)]"
    by (induction k v ps rule: setp.induct) auto
  have "spread ps (q # qs) = spread (ps @ [(k, v)]) qs"
    using Cons.prems snoc by (simp add: q)
  also have "\<dots> = (ps @ [(k, v)]) @ qs" using Cons.prems by (intro Cons.IH) (simp add: q)
  finally show ?case by (simp add: q)
qed simp

lemma spread_Nil_wf: "wf_obj ps \<Longrightarrow> spread [] ps = ps"
  using spread_fresh [of "[]" ps] by (simp add: wf_obj_def)

text \<open>How a printed value starts decides which branch of the parser reads it.\<close>

lemma rat_text_first:
  "\<exists>c cs. rat_text q = c # cs \<and> (is_digit c \<or> c = CHR ''-'')"
proof -
  obtain c cs where c: "nat_text (nat \<lfloor>\<bar>q\<bar>\<rfloor>) = c # cs" by (cases "nat_text (nat \<lfloor>\<bar>q\<bar>\<rfloor>)") auto
  then have "is_digit c" using nat_text_digits [of c "nat \<lfloor>\<bar>q\<bar>\<rfloor>"] by simp
  with c show ?thesis by (auto simp: rat_text_def)
qed

lemma digit_or_minus:
  assumes "is_digit c \<or> c = CHR ''-''"
  shows "\<not> json_ws c" "c \<noteq> CHR 0x22" "c \<noteq> CHR ''[''" "c \<noteq> CHR '']''" "c \<noteq> CHR ''{''"
    "c \<noteq> CHR ''n''" "c \<noteq> CHR ''t''" "c \<noteq> CHR ''f''"
  using assms by (auto simp: char_simps json_ws_def)

lemma json_print_first:
  "json_value v \<Longrightarrow> \<exists>c cs. json_print v = c # cs \<and> \<not> json_ws c \<and> c \<noteq> CHR '']''"
proof (cases v)
  case (VNum n)
  assume "json_value v"
  with VNum obtain q where q: "n = Fin q" by (cases n) auto
  obtain c cs where c: "rat_text q = c # cs" "is_digit c \<or> c = CHR ''-''"
    using rat_text_first by blast
  show ?thesis using c(1) digit_or_minus(1,4) [OF c(2)] by (simp add: VNum q)
qed (auto simp: json_ws_def quote_def)

lemma parse_val_number:
  assumes "stops r" "short_decimal q"
  shows "parse_val (Suc n) (rat_text q @ r) = Some (vrat q, r)"
proof -
  obtain c cs where c: "rat_text q = c # cs" "is_digit c \<or> c = CHR ''-''"
    using rat_text_first by blast
  have "scan_number (c # cs @ r) = Some (vrat q, r)"
    using scan_number_text [OF assms] c(1) by simp
  then show ?thesis using digit_or_minus [OF c(2)] by (simp add: c(1))
qed

lemma fuel_Suc: "0 < n \<Longrightarrow> \<exists>m. n = Suc m"
  by (cases n) auto

lemma json_print_length: "json_value v \<Longrightarrow> 0 < length (json_print v)"
  using json_print_first by fastforce

lemma parse_member:
  "parse_members (Suc m) (quote k @ CHR '':'' # t) =
     (case parse_val m t of
        None \<Rightarrow> None
      | Some (v, r3) \<Rightarrow>
          (case skip_ws r3 of
             [] \<Rightarrow> None
           | e # r4 \<Rightarrow>
               if e = CHR '','' then
                 map_option (\<lambda>(ps, rest). ((k, v) # ps, rest)) (parse_members m r4)
               else if e = CHR ''}'' then Some ([(k, v)], r4)
               else None))"
  by (simp add: quote_def scan_escape_text json_ws_def)

lemma parse_print:
  "json_value v \<Longrightarrow> stops r \<Longrightarrow> 2 * length (json_print v) \<le> n
    \<Longrightarrow> parse_val n (json_print v @ r) = Some (v, r)"
  "list_value vs \<Longrightarrow> vs \<noteq> [] \<Longrightarrow> 2 * length (print_elems vs) + 1 \<le> n
    \<Longrightarrow> parse_elems n (print_elems vs @ CHR '']'' # r) = Some (vs, r)"
  "members_value ps \<Longrightarrow> ps \<noteq> [] \<Longrightarrow> 2 * length (print_members ps) + 1 \<le> n
    \<Longrightarrow> parse_members n (print_members ps @ CHR ''}'' # r) = Some (ps, r)"
proof (induction v and vs and ps arbitrary: n r and n r and n r
    rule: json_print_print_elems_print_members.induct)
  case (3 b)
  then obtain m where "n = Suc m" using fuel_Suc [of n] by (auto split: if_splits)
  then show ?case by (simp add: json_ws_def)
next
  case (4 k)
  then obtain q where q: "k = Fin q" "short_decimal q" by (cases k) auto
  obtain m where "n = Suc m" using json_print_length [OF "4.prems"(1)] "4.prems"(3) by (cases n) auto
  then show ?case using parse_val_number [OF "4.prems"(2) q(2)] by (simp add: q(1))
next
  case (5 s)
  then obtain m where "n = Suc m" using fuel_Suc [of n] by (auto simp: quote_def)
  then show ?case using scan_escape_text [of s r] by (simp add: json_ws_def quote_def)
next
  case (6 vs)
  then obtain m where m: "n = Suc m" "2 * length (print_elems vs) + 1 \<le> m"
    using fuel_Suc [of n] by auto
  show ?case
  proof (cases vs)
    case Nil
    then show ?thesis using m by (simp add: json_ws_def)
  next
    case (Cons v ws)
    then obtain c cs where c: "json_print v = c # cs" "\<not> json_ws c" "c \<noteq> CHR '']''"
      using json_print_first [of v] "6.prems" by auto
    then obtain cs' where c': "print_elems vs = c # cs'" using Cons by (cases ws) auto
    have "parse_elems m (print_elems vs @ CHR '']'' # r) = Some (vs, r)"
      using "6.IH" [of m r] "6.prems" Cons m by simp
    with c c' show ?thesis using m by (simp add: json_ws_def)
  qed
next
  case (7 ps)
  then obtain m where m: "n = Suc m" "2 * length (print_members ps) + 1 \<le> m"
    using fuel_Suc [of n] by auto
  show ?case
  proof (cases ps)
    case Nil
    then show ?thesis using m by (simp add: json_ws_def)
  next
    case (Cons p qs)
    then obtain cs where c: "print_members ps = CHR 0x22 # cs"
      by (cases p; cases qs) (auto simp: quote_def)
    have "parse_members m (print_members ps @ CHR ''}'' # r) = Some (ps, r)"
      using "7.IH" [of m r] "7.prems" Cons m by simp
    with c "7.prems" show ?thesis using m by (simp add: json_ws_def spread_Nil_wf)
  qed
next
  case (9 v)
  then obtain m where m: "n = Suc m" "2 * length (json_print v) \<le> m" using fuel_Suc [of n] by auto
  with 9 show ?case by (simp add: json_ws_def)
next
  case (10 v w vs)
  then obtain m where m: "n = Suc m" "2 * length (json_print v) \<le> m"
    "2 * length (print_elems (w # vs)) + 1 \<le> m" using fuel_Suc [of n] by auto
  with 10 show ?case by (simp add: json_ws_def)
next
  case (12 k v)
  then obtain m where m: "n = Suc m" "2 * length (json_print v) \<le> m" using fuel_Suc [of n] by auto
  with 12 show ?case by (simp add: parse_member json_ws_def del: parse_members.simps)
next
  case (13 k v q ps)
  then obtain m where m: "n = Suc m" "2 * length (json_print v) \<le> m"
    "2 * length (print_members (q # ps)) + 1 \<le> m" using fuel_Suc [of n] by auto
  with 13 show ?case by (simp add: parse_member json_ws_def del: parse_members.simps)
next
  case 2
  then obtain m where "n = Suc m" using fuel_Suc [of n] by auto
  then show ?case by (simp add: json_ws_def)
qed simp_all

lemma parse_json_text:
  assumes "json_ok v"
  shows "json_parse (json_text v) = Some (json_clean v)"
proof -
  have "json_value (json_clean v)" using assms by (rule clean_json_value(1))
  then have "parse_val (2 * length (json_text v) + 2) (json_text v @ []) = Some (json_clean v, [])"
    unfolding json_text_def by (intro parse_print(1)) auto
  then show ?thesis by (simp add: json_parse_def)
qed

subsection \<open>The interface the clients use\<close>

text \<open>
  A codec writes values as text and reads them back up to a normal form. Writing what was read
  changes nothing: the text of a value and of its normal form read the same.
\<close>

locale text_codec =
  fixes encode :: "'v \<Rightarrow> string"
    and decode :: "string \<Rightarrow> 'v option"
    and normal :: "'v \<Rightarrow> 'v"
    and valid :: "'v \<Rightarrow> bool"
  assumes decode_encode: "valid v \<Longrightarrow> decode (encode v) = Some (normal v)"
    and normal_valid: "valid v \<Longrightarrow> valid (normal v)"
    and normal_normal: "valid v \<Longrightarrow> normal (normal v) = normal v"
begin

lemma encode_inj_normal:
  assumes "valid v" "valid w" "encode v = encode w"
  shows "normal v = normal w"
  using assms decode_encode [of v] decode_encode [of w] by simp

lemma decode_stable:
  assumes "valid v" "decode (encode v) = Some w"
  shows "decode (encode w) = Some w"
  using assms decode_encode [of v] decode_encode [of w] normal_valid normal_normal by auto

end

interpretation json: text_codec json_text json_parse json_clean json_ok
  by unfold_locales
    (auto simp: parse_json_text json_clean_idem intro: json_value_ok(1) clean_json_value(1))

text \<open>
  what \<open>JSON.stringify\<close> writes is read back by \<open>JSON.parse\<close> up to what JSON cannot
  carry (members that are undefined, non-finite numbers), and writing and reading again changes
  nothing.
\<close>

theorem json_roundtrip:
  assumes "json_ok v"
  shows "json_parse (json_text v) = Some (json_clean v)
    \<and> json_parse (json_text (json_clean v)) = Some (json_clean v)"
  using json.decode_encode [OF assms] json.decode_stable [OF assms] by blast

lemma json_roundtrip_witness:
  "json_parse (json_text (VObj [(''a'', VArr [vint 1, VUndef]), (''b'', VUndef)]))
   = Some (VObj [(''a'', VArr [vint 1, VNull])])"
proof -
  have "json_ok (VObj [(''a'', VArr [vint 1, VUndef]), (''b'', VUndef)])"
    using short_decimal_int [of 1] by (simp add: wf_obj_def)
  from json_roundtrip [OF this] show ?thesis by simp
qed

end
