(* ===== verification/Browser.thy ===== *)
theory Browser
  imports Json
begin

section \<open>What the tracker sees of the browser\<close>

text \<open>
  The record \<open>browser\<close> holds everything outside the tracker that its code reads or changes:
  the two clocks, the source of random ids, \<open>localStorage\<close>, the page's address and document,
  connectivity, the pending timers and the requests handed to the network. URL parsing is the
  browser's, so it is a field: \<open>urlParse raw\<close> is the origin and path of
  \<open>new URL(raw, location.href)\<close>, or \<open>None\<close> where the constructor throws. Small
  writes to \<open>localStorage\<close> are taken to succeed whenever the storage is available;
  \<open>quotaOk\<close> decides the writes whose failure the code handles (the offline queue and the
  counter of dropped events).
\<close>

subsection \<open>DOM data\<close>

record anchor =
  an_href :: string
  an_origin :: string
  an_pathname :: string
  an_download :: string

text \<open>The attributes of an element that the tracker reads.\<close>

record elem =
  el_tag :: string
  el_id :: string
  el_class :: "string option"
  el_index :: "nat option"
  el_button :: string
  el_aria :: string
  el_feature :: string
  el_text :: string
  el_type :: string
  el_interactive :: bool
  el_pointer :: bool
  el_ignored :: bool
  el_anchor :: "anchor option"
  el_inResults :: bool
  el_position :: "string option"
  el_linkIndex :: "nat option"

text \<open>A form: its identity as a node, and the three attributes its key is made of.\<close>

record form =
  fm_node :: nat
  fm_id :: string
  fm_name :: "string option"
  fm_action :: "string option"

text \<open>What a dead-click check remembers of the page.\<close>

record page_probe =
  pr_url :: string
  pr_scroll :: rat
  pr_focus :: "string option"

text \<open>The closures the tracker hands to \<open>setTimeout\<close>.\<close>

datatype callback =
    FlushTimer
  | PageViewTimer
  | RageTimer elem
  | DeadTimer elem page_probe
  | NavigationTimer
  | SearchPoll string string nat

text \<open>The navigation entry of the performance timeline.\<close>

record nav_entry =
  nv_responseStart :: rat
  nv_type :: string
  nv_domContentLoaded :: rat
  nv_loadEventEnd :: rat
  nv_duration :: rat

record request =
  rq_url :: string
  rq_body :: string
  rq_beacon :: bool
  rq_events :: "val list"

record browser =
  now :: int
  mono :: rat
  uuid :: "nat \<Rightarrow> string"
  drawn :: nat
  storageOk :: bool
  quotaOk :: "string \<Rightarrow> string \<Rightarrow> bool"
  storage :: "string \<Rightarrow> string option"
  urlParse :: "string \<Rightarrow> (string \<times> string) option"
  href :: string
  locOrigin :: string
  pathname :: string
  query :: "(string \<times> string) list"
  docTitle :: string
  referrer :: string
  userAgent :: string
  language :: string
  screenW :: int
  screenH :: int
  doNotTrack :: string
  onLine :: bool
  hasBeacon :: bool
  beaconOk :: "string \<Rightarrow> bool"
  visible :: bool
  scrollTop :: rat
  focused :: "string option"
  selection :: string
  readyComplete :: bool
  navEntry :: "nav_entry option"
  hasPerfObserver :: bool
  hasMutationObserver :: bool
  resultsAttr :: "string option"
  startedForms :: "nat list"
  timers :: "(nat \<times> rat \<times> callback) list"
  nextTimer :: nat
  sent :: "request list"

subsection \<open>localStorage\<close>

definition store_item :: "string \<Rightarrow> string option \<Rightarrow> (string \<Rightarrow> string option) \<Rightarrow> (string \<Rightarrow> string option)" where
  "store_item k v m = m(k := v)"

definition erase_item :: "string \<Rightarrow> (string \<Rightarrow> string option) \<Rightarrow> (string \<Rightarrow> string option)" where
  "erase_item k m = m(k := None)"

definition read_item :: "(string \<Rightarrow> string option) \<Rightarrow> string \<Rightarrow> string option" where
  "read_item m k = m k"

interpretation local_storage: kv_store read_item None store_item erase_item
  by unfold_locales (simp_all add: read_item_def store_item_def erase_item_def)

text \<open>\<open>localStorage.getItem(key) || fallback\<close>: an empty text counts as absent.\<close>

definition item_or :: "(string \<Rightarrow> string option) \<Rightarrow> string \<Rightarrow> string \<Rightarrow> string" where
  "item_or m k dflt = (case m k of None \<Rightarrow> dflt | Some v \<Rightarrow> or_str v dflt)"

subsection \<open>Random ids\<close>

text \<open>
  Without \<open>crypto.randomUUID\<close>, \<open>id()\<close> fills a template: \<open>x\<close> takes a random
  nibble \<open>r\<close>, \<open>y\<close> takes \<open>(r & 3) | 8\<close>. The random nibbles are the argument.
\<close>

definition id_template :: string where
  "id_template = ''xxxxxxxx-xxxx-4xxx-yxxx-xxxxxxxxxxxx''"

fun fill_template :: "nat list \<Rightarrow> string \<Rightarrow> string" where
  "fill_template rs [] = []"
| "fill_template rs (c # cs) =
     (if c = CHR ''x'' \<or> c = CHR ''y'' then
        (let r = (case rs of [] \<Rightarrow> 0 | q # _ \<Rightarrow> q mod 16) in
         hex_digit (if c = CHR ''x'' then r else r mod 4 + 8) # fill_template (tl rs) cs)
      else c # fill_template rs cs)"

definition id_fallback :: "nat list \<Rightarrow> string" where
  "id_fallback rs = fill_template rs id_template"

lemma length_fill_template [simp]: "length (fill_template rs t) = length t"
  by (induction rs t rule: fill_template.induct) (auto simp: Let_def)

lemma fill_template_nth:
  "i < length t \<Longrightarrow> t ! i \<noteq> CHR ''x'' \<Longrightarrow> t ! i \<noteq> CHR ''y'' \<Longrightarrow> fill_template rs t ! i = t ! i"
  by (induction rs t arbitrary: i rule: fill_template.induct) (auto simp: Let_def nth_Cons split: nat.splits)

lemma variant_digit: "hex_digit (q mod 4 + 8) \<in> set ''89ab''"
proof -
  have h: "hex_digit 8 = CHR ''8''" "hex_digit 9 = CHR ''9''" "hex_digit 10 = CHR ''a''"
    "hex_digit 11 = CHR ''b''"
    by code_simp+
  have "q mod 4 < 4" by simp
  then have "q mod 4 + 8 = 8 \<or> q mod 4 + 8 = 9 \<or> q mod 4 + 8 = 10 \<or> q mod 4 + 8 = 11" by linarith
  with h show ?thesis by auto
qed

lemma fill_template_y:
  "i < length t \<Longrightarrow> t ! i = CHR ''y'' \<Longrightarrow> fill_template rs t ! i \<in> set ''89ab''"
proof (induction rs t arbitrary: i rule: fill_template.induct)
  case (2 rs c cs)
  show ?case
  proof (cases i)
    case 0
    with "2.prems" obtain q where "fill_template rs (c # cs) ! i = hex_digit (q mod 4 + 8)"
      by (auto simp: Let_def)
    then show ?thesis using variant_digit [of q] by (simp only:)
  next
    case (Suc k)
    with 2 show ?thesis by (cases "c = CHR ''x'' \<or> c = CHR ''y''") (auto simp: Let_def)
  qed
qed simp

text \<open>
  the fallback id has the shape of a version-4 UUID: 36 characters, dashes at the four fixed
  places, the version digit 4, and a variant digit among 8, 9, a and b.
\<close>

theorem id_fallback_shape:
  "length (id_fallback rs) = 36
   \<and> id_fallback rs ! 8 = CHR ''-'' \<and> id_fallback rs ! 13 = CHR ''-''
   \<and> id_fallback rs ! 18 = CHR ''-'' \<and> id_fallback rs ! 23 = CHR ''-''
   \<and> id_fallback rs ! 14 = CHR ''4''
   \<and> id_fallback rs ! 19 \<in> set ''89ab''"
proof -
  have n: "id_template ! 8 = CHR ''-''" "id_template ! 13 = CHR ''-''" "id_template ! 18 = CHR ''-''"
    "id_template ! 23 = CHR ''-''" "id_template ! 14 = CHR ''4''" "id_template ! 19 = CHR ''y''"
    "length id_template = 36"
    by (simp_all add: id_template_def)
  have "id_fallback rs ! 19 \<in> set ''89ab''"
    unfolding id_fallback_def by (rule fill_template_y) (simp_all add: n)
  then show ?thesis
    unfolding id_fallback_def by (simp add: n fill_template_nth)
qed

subsection \<open>Addresses and the user agent\<close>

text \<open>\<open>sanitizedURL\<close>: origin and path only; what does not parse is cut at \<open>?\<close> or \<open>#\<close>.\<close>

definition sanitizedURL :: "(string \<Rightarrow> (string \<times> string) option) \<Rightarrow> string \<Rightarrow> string" where
  "sanitizedURL parse raw =
     (if raw = [] then []
      else case parse raw of
        Some (orig, path) \<Rightarrow> orig @ path
      | None \<Rightarrow> takeWhile (\<lambda>c. c \<noteq> CHR ''?'' \<and> c \<noteq> CHR ''#'') raw)"

definition no_query :: "string \<Rightarrow> bool" where
  "no_query u \<longleftrightarrow> CHR ''?'' \<notin> set u \<and> CHR ''#'' \<notin> set u"

text \<open>
  an address the tracker reports carries no query string and no fragment, given that the
  browser's origin and path have none (which the URL standard guarantees by percent-encoding).
\<close>

theorem sanitizedURL_no_query:
  assumes "\<forall>raw orig path. parse raw = Some (orig, path) \<longrightarrow> no_query orig \<and> no_query path"
  shows "no_query (sanitizedURL parse raw)"
  using assms unfolding sanitizedURL_def no_query_def
  by (auto split: option.splits dest: set_takeWhileD)

lemma sanitizedURL_no_query_witness:
  "no_query (sanitizedURL (\<lambda>raw. if raw = ''/a?b=1'' then Some (''https://s.kr'', ''/a'') else None) ''x?y#z'')"
  by (rule sanitizedURL_no_query) (auto simp: no_query_def)

text \<open>\<open>parseUA\<close>: the first matching test of each chain names the browser, system and device.\<close>

fun first_match :: "string \<Rightarrow> (string list \<times> string) list \<Rightarrow> string \<Rightarrow> string" where
  "first_match ua [] dflt = dflt"
| "first_match ua ((needles, name) # rest) dflt =
     (if list_ex (js_includes ua) needles then name else first_match ua rest dflt)"

definition ua_browser :: "string \<Rightarrow> string" where
  "ua_browser ua = first_match ua
     [([''Edg/''], ''Edge''), ([''Chrome/''], ''Chrome''), ([''Firefox/''], ''Firefox''),
      ([''Safari/''], ''Safari'')] ''Other''"

definition ua_os :: "string \<Rightarrow> string" where
  "ua_os ua = first_match ua
     [([''Windows''], ''Windows''), ([''Android''], ''Android''), ([''iPhone'', ''iPad''], ''iOS''),
      ([''Mac OS''], ''macOS''), ([''Linux''], ''Linux'')] ''Other''"

definition ua_type :: "string \<Rightarrow> string" where
  "ua_type ua = first_match ua
     [([''Mobi'', ''Android'', ''iPhone''], ''mobile''), ([''iPad'', ''Tablet''], ''tablet'')]
     ''desktop''"

definition parseUA :: "'a browser_scheme \<Rightarrow> props" where
  "parseUA b =
     [(''browser'', VStr (ua_browser (userAgent b))),
      (''os'', VStr (ua_os (userAgent b))),
      (''type'', VStr (ua_type (userAgent b))),
      (''language'', VStr (language b)),
      (''screen'', VStr (int_text (screenW b) @ ''x'' @ int_text (screenH b)))]"

subsection \<open>The collector's address\<close>

definition starts_http :: "string \<Rightarrow> bool" where
  "starts_http s \<longleftrightarrow> prefix ''http://'' (js_lower s) \<or> prefix ''https://'' (js_lower s)"

text \<open>
  \<open>resolveEndpoint\<close>; the browser's \<open>new URL(src, base).origin\<close> is the parameter
  \<open>url_origin\<close>.
\<close>

definition resolveEndpoint ::
  "(string \<Rightarrow> string \<Rightarrow> string option) \<Rightarrow> string option \<Rightarrow> string \<Rightarrow> string \<Rightarrow> string" where
  "resolveEndpoint url_origin configured scriptSrc fallbackOrigin =
     (let v = js_trim (case configured of None \<Rightarrow> [] | Some c \<Rightarrow> c) in
      if v = [] then
        (if scriptSrc = [] then fallbackOrigin
         else case url_origin scriptSrc fallbackOrigin of None \<Rightarrow> fallbackOrigin | Some u \<Rightarrow> u)
      else
        let trimmed = strip_trailing (CHR ''/'') v in
        if starts_http trimmed then trimmed
        else if trimmed = [] then fallbackOrigin
        else if prefix ''/'' trimmed then trimmed else CHR ''/'' # trimmed)"

text \<open>
  an endpoint configured by the site resolves to an absolute collector URL or to a path of
  the page's own origin, in both cases without a trailing slash, or, when it is only slashes, to
  the page's origin.
\<close>

theorem resolveEndpoint_configured:
  assumes "js_trim c \<noteq> []"
  shows "resolveEndpoint url_origin (Some c) scriptSrc fallbackOrigin = fallbackOrigin
      \<and> (\<forall>x. x \<in> set (js_trim c) \<longrightarrow> x = CHR ''/'')
    \<or> (let e = resolveEndpoint url_origin (Some c) scriptSrc fallbackOrigin in
       last e \<noteq> CHR ''/'' \<and> (starts_http e \<or> hd e = CHR ''/''))"
proof -
  define t where "t = strip_trailing (CHR ''/'') (js_trim c)"
  have slashes: "x = CHR ''/''" if "t = []" "x \<in> set (js_trim c)" for x
    using that unfolding t_def strip_trailing_def by (auto simp: dropWhile_eq_Nil_conv)
  have e: "resolveEndpoint url_origin (Some c) scriptSrc fallbackOrigin =
      (if starts_http t then t else if t = [] then fallbackOrigin
       else if prefix ''/'' t then t else CHR ''/'' # t)"
    using assms by (simp add: resolveEndpoint_def t_def Let_def)
  show ?thesis
  proof (cases "t = []")
    case True
    then show ?thesis using e slashes by (simp add: starts_http_def js_lower_def)
  next
    case False
    then have "last t \<noteq> CHR ''/''" unfolding t_def by (rule strip_trailing_last)
    with False e show ?thesis by (auto simp: Let_def prefix_Cons neq_Nil_conv split: list.splits)
  qed
qed

lemma resolveEndpoint_configured_witness:
  "resolveEndpoint (\<lambda>_ _. None) (Some ''momento/'') [] ''https://s.kr'' = ''/momento''
   \<and> (let e = resolveEndpoint (\<lambda>_ _. None) (Some ''momento/'') [] ''https://s.kr'' in
       last e \<noteq> CHR ''/'' \<and> (starts_http e \<or> hd e = CHR ''/''))"
proof -
  have "js_trim ''momento/'' \<noteq> []" by code_simp
  note p = resolveEndpoint_configured [OF this, of "\<lambda>_ _. None" "[]" "''https://s.kr''"]
  have e: "resolveEndpoint (\<lambda>_ _. None) (Some ''momento/'') [] ''https://s.kr'' = ''/momento''"
    by code_simp
  show ?thesis using p unfolding e by simp
qed

end
