(* ===== verification/Regex.thy ===== *)
theory Regex
  imports Prelude
begin

section \<open>Regular expressions with backtracking order\<close>

text \<open>
  The sources describe identifiers, e-mail addresses and names by regular-expression literals.
  This theory gives such a literal its two meanings: \<open>ends r s i\<close> lists the end positions of
  the matches of \<open>r\<close> in \<open>s\<close> from position \<open>i\<close> in the order in which the
  language's backtracking matcher finds them (the first one is the match), and the inductive
  relation \<open>matches\<close> says which spans are matches at all. They agree
  (\<open>ends_iff_matches\<close>), which is the contract \<open>rx_matcher\<close> states and the clients
  reason with. Then \<open>rx_test\<close> is \<open>RegExp.test\<close> and \<open>rx_replace\<close> is
  \<open>replace\<close> with the \<open>g\<close> flag.
\<close>

datatype rx =
    Eps
  | Chr "char \<Rightarrow> bool"
  | Seq rx rx
  | Alt rx rx
  | Star rx
  | WordB

subsection \<open>Derived forms\<close>

definition chr :: "char \<Rightarrow> rx" where
  "chr c = Chr (\<lambda>x. x = c)"

definition one_of :: "string \<Rightarrow> rx" where
  "one_of cs = Chr (\<lambda>x. x \<in> set cs)"

fun lit :: "string \<Rightarrow> rx" where
  "lit [] = Eps"
| "lit (c # cs) = Seq (chr c) (lit cs)"

text \<open>Greedy \<open>r?\<close>, \<open>r+\<close>, \<open>r{n}\<close>, \<open>r{m,n}\<close> and \<open>r{n,}\<close>.\<close>

definition opt :: "rx \<Rightarrow> rx" where
  "opt r = Alt r Eps"

definition plus_rx :: "rx \<Rightarrow> rx" where
  "plus_rx r = Seq r (Star r)"

fun times_rx :: "nat \<Rightarrow> rx \<Rightarrow> rx" where
  "times_rx 0 r = Eps"
| "times_rx (Suc n) r = Seq r (times_rx n r)"

fun upto_rx :: "nat \<Rightarrow> rx \<Rightarrow> rx" where
  "upto_rx 0 r = Eps"
| "upto_rx (Suc n) r = opt (Seq r (upto_rx n r))"

definition between :: "nat \<Rightarrow> nat \<Rightarrow> rx \<Rightarrow> rx" where
  "between m n r = Seq (times_rx m r) (upto_rx (n - m) r)"

definition at_least :: "nat \<Rightarrow> rx \<Rightarrow> rx" where
  "at_least n r = Seq (times_rx n r) (Star r)"

fun seqs :: "rx list \<Rightarrow> rx" where
  "seqs [] = Eps"
| "seqs [r] = r"
| "seqs (r # q # rs) = Seq r (seqs (q # rs))"

subsection \<open>The backtracking matcher\<close>

text \<open>The assertion \<open>\b\<close>: exactly one of the neighbouring characters is a word character.\<close>

definition word_at :: "string \<Rightarrow> nat \<Rightarrow> bool" where
  "word_at s i \<longleftrightarrow> i < length s \<and> is_word (s ! i)"

definition boundary :: "string \<Rightarrow> nat \<Rightarrow> bool" where
  "boundary s i \<longleftrightarrow> (i > 0 \<and> word_at s (i - 1)) \<noteq> word_at s i"

text \<open>
  A greedy loop tries another round first, and a round that consumes nothing does not count. The
  number of rounds is bounded by the characters left.
\<close>

fun star_ends :: "(nat \<Rightarrow> nat list) \<Rightarrow> nat \<Rightarrow> nat \<Rightarrow> nat list" where
  "star_ends f 0 i = [i]"
| "star_ends f (Suc n) i = concat (map (star_ends f n) (filter (\<lambda>j. i < j) (f i))) @ [i]"

fun ends :: "rx \<Rightarrow> string \<Rightarrow> nat \<Rightarrow> nat list" where
  "ends Eps s i = [i]"
| "ends (Chr p) s i = (if i < length s \<and> p (s ! i) then [Suc i] else [])"
| "ends (Seq a b) s i = concat (map (ends b s) (ends a s i))"
| "ends (Alt a b) s i = ends a s i @ ends b s i"
| "ends (Star a) s i = star_ends (ends a s) (length s - i) i"
| "ends WordB s i = (if boundary s i then [i] else [])"

inductive matches :: "rx \<Rightarrow> string \<Rightarrow> nat \<Rightarrow> nat \<Rightarrow> bool" where
  m_eps: "matches Eps s i i"
| m_chr: "i < length s \<Longrightarrow> p (s ! i) \<Longrightarrow> matches (Chr p) s i (Suc i)"
| m_seq: "matches a s i j \<Longrightarrow> matches b s j k \<Longrightarrow> matches (Seq a b) s i k"
| m_left: "matches a s i j \<Longrightarrow> matches (Alt a b) s i j"
| m_right: "matches b s i j \<Longrightarrow> matches (Alt a b) s i j"
| m_stop: "matches (Star a) s i i"
| m_loop: "matches a s i j \<Longrightarrow> i < j \<Longrightarrow> matches (Star a) s j k \<Longrightarrow> matches (Star a) s i k"
| m_word: "boundary s i \<Longrightarrow> matches WordB s i i"

inductive_cases matches_EpsE [elim!]: "matches Eps s i j"
inductive_cases matches_ChrE [elim!]: "matches (Chr p) s i j"
inductive_cases matches_SeqE [elim]: "matches (Seq a b) s i j"
inductive_cases matches_AltE [elim]: "matches (Alt a b) s i j"
inductive_cases matches_WordE [elim!]: "matches WordB s i j"
inductive_cases matches_StarE: "matches (Star a) s i j"

inductive_simps matches_simps:
  "matches Eps s i j" "matches (Chr p) s i j" "matches (Seq a b) s i j" "matches (Alt a b) s i j"
  "matches WordB s i j"

lemma matches_le: "matches r s i j \<Longrightarrow> i \<le> length s \<Longrightarrow> i \<le> j \<and> j \<le> length s"
  by (induction rule: matches.induct) auto

lemma matches_start_le: "matches r s i j \<Longrightarrow> i \<le> j"
  by (induction rule: matches.induct) auto

lemma star_ends_sound:
  assumes "\<And>i j. j \<in> set (f i) \<Longrightarrow> matches a s i j"
  shows "j \<in> set (star_ends f n i) \<Longrightarrow> matches (Star a) s i j"
  by (induction n arbitrary: i) (auto intro: m_stop m_loop assms)

lemma ends_sound: "j \<in> set (ends r s i) \<Longrightarrow> matches r s i j"
proof (induction r arbitrary: i j)
  case (Seq a b)
  then obtain x where "x \<in> set (ends a s i)" "j \<in> set (ends b s x)" by auto
  then show ?case using Seq.IH m_seq by blast
next
  case (Star r)
  then show ?case using star_ends_sound [of "ends r s" r s] by simp
qed (auto intro: matches.intros split: if_splits)

lemma star_ends_fuel: "n \<le> m \<Longrightarrow> set (star_ends f n i) \<subseteq> set (star_ends f m i)"
proof (induction n arbitrary: m i)
  case 0
  then show ?case by (cases m) auto
next
  case (Suc n)
  then obtain k where m: "m = Suc k" "n \<le> k" by (cases m) auto
  have "set (star_ends f n j) \<subseteq> set (star_ends f k j)" for j
    using Suc.IH m(2) by blast
  then show ?case by (fastforce simp: m(1))
qed

lemma ends_complete: "matches r s i j \<Longrightarrow> i \<le> length s \<Longrightarrow> j \<in> set (ends r s i)"
proof (induction rule: matches.induct)
  case (m_seq a s i j b k)
  then have "j \<le> length s" using matches_le by blast
  with m_seq show ?case by auto
next
  case (m_stop a s i)
  then show ?case by (cases "length s - i") auto
next
  case (m_loop a s i j k)
  have jl: "j \<le> length s" using m_loop.hyps(1) m_loop.prems matches_le by blast
  define n where "n = length s - i - 1"
  have n: "length s - i = Suc n" "length s - j \<le> n"
    using jl m_loop.hyps(2) by (auto simp: n_def)
  have "k \<in> set (star_ends (ends a s) (length s - j) j)" using m_loop jl by simp
  then have "k \<in> set (star_ends (ends a s) n j)" using star_ends_fuel [OF n(2)] by blast
  with m_loop n show ?case by auto
qed auto

text \<open>The matcher finds exactly the spans of the relation.\<close>

theorem ends_iff_matches: "i \<le> length s \<Longrightarrow> j \<in> set (ends r s i) \<longleftrightarrow> matches r s i j"
  using ends_sound ends_complete by blast

lemma ends_Nil_iff: "i \<le> length s \<Longrightarrow> ends r s i = [] \<longleftrightarrow> (\<nexists>j. matches r s i j)"
  using ends_iff_matches [of i s _ r] by (metis ex_in_conv set_empty)

lemma hd_ends: "i \<le> length s \<Longrightarrow> ends r s i \<noteq> [] \<Longrightarrow> matches r s i (hd (ends r s i))"
  by (intro ends_sound) simp

subsection \<open>Searching\<close>

text \<open>\<open>r.test(s)\<close>: some position has a match.\<close>

fun test_from :: "rx \<Rightarrow> string \<Rightarrow> nat \<Rightarrow> nat \<Rightarrow> bool" where
  "test_from r s 0 i = (ends r s i \<noteq> [])"
| "test_from r s (Suc n) i = (ends r s i \<noteq> [] \<or> test_from r s n (Suc i))"

definition rx_test :: "rx \<Rightarrow> string \<Rightarrow> bool" where
  "rx_test r s = test_from r s (length s) 0"

lemma ex_ge_split: "(\<exists>k j. i \<le> k \<and> P k j) \<longleftrightarrow> (\<exists>j. P i j) \<or> (\<exists>k j. Suc i \<le> k \<and> P k j)"
  for P :: "nat \<Rightarrow> nat \<Rightarrow> bool"
  by (auto dest: le_imp_less_or_eq intro: less_imp_le simp: Suc_le_eq)

lemma test_from_iff:
  "i + n = length s \<Longrightarrow> test_from r s n i \<longleftrightarrow> (\<exists>k j. i \<le> k \<and> k \<le> length s \<and> matches r s k j)"
proof (induction n arbitrary: i)
  case 0
  then have i: "i = length s" by simp
  have "(length s \<le> k \<and> k \<le> length s \<and> matches r s k j) \<longleftrightarrow> (k = length s \<and> matches r s k j)" for k j
    by auto
  then show ?case by (simp add: i ends_Nil_iff)
next
  case (Suc n)
  then have "test_from r s n (Suc i) \<longleftrightarrow> (\<exists>k j. Suc i \<le> k \<and> k \<le> length s \<and> matches r s k j)"
    by (intro Suc.IH) simp
  moreover have "ends r s i \<noteq> [] \<longleftrightarrow> (\<exists>j. i \<le> length s \<and> matches r s i j)"
    using Suc.prems by (subst ends_Nil_iff) auto
  ultimately show ?case unfolding test_from.simps by (subst ex_ge_split) simp
qed

theorem rx_test_iff: "rx_test r s \<longleftrightarrow> (\<exists>i j. i \<le> length s \<and> matches r s i j)"
  by (simp add: rx_test_def test_from_iff)

text \<open>\<open>s.replace(r, text)\<close> with the \<open>g\<close> flag, scanning from position \<open>i\<close>.\<close>

function replace_from :: "rx \<Rightarrow> string \<Rightarrow> string \<Rightarrow> nat \<Rightarrow> string" where
  "replace_from r rep s i =
     (if i > length s then []
      else case ends r s i of
        [] \<Rightarrow> (if i = length s then [] else s ! i # replace_from r rep s (Suc i))
      | j # _ \<Rightarrow>
          if i < j then rep @ replace_from r rep s j
          else rep @ (if i = length s then [] else s ! i # replace_from r rep s (Suc i)))"
  by pat_completeness auto
termination
  by (relation "measure (\<lambda>(r, rep, s, i). Suc (length s) - i)") auto

declare replace_from.simps [simp del]

definition rx_replace :: "rx \<Rightarrow> string \<Rightarrow> string \<Rightarrow> string" where
  "rx_replace r rep s = replace_from r rep s 0"

lemma replace_from_no_match:
  "i \<le> length s \<Longrightarrow> \<forall>k. i \<le> k \<and> k \<le> length s \<longrightarrow> ends r s k = []
    \<Longrightarrow> replace_from r rep s i = drop i s"
proof (induction r rep s i rule: replace_from.induct)
  case (1 r rep s i)
  show ?case
  proof (cases "i = length s")
    case True
    with 1 have "ends r s i = []" by simp
    with True show ?thesis by (simp add: replace_from.simps [of r rep s "length s"])
  next
    case False
    with 1 have "replace_from r rep s (Suc i) = drop (Suc i) s" by auto
    with 1 False show ?thesis
      by (simp add: replace_from.simps [of r rep s i] Cons_nth_drop_Suc)
  qed
qed

text \<open>A text without a match is left alone.\<close>

lemma rx_replace_no_match:
  assumes "\<not> rx_test r s"
  shows "rx_replace r rep s = s"
proof -
  have "ends r s k = []" if "k \<le> length s" for k
    using that assms by (auto simp: ends_Nil_iff rx_test_iff)
  then have "replace_from r rep s 0 = drop 0 s" by (intro replace_from_no_match) auto
  then show ?thesis by (simp add: rx_replace_def)
qed

subsection \<open>Inclusion of patterns\<close>

text \<open>
  One pattern covers another when it matches every span the other matches; the rules follow the
  structure of the patterns. \<open>covers_test\<close> turns inclusion into a fact about searching, and
  also allows the covering pattern to match a shorter span.
\<close>

definition covers :: "rx \<Rightarrow> rx \<Rightarrow> bool" where
  "covers b a \<longleftrightarrow> (\<forall>s i j. matches a s i j \<longrightarrow> matches b s i j)"

named_theorems covers_intros \<open>inclusion of patterns by structure\<close>

lemma covers_refl [covers_intros]: "covers a a"
  by (simp add: covers_def)

lemma covers_trans: "covers c b \<Longrightarrow> covers b a \<Longrightarrow> covers c a"
  by (simp add: covers_def)

lemma covers_Chr [covers_intros]: "(\<And>c. p c \<Longrightarrow> q c) \<Longrightarrow> covers (Chr q) (Chr p)"
  by (auto simp: covers_def intro: m_chr)

lemma covers_Seq [covers_intros]: "covers a' a \<Longrightarrow> covers b' b \<Longrightarrow> covers (Seq a' b') (Seq a b)"
  unfolding covers_def matches_simps by blast

lemma covers_opt [covers_intros]: "covers a' a \<Longrightarrow> covers (opt a') (opt a)"
  unfolding covers_def opt_def matches_simps by blast

lemma covers_opt_some: "covers a' a \<Longrightarrow> covers (opt a') a"
  unfolding covers_def opt_def matches_simps by blast

lemma covers_times [covers_intros]: "covers a' a \<Longrightarrow> covers (times_rx n a') (times_rx n a)"
  by (induction n) (auto intro: covers_intros)

lemma covers_upto [covers_intros]: "covers a' a \<Longrightarrow> covers (upto_rx n a') (upto_rx n a)"
  by (induction n) (auto intro: covers_intros)

lemma covers_between [covers_intros]: "covers a' a \<Longrightarrow> covers (between m n a') (between m n a)"
  unfolding between_def by (intro covers_intros)

text \<open>An optional part may be skipped, an assertion may be dropped.\<close>

lemma covers_skip_opt: "covers b a \<Longrightarrow> covers (Seq (opt o') b) a"
  unfolding covers_def opt_def matches_simps by blast

lemma covers_drop_word: "covers b a \<Longrightarrow> covers b (Seq WordB a)"
  unfolding covers_def matches_simps by blast

lemma covers_drop_final_word: "covers b a \<Longrightarrow> covers b (Seq a WordB)"
  unfolding covers_def matches_simps by blast

lemma covers_test: "covers b a \<Longrightarrow> rx_test a s \<Longrightarrow> rx_test b s"
  unfolding covers_def rx_test_iff by blast

subsection \<open>The matcher's contract\<close>

text \<open>
  What a client of a matcher needs: the end positions it lists are the matches of a relation of
  spans that only moves forward and stays within the text.
\<close>

locale rx_matcher =
  fixes find :: "'p \<Rightarrow> string \<Rightarrow> nat \<Rightarrow> nat list"
    and span :: "'p \<Rightarrow> string \<Rightarrow> nat \<Rightarrow> nat \<Rightarrow> bool"
  assumes find_span: "i \<le> length s \<Longrightarrow> j \<in> set (find r s i) \<longleftrightarrow> span r s i j"
    and span_forward: "span r s i j \<Longrightarrow> i \<le> length s \<Longrightarrow> i \<le> j \<and> j \<le> length s"
begin

lemma find_bounds: "i \<le> length s \<Longrightarrow> j \<in> set (find r s i) \<Longrightarrow> i \<le> j \<and> j \<le> length s"
  using find_span span_forward by blast

lemma find_none: "i \<le> length s \<Longrightarrow> find r s i = [] \<longleftrightarrow> (\<forall>j. \<not> span r s i j)"
  using find_span [of i s _ r] by (metis ex_in_conv set_empty)

end

interpretation backtrack: rx_matcher ends matches
proof unfold_locales
  show "i \<le> length s \<Longrightarrow> j \<in> set (ends r s i) \<longleftrightarrow> matches r s i j" for i s j r
    by (rule ends_iff_matches)
  show "matches r s i j \<Longrightarrow> i \<le> length s \<Longrightarrow> i \<le> j \<and> j \<le> length s" for r s i j
    by (rule matches_le)
qed

end
