(* ===== verification/Pii.thy ===== *)
theory Pii
  imports Regex JsValue
begin

section \<open>Identifiers of persons: refusing and redacting them\<close>

text \<open>
  \<open>looksLikeAPerson\<close> (\<open>sdk/src/index.ts\<close>) decides which user ids \<open>identify\<close>
  refuses; \<open>redactPII\<close> takes the same kinds of identifier out of error messages and search
  terms. The comment on \<open>PII_IDENTIFIER\<close> says that the refusing half covers the shapes the
  redacting half masks; \<open>redacted_is_refused\<close> proves it by inclusion of the patterns.
\<close>

subsection \<open>The patterns\<close>

definition digit_rx :: rx where
  "digit_rx = Chr is_digit"

definition sep_rx :: rx where
  "sep_rx = opt (one_of ''- '')"

definition dash_rx :: rx where
  "dash_rx = opt (chr (CHR ''-''))"

definition carrier_rx :: rx where
  "carrier_rx = one_of ''016789''"

text \<open>The four literals of \<open>PII_IDENTIFIER\<close>.\<close>

definition pii_at :: rx where
  "pii_at = chr (CHR ''@'')"

definition pii_long_digits :: rx where
  "pii_long_digits = Seq (opt (chr (CHR ''+''))) (at_least 8 digit_rx)"

definition pii_phone :: rx where
  "pii_phone =
     Seq (opt (seqs [opt (chr (CHR ''+'')), lit ''82'', sep_rx]))
       (Seq (opt (chr (CHR ''0'')))
         (seqs [chr (CHR ''1''), carrier_rx, sep_rx, between 3 4 digit_rx, sep_rx, times_rx 4 digit_rx]))"

definition pii_resident :: rx where
  "pii_resident =
     seqs [WordB, times_rx 6 digit_rx, sep_rx, Chr (in_range 49 56), times_rx 6 digit_rx, WordB]"

definition PII_IDENTIFIER :: "rx list" where
  "PII_IDENTIFIER = [pii_at, pii_long_digits, pii_phone, pii_resident]"

definition looksLikeAPerson :: "string \<Rightarrow> bool" where
  "looksLikeAPerson value = list_ex (\<lambda>pattern. rx_test pattern value) PII_IDENTIFIER"

text \<open>The three literals of \<open>redactPII\<close>; the first has the flag \<open>i\<close>.\<close>

definition mail_user :: "char \<Rightarrow> bool" where
  "mail_user c \<longleftrightarrow> is_upper c \<or> is_lower c \<or> is_digit c \<or> c \<in> set ''._%+-''"

definition mail_host :: "char \<Rightarrow> bool" where
  "mail_host c \<longleftrightarrow> is_upper c \<or> is_lower c \<or> is_digit c \<or> c \<in> set ''.-''"

definition mail_top :: "char \<Rightarrow> bool" where
  "mail_top c \<longleftrightarrow> is_upper c \<or> is_lower c"

definition redact_mail :: rx where
  "redact_mail =
     seqs [plus_rx (Chr mail_user), chr (CHR ''@''), plus_rx (Chr mail_host), chr (CHR ''.''),
           at_least 2 (Chr mail_top)]"

definition redact_resident :: rx where
  "redact_resident =
     seqs [WordB, times_rx 6 digit_rx, dash_rx, Chr (in_range 49 52), times_rx 6 digit_rx, WordB]"

definition redact_phone :: rx where
  "redact_phone =
     seqs [WordB, lit ''01'', carrier_rx, dash_rx, between 3 4 digit_rx, dash_rx,
           times_rx 4 digit_rx, WordB]"

definition redact_text :: "string \<Rightarrow> string" where
  "redact_text s =
     rx_replace redact_phone ''[REDACTED_PHONE]''
       (rx_replace redact_resident ''[REDACTED_ID]''
         (rx_replace redact_mail ''[REDACTED_EMAIL]'' s))"

definition redactPII :: "val \<Rightarrow> nat \<Rightarrow> string" where
  "redactPII value limit =
     take limit (redact_text (if nullish value then [] else js_string value))"

definition sanitizedError :: "val \<Rightarrow> string" where
  "sanitizedError value = redactPII value 500"

subsection \<open>Refusal covers redaction\<close>

lemma at_test: "rx_test pii_at s \<longleftrightarrow> CHR ''@'' \<in> set s"
  by (auto simp: rx_test_iff pii_at_def chr_def matches_simps in_set_conv_nth intro: less_imp_le)

lemma sep_covers_dash: "covers sep_rx dash_rx"
  unfolding sep_rx_def dash_rx_def one_of_def chr_def
  by (intro covers_intros) auto

lemma resident_covered: "covers pii_resident redact_resident"
  unfolding pii_resident_def redact_resident_def seqs.simps
  by (intro covers_intros sep_covers_dash) (auto simp: in_range_def)

lemma phone_covered: "covers pii_phone redact_phone"
proof -
  have core: "covers
      (seqs [chr (CHR ''1''), carrier_rx, sep_rx, between 3 4 digit_rx, sep_rx, times_rx 4 digit_rx])
      (Seq (Seq (chr (CHR ''1'')) Eps)
        (seqs [carrier_rx, dash_rx, between 3 4 digit_rx, dash_rx, times_rx 4 digit_rx, WordB]))"
    unfolding seqs.simps
    by (intro covers_intros sep_covers_dash covers_drop_final_word)
      (simp add: covers_def matches_simps)
  have step: "covers (Seq (opt (chr (CHR ''0''))) r)
      (Seq (Seq (chr (CHR ''0'')) a) b)" if "covers r (Seq a b)" for r a b
    using that unfolding covers_def opt_def matches_simps by blast
  show ?thesis
    using covers_skip_opt [OF covers_drop_word [OF step [OF core]]]
    unfolding pii_phone_def redact_phone_def seqs.simps lit.simps .
qed

lemma mail_has_at: "matches redact_mail s i j \<Longrightarrow> i \<le> length s \<Longrightarrow> CHR ''@'' \<in> set s"
  unfolding redact_mail_def seqs.simps chr_def matches_simps by (metis nth_mem)

text \<open>
  every text in which the redactor finds an e-mail address, a resident registration number or
  a mobile number is refused as a user id, so the two halves of the rule agree in the direction
  the source claims.
\<close>

theorem redacted_is_refused:
  "rx_test redact_mail s \<or> rx_test redact_resident s \<or> rx_test redact_phone s
    \<Longrightarrow> looksLikeAPerson s"
proof -
  assume "rx_test redact_mail s \<or> rx_test redact_resident s \<or> rx_test redact_phone s"
  then consider "rx_test redact_mail s" | "rx_test redact_resident s" | "rx_test redact_phone s"
    by blast
  then show ?thesis
  proof cases
    case 1
    then have "CHR ''@'' \<in> set s" using mail_has_at by (auto simp: rx_test_iff)
    then show ?thesis by (simp add: looksLikeAPerson_def PII_IDENTIFIER_def at_test)
  next
    case 2
    then have "rx_test pii_resident s" by (rule covers_test [OF resident_covered])
    then show ?thesis by (simp add: looksLikeAPerson_def PII_IDENTIFIER_def)
  next
    case 3
    then have "rx_test pii_phone s" by (rule covers_test [OF phone_covered])
    then show ?thesis by (simp add: looksLikeAPerson_def PII_IDENTIFIER_def)
  qed
qed

lemma redacted_is_refused_witness: "looksLikeAPerson ''010-1234-5678''"
proof -
  have "rx_test redact_phone ''010-1234-5678''" by code_simp
  then show ?thesis using redacted_is_refused [of "''010-1234-5678''"] by blast
qed

end
