(* ===== verification/Tracker.thy ===== *)
theory Tracker
  imports Browser Pii
begin

section \<open>The tracker's state and its rules\<close>

text \<open>
  The class \<open>MomentoTracker\<close> of \<open>sdk/src/index.ts\<close>: its options, its private fields (the
  record \<open>tracker\<close>, which extends the browser it runs in) and the predicates that decide
  whether it may collect (\<open>canTrack\<close>) and whether it may store (\<open>isPersistent\<close>).

  An optional member of \<open>MomentoOptions\<close> is an \<open>option\<close>; \<open>None\<close> is
  \<open>undefined\<close>. In the argument of \<open>init\<close> a member may also be missing altogether, which
  the spread over the defaults tells apart from an explicit \<open>undefined\<close>. Numbers among the
  options are finite, except the contract version, which the code checks.

  Some fields are not members of the class. \<open>lastLCP\<close>, \<open>clsTotal\<close>,
  \<open>maxINP\<close> and \<open>vitalsEmitted\<close> are the variables that the closures of
  \<open>installRUM\<close> share, \<open>deadMutated\<close> the one of \<open>checkDeadClick\<close>,
  \<open>installed\<close> the groups of listeners that have been added, \<open>readyCounts\<close> the
  searches whose wait for a result count is over and whose report runs next. \<open>flights\<close> are the suspended calls of the asynchronous
  \<open>flush\<close>: the batch each one took from the queue, the groups it still has to send and,
  for a beacon, whether the browser took it. \<open>handedOver\<close> records the batches that were
  delivered; no operation reads it.
\<close>

subsection \<open>Options\<close>

record options =
  siteId :: string
  endpoint :: string
  environment :: string
  contractVersion :: int
  mode :: "string option"
  sessionTimeoutMinutes :: "rat option"
  debugOption :: "bool option"
  autoTrack :: "bool option"
  heartbeatSeconds :: "rat option"
  batchSize :: "rat option"
  collectElementText :: "bool option"
  sanitizeErrorMessages :: "bool option"
  autoRUM :: "bool option"
  frustrationSignals :: "bool option"
  searchTracking :: "bool option"
  collectSearchTerms :: "bool option"
  searchParams :: "string list option"
  appVersion :: "string option"
  releaseVersion :: "string option"
  gitSha :: "string option"
  deploymentId :: "string option"

text \<open>A rational option as JavaScript's \<open>||\<close> sees it: zero and \<open>undefined\<close> give way.\<close>

definition or_num :: "rat option \<Rightarrow> rat \<Rightarrow> rat" where
  "or_num x d = (case x of None \<Rightarrow> d | Some q \<Rightarrow> if q = 0 then d else q)"

definition is_on :: "bool option \<Rightarrow> bool" where
  "is_on x \<longleftrightarrow> x = Some True"

definition opt_text :: "string option \<Rightarrow> string" where
  "opt_text x = (case x of None \<Rightarrow> [] | Some s \<Rightarrow> s)"

lemma is_on_simps [simp]: "is_on None = False" "is_on (Some b) = b"
  by (simp_all add: is_on_def)

lemma opt_text_simps [simp]: "opt_text None = []" "opt_text (Some s) = s"
  by (simp_all add: opt_text_def)

subsection \<open>State\<close>

datatype consent_state = Unknown | Granted | Denied

datatype feature = CspDiagnostics | AutoTracking | RUM | FrustrationSignals | SearchTracking

datatype route_hook = PageViewHook | RapidBackHook | SearchHook

record burst =
  bu_signature :: string
  bu_at :: rat
  bu_count :: nat
  bu_timer :: "nat option"

record flight =
  fl_batch :: "val list"
  fl_todo :: "val list list"
  fl_beacon :: bool
  fl_outcome :: "bool option"

record tracker = browser +
  opts :: "options option"
  visitorId :: string
  sessionId :: string
  lastEventAt :: rat
  userId :: string
  userProperties :: props
  sessionProperties :: props
  defaultSessionProperties :: props
  queue :: "val list"
  timer :: "nat option"
  debugEnabled :: bool
  initialized :: bool
  trackedScroll :: "int list"
  consentState :: consent_state
  acquisition :: props
  cspReported :: bool
  installed :: "feature list"
  routeHooks :: "route_hook list"
  routeInstalled :: bool
  lastRouteAt :: rat
  lastRoutePath :: string
  rageBurst :: "burst option"
  deadClickPending :: bool
  deadMutated :: bool
  lastClick :: "(rat \<times> props) option"
  formAttempts :: "string \<Rightarrow> nat option"
  lastInvalidForm :: "string \<times> rat"
  slowInteractionSeen :: nat
  searchState :: "(string \<times> rat) option"
  signalsThisPage :: nat
  readyCounts :: "(string \<times> string \<times> int option) list"
  lastLCP :: rat
  clsTotal :: rat
  maxINP :: rat
  vitalsEmitted :: bool
  flights :: "flight list"
  handedOver :: "val list"

subsection \<open>A new tracker\<close>

text \<open>The field initialisers of the class, in the browser the script runs in.\<close>

definition new_tracker :: "browser \<Rightarrow> tracker" where
  "new_tracker b =
   \<lparr>now = now b, mono = mono b, uuid = uuid b, drawn = drawn b, storageOk = storageOk b,
    quotaOk = quotaOk b, storage = storage b, urlParse = urlParse b, href = href b,
    locOrigin = locOrigin b, pathname = pathname b, query = query b, docTitle = docTitle b,
    referrer = referrer b, userAgent = userAgent b, language = language b, screenW = screenW b,
    screenH = screenH b, doNotTrack = doNotTrack b, onLine = onLine b, hasBeacon = hasBeacon b,
    beaconOk = beaconOk b, visible = visible b, scrollTop = scrollTop b, focused = focused b,
    selection = selection b, readyComplete = readyComplete b, navEntry = navEntry b,
    hasPerfObserver = hasPerfObserver b, hasMutationObserver = hasMutationObserver b,
    resultsAttr = resultsAttr b, startedForms = startedForms b, timers = timers b, nextTimer = nextTimer b, sent = sent b,
    opts = None, visitorId = [], sessionId = [], lastEventAt = 0, userId = [],
    userProperties = [], sessionProperties = [], defaultSessionProperties = [], queue = [],
    timer = None, debugEnabled = False, initialized = False, trackedScroll = [],
    consentState = Unknown, acquisition = [], cspReported = False, installed = [],
    routeHooks = [], routeInstalled = False, lastRouteAt = 0, lastRoutePath = [],
    rageBurst = None, deadClickPending = False, deadMutated = False, lastClick = None,
    formAttempts = (\<lambda>_. None), lastInvalidForm = ([], 0), slowInteractionSeen = 0,
    searchState = None, signalsThisPage = 0, readyCounts = [], lastLCP = 0, clsTotal = 0,
    maxINP = 0, vitalsEmitted = False, flights = [], handedOver = []\<rparr>"

text \<open>An option that is off or \<open>undefined\<close> before \<open>init\<close> has set the options.\<close>

definition option_on :: "(options \<Rightarrow> bool option) \<Rightarrow> tracker \<Rightarrow> bool" where
  "option_on f t \<longleftrightarrow> is_on (Option.bind (opts t) f)"

definition option_num :: "(options \<Rightarrow> rat option) \<Rightarrow> rat \<Rightarrow> tracker \<Rightarrow> rat" where
  "option_num f d t = or_num (Option.bind (opts t) f) d"

definition option_text :: "(options \<Rightarrow> string) \<Rightarrow> tracker \<Rightarrow> string" where
  "option_text f t = (case opts t of None \<Rightarrow> [] | Some p \<Rightarrow> f p)"

subsection \<open>Ids and timers\<close>

definition fresh_id :: "tracker \<Rightarrow> string \<times> tracker" where
  "fresh_id t = (uuid t (drawn t), t\<lparr>drawn := Suc (drawn t)\<rparr>)"

text \<open>\<open>setTimeout\<close> answers the id of the new timer; ids start at one.\<close>

definition set_timeout :: "callback \<Rightarrow> rat \<Rightarrow> tracker \<Rightarrow> nat \<times> tracker" where
  "set_timeout cb delay t =
     (nextTimer t,
      t\<lparr>timers := timers t @ [(nextTimer t, mono t + delay, cb)], nextTimer := Suc (nextTimer t)\<rparr>)"

definition clear_timeout :: "nat \<Rightarrow> tracker \<Rightarrow> tracker" where
  "clear_timeout i t = t\<lparr>timers := filter (\<lambda>(j, _). j \<noteq> i) (timers t)\<rparr>"

subsection \<open>Consent and mode\<close>

definition canTrack :: "tracker \<Rightarrow> bool" where
  "canTrack t =
     (case opts t of
        None \<Rightarrow> False
      | Some p \<Rightarrow>
          if mode p = Some ''disabled'' then False
          else if consentState t = Denied then False
          else if doNotTrack t = ''1'' \<and> consentState t \<noteq> Granted then False
          else if mode p = Some ''consent-required'' then consentState t = Granted
          else True)"

definition isPersistent :: "tracker \<Rightarrow> bool" where
  "isPersistent t =
     (if consentState t = Denied then False
      else if doNotTrack t = ''1'' \<and> consentState t \<noteq> Granted then False
      else
        let m = Option.bind (opts t) mode in
        m = Some ''full'' \<or>
        ((m = Some ''consent-required'' \<or> m = Some ''cookie-consent'') \<and> consentState t = Granted))"

definition persistent :: "tracker \<Rightarrow> bool" where
  "persistent t \<longleftrightarrow> storageOk t \<and> isPersistent t"

lemma canTrack_cong:
  assumes "opts u = opts t" "consentState u = consentState t" "doNotTrack u = doNotTrack t"
  shows "canTrack u = canTrack t"
  unfolding canTrack_def assms by (rule refl)

lemma isPersistent_canTrack: "isPersistent t \<Longrightarrow> canTrack t"
  by (cases "opts t") (auto simp: isPersistent_def canTrack_def Let_def split: if_splits)

lemma persistent_canTrack: "persistent t \<Longrightarrow> canTrack t"
  by (simp add: persistent_def isPersistent_canTrack)

subsection \<open>Storage keys\<close>

definition VISITOR_KEY :: string where "VISITOR_KEY = ''momento_visitor_id''"
definition SESSION_KEY :: string where "SESSION_KEY = ''momento_session''"
definition CONSENT_KEY :: string where "CONSENT_KEY = ''momento_consent''"
definition OFFLINE_KEY :: string where "OFFLINE_KEY = ''momento_offline_queue''"
definition DROPPED_KEY :: string where "DROPPED_KEY = ''momento_dropped_events''"

lemmas key_defs = VISITOR_KEY_def SESSION_KEY_def CONSENT_KEY_def OFFLINE_KEY_def DROPPED_KEY_def

definition storageKey :: "tracker \<Rightarrow> string \<Rightarrow> string" where
  "storageKey t base =
     base @ '':'' @ or_str (option_text siteId t) ''unknown''
          @ '':'' @ or_str (option_text environment t) ''prd''"

text \<open>\<open>localStorage.setItem\<close>, \<open>removeItem\<close> and \<open>getItem\<close> at a scoped key.\<close>

definition put_scoped :: "string \<Rightarrow> string \<Rightarrow> tracker \<Rightarrow> tracker" where
  "put_scoped base v t = t\<lparr>storage := store_item (storageKey t base) (Some v) (storage t)\<rparr>"

definition drop_scoped :: "string \<Rightarrow> tracker \<Rightarrow> tracker" where
  "drop_scoped base t = t\<lparr>storage := erase_item (storageKey t base) (storage t)\<rparr>"

definition get_scoped :: "tracker \<Rightarrow> string \<Rightarrow> string option" where
  "get_scoped t base = read_item (storage t) (storageKey t base)"

definition scoped_or :: "tracker \<Rightarrow> string \<Rightarrow> string \<Rightarrow> string" where
  "scoped_or t base dflt = item_or (storage t) (storageKey t base) dflt"

definition readConsentState :: "tracker \<Rightarrow> consent_state" where
  "readConsentState t =
     (if \<not> storageOk t then Unknown
      else
        let stored = get_scoped t CONSENT_KEY in
        if stored = Some ''granted'' then Granted
        else if stored = Some ''denied'' then Denied else Unknown)"

definition migrate_key :: "string \<Rightarrow> tracker \<Rightarrow> tracker" where
  "migrate_key key t =
     (if get_scoped t key \<noteq> None then t
      else case read_item (storage t) key of
             None \<Rightarrow> t
           | Some legacy \<Rightarrow> put_scoped key legacy t)"

definition migrateLegacyStorage :: "tracker \<Rightarrow> tracker" where
  "migrateLegacyStorage t =
     (if \<not> storageOk t \<or> option_text environment t \<noteq> ''prd'' then t
      else fold migrate_key [VISITOR_KEY, SESSION_KEY, CONSENT_KEY, OFFLINE_KEY] t)"

definition clearIdentityStorage :: "tracker \<Rightarrow> tracker" where
  "clearIdentityStorage t =
     (if \<not> storageOk t then t
      else drop_scoped DROPPED_KEY (drop_scoped OFFLINE_KEY
             (drop_scoped SESSION_KEY (drop_scoped VISITOR_KEY t))))"

subsection \<open>What collecting leaves alone\<close>

text \<open>
  \<open>still t\<close> blanks the fields that queueing, sending and storing events may change. An
  operation \<open>f\<close> with \<open>still (f t) = still t\<close> touches nothing else; every other field
  is then read back unchanged through the rules \<open>still_fields\<close>.
\<close>

named_theorems still_simps \<open>operations that change collecting state only\<close>

definition still :: "tracker \<Rightarrow> tracker" where
  "still t = t\<lparr>drawn := 0, storage := (\<lambda>_. None), timers := [], nextTimer := 0, sent := [],
     visitorId := [], sessionId := [], lastEventAt := 0, sessionProperties := [], queue := [],
     timer := None, acquisition := [], flights := [], handedOver := []\<rparr>"

lemma still_read:
  fixes t :: tracker
  shows "still (still t) = still t"
    "opts (still t) = opts t"
    "consentState (still t) = consentState t"
    "doNotTrack (still t) = doNotTrack t"
    "storageOk (still t) = storageOk t"
    "quotaOk (still t) = quotaOk t"
    "now (still t) = now t"
    "mono (still t) = mono t"
    "uuid (still t) = uuid t"
    "query (still t) = query t"
    "userId (still t) = userId t"
    "userProperties (still t) = userProperties t"
    "defaultSessionProperties (still t) = defaultSessionProperties t"
    "initialized (still t) = initialized t"
    "installed (still t) = installed t"
    "routeHooks (still t) = routeHooks t"
    "signalsThisPage (still t) = signalsThisPage t"
    "rageBurst (still t) = rageBurst t"
    "searchState (still t) = searchState t"
    "trackedScroll (still t) = trackedScroll t"
    "debugEnabled (still t) = debugEnabled t"
    "onLine (still t) = onLine t"
    "hasBeacon (still t) = hasBeacon t"
    "beaconOk (still t) = beaconOk t"
    "lastClick (still t) = lastClick t"
    "readyCounts (still t) = readyCounts t"
    "lastRoutePath (still t) = lastRoutePath t"
    "pathname (still t) = pathname t"
    "urlParse (still t) = urlParse t"
    "href (still t) = href t"
    "docTitle (still t) = docTitle t"
    "referrer (still t) = referrer t"
    "lastLCP (still t) = lastLCP t"
    "clsTotal (still t) = clsTotal t"
    "maxINP (still t) = maxINP t"
    "slowInteractionSeen (still t) = slowInteractionSeen t"
    "deadClickPending (still t) = deadClickPending t"
    "opts (still t) = opts t"
    "consentState (still t) = consentState t"
    "doNotTrack (still t) = doNotTrack t"
    "storageOk (still t) = storageOk t"
    "quotaOk (still t) = quotaOk t"
    "now (still t) = now t"
    "mono (still t) = mono t"
  by (simp_all add: still_def)

lemma still_fields:
  assumes "still u = still t"
  shows "still u = still t"
    "opts u = opts t"
    "consentState u = consentState t"
    "doNotTrack u = doNotTrack t"
    "storageOk u = storageOk t"
    "quotaOk u = quotaOk t"
    "now u = now t"
    "mono u = mono t"
    "uuid u = uuid t"
    "query u = query t"
    "userId u = userId t"
    "userProperties u = userProperties t"
    "defaultSessionProperties u = defaultSessionProperties t"
    "initialized u = initialized t"
    "installed u = installed t"
    "routeHooks u = routeHooks t"
    "signalsThisPage u = signalsThisPage t"
    "rageBurst u = rageBurst t"
    "searchState u = searchState t"
    "trackedScroll u = trackedScroll t"
    "debugEnabled u = debugEnabled t"
    "onLine u = onLine t"
    "hasBeacon u = hasBeacon t"
    "beaconOk u = beaconOk t"
    "lastClick u = lastClick t"
    "readyCounts u = readyCounts t"
    "lastRoutePath u = lastRoutePath t"
    "pathname u = pathname t"
    "urlParse u = urlParse t"
    "href u = href t"
    "docTitle u = docTitle t"
    "referrer u = referrer t"
    "lastLCP u = lastLCP t"
    "clsTotal u = clsTotal t"
    "maxINP u = maxINP t"
    "slowInteractionSeen u = slowInteractionSeen t"
    "deadClickPending u = deadClickPending t"
    "opts u = opts t"
    "consentState u = consentState t"
    "doNotTrack u = doNotTrack t"
    "storageOk u = storageOk t"
    "quotaOk u = quotaOk t"
    "now u = now t"
    "mono u = mono t"
  using assms by (metis still_read)+

lemma still_predicates:
  assumes "still u = still t"
  shows "canTrack u = canTrack t" "isPersistent u = isPersistent t" "persistent u = persistent t"
    "storageKey u k = storageKey t k" "option_num f d u = option_num f d t"
    "option_text g u = option_text g t" "option_on h u = option_on h t"
  unfolding canTrack_def isPersistent_def persistent_def storageKey_def option_num_def
    option_text_def option_on_def still_fields [OF assms]
  by (rule refl)+

lemmas still_all = still_fields still_predicates

text \<open>Updates of the blanked fields do not matter to what is read through \<open>still\<close>.\<close>

lemma still_updates [still_simps]:
  "still (t\<lparr>drawn := a\<rparr>) = still t" "still (t\<lparr>storage := b\<rparr>) = still t"
  "still (t\<lparr>timers := c\<rparr>) = still t" "still (t\<lparr>nextTimer := d\<rparr>) = still t"
  "still (t\<lparr>sent := e\<rparr>) = still t" "still (t\<lparr>visitorId := f\<rparr>) = still t"
  "still (t\<lparr>sessionId := g\<rparr>) = still t" "still (t\<lparr>lastEventAt := h\<rparr>) = still t"
  "still (t\<lparr>sessionProperties := i\<rparr>) = still t" "still (t\<lparr>queue := j\<rparr>) = still t"
  "still (t\<lparr>timer := k\<rparr>) = still t" "still (t\<lparr>acquisition := l\<rparr>) = still t"
  "still (t\<lparr>flights := m\<rparr>) = still t" "still (t\<lparr>handedOver := n\<rparr>) = still t"
  by (simp_all add: still_def)

lemma still_basic [still_simps]:
  "still (snd (fresh_id t)) = still t" "still (snd (set_timeout cb delay t)) = still t"
  "still (clear_timeout i t) = still t" "still (put_scoped base v t) = still t"
  "still (drop_scoped base t) = still t" "still (clearIdentityStorage t) = still t"
  by (simp_all add: fresh_id_def set_timeout_def clear_timeout_def put_scoped_def drop_scoped_def
      clearIdentityStorage_def still_simps)

lemma still_migrate_key [still_simps]: "still (migrate_key key t) = still t"
  by (simp add: migrate_key_def still_simps split: option.split)

lemma still_migrate [still_simps]: "still (migrateLegacyStorage t) = still t"
  by (simp add: migrateLegacyStorage_def still_simps)

lemmas put_scoped_frame [simp] = still_all [OF still_basic(4)]
lemmas drop_scoped_frame [simp] = still_all [OF still_basic(5)]
lemmas clear_identity_frame [simp] = still_all [OF still_basic(6)]
lemmas storage_update_frame [simp] = still_predicates [OF still_updates(2)]

subsection \<open>Scoped keys\<close>

definition scoped_keys :: "string list" where
  "scoped_keys = [VISITOR_KEY, SESSION_KEY, CONSENT_KEY, OFFLINE_KEY, DROPPED_KEY]"

lemma keys_distinct: "distinct scoped_keys"
  by (simp add: scoped_keys_def key_defs)

lemma keys_neq [simp]:
  "VISITOR_KEY \<noteq> SESSION_KEY"
  "VISITOR_KEY \<noteq> CONSENT_KEY"
  "VISITOR_KEY \<noteq> OFFLINE_KEY"
  "VISITOR_KEY \<noteq> DROPPED_KEY"
  "SESSION_KEY \<noteq> VISITOR_KEY"
  "SESSION_KEY \<noteq> CONSENT_KEY"
  "SESSION_KEY \<noteq> OFFLINE_KEY"
  "SESSION_KEY \<noteq> DROPPED_KEY"
  "CONSENT_KEY \<noteq> VISITOR_KEY"
  "CONSENT_KEY \<noteq> SESSION_KEY"
  "CONSENT_KEY \<noteq> OFFLINE_KEY"
  "CONSENT_KEY \<noteq> DROPPED_KEY"
  "OFFLINE_KEY \<noteq> VISITOR_KEY"
  "OFFLINE_KEY \<noteq> SESSION_KEY"
  "OFFLINE_KEY \<noteq> CONSENT_KEY"
  "OFFLINE_KEY \<noteq> DROPPED_KEY"
  "DROPPED_KEY \<noteq> VISITOR_KEY"
  "DROPPED_KEY \<noteq> SESSION_KEY"
  "DROPPED_KEY \<noteq> CONSENT_KEY"
  "DROPPED_KEY \<noteq> OFFLINE_KEY"
  by (simp_all add: key_defs)

lemma keys_no_colon: "k \<in> set scoped_keys \<Longrightarrow> CHR '':'' \<notin> set k"
  by (auto simp: scoped_keys_def key_defs)

lemma colon_split:
  "c \<notin> set a \<Longrightarrow> c \<notin> set b \<Longrightarrow> a @ c # x = b @ c # y \<Longrightarrow> a = b \<and> x = y"
  by (induction a arbitrary: b) (case_tac b; auto)+

lemma colon_split_last:
  assumes "c \<notin> set x" "c \<notin> set y" "a @ c # x = b @ c # y"
  shows "a = b \<and> x = y"
proof -
  from assms(3) have "rev (a @ c # x) = rev (b @ c # y)" by (simp only:)
  then have "rev x @ c # rev a = rev y @ c # rev b" by simp
  then have "rev x = rev y \<and> rev a = rev b" by (rule colon_split [rotated 2]) (use assms in auto)
  then show ?thesis by simp
qed

lemma storageKey_eqD:
  assumes "k \<in> set scoped_keys" "l \<in> set scoped_keys"
    and "CHR '':'' \<notin> set (option_text environment t)"
    and "CHR '':'' \<notin> set (option_text environment u)"
    and "storageKey t k = storageKey u l"
  shows "k = l \<and> or_str (option_text siteId t) ''unknown'' = or_str (option_text siteId u) ''unknown''
    \<and> or_str (option_text environment t) ''prd'' = or_str (option_text environment u) ''prd''"
proof -
  let ?st = "or_str (option_text siteId t) ''unknown''" and ?su = "or_str (option_text siteId u) ''unknown''"
  let ?et = "or_str (option_text environment t) ''prd''"
  let ?eu = "or_str (option_text environment u) ''prd''"
  have "k @ CHR '':'' # (?st @ CHR '':'' # ?et) = l @ CHR '':'' # (?su @ CHR '':'' # ?eu)"
    using assms(5) by (simp add: storageKey_def)
  from colon_split [OF keys_no_colon [OF assms(1)] keys_no_colon [OF assms(2)] this]
  have kl: "k = l" and rest: "?st @ CHR '':'' # ?et = ?su @ CHR '':'' # ?eu" by blast+
  have "CHR '':'' \<notin> set ?et" "CHR '':'' \<notin> set ?eu" using assms(3,4) by (auto simp: or_str_def)
  from colon_split_last [OF this rest] kl show ?thesis by blast
qed

lemma storageKey_inj:
  "storageKey t k = storageKey t l \<longleftrightarrow> k = l"
  by (auto simp: storageKey_def)

lemma scoped_not_legacy: "CHR '':'' \<notin> set l \<Longrightarrow> storageKey t k \<noteq> l"
  by (auto simp: storageKey_def)

lemma get_put_scoped [simp]:
  "get_scoped (put_scoped k v t) l = (if l = k then Some v else get_scoped t l)"
  unfolding get_scoped_def put_scoped_frame
  by (simp add: put_scoped_def storageKey_inj local_storage.look_store)

lemma get_drop_scoped [simp]:
  "get_scoped (drop_scoped k t) l = (if l = k then None else get_scoped t l)"
  unfolding get_scoped_def drop_scoped_frame
  by (simp add: drop_scoped_def storageKey_inj local_storage.look_remove)

subsection \<open>An example page\<close>

text \<open>The browser and the options on which the properties' witnesses run.\<close>

definition example_page :: browser where
  "example_page =
   \<lparr>now = 5000000, mono = 0, uuid = (\<lambda>n. ''id-'' @ nat_text n), drawn = 0,
    storageOk = True, quotaOk = (\<lambda>_ _. True), storage = (\<lambda>_. None),
    urlParse = (\<lambda>u. Some (''https://shop.kr'', ''/cart'')),
    href = ''https://shop.kr/cart?utm_source=mail'',
    locOrigin = ''https://shop.kr'', pathname = ''/cart'', query = [(''utm_source'', ''mail'')],
    docTitle = ''Cart'', referrer = [], userAgent = ''Chrome/120 (Windows)'', language = ''ko'',
    screenW = 1920, screenH = 1080, doNotTrack = [], onLine = True, hasBeacon = True,
    beaconOk = (\<lambda>_. True), visible = True, scrollTop = 0, focused = None, selection = [],
    readyComplete = True, navEntry = None, hasPerfObserver = True, hasMutationObserver = True,
    resultsAttr = None, startedForms = [], timers = [], nextTimer = 1, sent = []\<rparr>"

definition example_options :: options where
  "example_options =
   \<lparr>siteId = ''shop'', endpoint = ''https://c.kr'', environment = ''prd'', contractVersion = 1,
    mode = Some ''full'', sessionTimeoutMinutes = Some 30, debugOption = None,
    autoTrack = Some True, heartbeatSeconds = Some 15, batchSize = Some 10,
    collectElementText = Some False, sanitizeErrorMessages = Some True, autoRUM = Some True,
    frustrationSignals = Some True, searchTracking = Some True, collectSearchTerms = Some False,
    searchParams = None, appVersion = None, releaseVersion = None, gitSha = None,
    deploymentId = None\<rparr>"

definition example_tracker :: tracker where
  "example_tracker =
     (new_tracker example_page)\<lparr>opts := Some example_options, visitorId := ''v1'', sessionId := ''s1'',
       lastEventAt := 4990000, initialized := True\<rparr>"

lemmas example_defs = example_tracker_def new_tracker_def example_page_def example_options_def

end
