(* ===== verification/Session.thy ===== *)
theory Session
  imports Tracker
begin

section \<open>Visitors, sessions and what an event carries\<close>

text \<open>
  The identity part of the tracker: who the visitor is (\<open>loadIdentity\<close>, \<open>identify\<close>),
  when a session starts anew (\<open>ensureSession\<close>), how it survives a page load
  (\<open>persistSession\<close>) and the context every event carries. A stored session is read through
  the JSON parser; a member of another type than the one the tracker writes counts as missing.
\<close>

subsection \<open>Context of an event\<close>

definition url_param :: "tracker \<Rightarrow> string \<Rightarrow> string" where
  "url_param t name = (case map_of (query t) name of None \<Rightarrow> [] | Some v \<Rightarrow> v)"

definition detectTraffic :: "tracker \<Rightarrow> props" where
  "detectTraffic t =
     [(''source'', or_undef (url_param t ''utm_source'')),
      (''medium'', or_undef (url_param t ''utm_medium'')),
      (''campaign'', or_undef (url_param t ''utm_campaign'')),
      (''term'', or_undef (url_param t ''utm_term'')),
      (''content'', or_undef (url_param t ''utm_content''))]"

definition hasTraffic :: "props \<Rightarrow> bool" where
  "hasTraffic ps \<longleftrightarrow> list_ex truthy (map snd ps)"

definition event_context :: "tracker \<Rightarrow> val" where
  "event_context t = VObj
     [(''page'', VObj
        [(''url'', VStr (sanitizedURL (urlParse t) (href t))),
         (''title'', VStr (docTitle t)),
         (''referrer'', VStr (sanitizedURL (urlParse t) (referrer t)))]),
      (''device'', VObj (parseUA t)),
      (''traffic'', VObj (acquisition t))]"

definition put_text :: "string \<Rightarrow> string option \<Rightarrow> props \<Rightarrow> props" where
  "put_text k v ps = (if opt_text v = [] then ps else setp k (VStr (opt_text v)) ps)"

definition releaseContext :: "tracker \<Rightarrow> props" where
  "releaseContext t =
     (case opts t of
        None \<Rightarrow> []
      | Some p \<Rightarrow>
          put_text ''deployment_id'' (deploymentId p)
            (put_text ''git_sha'' (gitSha p)
              (put_text ''release_version'' (releaseVersion p)
                (put_text ''app_version'' (appVersion p) []))))"

definition contract_version :: "tracker \<Rightarrow> int" where
  "contract_version t =
     (case opts t of None \<Rightarrow> 1 | Some p \<Rightarrow> if contractVersion p = 0 then 1 else contractVersion p)"

text \<open>The event object, its id drawn before its context is read, in the order of the literal.\<close>

definition make_event :: "string \<Rightarrow> props \<Rightarrow> int \<Rightarrow> string \<Rightarrow> tracker \<Rightarrow> val" where
  "make_event name ps timestamp i t = VObj
     [(''id'', VStr i),
      (''name'', VStr name),
      (''timestamp'', vint timestamp),
      (''properties'', VObj ps),
      (''session_properties'', VObj (sessionProperties t)),
      (''context'', event_context t),
      (''debug'', VBool (debugEnabled t)),
      (''contract_version'', vint (contract_version t)),
      (''session_id'', VStr (sessionId t)),
      (''visitor_id'', VStr (visitorId t))]"

definition push_event :: "string \<Rightarrow> props \<Rightarrow> int \<Rightarrow> tracker \<Rightarrow> tracker" where
  "push_event name ps timestamp t =
     (case fresh_id t of (i, u) \<Rightarrow> u\<lparr>queue := queue u @ [make_event name ps timestamp i u]\<rparr>)"

lemma push_event_alt:
  "push_event name ps ts t =
     t\<lparr>drawn := Suc (drawn t),
       queue := queue t @ [make_event name ps ts (uuid t (drawn t)) (t\<lparr>drawn := Suc (drawn t)\<rparr>)]\<rparr>"
  by (simp add: push_event_def fresh_id_def)

subsection \<open>Sessions\<close>

definition session_timeout :: "tracker \<Rightarrow> rat" where
  "session_timeout t = option_num sessionTimeoutMinutes 30 t * 60000"

definition session_over :: "tracker \<Rightarrow> bool" where
  "session_over t \<longleftrightarrow> sessionId t = [] \<or> of_int (now t) - lastEventAt t > session_timeout t"

text \<open>
  The argument is the acquisition a caller wants kept. The \<open>session_start\<close> event is pushed
  straight to the queue.
\<close>

definition ensureSession :: "props option \<Rightarrow> tracker \<Rightarrow> tracker" where
  "ensureSession keep t =
     (if session_over t then
        let timestamp = now t;
            (sid, t1) = fresh_id t;
            t2 = t1\<lparr>sessionId := sid, lastEventAt := of_int timestamp\<rparr>;
            t3 = t2\<lparr>acquisition := (case keep of None \<Rightarrow> detectTraffic t2 | Some a \<Rightarrow> a),
                    sessionProperties := defaultSessionProperties t2\<rparr>
        in if canTrack t3 then push_event ''session_start'' (releaseContext t3) timestamp t3 else t3
      else t)"

definition session_record :: "tracker \<Rightarrow> val" where
  "session_record t = VObj
     [(''id'', VStr (sessionId t)),
      (''last'', vrat (lastEventAt t)),
      (''traffic'', VObj (acquisition t)),
      (''properties'', VObj (sessionProperties t))]"

definition persistSession :: "tracker \<Rightarrow> tracker" where
  "persistSession t =
     (if persistent t then put_scoped SESSION_KEY (json_text (session_record t)) t else t)"

subsection \<open>Loading the identity\<close>

fun obj_of :: "val \<Rightarrow> props option" where
  "obj_of (VObj ps) = Some ps"
| "obj_of _ = None"

fun rat_of :: "val \<Rightarrow> rat" where
  "rat_of (VNum (Fin q)) = q"
| "rat_of _ = 0"

definition acquisition_fallback :: "bool \<Rightarrow> props \<Rightarrow> tracker \<Rightarrow> props" where
  "acquisition_fallback preserve initial t =
     (if preserve \<and> hasTraffic initial then initial else detectTraffic t)"

text \<open>
  The three ways of the session part: the stored session, the \<open>catch\<close> of a text that does not
  parse or parses to \<open>null\<close>, and an identity that is not stored at all. The last two end in
  the same state.
\<close>

definition blank_session :: "props \<Rightarrow> tracker \<Rightarrow> tracker" where
  "blank_session fallback t =
     (case fresh_id t of (i, u) \<Rightarrow>
        u\<lparr>sessionId := i, lastEventAt := 0, acquisition := fallback,
          sessionProperties := defaultSessionProperties u\<rparr>)"

definition stored_session :: "val \<Rightarrow> props \<Rightarrow> tracker \<Rightarrow> tracker" where
  "stored_session s fallback t =
     (let sid = str_of (field s ''id'');
          (i, u) = (if sid = [] then fresh_id t else (sid, t))
      in u\<lparr>sessionId := i,
           lastEventAt := rat_of (field s ''last''),
           acquisition := (case obj_of (field s ''traffic'') of Some a \<Rightarrow> a | None \<Rightarrow> fallback),
           sessionProperties :=
             (case obj_of (field s ''properties'') of
                Some ps \<Rightarrow> spread (defaultSessionProperties u) ps
              | None \<Rightarrow> defaultSessionProperties u)\<rparr>)"

definition load_session :: "props \<Rightarrow> tracker \<Rightarrow> tracker" where
  "load_session fallback t =
     (case json_parse (scoped_or t SESSION_KEY ''{}'') of
        None \<Rightarrow> blank_session fallback t
      | Some VNull \<Rightarrow> blank_session fallback t
      | Some s \<Rightarrow> stored_session s fallback t)"

definition load_visitor :: "tracker \<Rightarrow> tracker" where
  "load_visitor t =
     (let found = (if persistent t then scoped_or t VISITOR_KEY [] else []);
          (v, u) = (if found = [] then fresh_id t else (found, t));
          w = u\<lparr>visitorId := v\<rparr>
      in if persistent w then put_scoped VISITOR_KEY v w else w)"

definition loadIdentity :: "bool \<Rightarrow> tracker \<Rightarrow> tracker" where
  "loadIdentity preserve t =
     (let fallback = acquisition_fallback preserve (acquisition t) t;
          u = load_visitor t;
          w = (if persistent u then load_session fallback u else blank_session fallback u)
      in ensureSession (if preserve then Some fallback else None) w)"

definition clear_timer :: "tracker \<Rightarrow> tracker" where
  "clear_timer t =
     (case timer t of None \<Rightarrow> t | Some i \<Rightarrow> clear_timeout i t)\<lparr>timer := None\<rparr>"

definition renew_ids :: "tracker \<Rightarrow> tracker" where
  "renew_ids t =
     (case fresh_id t of (v, t1) \<Rightarrow>
        case fresh_id (t1\<lparr>visitorId := v\<rparr>) of (s, t2) \<Rightarrow>
          let t3 = t2\<lparr>sessionId := s, lastEventAt := of_int (now t2)\<rparr>
          in t3\<lparr>acquisition := detectTraffic t3\<rparr>)"

definition clearTrackingState :: "tracker \<Rightarrow> tracker" where
  "clearTrackingState t = renew_ids (clearIdentityStorage (clear_timer (t\<lparr>queue := []\<rparr>)))"

subsection \<open>Identified users and session properties\<close>

definition identify :: "string \<Rightarrow> props \<Rightarrow> tracker \<Rightarrow> tracker" where
  "identify user ps t =
     (if user = [] \<or> looksLikeAPerson user then t
      else t\<lparr>userId := user, userProperties := spread (userProperties t) ps\<rparr>)"

definition setSessionProperties :: "props \<Rightarrow> tracker \<Rightarrow> tracker" where
  "setSessionProperties ps t =
     persistSession (t\<lparr>sessionProperties := spread (sessionProperties t) ps\<rparr>)"

subsection \<open>Frame\<close>

lemma still_push_event [still_simps]: "still (push_event name ps ts t) = still t"
  by (simp add: push_event_alt still_simps)

lemma still_ensureSession [still_simps]: "still (ensureSession keep t) = still t"
  by (simp add: ensureSession_def Let_def fresh_id_def still_simps)

lemma still_persistSession [still_simps]: "still (persistSession t) = still t"
  by (simp add: persistSession_def still_simps)

lemma still_blank_session [still_simps]: "still (blank_session fb t) = still t"
  by (simp add: blank_session_def fresh_id_def still_simps)

lemma still_stored_session [still_simps]: "still (stored_session s fb t) = still t"
  by (simp add: stored_session_def fresh_id_def Let_def still_simps)

lemma still_load_session [still_simps]: "still (load_session fb t) = still t"
  by (simp add: load_session_def still_simps split: option.split val.split)

lemma still_load_visitor [still_simps]: "still (load_visitor t) = still t"
  by (simp add: load_visitor_def fresh_id_def Let_def still_simps)

lemma still_loadIdentity [still_simps]: "still (loadIdentity preserve t) = still t"
  by (simp add: loadIdentity_def Let_def still_simps)

lemma still_clear_timer [still_simps]: "still (clear_timer t) = still t"
  by (simp add: clear_timer_def still_simps split: option.split)

lemma still_renew_ids [still_simps]: "still (renew_ids t) = still t"
  by (simp add: renew_ids_def fresh_id_def Let_def still_simps)

lemma still_clearTrackingState [still_simps]: "still (clearTrackingState t) = still t"
  by (simp add: clearTrackingState_def still_simps)

lemmas push_event_frame [simp] = still_all [OF still_push_event]
lemmas ensureSession_frame [simp] = still_all [OF still_ensureSession]
lemmas persistSession_frame [simp] = still_all [OF still_persistSession]
lemmas load_visitor_frame [simp] = still_all [OF still_load_visitor]
lemmas loadIdentity_frame [simp] = still_all [OF still_loadIdentity]
lemmas clearTrackingState_frame [simp] = still_all [OF still_clearTrackingState]

lemma wf_put_text [simp]: "wf_obj ps \<Longrightarrow> wf_obj (put_text k v ps)"
  by (simp add: put_text_def)

lemma keys_put_text:
  "set (keys ps) \<subseteq> K \<Longrightarrow> k \<in> K \<Longrightarrow> set (keys (put_text k v ps)) \<subseteq> K"
  unfolding put_text_def using set_keys_setp [of k _ ps] by auto

lemma wf_obj_Nil [simp]: "wf_obj []"
  by (simp add: wf_obj_def)

definition release_keys :: "string set" where
  "release_keys = {''app_version'', ''release_version'', ''git_sha'', ''deployment_id''}"

lemma releaseContext_wf [simp]: "wf_obj (releaseContext t)"
  by (simp add: releaseContext_def split: option.split)

lemma keys_releaseContext: "set (keys (releaseContext t)) \<subseteq> release_keys"
proof (cases "opts t")
  case (Some p)
  show ?thesis unfolding releaseContext_def Some option.case release_keys_def
    by (intro keys_put_text) simp_all
qed (simp add: releaseContext_def)

text \<open>A property that is not one of the release's is found in the event as it was given.\<close>

lemma getp_with_release:
  "k \<notin> release_keys \<Longrightarrow> getp (spread ps (releaseContext t)) k = getp ps k"
  using keys_releaseContext [of t] by (auto simp: getp_spread simp del: set_map)

text \<open>Fields that the session operations leave alone although \<open>still\<close> blanks them.\<close>

lemma push_event_sel [simp]:
  "storage (push_event name ps ts t) = storage t" "timers (push_event name ps ts t) = timers t"
  "visitorId (push_event name ps ts t) = visitorId t"
  "sessionId (push_event name ps ts t) = sessionId t"
  "lastEventAt (push_event name ps ts t) = lastEventAt t"
  "acquisition (push_event name ps ts t) = acquisition t"
  "sessionProperties (push_event name ps ts t) = sessionProperties t"
  "flights (push_event name ps ts t) = flights t" "sent (push_event name ps ts t) = sent t"
  "handedOver (push_event name ps ts t) = handedOver t" "timer (push_event name ps ts t) = timer t"
  by (simp_all add: push_event_alt)

lemma ensureSession_sel [simp]:
  "storage (ensureSession keep t) = storage t" "timers (ensureSession keep t) = timers t"
  "visitorId (ensureSession keep t) = visitorId t" "flights (ensureSession keep t) = flights t"
  "sent (ensureSession keep t) = sent t" "handedOver (ensureSession keep t) = handedOver t"
  "timer (ensureSession keep t) = timer t"
  by (simp_all add: ensureSession_def Let_def fresh_id_def)

lemma persistSession_sel [simp]:
  "queue (persistSession t) = queue t" "timers (persistSession t) = timers t"
  "visitorId (persistSession t) = visitorId t" "sessionId (persistSession t) = sessionId t"
  "lastEventAt (persistSession t) = lastEventAt t" "acquisition (persistSession t) = acquisition t"
  "sessionProperties (persistSession t) = sessionProperties t"
  "flights (persistSession t) = flights t" "sent (persistSession t) = sent t"
  "handedOver (persistSession t) = handedOver t" "timer (persistSession t) = timer t"
  by (simp_all add: persistSession_def put_scoped_def)

lemma event_fields [simp]:
  "field (make_event name ps ts i t) ''id'' = VStr i"
  "field (make_event name ps ts i t) ''name'' = VStr name"
  "field (make_event name ps ts i t) ''session_id'' = VStr (sessionId t)"
  "field (make_event name ps ts i t) ''visitor_id'' = VStr (visitorId t)"
  "field (make_event name ps ts i t) ''properties'' = VObj ps"
  "field (make_event name ps ts i t) ''timestamp'' = vint ts"
  by (simp_all add: make_event_def)

subsection \<open>A session across page loads\<close>

lemma scoped_or_alt:
  "scoped_or t k d = (case get_scoped t k of None \<Rightarrow> d | Some v \<Rightarrow> or_str v d)"
  by (simp add: scoped_or_def get_scoped_def item_or_def read_item_def)

lemma quote_nonempty: "json_text (VObj ps) \<noteq> []"
  by (simp add: json_text_def)

lemma get_load_visitor_other:
  "k \<noteq> VISITOR_KEY \<Longrightarrow> get_scoped (load_visitor t) k = get_scoped t k"
proof -
  assume k: "k \<noteq> VISITOR_KEY"
  have s: "get_scoped (u\<lparr>visitorId := v\<rparr>) l = get_scoped u l" for u v l
    by (simp add: get_scoped_def still_all [OF still_updates(6)])
  have f: "get_scoped (t\<lparr>drawn := d\<rparr>) l = get_scoped t l" for d l
    by (simp add: get_scoped_def still_all [OF still_updates(1)])
  show ?thesis using k
    by (simp add: load_visitor_def Let_def fresh_id_def s f split: prod.split)
qed

lemma load_visitor_stored:
  assumes "persistent t" "get_scoped t VISITOR_KEY = Some v" "v \<noteq> []"
  shows "visitorId (load_visitor t) = v" "queue (load_visitor t) = queue t"
  using assms by (simp_all add: load_visitor_def Let_def scoped_or_alt or_str_def put_scoped_def)

definition session_ok :: "tracker \<Rightarrow> bool" where
  "session_ok t \<longleftrightarrow> sessionId t \<noteq> [] \<and> json_ok (session_record t)"

lemma persisted_text:
  "persistent t \<Longrightarrow> get_scoped (persistSession t) SESSION_KEY = Some (json_text (session_record t))"
  by (simp add: persistSession_def)

lemma load_session_stored:
  assumes "session_ok t" "get_scoped u SESSION_KEY = Some (json_text (session_record t))"
  shows "load_session fb u = u\<lparr>sessionId := sessionId t, lastEventAt := lastEventAt t,
     acquisition := clean_members (acquisition t),
     sessionProperties := spread (defaultSessionProperties u) (clean_members (sessionProperties t))\<rparr>"
proof -
  have "json_parse (json_text (session_record t)) = Some (json_clean (session_record t))"
    using assms(1) unfolding session_ok_def by (intro json.decode_encode) simp
  then have "json_parse (scoped_or u SESSION_KEY ''{}'') = Some (json_clean (session_record t))"
    using assms(2) quote_nonempty by (simp add: scoped_or_alt or_str_def session_record_def)
  then show ?thesis using assms(1)
    by (simp add: load_session_def session_record_def stored_session_def Let_def session_ok_def)
qed

lemma load_visitor_session_fields [simp]:
  "defaultSessionProperties (load_visitor u) = defaultSessionProperties u"
  "session_timeout (t\<lparr>sessionId := a, lastEventAt := b, acquisition := c, sessionProperties := d\<rparr>)
    = session_timeout t"
  "session_timeout (load_visitor u) = session_timeout u"
  by (simp_all add: session_timeout_def option_num_def)

text \<open>
  C23: a session and its visitor survive a page load. If a tracker stored its session and a tracker
  of the same site and environment loads it before the timeout has passed, the new page carries on
  with the same visitor, the same session and the same acquisition, and starts no new session.
\<close>

theorem session_survives_reload:
  assumes "persistent t" "session_ok t"
    and "storage u = storage (persistSession t)" "storageKey u = storageKey t" "persistent u"
    and "get_scoped t VISITOR_KEY = Some (visitorId t)" "visitorId t \<noteq> []"
    and "of_int (now u) - lastEventAt t \<le> session_timeout u"
  shows "let w = loadIdentity False u in
    visitorId w = visitorId t \<and> sessionId w = sessionId t \<and> lastEventAt w = lastEventAt t
    \<and> acquisition w = clean_members (acquisition t)
    \<and> sessionProperties w =
        spread (defaultSessionProperties u) (clean_members (sessionProperties t))
    \<and> queue w = queue u"
proof -
  have get: "get_scoped u k = get_scoped (persistSession t) k" for k
    by (simp add: get_scoped_def assms(3,4))
  have sess: "get_scoped (load_visitor u) SESSION_KEY = Some (json_text (session_record t))"
    by (simp add: get_load_visitor_other get persisted_text [OF assms(1)])
  have vis: "get_scoped u VISITOR_KEY = Some (visitorId t)"
    using assms(1,6) by (simp add: get persistSession_def)
  define w where "w = load_session (acquisition_fallback False (acquisition u) u) (load_visitor u)"
  note w = w_def [unfolded load_session_stored [OF assms(2) sess]]
  have over: "\<not> session_over w"
    using assms(2,8) by (simp add: w session_over_def session_ok_def)
  have "loadIdentity False u = w"
    using assms(5) over by (simp add: loadIdentity_def Let_def w_def ensureSession_def)
  then show ?thesis
    using load_visitor_stored [OF assms(5) vis assms(7)] by (simp add: w Let_def)
qed

text \<open>The example's tracker reads its own session back on a second page.\<close>

definition example_stored :: tracker where
  "example_stored = put_scoped VISITOR_KEY ''v1'' example_tracker"

definition example_reload :: tracker where
  "example_reload = (persistSession example_stored)\<lparr>now := 5600000\<rparr>"

lemma session_survives_reload_witness:
  "let w = loadIdentity False example_reload in
    visitorId w = ''v1'' \<and> sessionId w = ''s1'' \<and> queue w = []"
proof -
  have p: "persistent example_stored" "persistent example_reload"
    by (simp_all add: example_reload_def example_stored_def persistSession_def persistent_def
        isPersistent_def example_defs put_scoped_def)
  have "session_ok example_stored"
    using short_decimal_int [of 4990000]
    by (simp add: session_ok_def session_record_def example_stored_def example_defs put_scoped_def
        wf_obj_def)
  moreover have "storage example_reload = storage (persistSession example_stored)"
    by (simp add: example_reload_def)
  moreover have "storageKey example_reload = storageKey example_stored"
    by (rule ext) (simp add: example_reload_def storageKey_def option_text_def)
  moreover have "get_scoped example_stored VISITOR_KEY = Some (visitorId example_stored)"
    by (simp add: example_stored_def) (simp add: example_defs put_scoped_def)
  moreover have "visitorId example_stored = ''v1''" "sessionId example_stored = ''s1''"
    "queue example_reload = []"
    by (simp_all add: example_reload_def example_stored_def example_defs put_scoped_def)
  moreover have "of_int (now example_reload) - lastEventAt example_stored
      \<le> session_timeout example_reload"
    by (simp add: example_reload_def example_stored_def session_timeout_def option_num_def)
      (simp add: example_defs or_num_def put_scoped_def)
  ultimately show ?thesis
    using session_survives_reload [OF p(1) _ _ _ p(2)] by (simp add: Let_def)
qed

end
