(* ===== verification/Delivery.thy ===== *)
theory Delivery
  imports Session "HOL-Library.Multiset"
begin

section \<open>Queue, batches and the offline store\<close>

text \<open>
  How an event leaves the tracker: \<open>track\<close> queues it, \<open>flush\<close> takes a batch, splits it
  by session (\<open>groupBySession\<close>) and sends one payload per group (\<open>deliver\<close>); a batch that
  fails goes back and is written to the offline store, whose overflow is counted.

  \<open>flush\<close> is asynchronous. Its synchronous part runs up to the first \<open>await\<close> and leaves
  a \<open>flight\<close>; \<open>settle i ok\<close> is the resumption of flight \<open>i\<close> with the outcome of
  the request it waits for (a beacon knows its outcome already). Between the two, any other
  operation may run.
\<close>

subsection \<open>Scheduling\<close>

definition scheduleFlush :: "tracker \<Rightarrow> tracker" where
  "scheduleFlush t =
     (if timer t \<noteq> None then t
      else case set_timeout FlushTimer 1000 t of (i, u) \<Rightarrow> u\<lparr>timer := Some i\<rparr>)"

subsection \<open>The offline store\<close>

definition OFFLINE_LIMIT :: nat where
  "OFFLINE_LIMIT = 200"

text \<open>\<open>xs.slice(-n)\<close> for a positive \<open>n\<close>.\<close>

definition slice_last :: "nat \<Rightarrow> 'a list \<Rightarrow> 'a list" where
  "slice_last n xs = drop (length xs - n) xs"

definition stored_count :: "tracker \<Rightarrow> jnum" where
  "stored_count t =
     (case get_scoped t DROPPED_KEY of
        None \<Rightarrow> Fin 0 | Some s \<Rightarrow> if s = [] then Fin 0 else js_number s)"

text \<open>\<open>(previous || 0) + count\<close>.\<close>

fun count_plus :: "jnum \<Rightarrow> nat \<Rightarrow> jnum" where
  "count_plus (Fin q) n = Fin (q + of_nat n)"
| "count_plus NaN n = Fin (of_nat n)"
| "count_plus PInf n = PInf"
| "count_plus NInf n = NInf"

text \<open>A write that may exceed the quota: \<open>None\<close> is the exception.\<close>

definition try_put :: "string \<Rightarrow> string \<Rightarrow> tracker \<Rightarrow> tracker option" where
  "try_put base v t = (if quotaOk t (storageKey t base) v then Some (put_scoped base v t) else None)"

definition recordDropped :: "nat \<Rightarrow> tracker \<Rightarrow> tracker" where
  "recordDropped n t =
     (if n = 0 \<or> \<not> persistent t then t
      else case try_put DROPPED_KEY (num_text (count_plus (stored_count t) n)) t of
             None \<Rightarrow> t | Some u \<Rightarrow> u)"

definition saveOffline :: "tracker \<Rightarrow> tracker" where
  "saveOffline t =
     (if \<not> persistent t then t
      else
        let kept = slice_last OFFLINE_LIMIT (queue t);
            u = recordDropped (length (queue t) - length kept) t
        in case try_put OFFLINE_KEY (json_text (VArr kept)) u of
             Some w \<Rightarrow> w
           | None \<Rightarrow> recordDropped (length (queue t)) u)"

definition restoreOffline :: "tracker \<Rightarrow> tracker" where
  "restoreOffline t =
     (if \<not> persistent t then t
      else case json_parse (scoped_or t OFFLINE_KEY ''[]'') of
             None \<Rightarrow> t
           | Some saved \<Rightarrow>
               drop_scoped OFFLINE_KEY
                 (case saved of
                    VArr vs \<Rightarrow> t\<lparr>queue := queue t @ slice_last OFFLINE_LIMIT vs\<rparr>
                  | _ \<Rightarrow> t))"

subsection \<open>Payloads\<close>

definition event_visitor :: "tracker \<Rightarrow> val \<Rightarrow> string" where
  "event_visitor t e = or_str (str_of (field e ''visitor_id'')) (visitorId t)"

definition event_session :: "tracker \<Rightarrow> val \<Rightarrow> string" where
  "event_session t e = or_str (str_of (field e ''session_id'')) (sessionId t)"

definition group_key :: "tracker \<Rightarrow> val \<Rightarrow> string" where
  "group_key t e = event_visitor t e @ [CHR 0x00] @ event_session t e"

text \<open>The \<open>Map\<close> of the source: its entries in the order of their first insertion.\<close>

fun add_to_group :: "'k \<Rightarrow> 'v \<Rightarrow> ('k \<times> 'v list) list \<Rightarrow> ('k \<times> 'v list) list" where
  "add_to_group k e [] = [(k, [e])]"
| "add_to_group k e ((k', es) # gs) =
     (if k = k' then (k', es @ [e]) # gs else (k', es) # add_to_group k e gs)"

definition groups_of :: "('v \<Rightarrow> 'k) \<Rightarrow> 'v list \<Rightarrow> ('k \<times> 'v list) list" where
  "groups_of key es = foldl (\<lambda>gs e. add_to_group (key e) e gs) [] es"

definition groupBySession :: "tracker \<Rightarrow> val list \<Rightarrow> val list list" where
  "groupBySession t es = map snd (groups_of (group_key t) es)"

fun wire_event :: "val \<Rightarrow> val" where
  "wire_event (VObj ps) = VObj (without ''visitor_id'' (without ''session_id'' ps))"
| "wire_event v = v"

definition payload :: "tracker \<Rightarrow> val list \<Rightarrow> val" where
  "payload t es =
     (let first = (case es of [] \<Rightarrow> VUndef | e # _ \<Rightarrow> e) in VObj
     [(''site_id'', VStr (option_text siteId t)),
      (''environment'', VStr (option_text environment t)),
      (''visitor_id'', VStr (event_visitor t first)),
      (''session_id'', VStr (event_session t first)),
      (''user_id'', or_undef (userId t)),
      (''user_properties'', VObj (userProperties t)),
      (''session_properties'', VObj (sessionProperties t)),
      (''context'', (let c = field first ''context'' in if truthy c then c else event_context t)),
      (''events'', VArr (map wire_event es))])"

definition collectorURL :: "tracker \<Rightarrow> string" where
  "collectorURL t = option_text endpoint t @ ''/collect/v1/events''"

text \<open>
  One request. The second component is the outcome where it is known at once: a beacon while
  offline throws, a beacon the browser refuses throws.
\<close>

definition deliver :: "val list \<Rightarrow> bool \<Rightarrow> tracker \<Rightarrow> tracker \<times> bool option" where
  "deliver es useBeacon t =
     (let body = json_text (payload t es);
          sentBy = (\<lambda>b. t\<lparr>sent := sent t @
             [\<lparr>rq_url = collectorURL t, rq_body = body, rq_beacon = b, rq_events = es\<rparr>]\<rparr>)
      in if useBeacon \<and> hasBeacon t then
           (if \<not> onLine t then (t, Some False)
            else if beaconOk t body then (sentBy True, Some True)
            else (t, Some False))
         else (sentBy False, None))"

subsection \<open>Flushing\<close>

text \<open>The loop over the groups, from one \<open>await\<close> to the next.\<close>

definition advance :: "flight \<Rightarrow> tracker \<Rightarrow> tracker" where
  "advance f t =
     (case fl_todo f of
        [] \<Rightarrow>
          (let u = t\<lparr>handedOver := handedOver t @ fl_batch f\<rparr> in
           if queue u = [] then u else scheduleFlush u)
      | g # gs \<Rightarrow>
          (case deliver g (fl_beacon f) t of (u, out) \<Rightarrow>
             u\<lparr>flights := flights u @ [f\<lparr>fl_todo := gs, fl_outcome := out\<rparr>]\<rparr>))"

text \<open>The \<open>catch\<close>: the whole batch goes back to the front of the queue.\<close>

definition take_back :: "flight \<Rightarrow> tracker \<Rightarrow> tracker" where
  "take_back f t = saveOffline (t\<lparr>queue := fl_batch f @ queue t\<rparr>)"

definition batch_size :: "tracker \<Rightarrow> rat" where
  "batch_size t = option_num batchSize 10 t"

definition flush :: "bool \<Rightarrow> tracker \<Rightarrow> tracker" where
  "flush useBeacon t =
     (if opts t = None \<or> queue t = [] \<or> \<not> canTrack t then t
      else
        let n = nat (js_trunc (batch_size t));
            batch = take n (queue t);
            u = t\<lparr>queue := drop n (queue t)\<rparr>
        in advance \<lparr>fl_batch = batch, fl_todo = groupBySession u batch, fl_beacon = useBeacon,
                    fl_outcome = None\<rparr> u)"

definition drop_nth :: "nat \<Rightarrow> 'a list \<Rightarrow> 'a list" where
  "drop_nth i xs = take i xs @ drop (Suc i) xs"

definition settle :: "nat \<Rightarrow> bool \<Rightarrow> tracker \<Rightarrow> tracker" where
  "settle i ok t =
     (if i < length (flights t) then
        let f = flights t ! i;
            u = t\<lparr>flights := drop_nth i (flights t)\<rparr>;
            good = (case fl_outcome f of None \<Rightarrow> ok | Some b \<Rightarrow> b)
        in if good then advance f u else take_back f u
      else t)"

subsection \<open>Tracking\<close>

definition track :: "string \<Rightarrow> props \<Rightarrow> tracker \<Rightarrow> tracker" where
  "track name ps t =
     (if \<not> canTrack t then t
      else
        let t1 = ensureSession None t;
            timestamp = now t1;
            t2 = push_event name (spread ps (releaseContext t1)) timestamp t1;
            t3 = t2\<lparr>lastEventAt := of_int timestamp\<rparr>;
            t4 = persistSession t3
        in if of_nat (length (queue t4)) \<ge> batch_size t4 then flush False t4 else scheduleFlush t4)"

definition positive :: "jnum \<Rightarrow> bool" where
  "positive n \<longleftrightarrow> (case n of Fin q \<Rightarrow> q > 0 | PInf \<Rightarrow> True | _ \<Rightarrow> False)"

definition reportDropped :: "tracker \<Rightarrow> tracker" where
  "reportDropped t =
     (if \<not> persistent t then t
      else
        let dropped = stored_count t;
            u = drop_scoped DROPPED_KEY t
        in if positive dropped then track ''collection_dropped'' [(''events_dropped'', VNum dropped)] u
           else u)"

subsection \<open>Frame\<close>

lemma still_scheduleFlush [still_simps]: "still (scheduleFlush t) = still t"
  by (simp add: scheduleFlush_def set_timeout_def still_simps)

lemma try_put_Some: "try_put k v t = Some u \<Longrightarrow> u = put_scoped k v t"
  by (simp add: try_put_def split: if_splits)

lemma still_recordDropped [still_simps]: "still (recordDropped n t) = still t"
  by (auto simp: recordDropped_def still_simps dest: try_put_Some split: option.split)

lemmas recordDropped_frame [simp] = still_all [OF still_recordDropped]

lemma recordDropped_sel [simp]:
  "queue (recordDropped n t) = queue t" "flights (recordDropped n t) = flights t"
  "handedOver (recordDropped n t) = handedOver t" "sent (recordDropped n t) = sent t"
  "visitorId (recordDropped n t) = visitorId t" "sessionId (recordDropped n t) = sessionId t"
  by (auto simp: recordDropped_def put_scoped_def dest!: try_put_Some split: option.split)

lemma still_saveOffline [still_simps]: "still (saveOffline t) = still t"
  by (auto simp: saveOffline_def Let_def still_simps dest!: try_put_Some split: option.split)

lemma saveOffline_sel [simp]:
  "queue (saveOffline t) = queue t" "flights (saveOffline t) = flights t"
  "handedOver (saveOffline t) = handedOver t" "sent (saveOffline t) = sent t"
  "visitorId (saveOffline t) = visitorId t" "sessionId (saveOffline t) = sessionId t"
  by (auto simp: saveOffline_def Let_def dest!: try_put_Some split: option.split)
    (simp_all add: put_scoped_def)

lemma still_restoreOffline [still_simps]: "still (restoreOffline t) = still t"
  by (auto simp: restoreOffline_def still_simps split: option.split val.split)

lemma still_deliver [still_simps]: "still (fst (deliver es b t)) = still t"
  by (simp add: deliver_def Let_def still_simps)

lemma still_advance [still_simps]: "still (advance f t) = still t"
  by (auto simp: advance_def Let_def still_simps split: list.split prod.split)
    (metis fst_conv still_deliver)

lemma still_take_back [still_simps]: "still (take_back f t) = still t"
  by (simp add: take_back_def still_simps)

lemma still_flush [still_simps]: "still (flush b t) = still t"
  by (simp add: flush_def Let_def still_simps)

lemma still_settle [still_simps]: "still (settle i ok t) = still t"
  by (simp add: settle_def Let_def still_simps)

lemma still_track [still_simps]: "still (track name ps t) = still t"
  by (simp add: track_def Let_def still_simps)

lemma still_reportDropped [still_simps]: "still (reportDropped t) = still t"
  by (simp add: reportDropped_def Let_def still_simps)

lemmas scheduleFlush_frame [simp] = still_all [OF still_scheduleFlush]
lemmas saveOffline_frame [simp] = still_all [OF still_saveOffline]
lemmas restoreOffline_frame [simp] = still_all [OF still_restoreOffline]
lemmas flush_frame [simp] = still_all [OF still_flush]
lemmas settle_frame [simp] = still_all [OF still_settle]
lemmas track_frame [simp] = still_all [OF still_track]
lemmas reportDropped_frame [simp] = still_all [OF still_reportDropped]

lemma scheduleFlush_sel [simp]:
  "queue (scheduleFlush t) = queue t" "flights (scheduleFlush t) = flights t"
  "handedOver (scheduleFlush t) = handedOver t" "sent (scheduleFlush t) = sent t"
  "storage (scheduleFlush t) = storage t" "visitorId (scheduleFlush t) = visitorId t"
  "sessionId (scheduleFlush t) = sessionId t" "lastEventAt (scheduleFlush t) = lastEventAt t"
  by (simp_all add: scheduleFlush_def set_timeout_def)

lemma deliver_sel [simp]:
  "queue (fst (deliver es b t)) = queue t" "flights (fst (deliver es b t)) = flights t"
  "handedOver (fst (deliver es b t)) = handedOver t" "storage (fst (deliver es b t)) = storage t"
  by (simp_all add: deliver_def Let_def)

subsection \<open>Grouping\<close>

text \<open>
  The specification: one group per key, in the order the keys first occur, each holding exactly the
  events of its key in their original order.
\<close>

fun first_seen :: "'k list \<Rightarrow> 'k list" where
  "first_seen [] = []"
| "first_seen (k # ks) = k # filter (\<lambda>x. x \<noteq> k) (first_seen ks)"

lemma set_first_seen [simp]: "set (first_seen ks) = set ks"
  by (induction ks) auto

lemma distinct_first_seen [simp]: "distinct (first_seen ks)"
  by (induction ks) auto

lemma first_seen_snoc:
  "first_seen (ks @ [k]) = (if k \<in> set ks then first_seen ks else first_seen ks @ [k])"
  by (induction ks) auto

lemma add_to_group_map:
  assumes "distinct ks"
  shows "add_to_group k e (map (\<lambda>x. (x, f x)) ks) =
    (if k \<in> set ks then map (\<lambda>x. (x, if x = k then f x @ [e] else f x)) ks
     else map (\<lambda>x. (x, f x)) ks @ [(k, [e])])"
  using assms by (induction ks) (auto intro!: map_cong)

lemma groups_of_spec:
  "groups_of key es = map (\<lambda>k. (k, filter (\<lambda>e. key e = k) es)) (first_seen (map key es))"
proof (induction es rule: rev_induct)
  case (snoc e es)
  have step: "groups_of key (es @ [e]) = add_to_group (key e) e (groups_of key es)"
    by (simp add: groups_of_def)
  show ?case
  proof (cases "key e \<in> set (map key es)")
    case True
    then show ?thesis unfolding step snoc
      by (auto simp: add_to_group_map first_seen_snoc intro!: map_cong)
  next
    case False
    then have "filter (\<lambda>x. key x = key e) es = []" by (auto simp: filter_empty_conv image_iff)
    with False show ?thesis unfolding step snoc
      by (auto simp: add_to_group_map first_seen_snoc intro!: map_cong)
  qed
qed (simp add: groups_of_def)

lemma groupBySession_spec:
  "groupBySession t es =
     map (\<lambda>k. filter (\<lambda>e. group_key t e = k) es) (first_seen (map (group_key t) es))"
  by (simp add: groupBySession_def groups_of_spec)

lemma mset_concat_filter:
  "distinct ks \<Longrightarrow> set (map key es) \<subseteq> set ks \<Longrightarrow>
   mset (concat (map (\<lambda>k. filter (\<lambda>e. key e = k) es) ks)) = mset es"
proof (induction es)
  case (Cons e es)
  have split: "mset (concat (map (\<lambda>k. filter (\<lambda>x. key x = k) (e # es)) ks))
      = mset (concat (map (\<lambda>k. filter (\<lambda>x. key x = k) es) ks))
        + mset (concat (map (\<lambda>k. if key e = k then [e] else []) ks))"
    for ks by (induction ks) auto
  have "mset (concat (map (\<lambda>k. if key e = k then [e] else []) ks)) = {#e#}"
    if "distinct ks" "key e \<in> set ks" for ks
    using that
  proof (induction ks)
    case (Cons k ks)
    show ?case
    proof (cases "key e = k")
      case True
      with Cons.prems have "concat (map (\<lambda>k. if key e = k then [e] else []) ks) = []" by auto
      with True show ?thesis by simp
    qed (use Cons in auto)
  qed simp
  with Cons split [of ks] show ?case by simp
qed (induction ks, auto)

lemma groupBySession_mset: "mset (concat (groupBySession t es)) = mset es"
  unfolding groupBySession_spec by (rule mset_concat_filter) simp_all

lemma groupBySession_nonempty: "g \<in> set (groupBySession t es) \<Longrightarrow> g \<noteq> []"
  by (auto simp: groupBySession_spec filter_empty_conv)

lemma groupBySession_key:
  "g \<in> set (groupBySession t es) \<Longrightarrow> e \<in> set g \<Longrightarrow> e' \<in> set g \<Longrightarrow> group_key t e = group_key t e'"
  by (auto simp: groupBySession_spec)

lemma groupBySession_subset: "g \<in> set (groupBySession t es) \<Longrightarrow> set g \<subseteq> set es"
  by (auto simp: groupBySession_spec)

text \<open>
  C22: splitting a batch by session is grouping by key: the groups appear in the order their session
  first occurs in the batch, every group keeps the order of its events, no group is empty, and no
  event is lost or doubled.
\<close>

theorem groupBySession_groups:
  "groupBySession t es =
     map (\<lambda>k. filter (\<lambda>e. group_key t e = k) es) (first_seen (map (group_key t) es))
   \<and> mset (concat (groupBySession t es)) = mset es
   \<and> [] \<notin> set (groupBySession t es)"
  using groupBySession_spec groupBySession_mset groupBySession_nonempty by blast

text \<open>
  the visitor and the session that a payload names are those of every event in it, so no event
  is delivered under another session, and the events on the wire repeat neither of them.
\<close>

theorem payload_names_its_events:
  assumes "g \<in> set (groupBySession t es)" "e \<in> set g"
    and "list_all (\<lambda>e. CHR 0x00 \<notin> set (event_visitor t e)) es"
  shows "field (payload t g) ''visitor_id'' = VStr (event_visitor t e)
    \<and> field (payload t g) ''session_id'' = VStr (event_session t e)
    \<and> field (wire_event e) ''visitor_id'' = VUndef \<and> field (wire_event e) ''session_id'' = VUndef"
proof -
  obtain f rest where g: "g = f # rest" using groupBySession_nonempty [OF assms(1)] by (cases g) auto
  have key: "group_key t f = group_key t e"
    by (rule groupBySession_key [OF assms(1)]) (use assms(2) g in simp_all)
  have in_es: "set g \<subseteq> set es" using groupBySession_subset [OF assms(1)] .
  have "CHR 0x00 \<notin> set (event_visitor t f)" "CHR 0x00 \<notin> set (event_visitor t e)"
    using assms(2,3) in_es g by (auto simp: list_all_iff)
  then have "event_visitor t f = event_visitor t e \<and> event_session t f = event_session t e"
    by (rule colon_split) (use key in \<open>simp add: group_key_def\<close>)
  moreover have "field (wire_event e) ''visitor_id'' = VUndef"
    "field (wire_event e) ''session_id'' = VUndef"
    by (cases e; simp add: obj_simps)+
  ultimately show ?thesis by (simp add: payload_def g Let_def)
qed

lemma payload_names_its_events_witness:
  "let t = example_tracker; e = make_event ''click'' [] 5 ''i'' t in
     field (payload t [e]) ''visitor_id'' = VStr (event_visitor t e)
   \<and> field (payload t [e]) ''session_id'' = VStr (event_session t e)"
proof -
  let ?e = "make_event ''click'' [] 5 ''i'' example_tracker"
  have g: "groupBySession example_tracker [?e] = [[?e]]"
    by (simp add: groupBySession_def groups_of_def)
  have "CHR 0x00 \<notin> set (event_visitor example_tracker ?e)"
    unfolding event_visitor_def event_fields by (simp add: example_defs or_str_def)
  with payload_names_its_events [of "[?e]" example_tracker "[?e]" ?e] show ?thesis
    by (simp add: g Let_def)
qed

end
