(* ===== verification/Offline.thy ===== *)
theory Offline
  imports Delivery
begin

section \<open>Conservation of events and the offline store\<close>

text \<open>
  Two accounts of where events are. \<open>ledger\<close> is the multiset of the events the tracker of this
  page is responsible for: queued, taken by a suspended \<open>flush\<close>, or delivered. Flushing and
  resuming only move events within it. Across page loads, what \<open>saveOffline\<close> writes is what
  \<open>restoreOffline\<close> reads, up to the cap, and the counter of dropped events.
\<close>

subsection \<open>The ledger\<close>

definition in_flight :: "flight list \<Rightarrow> val multiset" where
  "in_flight fs = sum_list (map (\<lambda>f. mset (fl_batch f)) fs)"

definition ledger :: "tracker \<Rightarrow> val multiset" where
  "ledger t = mset (queue t) + in_flight (flights t) + mset (handedOver t)"

lemma in_flight_simps [simp]:
  "in_flight [] = {#}" "in_flight (f # fs) = mset (fl_batch f) + in_flight fs"
  "in_flight (fs @ gs) = in_flight fs + in_flight gs"
  by (simp_all add: in_flight_def)

lemma in_flight_drop_nth:
  "i < length fs \<Longrightarrow> in_flight fs = mset (fl_batch (fs ! i)) + in_flight (drop_nth i fs)"
  by (subst id_take_nth_drop [of i fs]) (simp_all add: drop_nth_def)

lemma ledger_scheduleFlush [simp]: "ledger (scheduleFlush t) = ledger t"
  by (simp add: ledger_def)

lemma ledger_saveOffline [simp]: "ledger (saveOffline t) = ledger t"
  by (simp add: ledger_def)

lemma ledger_persistSession [simp]: "ledger (persistSession t) = ledger t"
  by (simp add: ledger_def)

lemma ledger_advance: "ledger (advance f t) = ledger t + mset (fl_batch f)"
proof (cases "fl_todo f")
  case Nil
  then show ?thesis by (simp add: advance_def Let_def) (simp add: ledger_def)
next
  case (Cons g gs)
  obtain u out where d: "deliver g (fl_beacon f) t = (u, out)" by fastforce
  then have "fst (deliver g (fl_beacon f) t) = u" by simp
  from Cons d deliver_sel [of g "fl_beacon f" t, unfolded this] show ?thesis
    by (simp add: advance_def ledger_def)
qed

lemma ledger_take_back: "ledger (take_back f t) = ledger t + mset (fl_batch f)"
  by (simp add: take_back_def) (simp add: ledger_def)

lemma ledger_flush: "ledger (flush b t) = ledger t"
proof -
  have "mset (drop n (queue t)) + mset (take n (queue t)) = mset (queue t)" for n
    by (metis append_take_drop_id mset_append union_commute)
  then show ?thesis
    by (simp add: flush_def Let_def ledger_advance) (simp add: ledger_def)
qed

lemma ledger_settle: "ledger (settle i ok t) = ledger t"
proof (cases "i < length (flights t)")
  case True
  have "ledger t = ledger (t\<lparr>flights := drop_nth i (flights t)\<rparr>) + mset (fl_batch (flights t ! i))"
    using in_flight_drop_nth [OF True] by (simp add: ledger_def)
  then show ?thesis by (simp add: settle_def Let_def ledger_advance ledger_take_back)
qed (simp add: settle_def)

lemma queue_push_event:
  "\<exists>e. queue (push_event name ps ts t) = queue t @ [e] \<and> field e ''name'' = VStr name
    \<and> field e ''properties'' = VObj ps \<and> field e ''session_id'' = VStr (sessionId t)
    \<and> field e ''visitor_id'' = VStr (visitorId t) \<and> field e ''timestamp'' = vint ts"
  unfolding push_event_alt by (intro exI conjI) (simp, simp_all)

lemma ledger_push_event:
  "\<exists>e. ledger (push_event name ps ts t) = ledger t + {#e#} \<and> field e ''name'' = VStr name
    \<and> field e ''properties'' = VObj ps \<and> field e ''session_id'' = VStr (sessionId t)
    \<and> field e ''visitor_id'' = VStr (visitorId t) \<and> field e ''timestamp'' = vint ts"
proof -
  obtain e where "queue (push_event name ps ts t) = queue t @ [e]" "field e ''name'' = VStr name"
    "field e ''properties'' = VObj ps" "field e ''session_id'' = VStr (sessionId t)"
    "field e ''visitor_id'' = VStr (visitorId t)" "field e ''timestamp'' = vint ts"
    using queue_push_event [of name ps ts t] by blast
  then show ?thesis by (intro exI [of _ e]) (simp add: ledger_def)
qed

lemma ensureSession_fresh:
  assumes "session_over t"
  shows "sessionId (ensureSession keep t) = uuid t (drawn t)"
    "lastEventAt (ensureSession keep t) = of_int (now t)"
    "sessionProperties (ensureSession keep t) = defaultSessionProperties t"
  using assms by (simp_all add: ensureSession_def Let_def fresh_id_def)

lemma ensureSession_running: "\<not> session_over t \<Longrightarrow> ensureSession keep t = t"
  by (simp add: ensureSession_def)

lemma ledger_ensureSession:
  "\<exists>es. ledger (ensureSession keep t) = ledger t + mset es
    \<and> length es = (if session_over t \<and> canTrack t then 1 else 0)
    \<and> (\<forall>e \<in> set es. field e ''name'' = VStr ''session_start''
          \<and> field e ''session_id'' = VStr (sessionId (ensureSession keep t)))"
proof (cases "session_over t")
  case False
  then show ?thesis by (simp add: ensureSession_running)
next
  case True
  define s where "s = t\<lparr>drawn := Suc (drawn t), sessionId := uuid t (drawn t),
    lastEventAt := of_int (now t)\<rparr>"
  define u where "u = s\<lparr>acquisition := (case keep of None \<Rightarrow> detectTraffic s | Some a \<Rightarrow> a),
    sessionProperties := defaultSessionProperties s\<rparr>"
  have su: "still u = still t" by (simp add: u_def s_def still_simps)
  have lu: "ledger u = ledger t" by (simp add: u_def s_def ledger_def)
  have e: "ensureSession keep t =
      (if canTrack u then push_event ''session_start'' (releaseContext u) (now t) u else u)"
    using True by (simp add: ensureSession_def Let_def fresh_id_def u_def s_def
        cong: option.case_cong)
  show ?thesis
  proof (cases "canTrack t")
    case c: True
    obtain ev where "ledger (push_event ''session_start'' (releaseContext u) (now t) u)
        = ledger u + {#ev#}"
      "field ev ''name'' = VStr ''session_start''" "field ev ''session_id'' = VStr (sessionId u)"
      using ledger_push_event [of "''session_start''" "releaseContext u" "now t" u] by blast
    with True c show ?thesis
      by (intro exI [of _ "[ev]"]) (simp add: e still_all [OF su] lu)
  next
    case c: False
    with True show ?thesis by (intro exI [of _ "[]"]) (simp add: e still_all [OF su] lu)
  qed
qed

text \<open>What \<open>track\<close> adds: its event, and a \<open>session_start\<close> when a session begins.\<close>

lemma ledger_track:
  assumes "canTrack t"
  shows "\<exists>es e. ledger (track name ps t) = ledger t + mset es + {#e#}
    \<and> length es = (if session_over t then 1 else 0)
    \<and> (\<forall>s \<in> set es. field s ''name'' = VStr ''session_start'')
    \<and> field e ''name'' = VStr name
    \<and> field e ''properties'' = VObj (spread ps (releaseContext t))
    \<and> field e ''session_id'' = VStr (sessionId (ensureSession None t))"
proof -
  define u where "u = ensureSession None t"
  have ru: "releaseContext u = releaseContext t" by (simp add: u_def releaseContext_def)
  obtain es where es: "ledger u = ledger t + mset es"
    "length es = (if session_over t then 1 else 0)"
    "\<forall>e \<in> set es. field e ''name'' = VStr ''session_start''"
    using ledger_ensureSession [of None t] assms unfolding u_def by auto
  define v where "v = push_event name (spread ps (releaseContext u)) (now u) u"
  obtain e where e: "ledger v = ledger u + {#e#}" "field e ''name'' = VStr name"
    "field e ''properties'' = VObj (spread ps (releaseContext t))"
    "field e ''session_id'' = VStr (sessionId u)"
    using ledger_push_event [of name "spread ps (releaseContext u)" "now u" u]
    unfolding v_def ru by blast
  have "ledger (v\<lparr>lastEventAt := x\<rparr>) = ledger v" for x by (simp add: ledger_def)
  then have "ledger (track name ps t) = ledger v"
    using assms by (simp add: track_def Let_def ledger_flush v_def u_def)
  with es e show ?thesis by (intro exI [of _ es] exI [of _ e]) (simp add: u_def)
qed

lemma track_silent: "\<not> canTrack t \<Longrightarrow> track name ps t = t"
  by (simp add: track_def)

lemma ledger_track_mono: "ledger t \<subseteq># ledger (track name ps t)"
proof (cases "canTrack t")
  case True
  from ledger_track [OF True, of name ps] obtain es e where
    "ledger (track name ps t) = ledger t + mset es + {#e#}" by blast
  then show ?thesis by simp
qed (simp add: track_silent)

subsection \<open>Reading the offline store back\<close>

lemma list_ok_iff: "list_ok vs \<longleftrightarrow> list_all json_ok vs"
  by (induction vs) auto

lemma length_slice_last: "length (slice_last n xs) = min n (length xs)"
  by (simp add: slice_last_def)

lemma list_ok_slice: "list_ok vs \<Longrightarrow> list_ok (slice_last n vs)"
  by (auto simp: list_ok_iff slice_last_def list_all_iff dest: in_set_dropD)

lemma num_text_of_nat: "num_text (Fin (of_nat n)) = nat_text n"
  by (simp add: rat_text_def)

lemma count_plus_of_nat [simp]: "count_plus (Fin (of_nat c)) n = Fin (of_nat (c + n))"
  by simp

lemma get_drawn_frame: "storage u = storage t \<Longrightarrow> storageKey u = storageKey t \<Longrightarrow> get_scoped u k = get_scoped t k"
  by (simp add: get_scoped_def)

definition writes_ok :: "tracker \<Rightarrow> bool" where
  "writes_ok t \<longleftrightarrow> persistent t \<and> quotaOk t = (\<lambda>_ _. True)"

lemma writes_ok_frame [simp]:
  "writes_ok (recordDropped n t) = writes_ok t" "writes_ok (saveOffline t) = writes_ok t"
  "writes_ok (put_scoped k v t) = writes_ok t"
  by (simp_all add: writes_ok_def)

lemma recordDropped_get:
  assumes "writes_ok t"
  shows "get_scoped (recordDropped n t) k =
    (if k = DROPPED_KEY \<and> n \<noteq> 0 then Some (num_text (count_plus (stored_count t) n))
     else get_scoped t k)"
  using assms by (simp add: recordDropped_def try_put_def writes_ok_def)

lemma saveOffline_get:
  assumes "writes_ok t"
  shows "get_scoped (saveOffline t) k =
    (if k = OFFLINE_KEY then Some (json_text (VArr (slice_last OFFLINE_LIMIT (queue t))))
     else get_scoped (recordDropped (length (queue t) - OFFLINE_LIMIT) t) k)"
proof -
  have "length (queue t) - length (slice_last OFFLINE_LIMIT (queue t)) = length (queue t) - OFFLINE_LIMIT"
    by (simp add: length_slice_last)
  with assms show ?thesis by (simp add: saveOffline_def Let_def try_put_def writes_ok_def)
qed

lemma json_array_nonempty: "json_text (VArr vs) \<noteq> []"
  by (simp add: json_text_def)

text \<open>
  C27: what a failed delivery writes to the offline store is what the next page load restores: the
  newest events of the queue, at most \<open>OFFLINE_LIMIT\<close> of them and in their order, and the stored
  copy is then gone.
\<close>

theorem offline_restored:
  assumes "writes_ok t" "list_ok (queue t)"
    and "storage u = storage (saveOffline t)" "storageKey u = storageKey t" "persistent u"
  shows "queue (restoreOffline u) = queue u @ map json_clean (slice_last OFFLINE_LIMIT (queue t))
    \<and> get_scoped (restoreOffline u) OFFLINE_KEY = None"
proof -
  define kept where "kept = slice_last OFFLINE_LIMIT (queue t)"
  have sk: "storageKey u = storageKey (saveOffline t)"
    by (rule ext) (simp add: assms(4))
  have "get_scoped u OFFLINE_KEY = Some (json_text (VArr kept))"
    using get_drawn_frame [OF assms(3) sk] saveOffline_get [OF assms(1)] by (simp add: kept_def)
  moreover have "json_parse (json_text (VArr kept)) = Some (json_clean (VArr kept))"
    using list_ok_slice [OF assms(2)] by (intro json.decode_encode) (simp add: kept_def)
  ultimately have p: "json_parse (scoped_or u OFFLINE_KEY ''[]'') = Some (VArr (map json_clean kept))"
    using json_array_nonempty by (simp add: scoped_or_alt or_str_def clean_list_map)
  have "length kept \<le> OFFLINE_LIMIT" by (simp add: kept_def length_slice_last)
  then have "slice_last OFFLINE_LIMIT (map json_clean kept) = map json_clean kept"
    by (simp add: slice_last_def)
  with p assms(5) show ?thesis
    by (simp add: restoreOffline_def kept_def) (simp add: drop_scoped_def)
qed

lemma stored_count_get:
  "get_scoped u DROPPED_KEY = Some (nat_text n) \<Longrightarrow> stored_count u = Fin (of_nat n)"
  by (simp add: stored_count_def js_number_nat_text)

text \<open>
  the counter of dropped events grows by the overflow of the queue each time a batch fails. The
  queue itself is not cut, so after \<open>n\<close> failures in a row the same overflow has been counted
  \<open>n\<close> times, although every one of those events is still queued.
\<close>

theorem overflow_counted_per_failure:
  assumes "writes_ok t" "stored_count t = Fin (of_nat c)"
  shows "stored_count ((saveOffline ^^ n) t)
      = Fin (of_nat (c + n * (length (queue t) - OFFLINE_LIMIT)))
    \<and> queue ((saveOffline ^^ n) t) = queue t"
proof (induction n)
  case 0
  show ?case using assms by simp
next
  case (Suc n)
  define v where "v = (saveOffline ^^ n) t"
  define over where "over = length (queue t) - OFFLINE_LIMIT"
  have ok: "writes_ok v" unfolding v_def by (induction n) (simp_all add: assms(1))
  have v: "stored_count v = Fin (of_nat (c + n * over))" "queue v = queue t"
    using Suc by (simp_all add: v_def over_def)
  have "get_scoped (saveOffline v) DROPPED_KEY =
      (if over = 0 then get_scoped v DROPPED_KEY
       else Some (num_text (count_plus (stored_count v) over)))"
    by (simp add: saveOffline_get [OF ok] recordDropped_get [OF ok] v(2) over_def)
  moreover have "count_plus (stored_count v) over = Fin (of_nat (c + n * over + over))"
    unfolding v(1) by (rule count_plus_of_nat)
  ultimately have "get_scoped (saveOffline v) DROPPED_KEY =
      (if over = 0 then get_scoped v DROPPED_KEY else Some (nat_text (c + n * over + over)))"
    by (simp only: num_text_of_nat)
  then have "stored_count (saveOffline v) = Fin (of_nat (c + Suc n * over))"
    using v(1) by (cases "over = 0")
      (simp_all add: stored_count_def algebra_simps del: of_nat_add of_nat_mult)
  then show ?case by (simp add: v_def [symmetric] over_def v(2))
qed

lemma example_writes_ok: "writes_ok example_tracker"
  by (simp add: writes_ok_def persistent_def isPersistent_def example_defs)

lemma offline_restored_witness:
  "let t = example_tracker\<lparr>queue := [VObj [(''id'', VStr ''a''), (''x'', VUndef)]]\<rparr> in
   queue (restoreOffline ((saveOffline t)\<lparr>queue := []\<rparr>)) = [VObj [(''id'', VStr ''a'')]]"
proof -
  define t where "t = example_tracker\<lparr>queue := [VObj [(''id'', VStr ''a''), (''x'', VUndef)]]\<rparr>"
  have t: "writes_ok t" "queue t = [VObj [(''id'', VStr ''a''), (''x'', VUndef)]]"
    by (simp_all add: t_def writes_ok_def persistent_def isPersistent_def example_defs)
  have ok: "list_ok (queue t)" by (simp add: t wf_obj_def)
  define u where "u = (saveOffline t)\<lparr>queue := []\<rparr>"
  have su: "still u = still t" by (simp add: u_def still_simps)
  have "persistent u" using t(1) by (simp add: still_all [OF su] writes_ok_def)
  moreover have "storageKey u = storageKey t" by (rule ext) (rule still_all [OF su])
  moreover have "storage u = storage (saveOffline t)" "queue u = []" by (simp_all add: u_def)
  ultimately show ?thesis
    using offline_restored [OF t(1) ok, of u]
    by (simp add: t(2) slice_last_def OFFLINE_LIMIT_def Let_def u_def t_def [symmetric])
qed

lemma overflow_counted_per_failure_witness:
  "let t = example_tracker\<lparr>queue := replicate 260 VNull\<rparr> in
   stored_count ((saveOffline ^^ 2) t) = Fin 120 \<and> queue ((saveOffline ^^ 2) t) = queue t"
proof -
  define t where "t = example_tracker\<lparr>queue := replicate 260 VNull\<rparr>"
  have "writes_ok t" by (simp add: t_def writes_ok_def persistent_def isPersistent_def example_defs)
  moreover have "stored_count t = Fin (of_nat 0)"
    by (simp add: t_def stored_count_def get_scoped_def read_item_def example_defs)
  moreover have "length (queue t) = 260" by (simp add: t_def)
  ultimately show ?thesis
    using overflow_counted_per_failure [of t 0 2]
    by (simp add: OFFLINE_LIMIT_def Let_def t_def [symmetric])
qed

subsection \<open>The report of dropped events\<close>

lemma storage_advance [simp]: "storage (advance f t) = storage t"
  by (auto simp: advance_def Let_def split: list.split prod.split) (metis fst_conv deliver_sel(4))

lemma storage_flush [simp]: "storage (flush b t) = storage t"
  by (simp add: flush_def Let_def)

lemma get_flush [simp]: "get_scoped (flush b t) k = get_scoped t k"
  by (simp add: get_scoped_def)

lemma get_schedule [simp]: "get_scoped (scheduleFlush t) k = get_scoped t k"
  by (simp add: get_scoped_def)

lemma get_ensure [simp]: "get_scoped (ensureSession keep t) k = get_scoped t k"
  by (simp add: get_scoped_def)

lemma get_push [simp]: "get_scoped (push_event name ps ts t) k = get_scoped t k"
  by (simp add: get_scoped_def)

lemma get_lastEventAt [simp]: "get_scoped (t\<lparr>lastEventAt := x\<rparr>) k = get_scoped t k"
  by (simp add: get_scoped_def still_all [OF still_updates(8)])

lemma get_persist [simp]:
  "k \<noteq> SESSION_KEY \<Longrightarrow> get_scoped (persistSession t) k = get_scoped t k"
  by (simp add: persistSession_def)

lemma get_track [simp]:
  "k \<noteq> SESSION_KEY \<Longrightarrow> get_scoped (track name ps t) k = get_scoped t k"
  by (simp add: track_def Let_def)

text \<open>
  a page load reports the events the previous pages had to drop, with their number, and clears
  the counter, so that a second report adds nothing.
\<close>

theorem dropped_reported_once:
  assumes "persistent t" "get_scoped t DROPPED_KEY = Some (nat_text n)" "0 < n"
  shows "let u = reportDropped t in
    (\<exists>e \<in># ledger u. field e ''name'' = VStr ''collection_dropped''
        \<and> field (field e ''properties'') ''events_dropped'' = vint (int n))
    \<and> ledger t \<subseteq># ledger u
    \<and> get_scoped u DROPPED_KEY = None
    \<and> ledger (reportDropped u) = ledger u"
proof -
  define d where "d = drop_scoped DROPPED_KEY t"
  define ps where "ps = [(''events_dropped'', vint (int n))]"
  have ld: "ledger d = ledger t" by (simp add: d_def ledger_def drop_scoped_def)
  have ct: "canTrack d" using assms(1) by (simp add: d_def persistent_canTrack)
  have u: "reportDropped t = track ''collection_dropped'' ps d"
    using assms stored_count_get [OF assms(2)]
    by (simp add: reportDropped_def Let_def positive_def d_def ps_def)
  obtain es e where l: "ledger (track ''collection_dropped'' ps d) = ledger d + mset es + {#e#}"
    "field e ''name'' = VStr ''collection_dropped''"
    "field e ''properties'' = VObj (spread ps (releaseContext d))"
    using ledger_track [OF ct, of "''collection_dropped''" ps] by blast
  have "field (field e ''properties'') ''events_dropped'' = vint (int n)"
    unfolding l(3) by (simp add: getp_with_release release_keys_def ps_def)
  moreover have none: "get_scoped (reportDropped t) DROPPED_KEY = None"
    unfolding u by (simp add: d_def)
  moreover have "stored_count (reportDropped t) = Fin 0"
    using none by (simp add: stored_count_def)
  then have "reportDropped (reportDropped t) =
      (if persistent (reportDropped t) then drop_scoped DROPPED_KEY (reportDropped t)
       else reportDropped t)"
    by (subst reportDropped_def) (simp add: Let_def positive_def)
  then have "ledger (reportDropped (reportDropped t)) = ledger (reportDropped t)"
    by (simp add: ledger_def drop_scoped_def)
  ultimately show ?thesis using l ld by (auto simp: u Let_def)
qed

lemma dropped_reported_once_witness:
  "let u = reportDropped (put_scoped DROPPED_KEY (nat_text 60) example_tracker) in
    (\<exists>e \<in># ledger u. field e ''name'' = VStr ''collection_dropped'')
    \<and> get_scoped u DROPPED_KEY = None"
proof -
  have "persistent (put_scoped DROPPED_KEY (nat_text 60) example_tracker)"
    using example_writes_ok by (simp add: writes_ok_def)
  from dropped_reported_once [OF this, of 60] show ?thesis by (auto simp: Let_def)
qed

end
