(* ===== verification/Signals.thy ===== *)
theory Signals
  imports Offline
begin

section \<open>Frustration signals\<close>

text \<open>
  The signals the tracker derives on its own: repeated clicks on one element, clicks that change
  nothing, quick returns, forms submitted again or refused by validation, slow interactions and
  errors right after a click. All go through \<open>signal\<close>, which caps them per page.
\<close>

definition RAGE_CLICK_WINDOW_MS :: rat where "RAGE_CLICK_WINDOW_MS = 1000"
definition RAGE_CLICK_THRESHOLD :: nat where "RAGE_CLICK_THRESHOLD = 3"
definition DEAD_CLICK_WINDOW_MS :: rat where "DEAD_CLICK_WINDOW_MS = 1200"
definition RAPID_BACK_MS :: rat where "RAPID_BACK_MS = 3000"
definition ERROR_AFTER_CLICK_MS :: rat where "ERROR_AFTER_CLICK_MS = 2000"
definition SLOW_INTERACTION_MS :: rat where "SLOW_INTERACTION_MS = 500"
definition SIGNALS_PER_PAGE :: nat where "SIGNALS_PER_PAGE = 20"

definition signal :: "string \<Rightarrow> props \<Rightarrow> tracker \<Rightarrow> tracker" where
  "signal name ps t =
     (if signalsThisPage t \<ge> SIGNALS_PER_PAGE then t
      else track name ps (t\<lparr>signalsThisPage := signalsThisPage t + 1\<rparr>))"

subsection \<open>Describing an element\<close>

definition elementSignature :: "elem \<Rightarrow> string" where
  "elementSignature x =
     (let tag = or_str (js_lower (el_tag x)) ''unknown'' in
      if el_id x \<noteq> [] then tag @ ''#'' @ el_id x
      else
        let className = (case el_class x of
              None \<Rightarrow> []
            | Some c \<Rightarrow> takeWhile (\<lambda>ch. \<not> is_space ch) (js_trim c))
        in tag @ (if className = [] then [] else CHR ''.'' # className)
               @ (case el_index x of None \<Rightarrow> [] | Some i \<Rightarrow> CHR '':'' # nat_text i))"

definition looksClickable :: "elem \<Rightarrow> bool" where
  "looksClickable x \<longleftrightarrow> el_interactive x \<or> el_pointer x"

definition elementProperties :: "tracker \<Rightarrow> elem \<Rightarrow> props" where
  "elementProperties t x =
     [(''element_tag'', VStr (js_lower (el_tag x))),
      (''element_id'', or_undef (el_id x)),
      (''button'', or_undef (or_str (el_button x) (el_aria x))),
      (''feature'', or_undef (el_feature x))]
     @ (if option_on collectElementText t
        then [(''element_text'', or_undef (take 100 (js_trim (el_text x))))] else [])"

subsection \<open>Rage clicks and dead clicks\<close>

definition page_probe_of :: "tracker \<Rightarrow> page_probe" where
  "page_probe_of t = \<lparr>pr_url = href t, pr_scroll = scrollTop t, pr_focus = focused t\<rparr>"

definition has_href :: "elem \<Rightarrow> bool" where
  "has_href x \<longleftrightarrow> (case el_anchor x of None \<Rightarrow> False | Some a \<Rightarrow> an_href a \<noteq> [])"

definition checkDeadClick :: "elem \<Rightarrow> tracker \<Rightarrow> tracker" where
  "checkDeadClick x t =
     (if deadClickPending t \<or> \<not> hasMutationObserver t \<or> \<not> looksClickable x \<or> has_href x
         \<or> el_type x \<in> {''submit'', ''reset'', ''file''} \<or> el_ignored x
      then t
      else snd (set_timeout (DeadTimer x (page_probe_of t)) DEAD_CLICK_WINDOW_MS
                  (t\<lparr>deadClickPending := True, deadMutated := False\<rparr>)))"

text \<open>The callback of the dead-click timer.\<close>

definition finish_dead_click :: "elem \<Rightarrow> page_probe \<Rightarrow> tracker \<Rightarrow> tracker" where
  "finish_dead_click x before t =
     (let u = t\<lparr>deadClickPending := False\<rparr> in
      if deadMutated u \<or> href u \<noteq> pr_url before \<or> scrollTop u \<noteq> pr_scroll before
         \<or> focused u \<noteq> pr_focus before \<or> selection u \<noteq> []
      then u
      else signal ''dead_click''
             (setp ''waited_ms'' (vrat DEAD_CLICK_WINDOW_MS) (elementProperties u x)) u)"

definition same_burst :: "burst option \<Rightarrow> string \<Rightarrow> rat \<Rightarrow> bool" where
  "same_burst b signature clock =
     (case b of
        None \<Rightarrow> False
      | Some r \<Rightarrow> bu_signature r = signature \<and> clock - bu_at r \<le> RAGE_CLICK_WINDOW_MS)"

definition grow_burst :: "burst \<Rightarrow> elem \<Rightarrow> tracker \<Rightarrow> tracker" where
  "grow_burst r x t =
     (let r' = r\<lparr>bu_at := mono t, bu_count := bu_count r + 1\<rparr> in
      if bu_count r' = RAGE_CLICK_THRESHOLD then
        (case set_timeout (RageTimer x) RAGE_CLICK_WINDOW_MS t of
           (i, u) \<Rightarrow> u\<lparr>rageBurst := Some (r'\<lparr>bu_timer := Some i\<rparr>)\<rparr>)
      else t\<lparr>rageBurst := Some r'\<rparr>)"

definition start_burst :: "elem \<Rightarrow> tracker \<Rightarrow> tracker" where
  "start_burst x t =
     (let u = (case rageBurst t of
                 None \<Rightarrow> t
               | Some r \<Rightarrow> (case bu_timer r of None \<Rightarrow> t | Some i \<Rightarrow> clear_timeout i t))
      in checkDeadClick x
           (u\<lparr>rageBurst := Some \<lparr>bu_signature = elementSignature x, bu_at = mono t, bu_count = 1,
                                 bu_timer = None\<rparr>\<rparr>))"

definition observeClickFrustration :: "elem \<Rightarrow> tracker \<Rightarrow> tracker" where
  "observeClickFrustration x t =
     (let u = t\<lparr>lastClick := Some (mono t, elementProperties t x)\<rparr> in
      case rageBurst u of
        None \<Rightarrow> start_burst x u
      | Some r \<Rightarrow>
          if same_burst (Some r) (elementSignature x) (mono u) then grow_burst r x u
          else start_burst x u)"

text \<open>The callback of the rage-click timer: the count at the time it fires.\<close>

definition finish_rage_click :: "elem \<Rightarrow> tracker \<Rightarrow> tracker" where
  "finish_rage_click x t =
     (let clicks = (case rageBurst t of
                      None \<Rightarrow> RAGE_CLICK_THRESHOLD
                    | Some r \<Rightarrow> if bu_count r = 0 then RAGE_CLICK_THRESHOLD else bu_count r)
      in (signal ''rage_click''
            (setp ''window_ms'' (vrat RAGE_CLICK_WINDOW_MS)
              (setp ''clicks'' (vint (int clicks)) (elementProperties t x))) t)
         \<lparr>rageBurst := None\<rparr>)"

subsection \<open>Routes, forms, slow interactions, errors\<close>

datatype route_kind = Push | Replace | Pop

definition rapid_back_hook :: "route_kind \<Rightarrow> rat \<Rightarrow> string \<Rightarrow> tracker \<Rightarrow> tracker" where
  "rapid_back_hook kind previousAt previousPath t =
     (if kind \<noteq> Pop \<or> mono t - previousAt > RAPID_BACK_MS then t
      else signal ''rapid_back''
             [(''dwell_ms'', vrat (mono t - previousAt)),
              (''from_path'', or_undef previousPath),
              (''to_path'', VStr (pathname t))] t)"

definition form_label :: "form \<Rightarrow> string" where
  "form_label f = or_str (fm_id f) (opt_text (fm_name f))"

definition formKey :: "form \<Rightarrow> string" where
  "formKey f = or_str (form_label f) (or_str (opt_text (fm_action f)) ''form'')"

definition observeSubmit :: "form \<Rightarrow> tracker \<Rightarrow> tracker" where
  "observeSubmit f t =
     (let key = formKey f;
          attempt = (case formAttempts t key of None \<Rightarrow> 0 | Some n \<Rightarrow> n) + 1;
          u = t\<lparr>formAttempts := (formAttempts t)(key := Some attempt)\<rparr>
      in if attempt < 2 then u
         else signal ''form_retry''
                [(''form_id'', or_undef (form_label f)),
                 (''attempt'', vint (int attempt)),
                 (''reason'', VStr ''resubmit'')] u)"

text \<open>The invalid field's form, if any, and the field's label.\<close>

definition observeInvalid :: "form option \<Rightarrow> string \<Rightarrow> tracker \<Rightarrow> tracker" where
  "observeInvalid f fieldLabel t =
     (let key = (case f of None \<Rightarrow> ''detached'' | Some x \<Rightarrow> formKey x) in
      if fst (lastInvalidForm t) = key \<and> mono t - snd (lastInvalidForm t) < 1000 then t
      else signal ''form_retry''
             [(''form_id'', or_undef (case f of None \<Rightarrow> [] | Some x \<Rightarrow> form_label x)),
              (''field'', or_undef fieldLabel),
              (''reason'', VStr ''validation'')]
             (t\<lparr>lastInvalidForm := (key, mono t)\<rparr>))"

text \<open>An entry of the event timeline: its name, its duration, its interaction id.\<close>

type_synonym timing = "string \<times> rat \<times> int"

text \<open>The loop over the entries; \<open>break\<close> ends it.\<close>

fun observeSlow :: "timing list \<Rightarrow> tracker \<Rightarrow> tracker" where
  "observeSlow [] t = t"
| "observeSlow ((name, duration, interaction) # rest) t =
     (if interaction \<le> 0 then observeSlow rest t
      else if duration < SLOW_INTERACTION_MS then observeSlow rest t
      else if slowInteractionSeen t \<ge> SIGNALS_PER_PAGE then t
      else observeSlow rest
             (signal ''slow_interaction''
                [(''duration_ms'', vint (js_round duration)), (''interaction'', VStr name)]
                (t\<lparr>slowInteractionSeen := slowInteractionSeen t + 1\<rparr>)))"

definition reportErrorAfterClick :: "string \<Rightarrow> tracker \<Rightarrow> tracker" where
  "reportErrorAfterClick kind t =
     (if \<not> option_on frustrationSignals t then t
      else case lastClick t of
        None \<Rightarrow> t
      | Some (clicked, ps) \<Rightarrow>
          if mono t - clicked > ERROR_AFTER_CLICK_MS then t
          else signal ''error_after_click''
                 (setp ''since_click_ms'' (vrat (mono t - clicked))
                   (setp ''error_kind'' (VStr kind) ps)) t)"

end
