(* ===== verification/Search.thy ===== *)
theory Search
  imports Signals
begin

section \<open>Site search\<close>

text \<open>
  Search tracking: recognising a search from the address (\<open>searchTermFromURL\<close>), waiting for the
  page to publish its result count (\<open>awaitResultCount\<close>, whose polling timer carries the
  attempts that are left), and reporting it (\<open>recordSearch\<close>), with the signals for repeated
  and refined searches and for opened results.
\<close>

definition REPEATED_SEARCH_WINDOW_MS :: rat where "REPEATED_SEARCH_WINDOW_MS = 120000"
definition SEARCH_RESULT_WAIT_MS :: rat where "SEARCH_RESULT_WAIT_MS = 1500"
definition SEARCH_RESULT_POLL_MS :: rat where "SEARCH_RESULT_POLL_MS = 300"

definition DEFAULT_SEARCH_PARAMS :: "string list" where
  "DEFAULT_SEARCH_PARAMS =
     [''q'', ''query'', ''search'', ''searchword'', ''keyword'', ''kwd'', ''term'', ''s'']"

definition searchParamNames :: "tracker \<Rightarrow> string list" where
  "searchParamNames t =
     (case Option.bind (opts t) searchParams of None \<Rightarrow> [] | Some xs \<Rightarrow> xs) @ DEFAULT_SEARCH_PARAMS"

definition searchTermFromURL :: "tracker \<Rightarrow> (string \<times> string) option" where
  "searchTermFromURL t =
     (case filter (\<lambda>name. js_trim (url_param t name) \<noteq> []) (searchParamNames t) of
        [] \<Rightarrow> None
      | name # _ \<Rightarrow> Some (url_param t name, name))"

subsection \<open>Reporting a search\<close>

definition normalize_query :: "string \<Rightarrow> string" where
  "normalize_query raw = take 100 (js_lower (js_trim (collapse_ws raw)))"

definition query_words :: "string \<Rightarrow> string list" where
  "query_words q = filter (\<lambda>w. w \<noteq> []) (split_on (CHR '' '') q)"

definition put_query :: "string \<Rightarrow> string \<Rightarrow> tracker \<Rightarrow> props \<Rightarrow> props" where
  "put_query key q t ps =
     (if option_on collectSearchTerms t then setp key (VStr (redactPII (VStr q) 100)) ps else ps)"

definition search_props :: "string \<Rightarrow> props \<Rightarrow> tracker \<Rightarrow> props" where
  "search_props q extra t =
     put_query ''query'' q t
       (setp ''query_words'' (vint (int (length (query_words q))))
         (setp ''query_length'' (vint (int (length q))) extra))"

definition seconds_since :: "rat \<Rightarrow> rat \<Rightarrow> val" where
  "seconds_since clock earlier = vint (js_round ((clock - earlier) / 1000))"

definition refines :: "string \<Rightarrow> string \<Rightarrow> bool" where
  "refines q previous \<longleftrightarrow> previous \<noteq> q \<and> (prefix previous q \<or> prefix q previous)"

definition follow_up :: "string \<Rightarrow> string \<Rightarrow> rat \<Rightarrow> tracker \<Rightarrow> tracker" where
  "follow_up q previous earlier t =
     (if previous = q then
        signal ''repeated_search''
          (put_query ''query'' q t [(''seconds_since'', seconds_since (mono t) earlier)]) t
      else if refines q previous then
        track ''search_refine''
          (put_query ''previous_query'' previous t
            (put_query ''query'' q t
              [(''seconds_since'', seconds_since (mono t) earlier),
               (''direction'', VStr (if length q > length previous then ''narrowed'' else ''widened''))])) t
      else t)"

definition recordSearch :: "string \<Rightarrow> props \<Rightarrow> tracker \<Rightarrow> tracker" where
  "recordSearch raw extra t =
     (let q = normalize_query raw; clock = mono t; previous = searchState t in
      if q = [] then t
      else if (case previous of None \<Rightarrow> False | Some (p, at0) \<Rightarrow> p = q \<and> clock - at0 < 2000) then t
      else
        let u = track ''search'' (search_props q extra t) (t\<lparr>searchState := Some (q, clock)\<rparr>)
        in case previous of
             None \<Rightarrow> u
           | Some (p, at0) \<Rightarrow>
               if clock - at0 > REPEATED_SEARCH_WINDOW_MS then u else follow_up q p at0 u)"

text \<open>The result count a caller passes: a finite number, cut to a whole one of at least zero.\<close>

definition result_count_props :: "jnum option \<Rightarrow> props" where
  "result_count_props n =
     (case n of Some (Fin q) \<Rightarrow> [(''result_count'', vint (max 0 (js_trunc q)))] | _ \<Rightarrow> [])"

definition trackSearch :: "string \<Rightarrow> jnum option \<Rightarrow> tracker \<Rightarrow> tracker" where
  "trackSearch q n t =
     (if js_trim q = [] then t
      else recordSearch q ((''source'', VStr ''manual'') # result_count_props n) t)"

subsection \<open>Waiting for the result count\<close>

definition read_result_count :: "tracker \<Rightarrow> int option" where
  "read_result_count t =
     (case resultsAttr t of
        None \<Rightarrow> None
      | Some raw \<Rightarrow>
          if raw = [] then None
          else case js_number raw of Fin q \<Rightarrow> Some (max 0 (js_trunc q)) | _ \<Rightarrow> None)"

definition result_attempts :: nat where
  "result_attempts = nat \<lceil>SEARCH_RESULT_WAIT_MS / SEARCH_RESULT_POLL_MS\<rceil>"

definition result_ready :: "string \<Rightarrow> string \<Rightarrow> int option \<Rightarrow> tracker \<Rightarrow> tracker" where
  "result_ready q param n t = t\<lparr>readyCounts := readyCounts t @ [(q, param, n)]\<rparr>"

definition wait_for_count :: "string \<Rightarrow> string \<Rightarrow> nat \<Rightarrow> tracker \<Rightarrow> tracker" where
  "wait_for_count q param attempts t =
     (if attempts = 0 then result_ready q param None t
      else snd (set_timeout (SearchPoll q param attempts) SEARCH_RESULT_POLL_MS t))"

definition detectSearchFromURL :: "tracker \<Rightarrow> tracker" where
  "detectSearchFromURL t =
     (case searchTermFromURL t of
        None \<Rightarrow> t
      | Some (q, param) \<Rightarrow>
          (case read_result_count t of
             Some n \<Rightarrow> result_ready q param (Some n) t
           | None \<Rightarrow> wait_for_count q param result_attempts t))"

text \<open>One turn of the polling loop, after its pause.\<close>

definition poll_result_count :: "string \<Rightarrow> string \<Rightarrow> nat \<Rightarrow> tracker \<Rightarrow> tracker" where
  "poll_result_count q param attempts t =
     (case read_result_count t of
        Some n \<Rightarrow> result_ready q param (Some n) t
      | None \<Rightarrow> wait_for_count q param (attempts - 1) t)"

definition report_ready :: "string \<times> string \<times> int option \<Rightarrow> tracker \<Rightarrow> tracker" where
  "report_ready r t =
     (case r of (q, param, n) \<Rightarrow>
        recordSearch q
          ([(''source'', VStr ''url''), (''param'', VStr param)]
           @ (case n of None \<Rightarrow> [] | Some k \<Rightarrow> [(''result_count'', vint k)])) t)"

definition search_hook :: "tracker \<Rightarrow> tracker" where
  "search_hook t = detectSearchFromURL (t\<lparr>searchState := None\<rparr>)"

subsection \<open>Opened results\<close>

definition search_position :: "elem \<Rightarrow> int option" where
  "search_position x =
     (case el_position x of
        Some raw \<Rightarrow> (case js_number raw of Fin q \<Rightarrow> Some (js_trunc q) | _ \<Rightarrow> None)
      | None \<Rightarrow>
          if el_inResults x then map_option (\<lambda>i. int i + 1) (el_linkIndex x) else None)"

definition observeSearchClick :: "elem \<Rightarrow> tracker \<Rightarrow> tracker" where
  "observeSearchClick x t =
     (case el_anchor x of
        None \<Rightarrow> t
      | Some a \<Rightarrow>
          if an_href a = [] then t
          else if \<not> el_inResults x \<and> searchState t = None then t
          else track ''search_click''
                 ((''url'', VStr (sanitizedURL (urlParse t) (an_href a)))
                  # (case search_position x of None \<Rightarrow> [] | Some p \<Rightarrow> [(''position'', vint p)])) t)"

end
