(* ===== verification/Rum.thy ===== *)
theory Rum
  imports Search
begin

section \<open>Web vitals\<close>

text \<open>
  \<open>installRUM\<close>: the four performance observers accumulate the largest contentful paint, the
  layout shift and the slowest interaction; the final values are reported once, when the page is
  first hidden, and the navigation timing once after the load.
\<close>

definition vital_limits :: "string \<Rightarrow> (rat \<times> rat) option" where
  "vital_limits metric = map_of
     [(''LCP'', (2500, 4000)), (''INP'', (200, 500)), (''CLS'', (1 / 10, 1 / 4)),
      (''FCP'', (1800, 3000)), (''TTFB'', (800, 1800))] metric"

definition vitalRating :: "string \<Rightarrow> rat \<Rightarrow> string" where
  "vitalRating metric v =
     (case vital_limits metric of
        None \<Rightarrow> ''unknown''
      | Some (good, poor) \<Rightarrow>
          if v \<le> good then ''good'' else if v \<le> poor then ''needs-improvement'' else ''poor'')"

text \<open>\<open>Math.round(value * 1000) / 1000\<close>.\<close>

definition round3 :: "rat \<Rightarrow> rat" where
  "round3 v = of_int (js_round (v * 1000)) / 1000"

definition trackVital :: "string \<Rightarrow> jnum \<Rightarrow> props \<Rightarrow> tracker \<Rightarrow> tracker" where
  "trackVital metric v extra t =
     (case v of
        Fin q \<Rightarrow>
          if q < 0 then t
          else track ''web_vital''
                 (spread [(''metric'', VStr metric), (''value'', vrat (round3 q)),
                          (''rating'', VStr (vitalRating metric q))] extra) t
      | _ \<Rightarrow> t)"

subsection \<open>Observers\<close>

definition observeLCP :: "rat list \<Rightarrow> tracker \<Rightarrow> tracker" where
  "observeLCP starts t = (if starts = [] then t else t\<lparr>lastLCP := last starts\<rparr>)"

text \<open>Layout shifts: value and \<open>hadRecentInput\<close>.\<close>

definition observeShifts :: "(rat \<times> bool) list \<Rightarrow> tracker \<Rightarrow> tracker" where
  "observeShifts entries t =
     t\<lparr>clsTotal := clsTotal t + sum_list (map fst (filter (\<lambda>(_, recent). \<not> recent) entries))\<rparr>"

definition observeINP :: "timing list \<Rightarrow> tracker \<Rightarrow> tracker" where
  "observeINP entries t =
     fold (\<lambda>(_, duration, interaction) u.
             if interaction > 0 then u\<lparr>maxINP := max (maxINP u) duration\<rparr> else u) entries t"

text \<open>Paint entries: name and start time.\<close>

definition observePaint :: "(string \<times> rat) list \<Rightarrow> tracker \<Rightarrow> tracker" where
  "observePaint entries t =
     (case map_of entries ''first-contentful-paint'' of
        None \<Rightarrow> t
      | Some start \<Rightarrow> trackVital ''FCP'' (Fin start) [] t)"

definition emitFinalVitals :: "tracker \<Rightarrow> tracker" where
  "emitFinalVitals t =
     (if vitalsEmitted t then t
      else
        let t1 = t\<lparr>vitalsEmitted := True\<rparr>;
            t2 = (if lastLCP t1 \<noteq> 0 then trackVital ''LCP'' (Fin (lastLCP t1)) [] t1 else t1);
            t3 = trackVital ''CLS'' (Fin (clsTotal t2)) [] t2
        in if maxINP t3 \<noteq> 0 then trackVital ''INP'' (Fin (maxINP t3)) [] t3 else t3)"

definition reportNavigation :: "tracker \<Rightarrow> tracker" where
  "reportNavigation t =
     (case navEntry t of
        None \<Rightarrow> t
      | Some n \<Rightarrow>
          trackVital ''page_load''
            (Fin (if nv_loadEventEnd n = 0 then nv_duration n else nv_loadEventEnd n)) []
            (trackVital ''DOMContentLoaded'' (Fin (nv_domContentLoaded n)) []
              (trackVital ''TTFB'' (Fin (nv_responseStart n))
                 [(''navigation_type'', VStr (nv_type n))] t)))"

definition installRUM :: "tracker \<Rightarrow> tracker" where
  "installRUM t =
     (let u = t\<lparr>installed := installed t @ [RUM]\<rparr> in
      if readyComplete u then snd (set_timeout NavigationTimer 0 u) else u)"

end
