(* ===== verification/Consent.thy ===== *)
theory Consent
  imports Rum
begin

section \<open>Starting the tracker, consent and modes\<close>

text \<open>
  \<open>init\<close> with its validation and the order of its steps, the consent operations
  (\<open>grant\<close>, \<open>deny\<close>, \<open>revoke\<close>) and the cookie operations (\<open>enable\<close>,
  \<open>disable\<close>).
\<close>

subsection \<open>The argument of init\<close>

text \<open>
  A member of type \<open>'a option option\<close> is \<open>None\<close> when it is missing and \<open>Some None\<close>
  when it is present and \<open>undefined\<close>.
\<close>

record init_options =
  in_siteId :: string
  in_endpoint :: string
  in_environment :: "string option"
  in_contractVersion :: "jnum option"
  in_mode :: "string option option"
  in_sessionTimeoutMinutes :: "rat option option"
  in_debug :: "bool option"
  in_autoTrack :: "bool option option"
  in_heartbeatSeconds :: "rat option option"
  in_batchSize :: "rat option option"
  in_collectElementText :: "bool option option"
  in_sanitizeErrorMessages :: "bool option option"
  in_autoRUM :: "bool option option"
  in_frustrationSignals :: "bool option option"
  in_searchTracking :: "bool option option"
  in_collectSearchTerms :: "bool option option"
  in_searchParams :: "string list option"
  in_appVersion :: "string option"
  in_releaseVersion :: "string option"
  in_gitSha :: "string option"
  in_deploymentId :: "string option"
  in_sessionProperties :: "props option"

definition spread_over :: "'a \<Rightarrow> 'a option option \<Rightarrow> 'a option" where
  "spread_over dflt given = (case given of None \<Rightarrow> Some dflt | Some v \<Rightarrow> v)"

datatype init_error = MissingSiteOrEndpoint | InvalidEnvironment | InvalidContractVersion

text \<open>\<open>/^[a-z][a-z0-9_-]{0,31}$/\<close>.\<close>

definition environment_char :: "char \<Rightarrow> bool" where
  "environment_char c \<longleftrightarrow> is_lower c \<or> is_digit c \<or> c = CHR ''_'' \<or> c = CHR ''-''"

definition valid_environment :: "string \<Rightarrow> bool" where
  "valid_environment s =
     (case s of
        [] \<Rightarrow> False
      | c # cs \<Rightarrow> is_lower c \<and> list_all environment_char cs \<and> length cs \<le> 31)"

definition positive_integer :: "jnum \<Rightarrow> int option" where
  "positive_integer n =
     (case n of Fin q \<Rightarrow> if of_int \<lfloor>q\<rfloor> = q \<and> q \<ge> 1 then Some \<lfloor>q\<rfloor> else None | _ \<Rightarrow> None)"

definition resolve_options :: "init_options \<Rightarrow> string \<Rightarrow> int \<Rightarrow> options" where
  "resolve_options p env version =
   \<lparr>siteId = in_siteId p, endpoint = strip_one (CHR ''/'') (in_endpoint p), environment = env,
    contractVersion = version,
    mode = spread_over ''full'' (in_mode p),
    sessionTimeoutMinutes = spread_over 30 (in_sessionTimeoutMinutes p),
    debugOption = in_debug p,
    autoTrack = spread_over True (in_autoTrack p),
    heartbeatSeconds = spread_over 15 (in_heartbeatSeconds p),
    batchSize = spread_over 10 (in_batchSize p),
    collectElementText = spread_over False (in_collectElementText p),
    sanitizeErrorMessages = spread_over True (in_sanitizeErrorMessages p),
    autoRUM = spread_over True (in_autoRUM p),
    frustrationSignals = spread_over True (in_frustrationSignals p),
    searchTracking = spread_over True (in_searchTracking p),
    collectSearchTerms = spread_over False (in_collectSearchTerms p),
    searchParams = in_searchParams p, appVersion = in_appVersion p,
    releaseVersion = in_releaseVersion p, gitSha = in_gitSha p, deploymentId = in_deploymentId p\<rparr>"

definition validate_options :: "init_options \<Rightarrow> init_error + options" where
  "validate_options p =
     (if in_siteId p = [] \<or> in_endpoint p = [] then Inl MissingSiteOrEndpoint
      else
        let env = or_str (opt_text (in_environment p)) ''prd'';
            version = (case in_contractVersion p of None \<Rightarrow> Fin 1 | Some n \<Rightarrow> n)
        in if \<not> valid_environment env then Inl InvalidEnvironment
           else case positive_integer version of
                  None \<Rightarrow> Inl InvalidContractVersion
                | Some k \<Rightarrow> Inr (resolve_options p env k))"

subsection \<open>Installing the listeners\<close>

definition installRouteTracking :: "tracker \<Rightarrow> tracker" where
  "installRouteTracking t =
     (if routeInstalled t then t
      else t\<lparr>routeInstalled := True, lastRouteAt := mono t, lastRoutePath := pathname t\<rparr>)"

definition onRoute :: "route_hook \<Rightarrow> tracker \<Rightarrow> tracker" where
  "onRoute hook t = (let u = installRouteTracking t in u\<lparr>routeHooks := routeHooks u @ [hook]\<rparr>)"

definition install :: "feature \<Rightarrow> tracker \<Rightarrow> tracker" where
  "install f t = t\<lparr>installed := installed t @ [f]\<rparr>"

definition installAutoTracking :: "tracker \<Rightarrow> tracker" where
  "installAutoTracking t = install AutoTracking (onRoute PageViewHook t)"

definition installFrustrationSignals :: "tracker \<Rightarrow> tracker" where
  "installFrustrationSignals t = install FrustrationSignals (onRoute RapidBackHook t)"

definition installSearchTracking :: "tracker \<Rightarrow> tracker" where
  "installSearchTracking t = detectSearchFromURL (install SearchTracking (onRoute SearchHook t))"

definition install_features :: "tracker \<Rightarrow> tracker" where
  "install_features t =
     (if initialized t then t
      else
        let t1 = install CspDiagnostics t;
            t2 = (if option_on autoTrack t1 then installAutoTracking t1 else t1);
            t3 = (if option_on autoRUM t2 then installRUM t2 else t2)
        in if option_on frustrationSignals t3 then installFrustrationSignals t3 else t3)"

subsection \<open>init\<close>

text \<open>The part of \<open>init\<close> up to the restored queue and the report of dropped events.\<close>

definition load_state :: "init_options \<Rightarrow> options \<Rightarrow> tracker \<Rightarrow> tracker" where
  "load_state p resolved t =
     (let ps = spread [] (case in_sessionProperties p of None \<Rightarrow> [] | Some x \<Rightarrow> x);
          t1 = migrateLegacyStorage
                 (t\<lparr>opts := Some resolved, debugEnabled := is_on (debugOption resolved),
                    defaultSessionProperties := ps, sessionProperties := ps\<rparr>);
          t2 = t1\<lparr>consentState := readConsentState t1\<rparr>
      in reportDropped (restoreOffline (loadIdentity False t2)))"

definition init :: "init_options \<Rightarrow> tracker \<Rightarrow> init_error + tracker" where
  "init p t =
     (case validate_options p of
        Inl e \<Rightarrow> Inl e
      | Inr resolved \<Rightarrow>
          (let t1 = install_features (load_state p resolved t);
               firstRun = (\<not> initialized t1);
               t2 = t1\<lparr>initialized := True\<rparr>;
               t3 = (if option_on autoTrack t2 then track ''page_view'' [] t2 else t2)
           in Inr (if option_on searchTracking t3 \<and> firstRun then installSearchTracking t3 else t3)))"

subsection \<open>Consent\<close>

definition consent_grant :: "tracker \<Rightarrow> tracker" where
  "consent_grant t =
     (let wasTracking = canTrack t;
          t1 = t\<lparr>consentState := Granted\<rparr>;
          t2 = (if storageOk t1 then put_scoped CONSENT_KEY ''granted'' t1 else t1);
          t3 = loadIdentity True t2
      in if \<not> wasTracking \<and> option_on autoTrack t3 then track ''page_view'' [] t3 else t3)"

definition consent_deny :: "tracker \<Rightarrow> tracker" where
  "consent_deny t =
     (let t1 = t\<lparr>consentState := Denied\<rparr>;
          t2 = (if storageOk t1 then put_scoped CONSENT_KEY ''denied'' t1 else t1)
      in clearTrackingState t2)"

definition consent_revoke :: "tracker \<Rightarrow> tracker" where
  "consent_revoke t =
     (let t1 = t\<lparr>consentState := Unknown\<rparr>;
          t2 = (if storageOk t1 then drop_scoped CONSENT_KEY t1 else t1)
      in loadIdentity False (clearTrackingState t2))"

subsection \<open>Cookies and debugging\<close>

definition cookie_enable :: "tracker \<Rightarrow> tracker" where
  "cookie_enable t =
     (case opts t of
        None \<Rightarrow> t
      | Some p \<Rightarrow> loadIdentity True (t\<lparr>opts := Some (p\<lparr>mode := Some ''full''\<rparr>)\<rparr>))"

definition cookie_disable :: "tracker \<Rightarrow> tracker" where
  "cookie_disable t =
     (case opts t of
        None \<Rightarrow> t
      | Some p \<Rightarrow> renew_ids (clearIdentityStorage (t\<lparr>opts := Some (p\<lparr>mode := Some ''cookieless''\<rparr>)\<rparr>)))"

definition set_debug :: "bool \<Rightarrow> tracker \<Rightarrow> tracker" where
  "set_debug on t = t\<lparr>debugEnabled := on\<rparr>"

subsection \<open>The script tag\<close>

text \<open>
  The data attributes of the tracker's script tag; a missing one is \<open>None\<close>. The endpoint is
  resolved by \<open>resolveEndpoint\<close> before.
\<close>

record script_tag =
  ds_siteId :: string
  ds_mode :: "string option"
  ds_environment :: "string option"
  ds_contractVersion :: "string option"
  ds_debug :: "string option"
  ds_collectElementText :: "string option"
  ds_sessionTimeout :: "string option"
  ds_autoRum :: "string option"
  ds_frustrationSignals :: "string option"
  ds_searchTracking :: "string option"
  ds_collectSearchTerms :: "string option"
  ds_searchParams :: "string option"
  ds_appVersion :: "string option"
  ds_releaseVersion :: "string option"
  ds_gitSha :: "string option"
  ds_deploymentId :: "string option"

definition parse_names :: "string \<Rightarrow> string list" where
  "parse_names s = filter (\<lambda>w. w \<noteq> []) (map js_trim (split_on (CHR '','') s))"

text \<open>\<open>Number(x) || undefined\<close> for a finite number.\<close>

definition number_or_undefined :: "string option \<Rightarrow> rat option" where
  "number_or_undefined s =
     (case s of
        None \<Rightarrow> None
      | Some x \<Rightarrow> (case js_number x of Fin q \<Rightarrow> if q = 0 then None else Some q | _ \<Rightarrow> None))"

definition snippet_options :: "script_tag \<Rightarrow> string \<Rightarrow> init_options" where
  "snippet_options d resolved =
   \<lparr>in_siteId = ds_siteId d, in_endpoint = resolved,
    in_environment = Some (or_str (opt_text (ds_environment d)) ''prd''),
    in_contractVersion =
      Some (if opt_text (ds_contractVersion d) = [] then Fin 1
            else js_number (opt_text (ds_contractVersion d))),
    in_mode = Some (Some (or_str (opt_text (ds_mode d)) ''full'')),
    in_sessionTimeoutMinutes = Some (number_or_undefined (ds_sessionTimeout d)),
    in_debug = Some (ds_debug d = Some ''true''),
    in_autoTrack = None, in_heartbeatSeconds = None, in_batchSize = None,
    in_collectElementText = Some (Some (ds_collectElementText d = Some ''true'')),
    in_sanitizeErrorMessages = None,
    in_autoRUM = Some (Some (ds_autoRum d \<noteq> Some ''false'')),
    in_frustrationSignals = Some (Some (ds_frustrationSignals d \<noteq> Some ''false'')),
    in_searchTracking = Some (Some (ds_searchTracking d \<noteq> Some ''false'')),
    in_collectSearchTerms = Some (Some (ds_collectSearchTerms d = Some ''true'')),
    in_searchParams =
      (if opt_text (ds_searchParams d) = [] then None
       else Some (parse_names (opt_text (ds_searchParams d)))),
    in_appVersion = ds_appVersion d, in_releaseVersion = ds_releaseVersion d,
    in_gitSha = ds_gitSha d, in_deploymentId = ds_deploymentId d, in_sessionProperties = None\<rparr>"

end
