(* ===== verification/AutoTrack.thy ===== *)
theory AutoTrack
  imports Consent
begin

section \<open>Automatic tracking and the steps of a page\<close>

text \<open>
  The listeners of \<open>installAutoTracking\<close> and of the other features, the route hooks, and the
  datatype \<open>action\<close> of everything that can happen to the tracker on a page: calls of its
  public operations, browser events, timers and answers of the collector. \<open>exec\<close> is one step;
  a listener runs only once its feature is installed.
\<close>

subsection \<open>Listeners\<close>

definition download_suffixes :: "string list" where
  "download_suffixes =
     [''.pdf'', ''.zip'', ''.doc'', ''.docx'', ''.xls'', ''.xlsx'', ''.ppt'', ''.pptx'', ''.csv'']"

definition is_download_path :: "string \<Rightarrow> bool" where
  "is_download_path path \<longleftrightarrow> list_ex (\<lambda>s. suffix s (js_lower path)) download_suffixes"

definition click_event :: "elem \<Rightarrow> tracker \<Rightarrow> string \<times> props" where
  "click_event x t =
     (let ps = elementProperties t x in
      case el_anchor x of
        None \<Rightarrow> (''click'', ps)
      | Some a \<Rightarrow>
          if an_href a \<noteq> [] \<and> an_origin a \<noteq> locOrigin t then
            (''outbound_click'', setp ''url'' (VStr (sanitizedURL (urlParse t) (an_href a))) ps)
          else if an_download a \<noteq> [] \<or> is_download_path (an_pathname a) then
            (''file_download'', setp ''url'' (VStr (sanitizedURL (urlParse t) (an_href a))) ps)
          else (''click'', ps))"

text \<open>The clicked element and the link or button around it, if any.\<close>

definition onClick :: "elem \<Rightarrow> elem option \<Rightarrow> tracker \<Rightarrow> tracker" where
  "onClick x target t =
     (let u = (case target of
                 None \<Rightarrow> t
               | Some y \<Rightarrow>
                   (let v = (case click_event y t of (name, ps) \<Rightarrow> track name ps t)
                    in if option_on searchTracking v then observeSearchClick y v else v))
      in if option_on frustrationSignals u
         then observeClickFrustration (case target of None \<Rightarrow> x | Some y \<Rightarrow> y) u else u)"

definition scroll_depth :: "rat \<Rightarrow> rat \<Rightarrow> int" where
  "scroll_depth y extent = js_round (y / extent * 100)"

definition scroll_step :: "int \<Rightarrow> int \<Rightarrow> tracker \<Rightarrow> tracker" where
  "scroll_step depth threshold t =
     (if depth \<ge> threshold \<and> threshold \<notin> set (trackedScroll t) then
        track ''scroll'' [(''percent'', vint threshold)]
          (t\<lparr>trackedScroll := trackedScroll t @ [threshold]\<rparr>)
      else t)"

definition scroll_thresholds :: "int list" where
  "scroll_thresholds = [25, 50, 75, 90]"

definition onScroll :: "rat \<Rightarrow> rat \<Rightarrow> tracker \<Rightarrow> tracker" where
  "onScroll y extent t =
     (if extent \<le> 0 then t else fold (scroll_step (scroll_depth y extent)) scroll_thresholds t)"

definition onFocusIn :: "form option \<Rightarrow> tracker \<Rightarrow> tracker" where
  "onFocusIn f t =
     (case f of
        None \<Rightarrow> t
      | Some x \<Rightarrow>
          if fm_node x \<in> set (startedForms t) then t
          else track ''form_start''
                 [(''form_id'',
                   if fm_id x \<noteq> [] then VStr (fm_id x)
                   else case fm_name x of None \<Rightarrow> VNull | Some n \<Rightarrow> VStr n)]
                 (t\<lparr>startedForms := startedForms t @ [fm_node x]\<rparr>))"

definition onSubmit :: "form \<Rightarrow> tracker \<Rightarrow> tracker" where
  "onSubmit f t = track ''form_submit'' [(''form_id'', VStr (form_label f))] t"

definition error_message :: "tracker \<Rightarrow> val \<Rightarrow> string" where
  "error_message t v =
     (if option_on sanitizeErrorMessages t then redactPII v 500 else js_string v)"

definition onError :: "string \<Rightarrow> string \<Rightarrow> int \<Rightarrow> int \<Rightarrow> tracker \<Rightarrow> tracker" where
  "onError message filename line column t =
     reportErrorAfterClick ''error''
       (track ''error''
          [(''message'', VStr (error_message t (VStr message))),
           (''filename'', VStr (sanitizedURL (urlParse t) filename)),
           (''line'', vint line), (''column'', vint column)] t)"

text \<open>A resource that failed to load: its address and its element's tag. The target of an error event
  without a message is the window, which has neither.\<close>

definition onResourceError :: "(string \<times> string option) option \<Rightarrow> tracker \<Rightarrow> tracker" where
  "onResourceError target t =
     reportErrorAfterClick ''resource_error''
       (case target of
          None \<Rightarrow> t
        | Some (address, tag) \<Rightarrow>
            track ''resource_error''
              [(''resource'', VStr (sanitizedURL (urlParse t) address)),
               (''resource_type'',
                case tag of None \<Rightarrow> VUndef | Some g \<Rightarrow> VStr (js_lower g))] t)"

definition onRejection :: "val \<Rightarrow> tracker \<Rightarrow> tracker" where
  "onRejection reason t =
     reportErrorAfterClick ''unhandledrejection''
       (track ''error''
          [(''message'', VStr (error_message t reason)),
           (''type'', VStr ''unhandledrejection'')] t)"

definition onHeartbeat :: "tracker \<Rightarrow> tracker" where
  "onHeartbeat t =
     (if visible t then
        track ''user_engagement''
          [(''active_seconds'',
            case Option.bind (opts t) heartbeatSeconds of None \<Rightarrow> VUndef | Some q \<Rightarrow> vrat q)] t
      else t)"

text \<open>
  A blocked request: the address the policy blocked. The report is the origin of the collector that
  the console message names; without one nothing happens.
\<close>

definition csp_origin :: "string \<Rightarrow> tracker \<Rightarrow> string option" where
  "csp_origin blocked t =
     (let e = option_text endpoint t in
      if cspReported t \<or> blocked = [] \<or> e = [] then None
      else case urlParse t (if prefix ''http'' e then e else locOrigin t @ e) of
             None \<Rightarrow> None
           | Some (orig, _) \<Rightarrow> if prefix orig blocked then Some orig else None)"

definition onCspViolation :: "string \<Rightarrow> tracker \<Rightarrow> tracker" where
  "onCspViolation blocked t =
     (case csp_origin blocked t of None \<Rightarrow> t | Some _ \<Rightarrow> t\<lparr>cspReported := True\<rparr>)"

subsection \<open>Features and routes\<close>

definition on_feature :: "feature \<Rightarrow> (tracker \<Rightarrow> tracker) \<Rightarrow> tracker \<Rightarrow> tracker" where
  "on_feature f op t = (if f \<in> set (installed t) then op t else t)"

text \<open>
  Listeners run in the order \<open>init\<close> adds them: automatic tracking flushes before the final
  vitals are reported.
\<close>

definition onHidden :: "tracker \<Rightarrow> tracker" where
  "onHidden t = on_feature RUM emitFinalVitals (on_feature AutoTracking (flush True) t)"

definition run_hook :: "route_kind \<Rightarrow> rat \<Rightarrow> string \<Rightarrow> route_hook \<Rightarrow> tracker \<Rightarrow> tracker" where
  "run_hook kind previousAt previousPath hook t =
     (case hook of
        PageViewHook \<Rightarrow> snd (set_timeout PageViewTimer 0 (t\<lparr>trackedScroll := []\<rparr>))
      | RapidBackHook \<Rightarrow> rapid_back_hook kind previousAt previousPath t
      | SearchHook \<Rightarrow> search_hook t)"

definition fire_route :: "route_kind \<Rightarrow> tracker \<Rightarrow> tracker" where
  "fire_route kind t =
     (if \<not> routeInstalled t then t
      else
        let u = t\<lparr>lastRouteAt := mono t, lastRoutePath := pathname t, signalsThisPage := 0\<rparr>
        in fold (run_hook kind (lastRouteAt t) (lastRoutePath t)) (routeHooks u) u)"

subsection \<open>Timers\<close>

definition run_callback :: "callback \<Rightarrow> tracker \<Rightarrow> tracker" where
  "run_callback cb t =
     (case cb of
        FlushTimer \<Rightarrow> flush False (t\<lparr>timer := None\<rparr>)
      | PageViewTimer \<Rightarrow> track ''page_view'' [] t
      | RageTimer x \<Rightarrow> finish_rage_click x t
      | DeadTimer x before \<Rightarrow> finish_dead_click x before t
      | NavigationTimer \<Rightarrow> reportNavigation t
      | SearchPoll q param n \<Rightarrow> poll_result_count q param n t)"

definition fire_timer :: "nat \<Rightarrow> tracker \<Rightarrow> tracker" where
  "fire_timer i t =
     (case map_of (timers t) i of
        None \<Rightarrow> t
      | Some (due, cb) \<Rightarrow> if mono t < due then t else run_callback cb (clear_timeout i t))"

subsection \<open>Actions\<close>

datatype action =
    Init init_options
  | Identify string props
  | SetSessionProperties props
  | TrackSearch string "jnum option"
  | Track string props
  | Flush bool
  | Grant
  | Deny
  | Revoke
  | CookieEnable
  | CookieDisable
  | Debug bool
  | Click elem "elem option"
  | Scroll rat rat
  | FocusIn "form option"
  | Submit form
  | Invalid "form option" string
  | Error string string int int
  | ResourceError "(string \<times> string option) option"
  | Rejection val
  | Hidden
  | Shown
  | Online
  | Offline
  | Heartbeat
  | Route route_kind string string "(string \<times> string) list"
  | Mutation
  | Slow "timing list"
  | PaintLCP "rat list"
  | LayoutShift "(rat \<times> bool) list"
  | EventTiming "timing list"
  | Paint "(string \<times> rat) list"
  | Loaded
  | CspViolation string
  | Tick int rat
  | Timer nat
  | Answer nat bool

text \<open>
  One step before the continuations that became ready run. \<open>Tick\<close> moves the two clocks, the
  system clock in either direction. A call of \<open>init\<close> that throws leaves the tracker as it was.
\<close>

definition exec_now :: "action \<Rightarrow> tracker \<Rightarrow> tracker" where
  "exec_now a t =
     (case a of
        Init p \<Rightarrow> (case init p t of Inl e \<Rightarrow> t | Inr u \<Rightarrow> u)
      | Identify user ps \<Rightarrow> identify user ps t
      | SetSessionProperties ps \<Rightarrow> setSessionProperties ps t
      | TrackSearch q n \<Rightarrow> trackSearch q n t
      | Track name ps \<Rightarrow> track name ps t
      | Flush b \<Rightarrow> flush b t
      | Grant \<Rightarrow> consent_grant t
      | Deny \<Rightarrow> consent_deny t
      | Revoke \<Rightarrow> consent_revoke t
      | CookieEnable \<Rightarrow> cookie_enable t
      | CookieDisable \<Rightarrow> cookie_disable t
      | Debug on \<Rightarrow> set_debug on t
      | Click x target \<Rightarrow> on_feature AutoTracking (onClick x target) t
      | Scroll y extent \<Rightarrow> on_feature AutoTracking (onScroll y extent) (t\<lparr>scrollTop := y\<rparr>)
      | FocusIn f \<Rightarrow> on_feature AutoTracking (onFocusIn f) t
      | Submit f \<Rightarrow> on_feature FrustrationSignals (observeSubmit f) (on_feature AutoTracking (onSubmit f) t)
      | Invalid f l \<Rightarrow> on_feature FrustrationSignals (observeInvalid f l) t
      | Error m f l c \<Rightarrow>
          on_feature AutoTracking (if m = [] then onResourceError (Some ([], None)) else onError m f l c) t
      | ResourceError target \<Rightarrow> on_feature AutoTracking (onResourceError target) t
      | Rejection r \<Rightarrow> on_feature AutoTracking (onRejection r) t
      | Hidden \<Rightarrow> onHidden (t\<lparr>visible := False\<rparr>)
      | Shown \<Rightarrow> t\<lparr>visible := True\<rparr>
      | Online \<Rightarrow> on_feature AutoTracking (flush False) (t\<lparr>onLine := True\<rparr>)
      | Offline \<Rightarrow> t\<lparr>onLine := False\<rparr>
      | Heartbeat \<Rightarrow> on_feature AutoTracking onHeartbeat t
      | Route kind h p q \<Rightarrow> fire_route kind (t\<lparr>href := h, pathname := p, query := q\<rparr>)
      | Mutation \<Rightarrow> t\<lparr>deadMutated := True\<rparr>
      | Slow es \<Rightarrow> (if hasPerfObserver t then on_feature FrustrationSignals (observeSlow es) t else t)
      | PaintLCP es \<Rightarrow> (if hasPerfObserver t then on_feature RUM (observeLCP es) t else t)
      | LayoutShift es \<Rightarrow> (if hasPerfObserver t then on_feature RUM (observeShifts es) t else t)
      | EventTiming es \<Rightarrow> (if hasPerfObserver t then on_feature RUM (observeINP es) t else t)
      | Paint es \<Rightarrow> (if hasPerfObserver t then on_feature RUM (observePaint es) t else t)
      | Loaded \<Rightarrow> (if readyComplete t then t else on_feature RUM reportNavigation (t\<lparr>readyComplete := True\<rparr>))
      | CspViolation blocked \<Rightarrow> on_feature CspDiagnostics (onCspViolation blocked) t
      | Tick wall passed \<Rightarrow> t\<lparr>now := now t + wall, mono := mono t + max 0 passed\<rparr>
      | Timer i \<Rightarrow> fire_timer i t
      | Answer i ok \<Rightarrow> settle i ok t)"

definition drain :: "tracker \<Rightarrow> tracker" where
  "drain t = fold report_ready (readyCounts t) (t\<lparr>readyCounts := []\<rparr>)"

definition exec :: "action \<Rightarrow> tracker \<Rightarrow> tracker" where
  "exec a t = drain (exec_now a t)"

definition run :: "action list \<Rightarrow> tracker \<Rightarrow> tracker" where
  "run as t = fold exec as t"

lemma run_simps [simp]: "run [] t = t" "run (a # as) t = run as (exec a t)"
  by (simp_all add: run_def)

lemma run_append: "run (as @ bs) t = run bs (run as t)"
  by (simp add: run_def)

end
