(* ===== verification/Lifecycle.thy ===== *)
theory Lifecycle
  imports AutoTrack
begin

section \<open>Relations that every step of a page respects\<close>

text \<open>
  Everything that happens on a page is built from a few operations: queueing an event, flushing,
  resuming a flush, starting and clearing a timer, counting a signal, and updates of fields that
  only steer the detection of signals. The locale \<open>page_order\<close> states for a reflexive and
  transitive relation what these must satisfy and derives it for every action, hence for every
  run. An invariant \<open>I\<close> is the relation \<open>I t \<longrightarrow> I u\<close>; a quantity that only grows
  is an order.
\<close>

subsection \<open>The fields that only steer detection\<close>

text \<open>\<open>core t\<close> blanks them, with the browser's fields that change under a page.\<close>

definition core :: "tracker \<Rightarrow> tracker" where
  "core t = t\<lparr>now := 0, mono := 0, href := [], pathname := [], query := [], onLine := True,
     visible := True, scrollTop := 0, readyComplete := True, startedForms := [],
     debugEnabled := False, initialized := True, trackedScroll := [], installed := [],
     routeHooks := [], routeInstalled := True, lastRouteAt := 0, lastRoutePath := [],
     deadClickPending := False, deadMutated := False, lastClick := None,
     formAttempts := (\<lambda>_. None), lastInvalidForm := ([], 0), slowInteractionSeen := 0,
     searchState := None, readyCounts := [], lastLCP := 0, clsTotal := 0, maxINP := 0,
     vitalsEmitted := False, cspReported := False\<rparr>"

lemma core_read:
  fixes t :: tracker
  shows "opts (core t) = opts t" "queue (core t) = queue t" "flights (core t) = flights t"
    "handedOver (core t) = handedOver t" "sent (core t) = sent t" "timers (core t) = timers t"
    "timer (core t) = timer t" "nextTimer (core t) = nextTimer t" "rageBurst (core t) = rageBurst t"
    "signalsThisPage (core t) = signalsThisPage t" "userId (core t) = userId t"
    "consentState (core t) = consentState t" "doNotTrack (core t) = doNotTrack t"
    "storage (core t) = storage t" "uuid (core t) = uuid t" "drawn (core t) = drawn t"
    "visitorId (core t) = visitorId t" "storageOk (core t) = storageOk t"
  by (simp_all add: core_def)

lemma core_fields:
  assumes "core u = core t"
  shows "opts u = opts t" "queue u = queue t" "flights u = flights t"
    "handedOver u = handedOver t" "sent u = sent t" "timers u = timers t"
    "timer u = timer t" "nextTimer u = nextTimer t" "rageBurst u = rageBurst t"
    "signalsThisPage u = signalsThisPage t" "userId u = userId t"
    "consentState u = consentState t" "doNotTrack u = doNotTrack t"
    "storage u = storage t" "uuid u = uuid t" "drawn u = drawn t"
    "visitorId u = visitorId t" "storageOk u = storageOk t"
  using assms by (metis core_read)+

lemma core_updates [simp]:
  "core (t\<lparr>now := a1\<rparr>) = core t" "core (t\<lparr>mono := a2\<rparr>) = core t"
  "core (t\<lparr>href := a3\<rparr>) = core t" "core (t\<lparr>pathname := a3\<rparr>) = core t"
  "core (t\<lparr>query := a4\<rparr>) = core t" "core (t\<lparr>onLine := a5\<rparr>) = core t"
  "core (t\<lparr>visible := a5\<rparr>) = core t" "core (t\<lparr>scrollTop := a2\<rparr>) = core t"
  "core (t\<lparr>readyComplete := a5\<rparr>) = core t" "core (t\<lparr>startedForms := a6\<rparr>) = core t"
  "core (t\<lparr>debugEnabled := a5\<rparr>) = core t" "core (t\<lparr>initialized := a5\<rparr>) = core t"
  "core (t\<lparr>trackedScroll := a7\<rparr>) = core t" "core (t\<lparr>installed := a8\<rparr>) = core t"
  "core (t\<lparr>routeHooks := a9\<rparr>) = core t" "core (t\<lparr>routeInstalled := a5\<rparr>) = core t"
  "core (t\<lparr>lastRouteAt := a2\<rparr>) = core t" "core (t\<lparr>lastRoutePath := a3\<rparr>) = core t"
  "core (t\<lparr>deadClickPending := a5\<rparr>) = core t" "core (t\<lparr>deadMutated := a5\<rparr>) = core t"
  "core (t\<lparr>lastClick := b1\<rparr>) = core t" "core (t\<lparr>formAttempts := b2\<rparr>) = core t"
  "core (t\<lparr>lastInvalidForm := b3\<rparr>) = core t" "core (t\<lparr>slowInteractionSeen := b4\<rparr>) = core t"
  "core (t\<lparr>searchState := b5\<rparr>) = core t" "core (t\<lparr>readyCounts := b6\<rparr>) = core t"
  "core (t\<lparr>lastLCP := a2\<rparr>) = core t" "core (t\<lparr>clsTotal := a2\<rparr>) = core t"
  "core (t\<lparr>maxINP := a2\<rparr>) = core t" "core (t\<lparr>vitalsEmitted := a5\<rparr>) = core t"
  "core (t\<lparr>cspReported := a5\<rparr>) = core t"
  by (simp_all add: core_def)

subsection \<open>The locale\<close>

definition burst_fits :: "tracker \<Rightarrow> burst option \<Rightarrow> bool" where
  "burst_fits t b \<longleftrightarrow>
     (case b of
        None \<Rightarrow> True
      | Some r \<Rightarrow>
          (case bu_timer r of
             None \<Rightarrow> True
           | Some i \<Rightarrow> Option.bind (rageBurst t) bu_timer = Some i
               \<or> (\<exists>due x. map_of (rev (timers t)) i = Some (due, RageTimer x))))"

locale page_order =
  fixes R :: "tracker \<Rightarrow> tracker \<Rightarrow> bool"
    and allowed :: "action \<Rightarrow> bool"
  assumes refl: "R t t"
    and trans: "R t u \<Longrightarrow> R u v \<Longrightarrow> R t v"
    and steer: "core u = core t \<Longrightarrow> R t u"
    and track_event: "R t (track name ps t)"
    and flush_queue: "R t (flush b t)"
    and settle_flight: "R t (settle i ok t)"
    and timeout: "cb \<noteq> FlushTimer \<Longrightarrow> R t (snd (set_timeout cb d t))"
    and fire_flush:
      "map_of (timers t) i = Some (due, FlushTimer) \<Longrightarrow> R t ((clear_timeout i t)\<lparr>timer := None\<rparr>)"
    and fire_other:
      "map_of (timers t) i = Some (due, cb) \<Longrightarrow> cb \<noteq> FlushTimer \<Longrightarrow> R t (clear_timeout i t)"
    and count_signal:
      "signalsThisPage t < SIGNALS_PER_PAGE
        \<Longrightarrow> R t (t\<lparr>signalsThisPage := signalsThisPage t + 1\<rparr>)"
    and reset_signals: "R t (t\<lparr>signalsThisPage := 0\<rparr>)"
    and set_burst: "burst_fits t r \<Longrightarrow> R t (t\<lparr>rageBurst := r\<rparr>)"
    and clear_burst:
      "Option.bind (rageBurst t) bu_timer = Some i \<Longrightarrow> R t (clear_timeout i t)"
    and identify_user: "R t (identify user ps t)"
    and session_properties: "R t (setSessionProperties ps t)"
    and load: "allowed (Init p) \<Longrightarrow> validate_options p = Inr q \<Longrightarrow> R t (load_state p q t)"
    and grant: "allowed Grant \<Longrightarrow> R t (consent_grant t)"
    and deny: "allowed Deny \<Longrightarrow> R t (consent_deny t)"
    and revoke: "allowed Revoke \<Longrightarrow> R t (consent_revoke t)"
    and enable: "allowed CookieEnable \<Longrightarrow> R t (cookie_enable t)"
    and disable: "allowed CookieDisable \<Longrightarrow> R t (cookie_disable t)"
begin

lemma steer_then: "core u = core t \<Longrightarrow> R u v \<Longrightarrow> R t v"
  using steer trans by blast

lemma step_fold: "(\<And>x u. x \<in> set xs \<Longrightarrow> R u (f x u)) \<Longrightarrow> R t (fold f xs t)"
proof (induction xs arbitrary: t)
  case (Cons x xs)
  then have "R t (f x t)" "R (f x t) (fold f xs (f x t))" by simp_all
  then show ?case using trans by simp
qed (simp add: refl)

lemma after_track: "R t u \<Longrightarrow> R t (track name ps u)"
  using track_event trans by blast

lemma after_flush: "R t u \<Longrightarrow> R t (flush b u)"
  using flush_queue trans by blast

lemma after_timeout: "R t u \<Longrightarrow> cb \<noteq> FlushTimer \<Longrightarrow> R t (snd (set_timeout cb d u))"
  using timeout trans by blast

lemma after_steer: "R t u \<Longrightarrow> core v = core u \<Longrightarrow> R t v"
  using steer trans by blast

lemma after_update:
  assumes "R t u"
  shows "R t (u\<lparr>now := a1\<rparr>)"
    "R t (u\<lparr>mono := a2\<rparr>)"
    "R t (u\<lparr>href := a3\<rparr>)"
    "R t (u\<lparr>pathname := a3\<rparr>)"
    "R t (u\<lparr>query := a4\<rparr>)"
    "R t (u\<lparr>onLine := a5\<rparr>)"
    "R t (u\<lparr>visible := a5\<rparr>)"
    "R t (u\<lparr>scrollTop := a2\<rparr>)"
    "R t (u\<lparr>readyComplete := a5\<rparr>)"
    "R t (u\<lparr>startedForms := a6\<rparr>)"
    "R t (u\<lparr>debugEnabled := a5\<rparr>)"
    "R t (u\<lparr>initialized := a5\<rparr>)"
    "R t (u\<lparr>trackedScroll := a7\<rparr>)"
    "R t (u\<lparr>installed := a8\<rparr>)"
    "R t (u\<lparr>routeHooks := a9\<rparr>)"
    "R t (u\<lparr>routeInstalled := a5\<rparr>)"
    "R t (u\<lparr>lastRouteAt := a2\<rparr>)"
    "R t (u\<lparr>lastRoutePath := a3\<rparr>)"
    "R t (u\<lparr>deadClickPending := a5\<rparr>)"
    "R t (u\<lparr>deadMutated := a5\<rparr>)"
    "R t (u\<lparr>lastClick := b1\<rparr>)"
    "R t (u\<lparr>formAttempts := b2\<rparr>)"
    "R t (u\<lparr>lastInvalidForm := b3\<rparr>)"
    "R t (u\<lparr>slowInteractionSeen := b4\<rparr>)"
    "R t (u\<lparr>searchState := b5\<rparr>)"
    "R t (u\<lparr>readyCounts := b6\<rparr>)"
    "R t (u\<lparr>lastLCP := a2\<rparr>)"
    "R t (u\<lparr>clsTotal := a2\<rparr>)"
    "R t (u\<lparr>maxINP := a2\<rparr>)"
    "R t (u\<lparr>vitalsEmitted := a5\<rparr>)"
    "R t (u\<lparr>cspReported := a5\<rparr>)"
  by (rule after_steer [OF assms], simp)+

lemma step_signal: "R t (signal name ps t)"
proof (cases "signalsThisPage t \<ge> SIGNALS_PER_PAGE")
  case False
  then have "R t (t\<lparr>signalsThisPage := signalsThisPage t + 1\<rparr>)" by (intro count_signal) simp
  with False show ?thesis by (simp add: signal_def after_track)
qed (simp add: signal_def refl)

lemma after_signal: "R t u \<Longrightarrow> R t (signal name ps u)"
  using step_signal trans by blast

lemma step_check_dead: "R t (checkDeadClick x t)"
  by (auto simp: checkDeadClick_def intro!: refl after_timeout after_update)

lemma step_start_burst: "R t (start_burst x t)"
proof -
  define u where "u = (case rageBurst t of None \<Rightarrow> t
      | Some r \<Rightarrow> (case bu_timer r of None \<Rightarrow> t | Some i \<Rightarrow> clear_timeout i t))"
  have "R t u" unfolding u_def using clear_burst [of t] refl
    by (auto split: option.split)
  moreover have "R u (u\<lparr>rageBurst := Some \<lparr>bu_signature = elementSignature x, bu_at = mono t,
      bu_count = 1, bu_timer = None\<rparr>\<rparr>)"
    by (rule set_burst) (simp add: burst_fits_def)
  ultimately show ?thesis
    unfolding start_burst_def Let_def u_def [symmetric] using step_check_dead trans by meson
qed

lemma step_grow_burst: "rageBurst t = Some r \<Longrightarrow> R t (grow_burst r x t)"
proof -
  assume r: "rageBurst t = Some r"
  define r' where "r' = r\<lparr>bu_at := mono t, bu_count := bu_count r + 1\<rparr>"
  have g: "grow_burst r x t =
      (if bu_count r' = RAGE_CLICK_THRESHOLD then
        (snd (set_timeout (RageTimer x) RAGE_CLICK_WINDOW_MS t))
          \<lparr>rageBurst := Some (r'\<lparr>bu_timer := Some (nextTimer t)\<rparr>)\<rparr>
      else t\<lparr>rageBurst := Some r'\<rparr>)"
    by (simp add: grow_burst_def Let_def r'_def set_timeout_def)
  show ?thesis
  proof (cases "bu_count r' = RAGE_CLICK_THRESHOLD")
    case True
    let ?u = "snd (set_timeout (RageTimer x) RAGE_CLICK_WINDOW_MS t)"
    have "burst_fits ?u (Some (r'\<lparr>bu_timer := Some (nextTimer t)\<rparr>))"
      by (simp add: burst_fits_def set_timeout_def)
    from set_burst [OF this] timeout [of "RageTimer x" t] True show ?thesis
      unfolding g using trans by auto
  next
    case False
    have "burst_fits t (Some r')" using r by (simp add: burst_fits_def r'_def split: option.split)
    from set_burst [OF this] False show ?thesis unfolding g by simp
  qed
qed

lemma step_frustration: "R t (observeClickFrustration x t)"
proof -
  define u where "u = t\<lparr>lastClick := Some (mono t, elementProperties t x)\<rparr>"
  have "core u = core t" by (simp add: u_def core_def)
  moreover have "R u (case rageBurst u of None \<Rightarrow> start_burst x u
      | Some r \<Rightarrow> if same_burst (Some r) (elementSignature x) (mono u) then grow_burst r x u
          else start_burst x u)"
    using step_start_burst step_grow_burst [of u _ x] by (auto split: option.split)
  ultimately show ?thesis
    unfolding observeClickFrustration_def Let_def u_def [symmetric] by (rule steer_then)
qed

lemma step_finish_dead: "R t (finish_dead_click x before t)"
  by (auto simp: finish_dead_click_def Let_def intro!: refl after_signal after_update)

lemma step_finish_rage: "R t (finish_rage_click x t)"
proof -
  have "R u (u\<lparr>rageBurst := None\<rparr>)" for u by (rule set_burst) (simp add: burst_fits_def)
  then show ?thesis unfolding finish_rage_click_def Let_def using step_signal trans by blast
qed

lemma step_rapid_back: "R t (rapid_back_hook kind at0 path t)"
  by (simp add: rapid_back_hook_def step_signal refl)

lemma step_submit: "R t (observeSubmit f t)"
  by (auto simp: observeSubmit_def Let_def intro!: refl after_signal after_update)

lemma step_invalid: "R t (observeInvalid f l t)"
  by (auto simp: observeInvalid_def Let_def intro!: refl after_signal after_update)

lemma step_slow: "R t (observeSlow es t)"
proof (induction es t rule: observeSlow.induct)
  case (2 name duration interaction rest t)
  define u where "u = signal ''slow_interaction''
    [(''duration_ms'', vint (js_round duration)), (''interaction'', VStr name)]
    (t\<lparr>slowInteractionSeen := slowInteractionSeen t + 1\<rparr>)"
  have "R t u" unfolding u_def by (intro after_signal steer) simp
  with 2 show ?case by (auto simp: refl u_def intro: trans)
qed (simp add: refl)

lemma step_error_after_click: "R t (reportErrorAfterClick kind t)"
  by (auto simp: reportErrorAfterClick_def step_signal refl split: option.split)

lemma step_vital: "R t (trackVital metric v extra t)"
  by (auto simp: trackVital_def track_event refl split: jnum.split)

lemma after_vital: "R t u \<Longrightarrow> R t (trackVital metric v extra u)"
  using step_vital trans by blast

lemma step_final_vitals: "R t (emitFinalVitals t)"
  by (auto simp: emitFinalVitals_def Let_def intro!: refl after_vital after_update)

lemma step_navigation: "R t (reportNavigation t)"
  by (auto simp: reportNavigation_def refl intro!: after_vital split: option.split)

lemma step_paint: "R t (observePaint es t)"
  by (auto simp: observePaint_def refl step_vital split: option.split)

lemma step_inp: "R t (observeINP es t)"
  unfolding observeINP_def by (rule step_fold) (auto simp: intro!: refl after_update split: prod.split)

subsection \<open>Search\<close>

lemma step_follow_up: "R t (follow_up q p at0 t)"
  by (simp add: follow_up_def step_signal track_event refl)

lemma step_record_search: "R t (recordSearch raw extra t)"
proof -
  have "R t (track n ps (t\<lparr>searchState := s\<rparr>))" for n ps s
    by (intro after_track steer) simp
  then show ?thesis
    unfolding recordSearch_def Let_def
    by (auto simp: refl split: option.split intro: trans [OF _ step_follow_up])
qed

lemma step_track_search: "R t (trackSearch q n t)"
  by (simp add: trackSearch_def step_record_search refl)

lemma step_wait: "R t (wait_for_count q p n t)"
  by (auto simp: wait_for_count_def result_ready_def intro!: refl after_update timeout)

lemma step_poll: "R t (poll_result_count q p n t)"
  by (auto simp: poll_result_count_def result_ready_def step_wait intro!: refl after_update split: option.split)

lemma step_detect: "R t (detectSearchFromURL t)"
  by (auto simp: detectSearchFromURL_def result_ready_def step_wait intro!: refl after_update
      split: option.split)

lemma step_search_hook: "R t (search_hook t)"
  unfolding search_hook_def by (rule steer_then [OF _ step_detect]) simp

lemma step_ready: "R t (report_ready r t)"
  by (auto simp: report_ready_def step_record_search split: prod.split)

lemma step_drain: "R t (drain t)"
  unfolding drain_def by (rule steer_then [OF _ step_fold]) (simp_all add: step_ready)

lemma step_search_click: "R t (observeSearchClick x t)"
  by (auto simp: observeSearchClick_def track_event refl split: option.split)

subsection \<open>Listeners\<close>

lemma step_click: "R t (onClick x target t)"
proof -
  define v where "v y = (case click_event y t of (name, ps) \<Rightarrow> track name ps t)" for y
  define u where "u = (case target of None \<Rightarrow> t
      | Some y \<Rightarrow> if option_on searchTracking (v y) then observeSearchClick y (v y) else v y)"
  have "R t (v y)" for y by (simp add: v_def track_event split: prod.split)
  then have "R t u" unfolding u_def
    by (auto simp: refl split: option.split intro: trans [OF _ step_search_click])
  moreover have "onClick x target t = (if option_on frustrationSignals u
      then observeClickFrustration (case target of None \<Rightarrow> x | Some y \<Rightarrow> y) u else u)"
    unfolding onClick_def u_def v_def Let_def by (rule HOL.refl)
  ultimately show ?thesis by (auto intro: trans [OF _ step_frustration])
qed

lemma step_scroll: "R t (onScroll y extent t)"
  by (auto simp: onScroll_def scroll_step_def refl intro!: refl step_fold after_track after_update)

lemma step_focus: "R t (onFocusIn f t)"
  by (auto simp: onFocusIn_def intro!: refl after_track after_update split: option.split)

lemma step_error: "R t (onError m f l c t)"
  unfolding onError_def by (rule trans [OF track_event step_error_after_click])

lemma step_resource_error: "R t (onResourceError target t)"
  by (auto simp: onResourceError_def step_error_after_click split: option.split
      intro: trans [OF track_event step_error_after_click])

lemma step_rejection: "R t (onRejection r t)"
  unfolding onRejection_def by (rule trans [OF track_event step_error_after_click])

lemma step_feature: "(\<And>u. R u (op u)) \<Longrightarrow> R t (on_feature f op t)"
  by (simp add: on_feature_def refl)

lemma step_hidden: "R t (onHidden t)"
  unfolding onHidden_def
  by (rule trans [OF step_feature step_feature]) (simp_all add: flush_queue step_final_vitals)

lemma step_hook: "R t (run_hook kind at0 path hook t)"
  by (auto simp: run_hook_def step_rapid_back step_search_hook intro!: refl after_timeout after_update
      split: route_hook.split)

lemma step_route: "R t (fire_route kind t)"
proof (cases "routeInstalled t")
  case True
  define u where "u = t\<lparr>lastRouteAt := mono t, lastRoutePath := pathname t, signalsThisPage := 0\<rparr>"
  have "R t (t\<lparr>lastRouteAt := mono t, lastRoutePath := pathname t\<rparr>)" by (rule steer) simp
  then have "R t u" using reset_signals trans unfolding u_def by fastforce
  moreover have "R u (fold (run_hook kind (lastRouteAt t) (lastRoutePath t)) (routeHooks u) u)"
    by (rule step_fold) (rule step_hook)
  ultimately show ?thesis using True trans
    by (simp add: fire_route_def Let_def u_def)
qed (simp add: fire_route_def refl)

lemma step_callback:
  "cb \<noteq> FlushTimer \<Longrightarrow> R t (run_callback cb t)"
  by (cases cb) (simp_all add: run_callback_def track_event step_finish_rage step_finish_dead
      step_navigation step_poll)

lemma step_timer: "R t (fire_timer i t)"
proof (cases "map_of (timers t) i")
  case (Some e)
  obtain due cb where e: "e = (due, cb)" by fastforce
  show ?thesis
  proof (cases "cb = FlushTimer")
    case True
    with Some e have "R t (flush False ((clear_timeout i t)\<lparr>timer := None\<rparr>))"
      by (intro after_flush fire_flush) simp
    with Some e True show ?thesis by (simp add: fire_timer_def run_callback_def refl)
  next
    case False
    with Some e have "R t (clear_timeout i t)" using fire_other by blast
    from trans [OF this step_callback [OF False]] Some e show ?thesis
      by (simp add: fire_timer_def refl)
  qed
qed (simp add: fire_timer_def refl)

subsection \<open>Starting, and all actions\<close>

lemma step_on_route: "R t (onRoute hook t)"
  by (auto simp: onRoute_def installRouteTracking_def Let_def intro!: refl after_update)

lemma step_install: "R t u \<Longrightarrow> R t (install f u)"
  by (simp add: install_def after_update)

lemma step_install_rum: "R t (installRUM t)"
  by (auto simp: installRUM_def Let_def intro!: refl after_timeout after_update)

lemma step_install_search: "R t (installSearchTracking t)"
  unfolding installSearchTracking_def
  by (rule trans [OF step_install [OF step_on_route] step_detect])

lemma step_install_features: "R t (install_features t)"
proof -
  define t1 where "t1 = install CspDiagnostics t"
  define t2 where "t2 = (if option_on autoTrack t1 then installAutoTracking t1 else t1)"
  define t3 where "t3 = (if option_on autoRUM t2 then installRUM t2 else t2)"
  have "R t t1" by (simp add: t1_def step_install refl)
  moreover have "R t1 t2"
    by (simp add: t2_def installAutoTracking_def step_install step_on_route refl)
  moreover have "R t2 t3" by (simp add: t3_def step_install_rum refl)
  moreover have "R t3 (if option_on frustrationSignals t3 then installFrustrationSignals t3 else t3)"
    by (simp add: installFrustrationSignals_def step_install step_on_route refl)
  ultimately have "R t (if option_on frustrationSignals t3 then installFrustrationSignals t3 else t3)"
    using trans by blast
  then show ?thesis
    unfolding install_features_def Let_def t3_def t2_def t1_def by (simp add: refl)
qed

lemma step_init:
  assumes "allowed (Init p)" "init p t = Inr u"
  shows "R t u"
proof (cases "validate_options p")
  case (Inr resolved)
  define t1 where "t1 = install_features (load_state p resolved t)"
  define t2 where "t2 = t1\<lparr>initialized := True\<rparr>"
  define t3 where "t3 = (if option_on autoTrack t2 then track ''page_view'' [] t2 else t2)"
  have "R t t1" unfolding t1_def
    by (rule trans [OF load [OF assms(1) Inr] step_install_features])
  then have "R t t3" by (auto simp: t3_def t2_def intro!: after_track after_update)
  moreover have "u = (if option_on searchTracking t3 \<and> \<not> initialized t1
      then installSearchTracking t3 else t3)"
    using assms(2) unfolding init_def Inr Let_def t3_def t2_def t1_def by simp
  ultimately show ?thesis by (auto intro: trans [OF _ step_install_search])
qed (use assms in \<open>simp add: init_def\<close>)

lemma after_feature: "R t u \<Longrightarrow> (\<And>v. R v (op v)) \<Longrightarrow> R t (on_feature f op u)"
  by (rule trans [OF _ step_feature])

lemma step_resource_or_error:
  "R t ((if m = [] then onResourceError x else onError m f l c) t)"
  by (simp add: step_resource_error step_error)

lemmas steps = step_click step_scroll step_focus step_submit step_invalid step_rejection
  step_resource_error step_resource_or_error step_hidden step_route step_slow step_final_vitals
  step_navigation step_paint step_inp step_timer step_track_search track_event flush_queue
  settle_flight identify_user session_properties

lemma step_heartbeat: "R t (onHeartbeat t)"
  by (auto simp: onHeartbeat_def refl track_event)

lemma step_form_submit: "R t (onSubmit f t)"
  by (simp add: onSubmit_def track_event)

lemma step_shifts: "R t (observeShifts es t)"
  by (auto simp: observeShifts_def intro!: refl after_update)

lemma step_lcp: "R t (observeLCP es t)"
  by (auto simp: observeLCP_def intro!: refl after_update)

lemma step_csp: "R t (onCspViolation b t)"
  by (auto simp: onCspViolation_def intro!: refl after_update split: option.split)

lemma step_now: "allowed a \<Longrightarrow> R t (exec_now a t)"
proof (cases a)
  case (Init p)
  assume "allowed a"
  with Init step_init [of p t] show ?thesis by (auto simp: exec_now_def refl split: sum.split)
qed (simp_all add: exec_now_def set_debug_def steps grant deny revoke enable disable refl
    after_feature after_update trans [OF _ step_hidden] trans [OF _ step_route] step_heartbeat
    step_form_submit step_shifts step_lcp step_csp)

theorem step_exec: "allowed a \<Longrightarrow> R t (exec a t)"
  unfolding exec_def by (rule trans [OF step_now step_drain])

theorem step_run: "list_all allowed as \<Longrightarrow> R t (run as t)"
  unfolding run_def by (rule step_fold) (simp add: step_exec list_all_iff)

end

end
