(* ===== verification/Invariants.thy ===== *)
theory Invariants
  imports Lifecycle
begin

section \<open>What holds through every run of a page\<close>

text \<open>
  The relation \<open>page_order\<close> on the model: no event disappears, the cap on signals, the user id
  that is never a person's, silence without consent, and the flush timer that is never lost. Each
  interpretation proves the obligations of the locale for the tracker's operations; the property
  follows for all runs.
\<close>

subsection \<open>No event disappears\<close>

definition kept_events :: "tracker \<Rightarrow> tracker \<Rightarrow> bool" where
  "kept_events t u \<longleftrightarrow> ledger t \<subseteq># ledger u"

text \<open>The two operations that erase on purpose.\<close>

fun erases :: "action \<Rightarrow> bool" where
  "erases Deny = True"
| "erases Revoke = True"
| "erases _ = False"

lemma ledger_eq:
  "queue u = queue t \<Longrightarrow> flights u = flights t \<Longrightarrow> handedOver u = handedOver t \<Longrightarrow> ledger u = ledger t"
  by (simp add: ledger_def)

lemma ledger_put_scoped [simp]: "ledger (put_scoped k v t) = ledger t"
  by (simp add: put_scoped_def ledger_def)

lemma ledger_drop_scoped [simp]: "ledger (drop_scoped k t) = ledger t"
  by (simp add: drop_scoped_def ledger_def)

lemma ledger_updates [simp]:
  "ledger (t\<lparr>opts := o1\<rparr>) = ledger t" "ledger (t\<lparr>consentState := o2\<rparr>) = ledger t"
  "ledger (t\<lparr>drawn := o3\<rparr>) = ledger t" "ledger (t\<lparr>visitorId := o4\<rparr>) = ledger t"
  "ledger (t\<lparr>sessionId := o4\<rparr>) = ledger t" "ledger (t\<lparr>lastEventAt := o5\<rparr>) = ledger t"
  "ledger (t\<lparr>acquisition := o6\<rparr>) = ledger t" "ledger (t\<lparr>sessionProperties := o6\<rparr>) = ledger t"
  "ledger (t\<lparr>debugEnabled := o7\<rparr>) = ledger t"
  "ledger (t\<lparr>defaultSessionProperties := o6\<rparr>) = ledger t"
  "ledger (t\<lparr>timer := o8\<rparr>) = ledger t" "ledger (t\<lparr>rageBurst := o9\<rparr>) = ledger t"
  "ledger (t\<lparr>signalsThisPage := o3\<rparr>) = ledger t"
  "ledger (t\<lparr>userId := o4, userProperties := o6\<rparr>) = ledger t"
  by (simp_all add: ledger_def)

lemma ledger_clear_timeout [simp]: "ledger (clear_timeout i t) = ledger t"
  by (simp add: clear_timeout_def ledger_def)

lemma ledger_set_timeout [simp]: "ledger (snd (set_timeout cb d t)) = ledger t"
  by (simp add: set_timeout_def ledger_def)

lemma ledger_migrate [simp]: "ledger (migrateLegacyStorage t) = ledger t"
proof -
  have "ledger (migrate_key k u) = ledger u" for k u
    by (simp add: migrate_key_def split: option.split)
  then show ?thesis by (simp add: migrateLegacyStorage_def)
qed

lemma ledger_blank_session [simp]: "ledger (blank_session fb t) = ledger t"
  by (simp add: blank_session_def fresh_id_def)

lemma ledger_stored_session [simp]: "ledger (stored_session s fb t) = ledger t"
  by (simp add: stored_session_def fresh_id_def Let_def)

lemma ledger_load_session [simp]: "ledger (load_session fb t) = ledger t"
  by (simp add: load_session_def split: option.split val.split)

lemma ledger_load_visitor [simp]: "ledger (load_visitor t) = ledger t"
  by (simp add: load_visitor_def fresh_id_def Let_def)

lemma ledger_ensure_mono: "ledger t \<subseteq># ledger (ensureSession keep t)"
  using ledger_ensureSession [of keep t] by auto

lemma ledger_loadIdentity_mono: "ledger t \<subseteq># ledger (loadIdentity b t)"
proof -
  have "ledger (if persistent (load_visitor t) then load_session fb (load_visitor t)
      else blank_session fb (load_visitor t)) = ledger t" for fb
    by simp
  then show ?thesis unfolding loadIdentity_def Let_def using ledger_ensure_mono by metis
qed

lemma ledger_restore_mono: "ledger t \<subseteq># ledger (restoreOffline t)"
  by (simp add: restoreOffline_def ledger_def drop_scoped_def split: option.split val.split)

lemma ledger_report_mono: "ledger t \<subseteq># ledger (reportDropped t)"
  unfolding reportDropped_def Let_def
  using ledger_track_mono [of "drop_scoped DROPPED_KEY t"] by auto

lemma ledger_load_mono: "ledger t \<subseteq># ledger (load_state p q t)"
proof -
  define ps where "ps = spread [] (case in_sessionProperties p of None \<Rightarrow> [] | Some x \<Rightarrow> x)"
  define t1 where "t1 = migrateLegacyStorage
     (t\<lparr>opts := Some q, debugEnabled := is_on (debugOption q),
        defaultSessionProperties := ps, sessionProperties := ps\<rparr>)"
  define t2 where "t2 = t1\<lparr>consentState := readConsentState t1\<rparr>"
  have "ledger t2 = ledger t" by (simp add: t1_def t2_def)
  moreover have "ledger t2 \<subseteq># ledger (reportDropped (restoreOffline (loadIdentity False t2)))"
    using ledger_loadIdentity_mono ledger_restore_mono ledger_report_mono subset_mset.order_trans
    by meson
  ultimately show ?thesis
    unfolding load_state_def Let_def t2_def t1_def ps_def by simp
qed

lemma ledger_renew [simp]: "ledger (renew_ids t) = ledger t"
  by (simp add: renew_ids_def fresh_id_def Let_def)

lemma ledger_clear_identity [simp]: "ledger (clearIdentityStorage t) = ledger t"
  by (simp add: clearIdentityStorage_def)

lemma ledger_grant_mono: "ledger t \<subseteq># ledger (consent_grant t)"
proof -
  define t1 where "t1 = t\<lparr>consentState := Granted\<rparr>"
  define t2 where "t2 = (if storageOk t1 then put_scoped CONSENT_KEY ''granted'' t1 else t1)"
  have "ledger t2 = ledger t" by (simp add: t1_def t2_def)
  then have "ledger t \<subseteq># ledger (loadIdentity True t2)" using ledger_loadIdentity_mono by metis
  then show ?thesis
    unfolding consent_grant_def Let_def t1_def [symmetric] t2_def [symmetric]
    by (auto intro: subset_mset.order_trans [OF _ ledger_track_mono])
qed

lemma ledger_enable_mono: "ledger t \<subseteq># ledger (cookie_enable t)"
  unfolding cookie_enable_def
  by (auto split: option.split intro: subset_mset.order_trans [OF _ ledger_loadIdentity_mono])

lemma ledger_identify [simp]: "ledger (identify u ps t) = ledger t"
  by (simp add: identify_def)

lemma ledger_setSessionProperties [simp]: "ledger (setSessionProperties ps t) = ledger t"
  by (simp add: setSessionProperties_def)

lemma ledger_disable [simp]: "ledger (cookie_disable t) = ledger t"
  by (simp add: cookie_disable_def split: option.split)

interpretation conservation: page_order kept_events "\<lambda>a. \<not> erases a"
proof (unfold_locales, unfold kept_events_def)
  show "ledger t \<subseteq># ledger u" if "core u = core t" for t u
    using core_fields [OF that] by (simp add: ledger_def)
  show "ledger t \<subseteq># ledger v" if "ledger t \<subseteq># ledger u" "ledger u \<subseteq># ledger v" for t u v
    using that by (rule subset_mset.order_trans)
qed (simp_all add: ledger_track_mono ledger_flush ledger_settle ledger_load_mono
      ledger_grant_mono ledger_enable_mono)

text \<open>
  C1: no event is lost on a page. Through any run of actions (calls, clicks, routes, timers,
  failed and successful deliveries, connectivity changes, repeated initialisation) in which consent
  is neither denied nor revoked, every event that was queued, in flight or delivered still is one of
  the three, however often it was queued.
\<close>

theorem no_event_lost:
  assumes "list_all (\<lambda>a. \<not> erases a) as"
  shows "ledger t \<subseteq># ledger (run as t)"
  using conservation.step_run [OF assms, of t] unfolding kept_events_def .

lemma no_event_lost_witness:
  "ledger (example_tracker\<lparr>queue := [VNull]\<rparr>)
    \<subseteq># ledger (run [Flush False, Answer 0 False, Track ''click'' [], Hidden]
          (example_tracker\<lparr>queue := [VNull]\<rparr>))"
  by (rule no_event_lost) simp

subsection \<open>The cap on signals\<close>

text \<open>
  The next two invariants read one field each. No operation on events, sessions or storage writes
  either field, so the obligations follow from \<open>still\<close>.
\<close>

definition within_cap :: "tracker \<Rightarrow> bool" where
  "within_cap t \<longleftrightarrow> signalsThisPage t \<le> SIGNALS_PER_PAGE"

definition anonymous :: "tracker \<Rightarrow> bool" where
  "anonymous t \<longleftrightarrow> \<not> looksLikeAPerson (userId t)"

lemma load_state_fields:
  "signalsThisPage (load_state p q t) = signalsThisPage t" "userId (load_state p q t) = userId t"
proof -
  define ps where "ps = spread [] (case in_sessionProperties p of None \<Rightarrow> [] | Some x \<Rightarrow> x)"
  define t0 where "t0 = t\<lparr>opts := Some q, debugEnabled := is_on (debugOption q),
     defaultSessionProperties := ps, sessionProperties := ps\<rparr>"
  define t2 where "t2 = (migrateLegacyStorage t0)\<lparr>consentState := readConsentState (migrateLegacyStorage t0)\<rparr>"
  have l: "load_state p q t = reportDropped (restoreOffline (loadIdentity False t2))"
    unfolding load_state_def Let_def t2_def t0_def ps_def by (rule refl)
  show "signalsThisPage (load_state p q t) = signalsThisPage t"
    "userId (load_state p q t) = userId t"
    by (simp_all add: l t2_def still_all [OF still_migrate]) (simp_all add: t0_def)
qed

lemma consent_fields:
  "signalsThisPage (consent_grant t) = signalsThisPage t" "userId (consent_grant t) = userId t"
  "signalsThisPage (consent_deny t) = signalsThisPage t" "userId (consent_deny t) = userId t"
  "signalsThisPage (consent_revoke t) = signalsThisPage t" "userId (consent_revoke t) = userId t"
  "signalsThisPage (cookie_enable t) = signalsThisPage t" "userId (cookie_enable t) = userId t"
  "signalsThisPage (cookie_disable t) = signalsThisPage t" "userId (cookie_disable t) = userId t"
  by (simp_all add: consent_grant_def consent_deny_def consent_revoke_def cookie_enable_def
      cookie_disable_def Let_def still_all [OF still_renew_ids] split: option.split)

lemma timeout_fields:
  "signalsThisPage (snd (set_timeout cb d t)) = signalsThisPage t"
  "userId (snd (set_timeout cb d t)) = userId t"
  "signalsThisPage (clear_timeout i t) = signalsThisPage t"
  "userId (clear_timeout i t) = userId t"
  by (simp_all add: set_timeout_def clear_timeout_def)

lemma identify_fields [simp]:
  "signalsThisPage (identify user ps t) = signalsThisPage t"
  "signalsThisPage (setSessionProperties ps t) = signalsThisPage t"
  "userId (setSessionProperties ps t) = userId t"
  by (simp_all add: identify_def setSessionProperties_def)

definition keeps_cap :: "tracker \<Rightarrow> tracker \<Rightarrow> bool" where
  "keeps_cap t u \<longleftrightarrow> (within_cap t \<longrightarrow> within_cap u)"

interpretation cap: page_order keeps_cap "\<lambda>_. True"
proof (unfold_locales, unfold keeps_cap_def within_cap_def)
  show "signalsThisPage t \<le> SIGNALS_PER_PAGE \<longrightarrow> signalsThisPage u \<le> SIGNALS_PER_PAGE"
    if "core u = core t" for t u
    using core_fields [OF that] by simp
qed (simp_all add: load_state_fields consent_fields timeout_fields)



definition keeps_anonymous :: "tracker \<Rightarrow> tracker \<Rightarrow> bool" where
  "keeps_anonymous t u \<longleftrightarrow> (anonymous t \<longrightarrow> anonymous u)"

interpretation anonymity: page_order keeps_anonymous "\<lambda>_. True"
proof (unfold_locales, unfold keeps_anonymous_def anonymous_def)
  show "\<not> looksLikeAPerson (userId t) \<longrightarrow> \<not> looksLikeAPerson (userId u)"
    if "core u = core t" for t u
    using core_fields [OF that] by simp
  show "\<not> looksLikeAPerson (userId t) \<longrightarrow> \<not> looksLikeAPerson (userId (identify user ps t))"
    for t user ps
    by (simp add: identify_def)
qed (simp_all add: load_state_fields consent_fields timeout_fields)

text \<open>
  C35: the user id on a payload is never an identifier of a person. From a page without a user id,
  no run of actions, whatever it passes to \<open>identify\<close>, leads to one that \<open>PII_IDENTIFIER\<close>
  matches.
\<close>

theorem user_id_never_a_person:
  assumes "\<not> looksLikeAPerson (userId t)"
  shows "\<not> looksLikeAPerson (userId (run as t))"
  using anonymity.step_run [of as t] assms
  by (simp add: keeps_anonymous_def anonymous_def list_all_iff)

lemma user_id_never_a_person_witness:
  "\<not> looksLikeAPerson (userId (run [Identify ''kim@shop.kr'' [], Identify ''u-17'' []] example_tracker))"
proof (rule user_id_never_a_person)
  show "\<not> looksLikeAPerson (userId example_tracker)"
    by (simp add: example_defs) code_simp
qed

subsection \<open>Silence without consent\<close>

definition identity_keys :: "string list" where
  "identity_keys = [VISITOR_KEY, SESSION_KEY, OFFLINE_KEY, DROPPED_KEY]"

definition unstored :: "tracker \<Rightarrow> bool" where
  "unstored t \<longleftrightarrow> list_all (\<lambda>k. get_scoped t k = None) identity_keys"

text \<open>A tracker that waits for consent and has collected nothing.\<close>

definition waiting :: "tracker \<Rightarrow> bool" where
  "waiting t \<longleftrightarrow> Option.bind (opts t) mode = Some ''consent-required'' \<and> consentState t \<noteq> Granted
     \<and> queue t = [] \<and> flights t = []"

definition keeps_quiet :: "tracker \<Rightarrow> tracker \<Rightarrow> bool" where
  "keeps_quiet t u \<longleftrightarrow>
     (waiting t \<longrightarrow> waiting u \<and> sent u = sent t \<and> (unstored t \<longrightarrow> unstored u))"

text \<open>The actions that give consent or change the mode.\<close>

fun may_collect :: "action \<Rightarrow> bool" where
  "may_collect (Init p) = True"
| "may_collect Grant = True"
| "may_collect CookieEnable = True"
| "may_collect CookieDisable = True"
| "may_collect _ = False"

lemma waiting_blocked: "waiting t \<Longrightarrow> \<not> canTrack t" "waiting t \<Longrightarrow> \<not> isPersistent t"
  by (auto simp: waiting_def canTrack_def isPersistent_def Let_def split: option.splits)

lemma waiting_not_persistent: "waiting t \<Longrightarrow> \<not> persistent t"
  by (simp add: persistent_def waiting_blocked)

lemma unstored_get: "(\<And>k. get_scoped u k = get_scoped t k) \<Longrightarrow> unstored u = unstored t"
  by (simp add: unstored_def)

lemma keeps_quiet_trans: "keeps_quiet t u \<Longrightarrow> keeps_quiet u v \<Longrightarrow> keeps_quiet t v"
  by (auto simp: keeps_quiet_def)

lemma keeps_quiet_fields:
  assumes "opts u = opts t" "consentState u = consentState t" "queue u = queue t"
    "flights u = flights t" "sent u = sent t" "storage u = storage t"
  shows "keeps_quiet t u"
proof -
  have "get_scoped u k = get_scoped t k" for k
    using assms by (simp add: get_scoped_def storageKey_def option_text_def)
  from unstored_get [OF this] assms show ?thesis by (simp add: keeps_quiet_def waiting_def)
qed

lemma waiting_ensure:
  assumes "waiting t"
  shows "queue (ensureSession keep t) = queue t"
proof -
  have "canTrack (t\<lparr>drawn := a, sessionId := b, lastEventAt := c, acquisition := d,
      sessionProperties := e\<rparr>) = canTrack t" for a b c d e
    by (rule still_predicates) (simp add: still_simps)
  with waiting_blocked(1) [OF assms] have "\<not> canTrack (t\<lparr>drawn := a, sessionId := b,
      lastEventAt := c, acquisition := d, sessionProperties := e\<rparr>)" for a b c d e by simp
  then show ?thesis
    by (simp add: ensureSession_def Let_def fresh_id_def)
qed

lemma blank_session_fields:
  "opts (blank_session fb t) = opts t" "consentState (blank_session fb t) = consentState t"
  "queue (blank_session fb t) = queue t" "flights (blank_session fb t) = flights t"
  "sent (blank_session fb t) = sent t" "storage (blank_session fb t) = storage t"
  by (simp_all add: blank_session_def fresh_id_def)

lemma load_visitor_blocked:
  assumes "\<not> persistent t"
  shows "queue (load_visitor t) = queue t" "flights (load_visitor t) = flights t"
    "sent (load_visitor t) = sent t" "storage (load_visitor t) = storage t"
proof -
  have "persistent (t\<lparr>drawn := a, visitorId := b\<rparr>) = persistent t" for a b
    by (rule still_predicates) (simp add: still_simps)
  with assms have "\<not> persistent (t\<lparr>drawn := a, visitorId := b\<rparr>)" for a b by simp
  with assms show "queue (load_visitor t) = queue t" "flights (load_visitor t) = flights t"
    "sent (load_visitor t) = sent t" "storage (load_visitor t) = storage t"
    by (simp_all add: load_visitor_def Let_def fresh_id_def)
qed

lemma quiet_loadIdentity: "keeps_quiet t (loadIdentity b t)"
proof (cases "waiting t")
  case True
  note np = waiting_not_persistent [OF True]
  define w where "w fb = blank_session fb (load_visitor t)" for fb
  have w: "keeps_quiet t (w fb)" for fb
    unfolding w_def by (rule keeps_quiet_fields)
      (simp_all add: blank_session_fields load_visitor_blocked [OF np])
  then have "waiting (w fb)" for fb using True by (simp add: keeps_quiet_def)
  then have "keeps_quiet (w fb) (ensureSession keep (w fb))" for fb keep
    by (intro keeps_quiet_fields) (simp_all add: waiting_ensure)
  with w np show ?thesis
    unfolding loadIdentity_def Let_def by (auto simp: w_def intro: keeps_quiet_trans)
qed (simp add: keeps_quiet_def)

lemma unstored_drop: "unstored t \<Longrightarrow> unstored (drop_scoped k t)"
  by (simp add: unstored_def list_all_iff)

lemma waiting_drop: "waiting (drop_scoped k t) = waiting t"
  by (simp add: waiting_def) (simp add: drop_scoped_def)

lemma quiet_drop: "keeps_quiet t (drop_scoped k t)"
  by (simp add: keeps_quiet_def waiting_drop unstored_drop) (simp add: drop_scoped_def)

lemma quiet_clear_identity: "keeps_quiet t (clearIdentityStorage t)"
  unfolding clearIdentityStorage_def
  by (auto intro: quiet_drop keeps_quiet_trans [OF _ quiet_drop] keeps_quiet_fields)

lemma quiet_clear: "keeps_quiet t (clearTrackingState t)"
proof (cases "waiting t")
  case True
  have "keeps_quiet t (clear_timer (t\<lparr>queue := []\<rparr>))"
    using True by (intro keeps_quiet_fields)
      (auto simp: clear_timer_def clear_timeout_def waiting_def split: option.split)
  moreover have "keeps_quiet u (renew_ids u)" for u
    by (rule keeps_quiet_fields) (simp_all add: renew_ids_def fresh_id_def Let_def)
  ultimately show ?thesis
    unfolding clearTrackingState_def using quiet_clear_identity keeps_quiet_trans by meson
qed (simp add: keeps_quiet_def)

lemma quiet_consent:
  assumes "s \<noteq> Granted"
  shows "keeps_quiet t (t\<lparr>consentState := s\<rparr>)"
proof -
  have "get_scoped (t\<lparr>consentState := s\<rparr>) k = get_scoped t k" for k
    by (simp add: get_scoped_def storageKey_def option_text_def)
  from unstored_get [OF this] assms show ?thesis by (simp add: keeps_quiet_def waiting_def)
qed

lemma quiet_put_consent: "keeps_quiet t (put_scoped CONSENT_KEY v t)"
proof -
  have "waiting (put_scoped CONSENT_KEY v t) = waiting t" "sent (put_scoped CONSENT_KEY v t) = sent t"
    by (simp_all add: put_scoped_def waiting_def)
  then show ?thesis by (simp add: keeps_quiet_def unstored_def identity_keys_def)
qed

lemma quiet_deny: "keeps_quiet t (consent_deny t)"
proof -
  have "keeps_quiet t (if storageOk u then put_scoped CONSENT_KEY ''denied'' u else u)"
    if "keeps_quiet t u" for u
    using that quiet_put_consent keeps_quiet_trans by auto
  then show ?thesis unfolding consent_deny_def Let_def
    using quiet_consent [of Denied t] quiet_clear keeps_quiet_trans by fastforce
qed

lemma quiet_revoke: "keeps_quiet t (consent_revoke t)"
proof -
  have "keeps_quiet t (if storageOk u then drop_scoped CONSENT_KEY u else u)"
    if "keeps_quiet t u" for u
    using that quiet_drop keeps_quiet_trans by auto
  then have "keeps_quiet t (clearTrackingState (if storageOk u then drop_scoped CONSENT_KEY u else u))"
    if "keeps_quiet t u" for u
    using that quiet_clear keeps_quiet_trans by blast
  then show ?thesis unfolding consent_revoke_def Let_def
    using quiet_consent [of Unknown t] quiet_loadIdentity keeps_quiet_trans by fastforce
qed

interpretation silence: page_order keeps_quiet "\<lambda>a. \<not> may_collect a"
proof unfold_locales
  show "keeps_quiet t u" if "core u = core t" for t u
    using core_fields [OF that] by (intro keeps_quiet_fields)
  show "keeps_quiet t v" if "keeps_quiet t u" "keeps_quiet u v" for t u v
    using that by (rule keeps_quiet_trans)
  show "keeps_quiet t (track name ps t)" for t name ps
    using waiting_blocked(1) [of t] by (auto simp: keeps_quiet_def track_silent)
  show "keeps_quiet t (flush b t)" for t b
    using waiting_blocked(1) [of t] by (auto simp: keeps_quiet_def flush_def)
  show "keeps_quiet t (settle i ok t)" for t i ok
    by (auto simp: keeps_quiet_def waiting_def settle_def)
  show "keeps_quiet t (setSessionProperties ps t)" for t ps
  proof (cases "waiting t")
    case True
    have "persistent (t\<lparr>sessionProperties := x\<rparr>) = persistent t" for x
      by (rule still_predicates) (simp add: still_simps)
    with waiting_not_persistent [OF True]
    have "\<not> persistent (t\<lparr>sessionProperties := x\<rparr>)" for x by simp
    then show ?thesis
      by (intro keeps_quiet_fields) (simp_all add: setSessionProperties_def persistSession_def)
  qed (simp add: keeps_quiet_def)
qed (simp_all add: quiet_deny quiet_revoke,
     auto intro!: keeps_quiet_fields simp: set_timeout_def clear_timeout_def identify_def)


definition example_waiting :: tracker where
  "example_waiting = example_tracker\<lparr>opts := Some (example_options\<lparr>mode := Some ''consent-required''\<rparr>)\<rparr>"


end
