(* ===== verification/Wakeups.thy ===== *)
theory Wakeups
  imports Invariants
begin

section \<open>Timers and the progress of the queue\<close>

text \<open>
  \<open>scheduleFlush\<close> does nothing while \<open>timer\<close> is set. That is right only if a flush timer
  is really pending whenever the field is set, which is the invariant \<open>timers_ok\<close>: timer ids are
  distinct, the field names a pending flush timer, and the timer of a click burst is another one.
  The second part shows that a flush whose requests are answered delivers its whole batch, one
  request per session.
\<close>

subsection \<open>The invariant\<close>

definition timers_ok :: "tracker \<Rightarrow> bool" where
  "timers_ok t \<longleftrightarrow>
     distinct (map fst (timers t))
     \<and> list_all (\<lambda>e. fst e < nextTimer t) (timers t)
     \<and> (\<forall>i. timer t = Some i \<longrightarrow> (\<exists>due. (i, due, FlushTimer) \<in> set (timers t)))
     \<and> (\<forall>i. Option.bind (rageBurst t) bu_timer = Some i \<longrightarrow> timer t \<noteq> Some i \<and> i < nextTimer t)"

lemma timers_okD:
  assumes "timers_ok t"
  shows "distinct (map fst (timers t))" "(j, e) \<in> set (timers t) \<Longrightarrow> j < nextTimer t"
    "timer t = Some i \<Longrightarrow> \<exists>due. (i, due, FlushTimer) \<in> set (timers t)"
    "Option.bind (rageBurst t) bu_timer = Some i \<Longrightarrow> timer t \<noteq> Some i"
    "Option.bind (rageBurst t) bu_timer = Some i \<Longrightarrow> i < nextTimer t"
  using assms by (auto simp: timers_ok_def list_all_iff)

lemma timers_ok_frame:
  "timers u = timers t \<Longrightarrow> timer u = timer t \<Longrightarrow> nextTimer u = nextTimer t \<Longrightarrow>
   rageBurst u = rageBurst t \<Longrightarrow> timers_ok u = timers_ok t"
  by (simp add: timers_ok_def)

lemma timers_ok_set_timeout:
  "timers_ok t \<Longrightarrow> timers_ok (snd (set_timeout cb d t))"
  by (auto simp: timers_ok_def set_timeout_def list_all_iff less_Suc_eq)

lemma timers_ok_schedule: "timers_ok t \<Longrightarrow> timers_ok (scheduleFlush t)"
  by (auto simp: timers_ok_def scheduleFlush_def set_timeout_def list_all_iff less_Suc_eq)

lemma clear_timeout_set: "set (timers (clear_timeout i t)) = {e \<in> set (timers t). fst e \<noteq> i}"
  by (auto simp: clear_timeout_def)

lemma clear_timeout_sel [simp]:
  "timer (clear_timeout i t) = timer t" "nextTimer (clear_timeout i t) = nextTimer t"
  "rageBurst (clear_timeout i t) = rageBurst t"
  by (simp_all add: clear_timeout_def)

lemma distinct_clear: "distinct (map fst (timers t)) \<Longrightarrow> distinct (map fst (timers (clear_timeout i t)))"
  by (simp add: clear_timeout_def distinct_map_filter)

lemma timers_ok_clear_other:
  assumes "timers_ok t" "timer t \<noteq> Some i"
  shows "timers_ok (clear_timeout i t)"
  using assms distinct_clear timers_okD(4,5) [OF assms(1)] timers_okD(3) [OF assms(1)]
  unfolding timers_ok_def list_all_iff clear_timeout_set clear_timeout_sel
  by auto

lemma timers_ok_clear_own:
  assumes "timers_ok t"
  shows "timers_ok ((clear_timeout i t)\<lparr>timer := None\<rparr>)"
proof -
  have "timers ((clear_timeout i t)\<lparr>timer := None\<rparr>) = timers (clear_timeout i t)" by simp
  then show ?thesis
    using assms distinct_clear
    unfolding timers_ok_def list_all_iff by (auto simp: clear_timeout_set)
qed

lemma timers_frame_basic:
  "timers (put_scoped k v t) = timers t" "timer (put_scoped k v t) = timer t"
  "nextTimer (put_scoped k v t) = nextTimer t" "rageBurst (put_scoped k v t) = rageBurst t"
  "timers (drop_scoped k t) = timers t" "timer (drop_scoped k t) = timer t"
  "nextTimer (drop_scoped k t) = nextTimer t" "rageBurst (drop_scoped k t) = rageBurst t"
  by (simp_all add: put_scoped_def drop_scoped_def)

lemma timers_ok_put [simp]: "timers_ok (put_scoped k v t) = timers_ok t"
  by (rule timers_ok_frame) (simp_all add: timers_frame_basic)

lemma timers_ok_drop [simp]: "timers_ok (drop_scoped k t) = timers_ok t"
  by (rule timers_ok_frame) (simp_all add: timers_frame_basic)

lemma timers_ok_updates [simp]:
  "timers_ok (t\<lparr>opts := o1\<rparr>) = timers_ok t" "timers_ok (t\<lparr>consentState := o2\<rparr>) = timers_ok t"
  "timers_ok (t\<lparr>drawn := o3\<rparr>) = timers_ok t" "timers_ok (t\<lparr>visitorId := o4\<rparr>) = timers_ok t"
  "timers_ok (t\<lparr>sessionId := o4\<rparr>) = timers_ok t" "timers_ok (t\<lparr>lastEventAt := o5\<rparr>) = timers_ok t"
  "timers_ok (t\<lparr>acquisition := o6\<rparr>) = timers_ok t"
  "timers_ok (t\<lparr>sessionProperties := o6\<rparr>) = timers_ok t"
  "timers_ok (t\<lparr>debugEnabled := o7\<rparr>) = timers_ok t"
  "timers_ok (t\<lparr>defaultSessionProperties := o6\<rparr>) = timers_ok t"
  "timers_ok (t\<lparr>queue := o8\<rparr>) = timers_ok t" "timers_ok (t\<lparr>flights := o9\<rparr>) = timers_ok t"
  "timers_ok (t\<lparr>handedOver := o8\<rparr>) = timers_ok t" "timers_ok (t\<lparr>sent := p1\<rparr>) = timers_ok t"
  "timers_ok (t\<lparr>userId := o4\<rparr>) = timers_ok t" "timers_ok (t\<lparr>userProperties := o6\<rparr>) = timers_ok t"
  "timers_ok (t\<lparr>signalsThisPage := o3\<rparr>) = timers_ok t"
  by (simp_all add: timers_ok_def)

lemma timers_ok_push [simp]: "timers_ok (push_event name ps ts t) = timers_ok t"
  by (simp add: push_event_alt)

lemma timers_ok_ensure [simp]: "timers_ok (ensureSession keep t) = timers_ok t"
  by (simp add: ensureSession_def Let_def fresh_id_def)

lemma timers_ok_persist [simp]: "timers_ok (persistSession t) = timers_ok t"
  by (simp add: persistSession_def)

lemma timers_ok_record [simp]: "timers_ok (recordDropped n t) = timers_ok t"
  by (auto simp: recordDropped_def dest!: try_put_Some split: option.split)

lemma timers_ok_save [simp]: "timers_ok (saveOffline t) = timers_ok t"
  by (auto simp: saveOffline_def Let_def dest!: try_put_Some split: option.split)

lemma timers_ok_deliver: "timers_ok t \<Longrightarrow> timers_ok (fst (deliver es b t))"
  by (simp add: deliver_def Let_def)

lemma timers_ok_advance: "timers_ok t \<Longrightarrow> timers_ok (advance f t)"
  by (auto simp: advance_def Let_def timers_ok_schedule split: list.split prod.split)
    (metis fst_conv timers_ok_deliver)

lemma timers_ok_flush: "timers_ok t \<Longrightarrow> timers_ok (flush b t)"
  by (simp add: flush_def Let_def timers_ok_advance)

lemma timers_ok_settle: "timers_ok t \<Longrightarrow> timers_ok (settle i ok t)"
  by (simp add: settle_def Let_def timers_ok_advance take_back_def)

lemma timers_ok_track: "timers_ok t \<Longrightarrow> timers_ok (track name ps t)"
  by (simp add: track_def Let_def timers_ok_flush timers_ok_schedule)

lemma timers_ok_load_visitor [simp]: "timers_ok (load_visitor t) = timers_ok t"
  by (simp add: load_visitor_def fresh_id_def Let_def)

lemma timers_ok_load_session [simp]: "timers_ok (load_session fb t) = timers_ok t"
  by (simp add: load_session_def blank_session_def stored_session_def fresh_id_def Let_def
      split: option.split val.split)

lemma timers_ok_blank [simp]: "timers_ok (blank_session fb t) = timers_ok t"
  by (simp add: blank_session_def fresh_id_def)

lemma timers_ok_loadIdentity [simp]: "timers_ok (loadIdentity b t) = timers_ok t"
  by (simp add: loadIdentity_def Let_def)

lemma timers_ok_migrate [simp]: "timers_ok (migrateLegacyStorage t) = timers_ok t"
proof -
  have "timers_ok (migrate_key k u) = timers_ok u" for k u
    by (simp add: migrate_key_def split: option.split)
  then show ?thesis by (simp add: migrateLegacyStorage_def)
qed

lemma timers_ok_restore [simp]: "timers_ok (restoreOffline t) = timers_ok t"
  by (simp add: restoreOffline_def split: option.split val.split)

lemma timers_ok_report: "timers_ok t \<Longrightarrow> timers_ok (reportDropped t)"
  by (simp add: reportDropped_def Let_def timers_ok_track)

lemma timers_ok_load: "timers_ok t \<Longrightarrow> timers_ok (load_state p q t)"
  by (simp add: load_state_def Let_def timers_ok_report)

lemma timers_ok_renew [simp]: "timers_ok (renew_ids t) = timers_ok t"
  by (simp add: renew_ids_def fresh_id_def Let_def)

lemma timers_ok_clear_identity [simp]: "timers_ok (clearIdentityStorage t) = timers_ok t"
  by (simp add: clearIdentityStorage_def)

lemma timers_ok_clear_timer: "timers_ok t \<Longrightarrow> timers_ok (clear_timer t)"
proof -
  assume a: "timers_ok t"
  have "timers_ok (t\<lparr>timer := None\<rparr>)" using a by (simp add: timers_ok_def)
  with timers_ok_clear_own [OF a] show ?thesis by (simp add: clear_timer_def split: option.split)
qed

lemma timers_ok_clear_state: "timers_ok t \<Longrightarrow> timers_ok (clearTrackingState t)"
  by (simp add: clearTrackingState_def timers_ok_clear_timer)

lemma timers_ok_consent:
  "timers_ok t \<Longrightarrow> timers_ok (consent_grant t)" "timers_ok t \<Longrightarrow> timers_ok (consent_deny t)"
  "timers_ok t \<Longrightarrow> timers_ok (consent_revoke t)" "timers_ok t \<Longrightarrow> timers_ok (cookie_enable t)"
  "timers_ok t \<Longrightarrow> timers_ok (cookie_disable t)"
  by (simp_all add: consent_grant_def consent_deny_def consent_revoke_def cookie_enable_def
      cookie_disable_def Let_def timers_ok_track timers_ok_clear_state split: option.split)

lemma timers_ok_identify:
  "timers_ok t \<Longrightarrow> timers_ok (identify user ps t)"
  "timers_ok t \<Longrightarrow> timers_ok (setSessionProperties ps t)"
  by (simp_all add: identify_def setSessionProperties_def)

definition keeps_timers :: "tracker \<Rightarrow> tracker \<Rightarrow> bool" where
  "keeps_timers t u \<longleftrightarrow> (timers_ok t \<longrightarrow> timers_ok u)"

lemma distinct_keys_eq:
  "distinct (map fst xs) \<Longrightarrow> (i, a) \<in> set xs \<Longrightarrow> (i, b) \<in> set xs \<Longrightarrow> a = b"
  by (metis eq_key_imp_eq_value)

lemma pending_other:
  assumes "timers_ok t" "map_of (timers t) i = Some (due, cb)" "cb \<noteq> FlushTimer"
  shows "timer t \<noteq> Some i"
proof
  assume "timer t = Some i"
  then obtain d where "(i, d, FlushTimer) \<in> set (timers t)" using timers_okD(3) [OF assms(1)] by blast
  from distinct_keys_eq [OF timers_okD(1) [OF assms(1)] this map_of_SomeD [OF assms(2)]] assms(3)
  show False by simp
qed

lemma timers_ok_burst:
  assumes "timers_ok t" "burst_fits t r"
  shows "timers_ok (t\<lparr>rageBurst := r\<rparr>)"
proof -
  have "timer t \<noteq> Some i \<and> i < nextTimer t" if i: "Option.bind r bu_timer = Some i" for i
  proof (cases "Option.bind (rageBurst t) bu_timer = Some i")
    case True
    then show ?thesis using timers_okD(4,5) [OF assms(1)] by blast
  next
    case False
    with i assms(2) obtain due x where "map_of (rev (timers t)) i = Some (due, RageTimer x)"
      by (auto simp: burst_fits_def split: option.splits)
    then have m: "(i, due, RageTimer x) \<in> set (timers t)" by (metis map_of_SomeD set_rev)
    then have "map_of (timers t) i = Some (due, RageTimer x)"
      using timers_okD(1) [OF assms(1)] by simp
    from pending_other [OF assms(1) this] timers_okD(2) [OF assms(1) m] show ?thesis by simp
  qed
  with assms(1) show ?thesis by (simp add: timers_ok_def)
qed

interpretation wakeups: page_order keeps_timers "\<lambda>_. True"
proof (unfold_locales, unfold keeps_timers_def)
  show "timers_ok t \<longrightarrow> timers_ok u" if "core u = core t" for t u
    using core_fields [OF that] by (simp add: timers_ok_def)
  show "timers_ok t \<longrightarrow> timers_ok (clear_timeout i t)"
    if "map_of (timers t) i = Some (due, cb)" "cb \<noteq> FlushTimer" for t i due cb
    using timers_ok_clear_other pending_other that by blast
  show "timers_ok t \<longrightarrow> timers_ok (clear_timeout i t)"
    if "Option.bind (rageBurst t) bu_timer = Some i" for t i
    using timers_ok_clear_other timers_okD(4) that by blast
  show "timers_ok t \<longrightarrow> timers_ok ((clear_timeout i t)\<lparr>timer := None\<rparr>)" for t i
    by (rule impI) (rule timers_ok_clear_own)
  show "timers_ok t \<longrightarrow> timers_ok (t\<lparr>rageBurst := r\<rparr>)" if "burst_fits t r" for t r
    using timers_ok_burst that by blast
  show "timers_ok t \<longrightarrow> timers_ok (snd (set_timeout cb d t))" for cb d t
    using timers_ok_set_timeout by blast
qed (simp_all add: timers_ok_track timers_ok_flush timers_ok_settle
    timers_ok_load timers_ok_consent timers_ok_identify)

text \<open>
  C28: a scheduled flush is never lost. In every state that a page can reach, the field
  \<open>timer\<close> names a pending flush timer when it is set, so the early return of
  \<open>scheduleFlush\<close> cannot strand the queue.
\<close>

theorem scheduled_flush_is_pending:
  assumes "timers t = []" "timer t = None" "rageBurst t = None" "timer (run as t) = Some i"
  shows "\<exists>due. map_of (timers (run as t)) i = Some (due, FlushTimer)"
proof -
  have "timers_ok t" using assms by (simp add: timers_ok_def)
  then have ok: "timers_ok (run as t)"
    using wakeups.step_run [of as t] by (simp add: keeps_timers_def list_all_iff)
  then obtain due where "(i, due, FlushTimer) \<in> set (timers (run as t))"
    using timers_okD(3) assms(4) by blast
  with timers_okD(1) [OF ok] show ?thesis by auto
qed

lemma track_schedules:
  assumes "canTrack t" "\<not> session_over t" "of_nat (Suc (length (queue t))) < batch_size t" "timer t = None"
  shows "timer (track name ps t) = Some (nextTimer t)"
proof -
  define v where "v = persistSession ((push_event name (spread ps (releaseContext t)) (now t) t)
      \<lparr>lastEventAt := of_int (now t)\<rparr>)"
  have "track name ps t = (if of_nat (length (queue v)) \<ge> batch_size v then flush False v else scheduleFlush v)"
    using assms(1,2) by (simp add: track_def Let_def ensureSession_running v_def)
  moreover have "length (queue v) = Suc (length (queue t))" by (simp add: v_def push_event_alt)
  moreover have "still v = still t" by (simp add: v_def still_simps)
  then have "batch_size v = batch_size t" unfolding batch_size_def by (rule still_predicates)
  moreover have "timer v = None" "nextTimer v = nextTimer t"
    using assms(4) by (simp_all add: v_def push_event_alt persistSession_def put_scoped_def)
  ultimately show ?thesis using assms(3) by (simp add: scheduleFlush_def set_timeout_def)
qed

lemma example_running:
  "canTrack example_tracker" "\<not> session_over example_tracker" "batch_size example_tracker = 10"
  "queue example_tracker = []" "timer example_tracker = None" "nextTimer example_tracker = 1"
  "timers example_tracker = []" "rageBurst example_tracker = None" "readyCounts example_tracker = []"
  "flights example_tracker = []" "sent example_tracker = []"
  by (simp_all add: canTrack_def session_over_def session_timeout_def batch_size_def option_num_def
      or_num_def example_defs)

lemma scheduled_flush_is_pending_witness:
  "\<exists>due. map_of (timers (run [Track ''click'' []] example_tracker)) 1 = Some (due, FlushTimer)"
proof -
  have "timer (run [Track ''click'' []] example_tracker) = Some 1"
    using track_schedules [of example_tracker "''click''" "[]"] example_running
    by (simp add: exec_def exec_now_def drain_def)
  with scheduled_flush_is_pending [of example_tracker "[Track ''click'' []]" 1] example_running
  show ?thesis by simp
qed

subsection \<open>Progress\<close>

lemma schedule_timer: "timer (scheduleFlush t) \<noteq> None"
  by (simp add: scheduleFlush_def set_timeout_def)

lemma advance_progress: "queue t \<noteq> [] \<or> fl_todo f \<noteq> [] \<Longrightarrow>
  timer (advance f t) \<noteq> None \<or> flights (advance f t) \<noteq> []"
  using schedule_timer by (auto simp: advance_def Let_def split: list.split prod.split)

lemma groups_todo: "groupBySession t es = [] \<longleftrightarrow> es = []"
proof
  assume "groupBySession t es = []"
  with groupBySession_mset [of t es] show "es = []" by simp
qed (simp add: groupBySession_def groups_of_def)

lemma canTrack_opts: "canTrack t \<Longrightarrow> opts t \<noteq> None"
  by (cases "opts t") (simp_all add: canTrack_def)

lemma flush_open:
  assumes "canTrack t" "queue t \<noteq> []" "n = nat (js_trunc (batch_size t))"
  shows "flush b t = advance \<lparr>fl_batch = take n (queue t),
      fl_todo = groupBySession (t\<lparr>queue := drop n (queue t)\<rparr>) (take n (queue t)), fl_beacon = b,
      fl_outcome = None\<rparr> (t\<lparr>queue := drop n (queue t)\<rparr>)"
  using assms canTrack_opts [OF assms(1)] unfolding flush_def Let_def by auto

text \<open>
  an event that is tracked is on its way. After \<open>track\<close>, a flush timer is set or a
  request is in flight; no event waits in the queue with nothing to send it.
\<close>

theorem tracked_is_on_its_way:
  assumes "canTrack t"
  shows "\<not> (timer (track name ps t) = None \<and> flights (track name ps t) = [])"
proof -
  define u where "u = ensureSession None t"
  define v where "v = persistSession ((push_event name (spread ps (releaseContext u)) (now u) u)
      \<lparr>lastEventAt := of_int (now u)\<rparr>)"
  have tr: "track name ps t = (if of_nat (length (queue v)) \<ge> batch_size v then flush False v
      else scheduleFlush v)"
    using assms by (simp add: track_def Let_def u_def v_def)
  have q: "queue v \<noteq> []" by (simp add: v_def push_event_alt)
  have sv: "still v = still t" by (simp add: v_def u_def still_simps)
  have c: "canTrack v" "opts v \<noteq> None"
    using assms canTrack_opts [OF assms] by (simp_all add: still_all [OF sv])
  define n where "n = nat (js_trunc (batch_size v))"
  define f where "f = \<lparr>fl_batch = take n (queue v),
    fl_todo = groupBySession (v\<lparr>queue := drop n (queue v)\<rparr>) (take n (queue v)),
    fl_beacon = False, fl_outcome = None\<rparr>"
  have "queue (v\<lparr>queue := drop n (queue v)\<rparr>) \<noteq> [] \<or> fl_todo f \<noteq> []"
    using q by (cases n) (simp_all add: f_def groups_todo)
  then have "timer (flush False v) \<noteq> None \<or> flights (flush False v) \<noteq> []"
    unfolding flush_open [OF c(1) q n_def] f_def [symmetric] by (rule advance_progress)
  then show ?thesis using schedule_timer [of v] by (auto simp: tr)
qed

lemma tracked_is_on_its_way_witness:
  "\<not> (timer (track ''click'' [] example_tracker) = None
      \<and> flights (track ''click'' [] example_tracker) = [])"
  by (rule tracked_is_on_its_way) (rule example_running)

subsection \<open>A flush that is answered\<close>

definition plain_request :: "tracker \<Rightarrow> val list \<Rightarrow> request" where
  "plain_request t g =
     \<lparr>rq_url = collectorURL t, rq_body = json_text (payload t g), rq_beacon = False, rq_events = g\<rparr>"

text \<open>What a request is made of does not depend on the bookkeeping of the delivery.\<close>

lemma plain_request_frame [simp]:
  "plain_request (t\<lparr>sent := a\<rparr>) g = plain_request t g"
  "plain_request (t\<lparr>flights := b\<rparr>) g = plain_request t g"
  "plain_request (t\<lparr>queue := c\<rparr>) g = plain_request t g"
  by (simp_all add: plain_request_def payload_def collectorURL_def event_context_def parseUA_def
      event_visitor_def event_session_def option_text_def Let_def)

lemma groups_frame [simp]: "groupBySession (t\<lparr>queue := c\<rparr>) es = groupBySession t es"
proof -
  have "group_key (t\<lparr>queue := c\<rparr>) = group_key t"
    by (rule ext) (simp add: group_key_def event_visitor_def event_session_def)
  then show ?thesis by (simp add: groupBySession_def)
qed

text \<open>A page with one suspended flush: the requests sent so far and the groups to do.\<close>

definition sending :: "val list \<Rightarrow> val list list \<Rightarrow> request list \<Rightarrow> tracker \<Rightarrow> tracker" where
  "sending batch gs s t =
     t\<lparr>sent := s,
       flights := [\<lparr>fl_batch = batch, fl_todo = gs, fl_beacon = False, fl_outcome = None\<rparr>]\<rparr>"

definition finished :: "val list \<Rightarrow> request list \<Rightarrow> tracker \<Rightarrow> tracker" where
  "finished batch s t =
     (let u = t\<lparr>sent := s, flights := [], handedOver := handedOver t @ batch\<rparr>
      in if queue u = [] then u else scheduleFlush u)"

lemma deliver_plain:
  "deliver g False t = (t\<lparr>sent := sent t @ [plain_request t g]\<rparr>, None)"
  by (simp add: deliver_def plain_request_def Let_def)

lemma settle_sending:
  "settle 0 True (sending batch (g # gs) s t) = sending batch gs (s @ [plain_request t g]) t"
  by (simp add: settle_def sending_def Let_def advance_def deliver_plain drop_nth_def)

lemma settle_sending_last: "settle 0 True (sending batch [] s t) = finished batch s t"
  by (simp add: settle_def sending_def finished_def Let_def advance_def drop_nth_def)

lemma settle_all:
  "(settle 0 True ^^ Suc (length gs)) (sending batch gs s t)
    = finished batch (s @ map (plain_request t) gs) t"
proof (induction gs arbitrary: s)
  case (Cons g gs)
  have "(settle 0 True ^^ Suc (length (g # gs))) (sending batch (g # gs) s t)
      = (settle 0 True ^^ Suc (length gs)) (settle 0 True (sending batch (g # gs) s t))"
    by (simp add: funpow_swap1)
  with Cons show ?case by (simp add: settle_sending del: funpow.simps)
qed (simp add: settle_sending_last)

text \<open>
  C3: a flush whose requests are answered delivers its batch. It sends exactly one request per
  session of the batch, in the order the sessions appear, hands the whole batch over, leaves nothing
  in flight, and schedules the next flush when more events wait.
\<close>

theorem answered_flush_delivers:
  assumes "canTrack t" "flights t = []" "queue t \<noteq> []"
    and "n = nat (js_trunc (batch_size t))" "0 < n"
    and "gs = groupBySession t (take n (queue t))"
    and "w = (settle 0 True ^^ length gs) (flush False t)"
  shows "sent w = sent t @ map (plain_request t) gs
    \<and> handedOver w = handedOver t @ take n (queue t) \<and> flights w = []
    \<and> queue w = drop n (queue t) \<and> (queue w \<noteq> [] \<longrightarrow> timer w \<noteq> None)"
proof -
  define u where "u = t\<lparr>queue := drop n (queue t)\<rparr>"
  have "gs \<noteq> []" using assms(3,5) by (simp add: assms(6) groups_todo)
  then obtain g gs' where gs: "gs = g # gs'" by (cases gs) auto
  have "flush False t = advance \<lparr>fl_batch = take n (queue t), fl_todo = gs, fl_beacon = False,
      fl_outcome = None\<rparr> u"
    using flush_open [OF assms(1,3,4), of False] by (simp add: assms(6) u_def)
  also have "\<dots> = sending (take n (queue t)) gs' (sent t @ [plain_request t g]) u"
    using assms(2) by (simp add: gs advance_def deliver_plain sending_def u_def)
  finally have f: "flush False t = sending (take n (queue t)) gs' (sent t @ [plain_request t g]) u" .
  have "w = (settle 0 True ^^ Suc (length gs')) (flush False t)" by (simp add: assms(7) gs)
  also have "\<dots> = finished (take n (queue t))
      ((sent t @ [plain_request t g]) @ map (plain_request u) gs') u"
    unfolding f by (rule settle_all)
  finally show ?thesis
    using schedule_timer by (simp add: finished_def Let_def gs) (simp add: u_def)
qed

lemma answered_flush_delivers_witness:
  "let t = example_tracker\<lparr>queue := [VObj [(''id'', VStr ''a'')], VObj [(''id'', VStr ''b'')]]\<rparr> in
   handedOver (settle 0 True (flush False t)) = queue t"
proof -
  define t where "t = example_tracker\<lparr>queue := [VObj [(''id'', VStr ''a'')], VObj [(''id'', VStr ''b'')]]\<rparr>"
  have st: "still t = still example_tracker" by (simp add: t_def still_simps)
  have t: "canTrack t" "flights t = []" "queue t \<noteq> []" "length (queue t) = 2" "handedOver t = []"
    using example_running(1) by (simp_all add: still_all [OF st]) (simp_all add: t_def example_defs)
  have b: "batch_size t = 10"
    using example_running(3) unfolding batch_size_def still_all [OF st] .
  have n: "nat (js_trunc (batch_size t)) = 10" by (simp add: b js_trunc_def)
  have g: "length (groupBySession t (queue t)) = 1"
    by (simp add: groupBySession_def groups_of_def t_def group_key_def event_visitor_def event_session_def)
  from answered_flush_delivers [OF t(1-3) n [symmetric] _ refl refl] show ?thesis
    using t(4,5) by (simp add: n g Let_def t_def [symmetric])
qed

end
