(* ===== verification/Withdrawal.thy ===== *)
theory Withdrawal
  imports Wakeups
begin

section \<open>Giving and withdrawing consent\<close>

text \<open>
  What \<open>grant\<close> keeps and what \<open>deny\<close> and \<open>revoke\<close> erase, the isolation of sites that
  share one origin's storage, the validation of \<open>init\<close>; and two cases in which a withdrawal is
  not complete: a batch that is in flight, and the keys of earlier versions.
\<close>

subsection \<open>Validation\<close>

lemma install_frame [simp]:
  "opts (install f t) = opts t" "opts (onRoute h t) = opts t" "opts (installRUM t) = opts t"
  "opts (installAutoTracking t) = opts t" "opts (installFrustrationSignals t) = opts t"
  "initialized (install f t) = initialized t" "initialized (onRoute h t) = initialized t"
  by (simp_all add: install_def onRoute_def installRouteTracking_def installRUM_def set_timeout_def
      installAutoTracking_def installFrustrationSignals_def Let_def)

lemma install_features_opts [simp]: "opts (install_features t) = opts t"
  by (simp add: install_features_def Let_def)

lemma detect_frame [simp]:
  "opts (detectSearchFromURL t) = opts t" "initialized (detectSearchFromURL t) = initialized t"
  by (simp_all add: detectSearchFromURL_def result_ready_def wait_for_count_def set_timeout_def
      split: option.split)

lemma install_search_frame [simp]:
  "opts (installSearchTracking t) = opts t"
  "initialized (installSearchTracking t) = initialized t"
  by (simp_all add: installSearchTracking_def)


subsection \<open>Isolation of sites\<close>

definition env_ok :: "tracker \<Rightarrow> bool" where
  "env_ok t \<longleftrightarrow> CHR '':'' \<notin> set (option_text environment t)"

definition same_scope :: "tracker \<Rightarrow> tracker \<Rightarrow> bool" where
  "same_scope t u \<longleftrightarrow>
     or_str (option_text siteId t) ''unknown'' = or_str (option_text siteId u) ''unknown''
     \<and> or_str (option_text environment t) ''prd'' = or_str (option_text environment u) ''prd''"

text \<open>What a tracker writes is at its scoped keys.\<close>

definition scoped_set :: "tracker \<Rightarrow> string set" where
  "scoped_set t = storageKey t ` set scoped_keys"

definition writes_own :: "tracker \<Rightarrow> tracker \<Rightarrow> bool" where
  "writes_own t u \<longleftrightarrow> scoped_set u = scoped_set t \<and> (\<forall>k. k \<notin> scoped_set t \<longrightarrow> storage u k = storage t k)"

lemma scoped_set_still: "still u = still t \<Longrightarrow> scoped_set u = scoped_set t"
  unfolding scoped_set_def by (rule image_cong [OF refl]) (rule still_predicates)

lemma writes_own_trans: "writes_own t u \<Longrightarrow> writes_own u v \<Longrightarrow> writes_own t v"
  by (auto simp: writes_own_def)

lemma writes_own_still: "still u = still t \<Longrightarrow> storage u = storage t \<Longrightarrow> writes_own t u"
  unfolding writes_own_def by (rule conjI, erule scoped_set_still) simp

lemma writes_own_fields:
  assumes "Option.bind (opts u) (Some o siteId) = Option.bind (opts t) (Some o siteId)"
    "Option.bind (opts u) (Some o environment) = Option.bind (opts t) (Some o environment)"
    "storage u = storage t"
  shows "writes_own t u"
proof -
  have "option_text siteId u = option_text siteId t" "option_text environment u = option_text environment t"
    using assms(1,2) by (cases "opts t"; cases "opts u"; simp add: option_text_def)+
  then have "storageKey u = storageKey t" by (intro ext) (simp add: storageKey_def)
  then show ?thesis using assms(3) by (simp add: writes_own_def scoped_set_def)
qed

lemma writes_own_put: "k \<in> set scoped_keys \<Longrightarrow> writes_own t (put_scoped k v t)"
  unfolding writes_own_def
proof
  show "scoped_set (put_scoped k v t) = scoped_set t" by (simp add: scoped_set_def)
qed (auto simp: scoped_set_def put_scoped_def store_item_def)

lemma writes_own_drop: "k \<in> set scoped_keys \<Longrightarrow> writes_own t (drop_scoped k t)"
  unfolding writes_own_def
proof
  show "scoped_set (drop_scoped k t) = scoped_set t" by (simp add: scoped_set_def)
qed (auto simp: scoped_set_def drop_scoped_def erase_item_def)

lemma key_members [simp]:
  "VISITOR_KEY \<in> set scoped_keys" "SESSION_KEY \<in> set scoped_keys" "CONSENT_KEY \<in> set scoped_keys"
  "OFFLINE_KEY \<in> set scoped_keys" "DROPPED_KEY \<in> set scoped_keys"
  by (simp_all add: scoped_keys_def)

lemma own_refl: "writes_own t t"
  by (simp add: writes_own_def)

lemma own_put: "writes_own t u \<Longrightarrow> k \<in> set scoped_keys \<Longrightarrow> writes_own t (put_scoped k v u)"
  using writes_own_put writes_own_trans by blast

lemma own_drop: "writes_own t u \<Longrightarrow> k \<in> set scoped_keys \<Longrightarrow> writes_own t (drop_scoped k u)"
  using writes_own_drop writes_own_trans by blast

lemma own_still: "writes_own t u \<Longrightarrow> still v = still u \<Longrightarrow> storage v = storage u \<Longrightarrow> writes_own t v"
  using writes_own_still writes_own_trans by blast

lemma own_persist: "writes_own t (persistSession t)"
  by (simp add: persistSession_def own_put own_refl)

lemma own_record: "writes_own t u \<Longrightarrow> writes_own t (recordDropped n u)"
  by (auto simp: recordDropped_def own_put dest!: try_put_Some split: option.split)

lemma own_save: "writes_own t (saveOffline t)"
  by (auto simp: saveOffline_def Let_def own_refl dest!: try_put_Some split: option.split
      intro!: own_put own_record)

lemma own_track: "writes_own t (track name ps t)"
proof (cases "canTrack t")
  case True
  define u where "u = ensureSession None t"
  define v where "v = (push_event name (spread ps (releaseContext u)) (now u) u)\<lparr>lastEventAt := of_int (now u)\<rparr>"
  have "writes_own t v" by (rule writes_own_still) (simp_all add: v_def u_def still_simps)
  then have p: "writes_own t (persistSession v)" using own_persist writes_own_trans by blast
  have "track name ps t = (if of_nat (length (queue (persistSession v))) \<ge> batch_size (persistSession v)
      then flush False (persistSession v) else scheduleFlush (persistSession v))"
    using True by (simp add: track_def Let_def u_def v_def)
  then show ?thesis using p by (auto intro: own_still simp: still_simps)
qed (simp add: track_silent own_refl)

lemma own_settle: "writes_own t (settle i ok t)"
proof (cases "i < length (flights t)")
  case True
  let ?f = "flights t ! i" and ?u = "t\<lparr>flights := drop_nth i (flights t)\<rparr>"
  have "writes_own t (advance ?f ?u)" by (rule writes_own_still) (simp_all add: still_simps)
  moreover have "writes_own t (?u\<lparr>queue := fl_batch ?f @ queue ?u\<rparr>)"
    by (rule writes_own_still) (simp_all add: still_simps)
  then have "writes_own t (take_back ?f ?u)"
    unfolding take_back_def using own_save writes_own_trans by blast
  ultimately show ?thesis by (simp add: settle_def Let_def own_refl)
qed (simp add: settle_def own_refl)

lemma own_load_visitor: "writes_own t (load_visitor t)"
proof -
  define found where "found = (if persistent t then scoped_or t VISITOR_KEY [] else [])"
  define w where "w = (snd (if found = [] then fresh_id t else (found, t)))
    \<lparr>visitorId := fst (if found = [] then fresh_id t else (found, t))\<rparr>"
  have "writes_own t w" by (rule writes_own_still) (simp_all add: w_def fresh_id_def still_simps)
  moreover have "load_visitor t = (if persistent w then put_scoped VISITOR_KEY (visitorId w) w else w)"
    by (simp add: load_visitor_def Let_def w_def found_def fresh_id_def)
  ultimately show ?thesis by (simp add: own_put)
qed

lemma own_loadIdentity: "writes_own t (loadIdentity b t)"
proof -
  define u where "u = load_visitor t"
  have l: "storage (load_session fb u) = storage u" "storage (blank_session fb u) = storage u" for fb
    by (simp_all add: load_session_def stored_session_def blank_session_def fresh_id_def Let_def
        split: option.split val.split)
  have "writes_own t u" unfolding u_def by (rule own_load_visitor)
  then have "writes_own t (ensureSession k (if persistent u then load_session fb u else blank_session fb u))"
    for k fb
    by (rule own_still) (simp_all add: still_simps l)
  then show ?thesis unfolding loadIdentity_def Let_def u_def by blast
qed

lemma own_clear_identity: "writes_own t u \<Longrightarrow> writes_own t (clearIdentityStorage u)"
  by (simp add: clearIdentityStorage_def own_drop)

lemma own_renew: "writes_own t u \<Longrightarrow> writes_own t (renew_ids u)"
proof (erule own_still)
  show "storage (renew_ids u) = storage u" by (simp add: renew_ids_def fresh_id_def Let_def)
qed (rule still_renew_ids)

lemma own_clear_state: "writes_own t (clearTrackingState t)"
proof -
  have "writes_own t (clear_timer (t\<lparr>queue := []\<rparr>))"
    by (rule writes_own_still) (simp_all add: still_simps, simp add: clear_timer_def clear_timeout_def
        split: option.split)
  then show ?thesis by (simp add: clearTrackingState_def own_renew own_clear_identity)
qed

lemma own_consent_state: "writes_own t (t\<lparr>consentState := c\<rparr>)"
  by (rule writes_own_fields) simp_all

lemma own_grant: "writes_own t (consent_grant t)"
proof -
  define u where "u = t\<lparr>consentState := Granted\<rparr>"
  define v where "v = (if storageOk u then put_scoped CONSENT_KEY ''granted'' u else u)"
  have "writes_own t v" using own_consent_state by (simp add: v_def u_def own_put)
  then have "writes_own t (loadIdentity True v)" using own_loadIdentity writes_own_trans by blast
  moreover from this have "writes_own t (track name ps (loadIdentity True v))" for name ps
    using own_track writes_own_trans by blast
  ultimately show ?thesis
    unfolding consent_grant_def Let_def u_def [symmetric] v_def [symmetric] by simp
qed

lemma own_deny: "writes_own t (consent_deny t)"
proof -
  define u where "u = t\<lparr>consentState := Denied\<rparr>"
  have "writes_own t (if storageOk u then put_scoped CONSENT_KEY ''denied'' u else u)"
    using own_consent_state by (simp add: u_def own_put)
  then show ?thesis unfolding consent_deny_def Let_def u_def
    using own_clear_state writes_own_trans by blast
qed

lemma own_revoke: "writes_own t (consent_revoke t)"
proof -
  define u where "u = t\<lparr>consentState := Unknown\<rparr>"
  have "writes_own t (if storageOk u then drop_scoped CONSENT_KEY u else u)"
    using own_consent_state by (simp add: u_def own_drop)
  then show ?thesis unfolding consent_revoke_def Let_def u_def
    using own_clear_state own_loadIdentity writes_own_trans by blast
qed

lemma own_mode: "opts t = Some p \<Longrightarrow> writes_own t (t\<lparr>opts := Some (p\<lparr>mode := m\<rparr>)\<rparr>)"
  by (rule writes_own_fields) simp_all

lemma own_cookie: "writes_own t (cookie_enable t)" "writes_own t (cookie_disable t)"
  using own_mode own_loadIdentity writes_own_trans
  by (auto simp: cookie_enable_def cookie_disable_def own_refl split: option.split
      intro!: own_renew own_clear_identity) blast+

fun is_init :: "action \<Rightarrow> bool" where
  "is_init (Init p) = True"
| "is_init _ = False"

interpretation isolation: page_order writes_own "\<lambda>a. \<not> is_init a"
proof unfold_locales
  show "writes_own t u" if "core u = core t" for t u
    using core_fields [OF that] by (intro writes_own_fields) simp_all
  show "writes_own t v" if "writes_own t u" "writes_own u v" for t u v
    using that by (rule writes_own_trans)
  show "writes_own t (setSessionProperties ps t)" for t ps
  proof -
    have "writes_own t (t\<lparr>sessionProperties := spread (sessionProperties t) ps\<rparr>)"
      by (rule writes_own_fields) simp_all
    then show ?thesis unfolding setSessionProperties_def using own_persist writes_own_trans by blast
  qed
qed (simp_all add: own_refl own_track own_settle own_grant own_deny own_revoke own_cookie,
     auto intro!: writes_own_fields simp: set_timeout_def clear_timeout_def identify_def)

lemma scoped_disjoint:
  assumes "env_ok t" "env_ok u" "\<not> same_scope t u"
  shows "scoped_set t \<inter> scoped_set u = {}"
proof -
  have False if "k \<in> set scoped_keys" "l \<in> set scoped_keys" "storageKey t k = storageKey u l" for k l
    using storageKey_eqD [OF that(1,2) _ _ that(3)] assms unfolding env_ok_def same_scope_def by blast
  then show ?thesis unfolding scoped_set_def by auto
qed

text \<open>
  C29: two sites, or two environments of one site, that share an origin do not see each other's
  storage. Whatever one initialised tracker does on its page, every key of the other keeps its value.
\<close>

theorem sites_are_isolated:
  assumes "env_ok t" "env_ok other" "\<not> same_scope t other" "k \<in> set scoped_keys"
    and "list_all (\<lambda>a. \<not> is_init a) as"
  shows "storage (run as t) (storageKey other k) = storage t (storageKey other k)"
proof -
  have "storageKey other k \<notin> scoped_set t"
    using scoped_disjoint [OF assms(1-3)] assms(4) by (auto simp: scoped_set_def)
  then show ?thesis using isolation.step_run [OF assms(5), of t] by (simp add: writes_own_def)
qed

lemma sites_are_isolated_witness:
  "let other = example_tracker\<lparr>opts := Some (example_options\<lparr>environment := ''stg''\<rparr>)\<rparr> in
   storage (run [Grant, Track ''click'' [], Deny] example_tracker) (storageKey other VISITOR_KEY)
    = storage example_tracker (storageKey other VISITOR_KEY)"
proof -
  define other where "other = example_tracker\<lparr>opts := Some (example_options\<lparr>environment := ''stg''\<rparr>)\<rparr>"
  have "env_ok example_tracker" "env_ok other" "\<not> same_scope example_tracker other"
    by (simp_all add: env_ok_def same_scope_def option_text_def other_def example_defs or_str_def)
  from sites_are_isolated [OF this, of VISITOR_KEY "[Grant, Track ''click'' [], Deny]"]
  show ?thesis by (simp add: Let_def other_def)
qed

subsection \<open>Granting\<close>

lemma blank_session_sel [simp]:
  "acquisition (blank_session fb t) = fb" "lastEventAt (blank_session fb t) = 0"
  "queue (blank_session fb t) = queue t"
  by (simp_all add: blank_session_def fresh_id_def)

lemma ensure_keeps_given:
  assumes "acquisition t = a"
  shows "acquisition (ensureSession (Some a) t) = a"
  using assms by (simp add: ensureSession_def Let_def fresh_id_def)

lemma ensure_not_over:
  assumes "0 \<le> session_timeout t" "uuid t (drawn t) \<noteq> []"
  shows "\<not> session_over (ensureSession keep t)"
proof (cases "session_over t")
  case True
  have "session_timeout (ensureSession keep t) = session_timeout t"
    by (simp add: session_timeout_def)
  then show ?thesis using assms ensureSession_fresh [OF True, of keep] by (simp add: session_over_def)
qed (simp add: ensureSession_running)

lemma loadIdentity_not_over:
  assumes "0 \<le> session_timeout t" "\<And>n. uuid t n \<noteq> []"
  shows "\<not> session_over (loadIdentity b t)"
proof -
  define w where "w fb = (if persistent (load_visitor t) then load_session fb (load_visitor t)
    else blank_session fb (load_visitor t))" for fb
  have sw: "still (w fb) = still t" for fb by (simp add: w_def still_simps)
  have "session_timeout (w fb) = session_timeout t" "uuid (w fb) = uuid t" for fb
    unfolding session_timeout_def still_all [OF sw] by (rule refl)+
  then show ?thesis using assms ensure_not_over unfolding loadIdentity_def Let_def w_def by metis
qed

lemma empty_session_load:
  assumes "get_scoped t SESSION_KEY = None"
  shows "acquisition (load_session fb t) = fb"
proof -
  have p: "json_parse ''{}'' = Some (VObj [])" by code_simp
  show ?thesis
    using assms by (simp add: load_session_def scoped_or_alt p stored_session_def Let_def fresh_id_def)
qed

lemma load_keeps_acquisition:
  assumes "hasTraffic (acquisition t)" "get_scoped t SESSION_KEY = None"
  shows "acquisition (loadIdentity True t) = acquisition t"
proof -
  have fb: "acquisition_fallback True (acquisition t) t = acquisition t"
    using assms(1) by (simp add: acquisition_fallback_def)
  have "get_scoped (load_visitor t) SESSION_KEY = None"
    using assms(2) by (simp add: get_load_visitor_other)
  then show ?thesis
    by (simp add: loadIdentity_def Let_def fb ensure_keeps_given empty_session_load)
qed

lemma track_acquisition:
  assumes "canTrack t"
  shows "acquisition (track name ps t) = acquisition (ensureSession None t)"
proof -
  have s: "acquisition (scheduleFlush u) = acquisition u" for u
    by (simp add: scheduleFlush_def set_timeout_def)
  have d: "acquisition (fst (deliver es b u)) = acquisition u" for es b u
    by (simp add: deliver_def Let_def)
  have a: "acquisition (advance f u) = acquisition u" for f u
    by (auto simp: advance_def Let_def s split: list.split prod.split) (metis d fst_conv)
  have "acquisition (flush b u) = acquisition u" for b u
    by (simp add: flush_def Let_def a)
  then show ?thesis using assms by (simp add: track_def Let_def s)
qed

text \<open>
  granting consent keeps the campaign that brought the visitor. If no session is stored yet,
  the acquisition captured when the page loaded survives \<open>grant\<close>, even after the route (and with
  it the query of the address) has changed, and it is what the first page view is tracked with.
\<close>

theorem grant_keeps_acquisition:
  assumes "hasTraffic (acquisition t)" "get_scoped t SESSION_KEY = None"
    and "0 \<le> session_timeout t" "\<And>n. uuid t n \<noteq> []"
  shows "acquisition (consent_grant t) = acquisition t"
proof -
  define u where "u = (if storageOk t then put_scoped CONSENT_KEY ''granted'' (t\<lparr>consentState := Granted\<rparr>)
    else t\<lparr>consentState := Granted\<rparr>)"
  have g: "get_scoped (t\<lparr>consentState := Granted\<rparr>) k = get_scoped t k" for k
    by (simp add: get_scoped_def storageKey_def option_text_def)
  have "acquisition u = acquisition t" "get_scoped u SESSION_KEY = None"
    using assms(2) by (simp_all add: u_def g) (simp add: put_scoped_def)
  with load_keeps_acquisition [of u] assms(1)
  have l: "acquisition (loadIdentity True u) = acquisition t" by simp
  have "session_timeout u = session_timeout t" "uuid u = uuid t"
    by (simp_all add: u_def session_timeout_def option_num_def)
  with assms(3,4) have n: "\<not> session_over (loadIdentity True u)"
    by (intro loadIdentity_not_over) simp_all
  have "acquisition (track name ps (loadIdentity True u)) = acquisition t" for name ps
    using l n track_acquisition [of "loadIdentity True u"]
    by (cases "canTrack (loadIdentity True u)") (simp_all add: ensureSession_running track_silent)
  then show ?thesis using l by (simp add: consent_grant_def Let_def u_def)
qed

lemma grant_keeps_acquisition_witness:
  "acquisition (consent_grant (example_waiting\<lparr>acquisition := [(''source'', VStr ''mail'')], query := []\<rparr>))
    = [(''source'', VStr ''mail'')]"
proof -
  define t where "t = example_waiting\<lparr>acquisition := [(''source'', VStr ''mail'')], query := []\<rparr>"
  have "hasTraffic (acquisition t)" "acquisition t = [(''source'', VStr ''mail'')]"
    by (simp_all add: t_def hasTraffic_def)
  moreover have "get_scoped t SESSION_KEY = None"
    by (simp add: t_def get_scoped_def read_item_def example_waiting_def example_defs)
  moreover have "0 \<le> session_timeout t"
    by (simp add: t_def session_timeout_def option_num_def or_num_def example_waiting_def example_defs)
  moreover have "uuid t n \<noteq> []" for n by (simp add: t_def example_waiting_def example_defs)
  ultimately show ?thesis using grant_keeps_acquisition [of t] by (simp add: t_def)
qed

subsection \<open>Denying and revoking\<close>

lemma clear_state_result:
  "queue (clearTrackingState t) = []" "timer (clearTrackingState t) = None"
  "flights (clearTrackingState t) = flights t" "sent (clearTrackingState t) = sent t"
  "handedOver (clearTrackingState t) = handedOver t"
proof -
  have c: "queue (clearIdentityStorage u) = queue u" "timer (clearIdentityStorage u) = timer u"
    "flights (clearIdentityStorage u) = flights u" "sent (clearIdentityStorage u) = sent u"
    "handedOver (clearIdentityStorage u) = handedOver u" for u
    by (simp_all add: clearIdentityStorage_def) (simp_all add: drop_scoped_def)
  have r: "queue (renew_ids u) = queue u" "timer (renew_ids u) = timer u"
    "flights (renew_ids u) = flights u" "sent (renew_ids u) = sent u"
    "handedOver (renew_ids u) = handedOver u" for u
    by (simp_all add: renew_ids_def fresh_id_def Let_def)
  have k: "queue (clear_timer u) = queue u" "timer (clear_timer u) = None"
    "flights (clear_timer u) = flights u" "sent (clear_timer u) = sent u"
    "handedOver (clear_timer u) = handedOver u" for u
    by (simp_all add: clear_timer_def clear_timeout_def split: option.split)
  show "queue (clearTrackingState t) = []" "timer (clearTrackingState t) = None"
    "flights (clearTrackingState t) = flights t" "sent (clearTrackingState t) = sent t"
    "handedOver (clearTrackingState t) = handedOver t"
    by (simp_all add: clearTrackingState_def c r k)
qed

lemma get_clear_state:
  assumes "storageOk t"
  shows "get_scoped (clearTrackingState t) k = (if k \<in> set identity_keys then None else get_scoped t k)"
proof -
  define u where "u = clear_timer (t\<lparr>queue := []\<rparr>)"
  have su: "still u = still t" by (simp add: u_def still_simps)
  have st: "storage u = storage t"
    by (simp add: u_def clear_timer_def clear_timeout_def split: option.split)
  have g: "get_scoped u l = get_scoped t l" for l
    unfolding get_scoped_def still_all [OF su] st ..
  have r: "storage (renew_ids v) = storage v" for v
    by (simp add: renew_ids_def fresh_id_def Let_def)
  have "get_scoped (renew_ids v) l = get_scoped v l" for v l
    unfolding get_scoped_def r still_all [OF still_renew_ids] ..
  moreover have "storageOk u" using assms by (simp add: still_all [OF su])
  ultimately show ?thesis
    unfolding clearTrackingState_def u_def [symmetric]
    by (simp add: clearIdentityStorage_def identity_keys_def g)
qed

text \<open>
  C36: denying consent stops collection and erases what was collected: nothing is queued, no flush
  is scheduled, the visitor, the session, the offline queue and the counter are gone from storage,
  the refusal is stored, and neither \<open>track\<close> nor \<open>flush\<close> does anything from then on.
\<close>

theorem deny_erases:
  assumes "storageOk t"
  shows "let u = consent_deny t in
    queue u = [] \<and> timer u = None \<and> unstored u \<and> get_scoped u CONSENT_KEY = Some ''denied''
    \<and> readConsentState u = Denied
    \<and> track name ps u = u \<and> flush b u = u \<and> saveOffline u = u"
proof -
  define v where "v = put_scoped CONSENT_KEY ''denied'' (t\<lparr>consentState := Denied\<rparr>)"
  have u: "consent_deny t = clearTrackingState v"
    using assms by (simp add: consent_deny_def Let_def v_def)
  have ok: "storageOk v" using assms by (simp add: v_def)
  have c: "consentState (consent_deny t) = Denied" by (simp add: u v_def)
  then have blocked: "\<not> canTrack (consent_deny t)" "\<not> persistent (consent_deny t)"
    by (simp_all add: canTrack_def persistent_def isPersistent_def split: option.split)
  have "get_scoped (consent_deny t) CONSENT_KEY = Some ''denied''"
    unfolding u get_clear_state [OF ok] by (simp add: identity_keys_def v_def)
  moreover have "unstored (consent_deny t)"
    by (simp add: u get_clear_state [OF ok] unstored_def list_all_iff)
  moreover have "storageOk (consent_deny t)" by (simp add: u ok)
  ultimately show ?thesis
    using blocked by (simp add: Let_def readConsentState_def track_silent flush_def saveOffline_def)
      (simp add: u clear_state_result)
qed

lemma deny_erases_witness:
  "queue (consent_deny example_tracker) = [] \<and> readConsentState (consent_deny example_tracker) = Denied"
  using deny_erases [of example_tracker] by (simp add: Let_def) (simp add: example_defs)

text \<open>
  a batch that is in flight when consent is denied escapes the erasure. Its remaining sessions
  are still sent when the pending request succeeds, and when it fails the whole batch is queued
  again, to be delivered after a later \<open>grant\<close>.
\<close>

theorem flight_survives_deny:
  assumes "i < length (flights t)" "flights t ! i = f" "fl_outcome f = None" "\<not> fl_beacon f"
  shows "queue (settle i False (consent_deny t)) = fl_batch f
    \<and> (case fl_todo f of
         [] \<Rightarrow> True
       | g # gs \<Rightarrow> (\<exists>r. sent (settle i True (consent_deny t)) = sent t @ [r] \<and> rq_events r = g))"
proof -
  define u where "u = consent_deny t"
  have u: "queue u = []" "flights u = flights t" "sent u = sent t"
    by (simp_all add: u_def consent_deny_def Let_def clear_state_result) (simp_all add: put_scoped_def)
  have s: "settle i ok u = (if ok then advance f (u\<lparr>flights := drop_nth i (flights t)\<rparr>)
      else take_back f (u\<lparr>flights := drop_nth i (flights t)\<rparr>))" for ok
    using assms by (simp add: settle_def u Let_def)
  show ?thesis
    unfolding u_def [symmetric] s using assms(4)
    by (auto simp: take_back_def u advance_def deliver_plain plain_request_def split: list.split)
qed

lemma flight_survives_deny_witness:
  "let t = example_tracker\<lparr>flights := [\<lparr>fl_batch = [VNull], fl_todo = [], fl_beacon = False,
        fl_outcome = None\<rparr>]\<rparr>
   in queue (settle 0 False (consent_deny t)) = [VNull]"
  using flight_survives_deny [of 0 "example_tracker\<lparr>flights := [\<lparr>fl_batch = [VNull], fl_todo = [],
        fl_beacon = False, fl_outcome = None\<rparr>]\<rparr>"] by simp

text \<open>
  revoking consent does not last where an earlier version left its keys. If the unscoped consent
  key says granted, the next page load of the production environment migrates it again and starts
  with consent granted.
\<close>

theorem revoke_undone_by_legacy_key:
  assumes "storageOk t" "option_text environment t = ''prd''"
    and "storage t CONSENT_KEY = Some ''granted''"
    and "storage u = storage (consent_revoke t)" "opts u = opts t" "storageOk u"
  shows "get_scoped (consent_revoke t) CONSENT_KEY = None
    \<and> readConsentState (migrateLegacyStorage u) = Granted"
proof -
  define v where "v = drop_scoped CONSENT_KEY (t\<lparr>consentState := Unknown\<rparr>)"
  define w where "w = clearTrackingState v"
  have r: "consent_revoke t = loadIdentity False w"
    using assms(1) by (simp add: consent_revoke_def Let_def v_def w_def)
  have ok: "storageOk v" using assms(1) by (simp add: v_def)
  have own: "writes_own t (consent_revoke t)" by (rule own_revoke)
  have legacy: "k \<notin> scoped_set t" if "k \<in> set scoped_keys" for k
    using scoped_not_legacy [OF keys_no_colon [OF that]] unfolding scoped_set_def by auto
  have l: "storage u CONSENT_KEY = Some ''granted''"
    using own legacy [of CONSENT_KEY] assms(3,4) by (simp add: writes_own_def)
  have gw: "get_scoped w CONSENT_KEY = None"
    unfolding w_def get_clear_state [OF ok] by (simp add: identity_keys_def v_def)
  have gl: "get_scoped (loadIdentity False w) CONSENT_KEY = get_scoped w CONSENT_KEY"
  proof -
    have s: "storage (load_session fb x) = storage x" "storage (blank_session fb x) = storage x" for fb x
      by (simp_all add: load_session_def stored_session_def blank_session_def fresh_id_def Let_def
          split: option.split val.split)
    have "get_scoped (load_session fb x) k = get_scoped x k" "get_scoped (blank_session fb x) k = get_scoped x k"
      for fb x k
      unfolding get_scoped_def s still_all [OF still_load_session] still_all [OF still_blank_session]
      by simp_all
    then show ?thesis
      by (simp add: loadIdentity_def Let_def get_load_visitor_other)
  qed
  have sk: "storageKey u k = storageKey (consent_revoke t) k" for k
    using assms(5) by (simp add: storageKey_def option_text_def r w_def v_def)
  have gu: "get_scoped u CONSENT_KEY = None"
    using gw gl by (simp add: get_scoped_def assms(4) sk r)
  have step: "get_scoped (migrate_key k x) CONSENT_KEY = get_scoped x CONSENT_KEY"
    "storage (migrate_key k x) CONSENT_KEY = storage x CONSENT_KEY"
    if "k \<noteq> CONSENT_KEY" for k x
    using that scoped_not_legacy [OF keys_no_colon [OF key_members(3)], of x k]
    by (simp_all add: migrate_key_def put_scoped_def store_item_def split: option.split)
      (simp_all add: get_scoped_def storageKey_def option_text_def read_item_def split: option.split)
  have take: "get_scoped (migrate_key CONSENT_KEY x) CONSENT_KEY = Some ''granted''"
    if "get_scoped x CONSENT_KEY = None" "storage x CONSENT_KEY = Some ''granted''" for x
    using that by (simp add: migrate_key_def read_item_def)
  have "get_scoped (migrateLegacyStorage u) CONSENT_KEY = Some ''granted''"
    using assms(2,5,6) gu l
    by (simp add: migrateLegacyStorage_def option_text_def step take)
  then show ?thesis using gw gl assms(6)
    by (simp add: readConsentState_def r still_all [OF still_migrate])
qed

lemma revoke_undone_by_legacy_key_witness:
  "let t = example_tracker\<lparr>storage := [CONSENT_KEY \<mapsto> ''granted'']\<rparr> in
   get_scoped (consent_revoke t) CONSENT_KEY = None
   \<and> readConsentState (migrateLegacyStorage (consent_revoke t)) = Granted"
proof -
  define t where "t = example_tracker\<lparr>storage := [CONSENT_KEY \<mapsto> ''granted'']\<rparr>"
  have "storageOk t" "option_text environment t = ''prd''" "storage t CONSENT_KEY = Some ''granted''"
    by (simp_all add: t_def option_text_def example_defs)
  moreover have "opts (consent_revoke t) = opts t" "storageOk (consent_revoke t) = storageOk t"
    by (simp_all add: consent_revoke_def Let_def)
  ultimately show ?thesis
    using revoke_undone_by_legacy_key [of t "consent_revoke t"] by (simp add: Let_def t_def)
qed

end
