(* ===== verification/Detection.thy ===== *)
theory Detection
  imports Withdrawal
begin

section \<open>What the automatic detection reports\<close>

text \<open>
  Correctness of the detectors: the count on a rage click, scroll depth, web vitals, site search,
  and the order of the listeners when a page is hidden.
\<close>

subsection \<open>Rage clicks\<close>

definition click_at :: "elem \<Rightarrow> rat \<Rightarrow> tracker \<Rightarrow> tracker" where
  "click_at x m t = observeClickFrustration x (t\<lparr>mono := m\<rparr>)"

text \<open>Times of which each is at most the window after the one before.\<close>

fun close_together :: "rat list \<Rightarrow> bool" where
  "close_together (a # b # ms) \<longleftrightarrow> b - a \<le> RAGE_CLICK_WINDOW_MS \<and> close_together (b # ms)"
| "close_together _ \<longleftrightarrow> True"

fun is_rage_timer :: "nat \<times> rat \<times> callback \<Rightarrow> bool" where
  "is_rage_timer (_, _, RageTimer _) = True"
| "is_rage_timer _ = False"

definition rage_timers :: "tracker \<Rightarrow> nat" where
  "rage_timers t = length (filter is_rage_timer (timers t))"

lemma close_snoc:
  "close_together (ms @ [m]) \<longleftrightarrow>
     close_together ms \<and> (ms \<noteq> [] \<longrightarrow> m - last ms \<le> RAGE_CLICK_WINDOW_MS)"
  by (induction ms rule: close_together.induct) auto

lemma check_dead_frame:
  "rageBurst (checkDeadClick x t) = rageBurst t" "rage_timers (checkDeadClick x t) = rage_timers t"
  "still (checkDeadClick x t) = still (t\<lparr>deadClickPending := deadClickPending (checkDeadClick x t),
     deadMutated := deadMutated (checkDeadClick x t)\<rparr>)"
  by (simp_all add: checkDeadClick_def set_timeout_def rage_timers_def still_def)

definition burst_state :: "elem \<Rightarrow> nat \<Rightarrow> rat \<Rightarrow> tracker \<Rightarrow> bool" where
  "burst_state x n m t \<longleftrightarrow>
     (\<exists>r. rageBurst t = Some r \<and> bu_signature r = elementSignature x \<and> bu_count r = n
        \<and> bu_at r = m \<and> (bu_timer r = None \<longleftrightarrow> n < RAGE_CLICK_THRESHOLD))"

lemma first_click:
  assumes "rageBurst t = None"
  shows "burst_state x 1 m (click_at x m t)" "rage_timers (click_at x m t) = rage_timers t"
  using assms by (simp_all add: click_at_def observeClickFrustration_def Let_def start_burst_def
      burst_state_def check_dead_frame RAGE_CLICK_THRESHOLD_def) (simp add: rage_timers_def)

lemma next_click:
  assumes "burst_state x n m t" "m' - m \<le> RAGE_CLICK_WINDOW_MS" "0 < n"
  shows "burst_state x (Suc n) m' (click_at x m' t)"
    "rage_timers (click_at x m' t)
      = rage_timers t + (if Suc n = RAGE_CLICK_THRESHOLD then 1 else 0)"
proof -
  obtain r where r: "rageBurst t = Some r" "bu_signature r = elementSignature x" "bu_count r = n"
    "bu_at r = m" "bu_timer r = None \<longleftrightarrow> n < RAGE_CLICK_THRESHOLD"
    using assms(1) by (auto simp: burst_state_def)
  then show "burst_state x (Suc n) m' (click_at x m' t)"
    using assms(2) by (auto simp: click_at_def observeClickFrustration_def Let_def same_burst_def
        grow_burst_def set_timeout_def burst_state_def RAGE_CLICK_THRESHOLD_def)
  show "rage_timers (click_at x m' t)
      = rage_timers t + (if Suc n = RAGE_CLICK_THRESHOLD then 1 else 0)"
    using r assms(2) by (simp add: click_at_def observeClickFrustration_def Let_def same_burst_def
        grow_burst_def set_timeout_def rage_timers_def RAGE_CLICK_THRESHOLD_def)
qed

lemma clicks_state:
  assumes "rageBurst t = None" "ms \<noteq> []" "close_together ms"
  shows "burst_state x (length ms) (last ms) (fold (click_at x) ms t)
    \<and> rage_timers (fold (click_at x) ms t)
        = rage_timers t + (if length ms \<ge> RAGE_CLICK_THRESHOLD then 1 else 0)"
  using assms(2,3)
proof (induction ms rule: rev_induct)
  case (snoc m ms)
  show ?case
  proof (cases "ms = []")
    case True
    then show ?thesis using first_click [OF assms(1), of x m] by (simp add: RAGE_CLICK_THRESHOLD_def)
  next
    case False
    with snoc have s: "burst_state x (length ms) (last ms) (fold (click_at x) ms t)"
      "rage_timers (fold (click_at x) ms t)
        = rage_timers t + (if length ms \<ge> RAGE_CLICK_THRESHOLD then 1 else 0)"
      "m - last ms \<le> RAGE_CLICK_WINDOW_MS"
      by (auto simp: close_snoc)
    show ?thesis using next_click [OF s(1,3)] s(2) False
      by (auto simp: RAGE_CLICK_THRESHOLD_def)
  qed
qed simp

lemma click_collecting:
  "canTrack (click_at x m t) = canTrack t" "signalsThisPage (click_at x m t) = signalsThisPage t"
  "ledger (click_at x m t) = ledger t"
proof -
  have d: "opts (checkDeadClick x u) = opts u" "consentState (checkDeadClick x u) = consentState u"
    "doNotTrack (checkDeadClick x u) = doNotTrack u"
    "signalsThisPage (checkDeadClick x u) = signalsThisPage u" "ledger (checkDeadClick x u) = ledger u"
    for u by (simp_all add: checkDeadClick_def set_timeout_def ledger_def)
  have c: "opts (clear_timeout i u) = opts u" "consentState (clear_timeout i u) = consentState u"
    "doNotTrack (clear_timeout i u) = doNotTrack u"
    "signalsThisPage (clear_timeout i u) = signalsThisPage u" for i u
    by (simp_all add: clear_timeout_def)
  have g: "opts (click_at x m t) = opts t \<and> consentState (click_at x m t) = consentState t
      \<and> doNotTrack (click_at x m t) = doNotTrack t
      \<and> signalsThisPage (click_at x m t) = signalsThisPage t \<and> ledger (click_at x m t) = ledger t"
    by (auto simp: click_at_def observeClickFrustration_def Let_def start_burst_def grow_burst_def
        set_timeout_def d c split: option.split) (simp_all add: ledger_def clear_timeout_def)
  then show "canTrack (click_at x m t) = canTrack t"
    "signalsThisPage (click_at x m t) = signalsThisPage t" "ledger (click_at x m t) = ledger t"
    using canTrack_cong by blast+
qed

lemma clicks_collecting:
  "canTrack (fold (click_at x) ms t) = canTrack t"
  "signalsThisPage (fold (click_at x) ms t) = signalsThisPage t"
  "ledger (fold (click_at x) ms t) = ledger t"
  by (induction ms arbitrary: t) (simp_all add: click_collecting)

lemma signal_reports:
  assumes "canTrack t" "signalsThisPage t < SIGNALS_PER_PAGE"
  shows "\<exists>e. {#e#} + ledger t \<subseteq># ledger (signal name ps t) \<and> field e ''name'' = VStr name
    \<and> field e ''properties'' = VObj (spread ps (releaseContext t))"
proof -
  define u where "u = t\<lparr>signalsThisPage := signalsThisPage t + 1\<rparr>"
  have u: "canTrack u" "ledger u = ledger t" "releaseContext u = releaseContext t"
    using assms(1) canTrack_cong [of u t] by (simp_all add: u_def releaseContext_def)
  obtain es e where "ledger (track name ps u) = ledger u + mset es + {#e#}"
    "field e ''name'' = VStr name" "field e ''properties'' = VObj (spread ps (releaseContext u))"
    using ledger_track [OF u(1), of name ps] by blast
  with u assms(2) show ?thesis by (intro exI [of _ e]) (simp add: signal_def u_def)
qed

text \<open>
  a rage click is reported once per burst, with the real number of clicks. However many clicks
  on one element follow each other within the window, from the third on exactly one timer is
  pending for them, and the event it produces carries the number of all of them.
\<close>

theorem rage_click_counts:
  assumes "rageBurst t = None" "close_together ms" "RAGE_CLICK_THRESHOLD \<le> length ms"
    and "canTrack t" "signalsThisPage t < SIGNALS_PER_PAGE"
  shows "let u = fold (click_at x) ms t; w = finish_rage_click x u in
    rage_timers u = rage_timers t + 1
    \<and> (\<exists>e \<in># ledger w. field e ''name'' = VStr ''rage_click''
        \<and> field (field e ''properties'') ''clicks'' = vint (int (length ms)))
    \<and> rageBurst w = None"
proof -
  define u where "u = fold (click_at x) ms t"
  have "ms \<noteq> []" using assms(3) by (auto simp: RAGE_CLICK_THRESHOLD_def)
  from clicks_state [OF assms(1) this assms(2), of x]
  have s: "burst_state x (length ms) (last ms) u" "rage_timers u = rage_timers t + 1"
    using assms(3) by (simp_all add: u_def)
  then obtain r where r: "rageBurst u = Some r" "bu_count r = length ms"
    by (auto simp: burst_state_def)
  define ps where "ps = setp ''window_ms'' (vrat RAGE_CLICK_WINDOW_MS)
    (setp ''clicks'' (vint (int (length ms))) (elementProperties u x))"
  have f: "finish_rage_click x u = (signal ''rage_click'' ps u)\<lparr>rageBurst := None\<rparr>"
    using r \<open>ms \<noteq> []\<close> by (simp add: finish_rage_click_def ps_def)
  have "canTrack u" "signalsThisPage u < SIGNALS_PER_PAGE"
    using assms(4,5) by (simp_all add: u_def clicks_collecting)
  from signal_reports [OF this, of "''rage_click''" ps] obtain e where
    e: "{#e#} + ledger u \<subseteq># ledger (signal ''rage_click'' ps u)" "field e ''name'' = VStr ''rage_click''"
      "field e ''properties'' = VObj (spread ps (releaseContext u))" by blast
  have "field (field e ''properties'') ''clicks'' = vint (int (length ms))"
    unfolding e(3) by (simp add: getp_with_release release_keys_def) (simp add: ps_def obj_simps)
  moreover have "e \<in># ledger (finish_rage_click x u)"
    using e(1) by (simp add: f insert_subset_eq_iff)
  ultimately show ?thesis using e(2) s(2)
    unfolding u_def [symmetric] Let_def by (auto simp: f)
qed

definition example_button :: elem where
  "example_button =
   \<lparr>el_tag = ''BUTTON'', el_id = ''buy'', el_class = None, el_index = None, el_button = [],
    el_aria = [], el_feature = [], el_text = ''Buy'', el_type = ''button'', el_interactive = True,
    el_pointer = True, el_ignored = False, el_anchor = None, el_inResults = False,
    el_position = None, el_linkIndex = None\<rparr>"

lemma rage_click_counts_witness:
  "let w = finish_rage_click example_button (fold (click_at example_button) [0, 200, 400, 600] example_tracker)
   in \<exists>e \<in># ledger w. field e ''name'' = VStr ''rage_click''
        \<and> field (field e ''properties'') ''clicks'' = vint 4"
proof -
  have "signalsThisPage example_tracker < SIGNALS_PER_PAGE"
    by (simp add: example_defs SIGNALS_PER_PAGE_def)
  from rage_click_counts [OF example_running(8) _ _ example_running(1) this,
      of "[0, 200, 400, 600]" example_button]
  show ?thesis by (simp add: RAGE_CLICK_WINDOW_MS_def RAGE_CLICK_THRESHOLD_def Let_def)
qed

text \<open>
  a burst that has reached the threshold is forgotten when another element is clicked before
  its timer fires: the timer is cleared, and nothing is reported for the burst.
\<close>

theorem burst_lost_to_other_click:
  assumes "rageBurst t = Some r" "RAGE_CLICK_THRESHOLD \<le> bu_count r" "bu_timer r = Some i"
    and "i < nextTimer t" "elementSignature y \<noteq> bu_signature r"
  shows "let u = observeClickFrustration y t in
    map_of (timers u) i = None
    \<and> ledger u = ledger t \<and> burst_state y 1 (mono t) u"
proof -
  define v where "v = (clear_timeout i (t\<lparr>lastClick := Some (mono t, elementProperties t y)\<rparr>))
    \<lparr>rageBurst := Some \<lparr>bu_signature = elementSignature y, bu_at = mono t, bu_count = 1,
       bu_timer = None\<rparr>\<rparr>"
  have u: "observeClickFrustration y t = checkDeadClick y v"
    using assms by (simp add: observeClickFrustration_def Let_def same_burst_def start_burst_def v_def)
  have "(i, due, cb) \<notin> set (timers v)" for due cb
    by (simp add: v_def clear_timeout_set)
  moreover have "nextTimer v = nextTimer t" by (simp add: v_def)
  ultimately have "map_of (timers (checkDeadClick y v)) i = None"
    using assms(4) by (auto simp: map_of_eq_None_iff checkDeadClick_def set_timeout_def
        page_probe_of_def)
  moreover have "ledger (checkDeadClick y v) = ledger t"
    by (simp add: checkDeadClick_def set_timeout_def v_def clear_timeout_def ledger_def)
  moreover have "burst_state y 1 (mono t) (checkDeadClick y v)"
    by (simp add: burst_state_def check_dead_frame v_def RAGE_CLICK_THRESHOLD_def)
  ultimately show ?thesis unfolding u Let_def by auto
qed

lemma burst_lost_to_other_click_witness:
  "let t = (fold (click_at example_button) [0, 200, 400] example_tracker);
       u = observeClickFrustration (example_button\<lparr>el_id := ''close''\<rparr>) t
   in rage_timers t = 1 \<and> map_of (timers u) 2 = None"
proof -
  define t where "t = fold (click_at example_button) [0, 200, 400] example_tracker"
  have t: "rageBurst t = Some \<lparr>bu_signature = ''button#buy'', bu_at = 400, bu_count = 3, bu_timer = Some 2\<rparr>"
    "nextTimer t = 3" "rage_timers t = 1"
    unfolding t_def by code_simp+
  have "elementSignature (example_button\<lparr>el_id := ''close''\<rparr>) \<noteq> ''button#buy''" by code_simp
  with burst_lost_to_other_click [OF t(1), of 2] t show ?thesis
    unfolding t_def [symmetric] Let_def by (simp add: RAGE_CLICK_THRESHOLD_def)
qed

subsection \<open>Scroll depth\<close>

lemma scroll_step_tracked:
  "set (trackedScroll (scroll_step d p t)) = set (trackedScroll t) \<union> (if d \<ge> p then {p} else {})"
  by (auto simp: scroll_step_def)

lemma scroll_fold_tracked:
  "set (trackedScroll (fold (scroll_step d) ps t)) = set (trackedScroll t) \<union> {p \<in> set ps. p \<le> d}"
  by (induction ps arbitrary: t) (auto simp: scroll_step_tracked)

lemma scroll_step_done:
  "\<forall>p \<in> set ps. p \<le> d \<longrightarrow> p \<in> set (trackedScroll t) \<Longrightarrow> fold (scroll_step d) ps t = t"
  by (induction ps) (auto simp: scroll_step_def)

text \<open>
  every scroll threshold is reported once per page. After a scroll, the reported thresholds are
  the earlier ones and those the depth has reached, and scrolling on without getting deeper reports
  nothing again.
\<close>

theorem scroll_reported_once:
  assumes "0 < extent" "y' \<le> y" "0 \<le> y'"
  shows "set (trackedScroll (onScroll y extent t))
      = set (trackedScroll t) \<union> {p \<in> {25, 50, 75, 90}. p \<le> scroll_depth y extent}
    \<and> onScroll y' extent (onScroll y extent t) = onScroll y extent t"
proof
  have n: "\<not> extent \<le> 0" using assms(1) by simp
  show a: "set (trackedScroll (onScroll y extent t))
      = set (trackedScroll t) \<union> {p \<in> {25, 50, 75, 90}. p \<le> scroll_depth y extent}"
  proof -
    have "set (trackedScroll (onScroll y extent t))
        = set (trackedScroll t) \<union> {p \<in> set scroll_thresholds. p \<le> scroll_depth y extent}"
      using n by (simp add: onScroll_def scroll_fold_tracked)
    then show ?thesis by (simp add: scroll_thresholds_def)
  qed
  have "y' / extent * 100 \<le> y / extent * 100"
    using assms by (simp add: divide_right_mono)
  then have "scroll_depth y' extent \<le> scroll_depth y extent"
    unfolding scroll_depth_def by (rule js_round_mono)
  then show "onScroll y' extent (onScroll y extent t) = onScroll y extent t"
    using a n scroll_step_done [of scroll_thresholds "scroll_depth y' extent" "onScroll y extent t"]
    unfolding onScroll_def [of y'] by (auto simp: scroll_thresholds_def)
qed

lemma scroll_reported_once_witness:
  "onScroll 500 1000 (onScroll 600 1000 example_tracker) = onScroll 600 1000 example_tracker"
  using scroll_reported_once [of 1000 500 600 example_tracker] by simp

subsection \<open>Web vitals\<close>

fun rating_rank :: "string \<Rightarrow> nat" where
  "rating_rank r = (if r = ''good'' then 0 else if r = ''needs-improvement'' then 1 else 2)"

lemma round3_error: "\<bar>round3 v - v\<bar> \<le> 1 / 2000"
  using js_round_nearest [of "v * 1000"] unfolding round3_def by linarith

text \<open>
  a vital that is finite and not negative is reported with its value rounded to a thousandth and
  a rating that never improves when the value grows; any other value is not reported.
\<close>

theorem vital_reported:
  "(canTrack t \<and> 0 \<le> v \<longrightarrow>
      (\<exists>e \<in># ledger (trackVital metric (Fin v) [] t). \<exists>r.
         field e ''name'' = VStr ''web_vital''
         \<and> field (field e ''properties'') ''metric'' = VStr metric
         \<and> field (field e ''properties'') ''value'' = vrat r \<and> \<bar>r - v\<bar> \<le> 1 / 2000
         \<and> field (field e ''properties'') ''rating'' = VStr (vitalRating metric v)))
   \<and> (n \<in> {PInf, NInf, NaN} \<or> (\<exists>q < 0. n = Fin q) \<longrightarrow> trackVital metric n extra t = t)
   \<and> (vital_limits metric \<noteq> None \<and> v \<le> w \<longrightarrow>
        rating_rank (vitalRating metric v) \<le> rating_rank (vitalRating metric w))"
proof (intro conjI impI)
  assume a: "canTrack t \<and> 0 \<le> v"
  define ps where "ps = [(''metric'', VStr metric), (''value'', vrat (round3 v)),
    (''rating'', VStr (vitalRating metric v))]"
  obtain es e where l: "ledger (track ''web_vital'' ps t) = ledger t + mset es + {#e#}"
    "field e ''name'' = VStr ''web_vital''"
    "field e ''properties'' = VObj (spread ps (releaseContext t))"
    using ledger_track [of t "''web_vital''" ps] a by blast
  have "trackVital metric (Fin v) [] t = track ''web_vital'' ps t"
    using a by (simp add: trackVital_def ps_def)
  then have "e \<in># ledger (trackVital metric (Fin v) [] t)" by (simp add: l(1))
  moreover have "field (field e ''properties'') ''metric'' = VStr metric"
    "field (field e ''properties'') ''value'' = vrat (round3 v)"
    "field (field e ''properties'') ''rating'' = VStr (vitalRating metric v)"
    unfolding l(3) by (simp_all add: getp_with_release release_keys_def) (simp_all add: ps_def)
  ultimately show "\<exists>e \<in># ledger (trackVital metric (Fin v) [] t). \<exists>r.
         field e ''name'' = VStr ''web_vital''
         \<and> field (field e ''properties'') ''metric'' = VStr metric
         \<and> field (field e ''properties'') ''value'' = vrat r \<and> \<bar>r - v\<bar> \<le> 1 / 2000
         \<and> field (field e ''properties'') ''rating'' = VStr (vitalRating metric v)"
    using l(2) round3_error [of v] by (intro bexI [of _ e] exI [of _ "round3 v"]) simp_all
next
  assume "n \<in> {PInf, NInf, NaN} \<or> (\<exists>q < 0. n = Fin q)"
  then show "trackVital metric n extra t = t" by (auto simp: trackVital_def)
next
  assume a: "vital_limits metric \<noteq> None \<and> v \<le> w"
  then obtain g p where l: "vital_limits metric = Some (g, p)" by auto
  from a show "rating_rank (vitalRating metric v) \<le> rating_rank (vitalRating metric w)"
    by (simp add: vitalRating_def l)
qed

lemma vital_reported_witness:
  "\<exists>e \<in># ledger (trackVital ''LCP'' (Fin 2600) [] example_tracker).
     field (field e ''properties'') ''rating'' = VStr ''needs-improvement''"
proof -
  have "vitalRating ''LCP'' 2600 = ''needs-improvement''"
    by (simp add: vitalRating_def vital_limits_def)
  then show ?thesis
    using vital_reported [of example_tracker 2600 "''LCP''" NaN "[]" 2600] example_running(1) by auto
qed

subsection \<open>Site search\<close>

text \<open>
  the words of a search leave the browser only where the site asks for them. Without
  \<open>collectSearchTerms\<close> the event of a search and the signals after it carry lengths and counts
  but no query; with it they carry the redacted query.
\<close>

theorem search_terms_private:
  "set (keys (search_props q extra t))
      = set (keys extra) \<union> {''query_length'', ''query_words''}
        \<union> (if option_on collectSearchTerms t then {''query''} else {})
   \<and> getp (search_props q extra t) ''query'' =
       (if option_on collectSearchTerms t then VStr (redactPII (VStr q) 100) else getp extra ''query'')
   \<and> (\<not> option_on collectSearchTerms t \<longrightarrow> put_query key q t ps = ps)
   \<and> length (normalize_query raw) \<le> 100"
  by (auto simp: search_props_def put_query_def obj_simps normalize_query_def simp del: set_map)

lemma search_terms_private_witness:
  "put_query ''query'' ''kim'' example_tracker [] = []"
  using search_terms_private [of "''kim''" "[]" example_tracker "''query''" "[]" "[]"]
  by (simp add: option_on_def example_defs)

lemma search_state_signal [simp]: "searchState (signal name ps t) = searchState t"
  by (simp add: signal_def)

lemma mono_signal [simp]: "mono (signal name ps t) = mono t"
  by (simp add: signal_def)

lemma follow_up_frame [simp]:
  "searchState (follow_up q p at0 t) = searchState t" "mono (follow_up q p at0 t) = mono t"
  by (simp_all add: follow_up_def)

text \<open>
  one search is reported once. Reporting the same normalised query again at the same time, as
  an address and a manual call do, changes nothing.
\<close>

theorem search_reported_once:
  assumes "normalize_query raw = normalize_query raw'"
  shows "recordSearch raw extra (recordSearch raw' extra' t) = recordSearch raw' extra' t"
proof -
  define q where "q = normalize_query raw'"
  define u where "u = recordSearch raw' extra' t"
  have "q = [] \<or> (\<exists>at0. searchState u = Some (q, at0) \<and> mono u - at0 < 2000)"
    unfolding u_def recordSearch_def Let_def q_def [symmetric]
    by (auto split: option.splits prod.splits)
  then show ?thesis
    unfolding u_def [symmetric] using assms
    by (subst recordSearch_def) (auto simp: Let_def q_def)
qed

lemma search_reported_once_witness:
  "recordSearch '' Shoes'' [] (recordSearch ''shoes '' [] example_tracker)
    = recordSearch ''shoes '' [] example_tracker"
proof (rule search_reported_once)
  show "normalize_query '' Shoes'' = normalize_query ''shoes ''" by code_simp
qed

subsection \<open>Hiding the page\<close>

text \<open>An event that does not fill the batch stays queued and starts no request.\<close>

lemma track_small:
  assumes "canTrack t" "\<not> session_over t" "of_nat (Suc (length (queue t))) < batch_size t"
    "0 \<le> session_timeout t"
  shows "\<exists>e. queue (track name ps t) = queue t @ [e] \<and> field e ''name'' = VStr name
    \<and> sent (track name ps t) = sent t \<and> \<not> session_over (track name ps t)"
proof -
  define w where "w = push_event name (spread ps (releaseContext t)) (now t) t"
  define v where "v = persistSession (w\<lparr>lastEventAt := of_int (now t)\<rparr>)"
  have tr: "track name ps t = (if of_nat (length (queue v)) \<ge> batch_size v then flush False v else scheduleFlush v)"
    using assms(1,2) by (simp add: track_def Let_def ensureSession_running v_def w_def)
  have sv: "still v = still t" by (simp add: v_def w_def still_simps)
  have b: "batch_size v = batch_size t" unfolding batch_size_def by (rule still_predicates [OF sv])
  obtain e where e: "queue w = queue t @ [e]" "field e ''name'' = VStr name"
    using queue_push_event [of name "spread ps (releaseContext t)" "now t" t] unfolding w_def by blast
  have v: "queue v = queue t @ [e]" "sent v = sent t" "sessionId v = sessionId t"
    "lastEventAt v = of_int (now t)" "now v = now t"
    using e(1) by (simp_all add: v_def) (simp_all add: w_def)
  have tr': "track name ps t = scheduleFlush v"
    using assms(3) v(1) b by (simp add: tr)
  have "session_timeout v = session_timeout t"
    unfolding session_timeout_def still_predicates [OF sv] ..
  then have "\<not> session_over (scheduleFlush v)"
    using assms(2,4) v by (simp add: session_over_def session_timeout_def)
  with v e(2) show ?thesis by (simp add: tr')
qed

lemma vital_small:
  assumes "canTrack t" "\<not> session_over t" "of_nat (Suc (length (queue t))) < batch_size t"
    "0 \<le> session_timeout t"
  shows "\<exists>es. queue (trackVital metric v extra t) = queue t @ es \<and> length es \<le> 1
    \<and> (\<forall>q. v = Fin q \<longrightarrow> 0 \<le> q \<longrightarrow> list_ex (\<lambda>e. field e ''name'' = VStr ''web_vital'') es)
    \<and> sent (trackVital metric v extra t) = sent t \<and> \<not> session_over (trackVital metric v extra t)"
proof (cases "\<exists>q. v = Fin q \<and> 0 \<le> q")
  case True
  then obtain q where q: "v = Fin q" "0 \<le> q" by blast
  from track_small [OF assms, of "''web_vital''"
      "spread [(''metric'', VStr metric), (''value'', vrat (round3 q)),
        (''rating'', VStr (vitalRating metric q))] extra"]
  obtain e where "queue (trackVital metric v extra t) = queue t @ [e]" "field e ''name'' = VStr ''web_vital''"
    "sent (trackVital metric v extra t) = sent t" "\<not> session_over (trackVital metric v extra t)"
    using q by (auto simp: trackVital_def)
  then show ?thesis by (intro exI [of _ "[e]"]) simp
next
  case False
  then have "trackVital metric v extra t = t" by (auto simp: trackVital_def split: jnum.split)
  with False assms(2) show ?thesis by (intro exI [of _ "[]"]) auto
qed

lemma vital_frame [simp]:
  "canTrack (trackVital m v ps t) = canTrack t" "batch_size (trackVital m v ps t) = batch_size t"
  "session_timeout (trackVital m v ps t) = session_timeout t"
  "lastLCP (trackVital m v ps t) = lastLCP t" "clsTotal (trackVital m v ps t) = clsTotal t"
  "maxINP (trackVital m v ps t) = maxINP t"
  by (simp_all add: trackVital_def batch_size_def session_timeout_def split: jnum.split)

lemma advance_fields [simp]:
  "sessionId (advance f t) = sessionId t" "lastEventAt (advance f t) = lastEventAt t"
  "queue (advance f t) = queue t" "vitalsEmitted (advance f t) = vitalsEmitted t"
  by (auto simp: advance_def deliver_def scheduleFlush_def set_timeout_def Let_def
      split: list.split)

lemma flush_fields [simp]:
  "sessionId (flush b t) = sessionId t" "lastEventAt (flush b t) = lastEventAt t"
  "vitalsEmitted (flush b t) = vitalsEmitted t"
  by (simp_all add: flush_def Let_def)

lemma flush_empties:
  "length (queue t) \<le> nat (js_trunc (batch_size t)) \<Longrightarrow> canTrack t \<Longrightarrow> queue (flush b t) = []"
  using canTrack_opts [of t] by (auto simp: flush_def Let_def)

text \<open>
  the final vitals miss the last request of a page. When the page is hidden the queue is
  flushed first and the vitals are tracked after it, so the layout shift (and the largest paint and
  the slowest interaction) are only queued: no request that hiding the page starts carries them.
\<close>

theorem final_vitals_after_flush:
  assumes "AutoTracking \<in> set (installed t)" "RUM \<in> set (installed t)" "\<not> vitalsEmitted t"
    and "canTrack t" "\<not> session_over t" "0 \<le> session_timeout t" "0 \<le> clsTotal t"
    and "length (queue t) \<le> nat (js_trunc (batch_size t))" "4 \<le> batch_size t"
  shows "sent (onHidden t) = sent (flush True t)
    \<and> list_ex (\<lambda>e. field e ''name'' = VStr ''web_vital'') (queue (onHidden t))"
proof -
  define t0 where "t0 = flush True t"
  define t1 where "t1 = t0\<lparr>vitalsEmitted := True\<rparr>"
  define t2 where "t2 = (if lastLCP t1 \<noteq> 0 then trackVital ''LCP'' (Fin (lastLCP t1)) [] t1 else t1)"
  define t3 where "t3 = trackVital ''CLS'' (Fin (clsTotal t2)) [] t2"
  define t4 where "t4 = (if maxINP t3 \<noteq> 0 then trackVital ''INP'' (Fin (maxINP t3)) [] t3 else t3)"
  have "vitalsEmitted t0 = vitalsEmitted t" by (simp add: t0_def)
  then have h: "onHidden t = t4"
    using assms(1-3) by (simp add: onHidden_def on_feature_def emitFinalVitals_def Let_def
        t4_def t3_def t2_def t1_def t0_def)
  have b: "canTrack t1 = canTrack t" "batch_size t1 = batch_size t" "session_timeout t1 = session_timeout t"
    by (simp_all add: t1_def t0_def canTrack_def batch_size_def session_timeout_def option_num_def
        cong: option.case_cong)
  have s1: "\<not> session_over t1"
    using assms(5) b(3) by (simp add: session_over_def t1_def t0_def)
  have q1: "queue t1 = []" "sent t1 = sent t0" using flush_empties [OF assms(8,4)] by (simp_all add: t1_def t0_def)
  obtain es2 where t2: "queue t2 = es2" "length es2 \<le> 1" "sent t2 = sent t0" "\<not> session_over t2"
    using vital_small [of t1 "''LCP''" "Fin (lastLCP t1)" "[]"] assms(4,6,9) s1 q1 b
    by (cases "lastLCP t1 \<noteq> 0") (auto simp: t2_def)
  have b2: "canTrack t2" "batch_size t2 = batch_size t" "session_timeout t2 = session_timeout t"
    "clsTotal t2 = clsTotal t"
    using assms(4) b by (simp_all add: t2_def) (simp_all add: t1_def t0_def)
  obtain es3 where t3: "queue t3 = es2 @ es3" "length es3 \<le> 1" "sent t3 = sent t0" "\<not> session_over t3"
    "list_ex (\<lambda>e. field e ''name'' = VStr ''web_vital'') es3"
    using vital_small [of t2 "''CLS''" "Fin (clsTotal t2)" "[]"] assms(6,7,9) t2 b2
    by (auto simp: t3_def)
  have b3: "canTrack t3" "batch_size t3 = batch_size t" "session_timeout t3 = session_timeout t"
    using b2 by (simp_all add: t3_def)
  obtain es4 where t4: "queue t4 = es2 @ es3 @ es4" "sent t4 = sent t0"
    using vital_small [of t3 "''INP''" "Fin (maxINP t3)" "[]"] assms(6,9) t3 t2(2) b3
    by (cases "maxINP t3 \<noteq> 0") (auto simp: t4_def)
  then show ?thesis using t3(5) by (simp add: h t0_def)
qed

lemma final_vitals_after_flush_witness:
  "let t = example_tracker\<lparr>installed := [AutoTracking, RUM], queue := [VNull], clsTotal := 1 / 10\<rparr>
   in sent (onHidden t) = sent (flush True t)
    \<and> list_ex (\<lambda>e. field e ''name'' = VStr ''web_vital'') (queue (onHidden t))"
proof -
  define t where "t = example_tracker\<lparr>installed := [AutoTracking, RUM], queue := [VNull], clsTotal := 1 / 10\<rparr>"
  have t: "AutoTracking \<in> set (installed t)" "RUM \<in> set (installed t)" "\<not> vitalsEmitted t"
    "0 \<le> clsTotal t" "batch_size t = 10" "length (queue t) = 1" "0 \<le> session_timeout t"
    by (simp_all add: t_def batch_size_def session_timeout_def option_num_def or_num_def example_defs)
  have "canTrack t = canTrack example_tracker" by (rule canTrack_cong) (simp_all add: t_def)
  moreover have "session_over t = session_over example_tracker"
    by (simp add: t_def session_over_def session_timeout_def option_num_def)
  moreover have "nat (js_trunc 10) = 10" by (simp add: js_trunc_def)
  ultimately show ?thesis
    using final_vitals_after_flush [of t] t example_running(1,2)
    unfolding t_def [symmetric] Let_def by simp
qed

end
