(* ===== verification/ConsoleBase.thy ===== *)
theory ConsoleBase
  imports Json "HOL-Library.AList"
begin

section \<open>The console: shared text and number functions\<close>

text \<open>
  What the logic modules of the console (\<open>web/src\<close>) share. The sentences the console shows
  are Korean; a sentence is a constructor of a message datatype of its module and carries the
  values interpolated into it, so that the model says which sentence appears with which values
  and leaves its wording to the source. Text that is ASCII in the source is a \<^typ>\<open>string\<close>.

  The number formats of the language library are modelled on rationals: \<open>toFixed\<close>, and
  \<open>toLocaleString("ko-KR")\<close> with its groups of three digits.
\<close>

subsection \<open>Digits\<close>

text \<open>The test \<open>/^[0-9]+$/\<close>.\<close>

definition digits_only :: "string \<Rightarrow> bool" where
  "digits_only s \<longleftrightarrow> s \<noteq> [] \<and> list_all is_digit s"

lemma digits_only_nat_text [simp]: "digits_only (nat_text n)"
  using all_digits_nat_text by (simp add: digits_only_def list_all_iff)

lemma js_trim_digits: "list_all is_digit s \<Longrightarrow> js_trim s = s"
  using digit_not_space by (intro js_trim_id) (auto simp: list_all_iff)

lemma js_number_digits: "digits_only s \<Longrightarrow> js_number s = Fin (of_nat (nat_of_digits s))"
proof -
  assume a: "digits_only s"
  then have all: "\<forall>c \<in> set s. is_digit c" and ne: "s \<noteq> []"
    by (auto simp: digits_only_def list_all_iff)
  obtain c r where cr: "s = c # r" using ne by (cases s) auto
  then have c: "is_digit c" using all by simp
  then have "c \<noteq> CHR ''-''" "c \<noteq> CHR ''+''" by (auto simp: char_simps)
  moreover have "c \<noteq> CHR ''I''" using c by (auto simp: char_simps)
  then have "s \<noteq> ''Infinity''" using cr by simp
  then have "unsigned_number s = Fin (of_nat (nat_of_digits s))"
    using ne by (simp add: unsigned_number_def scan_exponent_def takeWhile_all [OF all])
  ultimately show ?thesis
    using cr a js_trim_digits [of s] by (simp add: js_number_def digits_only_def)
qed

subsection \<open>Cutting text\<close>

lemma index_of_append:
  "c \<notin> set s \<Longrightarrow> index_of [c] (s @ c # t) = Some (length s)"
  by (induction s) auto

lemma index_of_none: "c \<notin> set s \<Longrightarrow> index_of [c] s = None"
  by (induction s) auto

lemma index_of_split:
  "index_of [c] s = Some i \<Longrightarrow> s = take i s @ c # drop (Suc i) s \<and> c \<notin> set (take i s)"
proof (induction s arbitrary: i)
  case (Cons x s)
  show ?case
  proof (cases "x = c")
    case True
    with Cons.prems show ?thesis by simp
  next
    case False
    then obtain j where "index_of [c] s = Some j" "i = Suc j" using Cons.prems by auto
    with Cons.IH [of j] False show ?thesis by auto
  qed
qed simp

lemma split_on_single: "c \<notin> set w \<Longrightarrow> split_on c w = [w]"
  by (induction w) auto

lemma split_on_append: "c \<notin> set w \<Longrightarrow> split_on c (w @ c # s) = w # split_on c s"
  by (induction w) auto

lemma split_on_join:
  "ws \<noteq> [] \<Longrightarrow> \<forall>w \<in> set ws. c \<notin> set w \<Longrightarrow> split_on c (join [c] ws) = ws"
proof (induction ws)
  case (Cons w ws)
  then show ?case
    by (cases ws) (auto simp: split_on_single split_on_append)
qed simp

text \<open>\<open>xs.filter(Boolean)\<close> on strings.\<close>

definition nonempty_strings :: "string list \<Rightarrow> string list" where
  "nonempty_strings xs = filter (\<lambda>s. s \<noteq> []) xs"

text \<open>\<open>[...new Set(xs)]\<close>: the first occurrences, in order.\<close>

fun uniq :: "'a list \<Rightarrow> 'a list" where
  "uniq [] = []"
| "uniq (x # xs) = x # filter (\<lambda>y. y \<noteq> x) (uniq xs)"

lemma set_uniq [simp]: "set (uniq xs) = set xs"
  by (induction xs) auto

lemma distinct_uniq [simp]: "distinct (uniq xs)"
  by (induction xs) (auto intro: distinct_filter)

lemma uniq_Nil_iff [simp]: "uniq xs = [] \<longleftrightarrow> xs = []"
  by (cases xs) auto

text \<open>\<open>xs.slice(-n)\<close> for a positive n.\<close>

definition last_n :: "nat \<Rightarrow> 'a list \<Rightarrow> 'a list" where
  "last_n n xs = drop (length xs - n) xs"

lemma length_last_n: "length (last_n n xs) \<le> n"
  by (simp add: last_n_def)

lemma set_last_n: "set (last_n n xs) \<subseteq> set xs"
  by (simp add: last_n_def set_drop_subset)

lemma last_n_snoc: "0 < n \<Longrightarrow> x \<in> set (last_n n (xs @ [x]))"
  by (auto simp: last_n_def)

subsection \<open>Number formats\<close>

definition pad_zero :: "nat \<Rightarrow> string \<Rightarrow> string" where
  "pad_zero n s = replicate (n - length s) CHR ''0'' @ s"

lemma length_pad_zero: "length (pad_zero n s) = max n (length s)"
  by (auto simp: pad_zero_def)

text \<open>\<open>q.toFixed(n)\<close>, for numbers below \<open>10^21\<close>.\<close>

definition scaled :: "nat \<Rightarrow> rat \<Rightarrow> nat" where
  "scaled n q = nat \<lfloor>\<bar>q\<bar> * 10 ^ n + 1 / 2\<rfloor>"

definition to_fixed :: "nat \<Rightarrow> rat \<Rightarrow> string" where
  "to_fixed n q =
     (let m = scaled n q in
      (if q < 0 then ''-'' else []) @ nat_text (m div 10 ^ n)
      @ (if n = 0 then [] else CHR ''.'' # pad_zero n (nat_text (m mod 10 ^ n))))"

text \<open>Groups of three digits, on the reversed digits.\<close>

fun commas :: "string \<Rightarrow> string" where
  "commas (a # b # c # d # r) = a # b # c # CHR '','' # commas (d # r)"
| "commas r = r"

definition grouped :: "nat \<Rightarrow> string" where
  "grouped n = rev (commas (rev (nat_text n)))"

text \<open>
  \<open>Intl.NumberFormat("ko-KR")\<close> with a least and a greatest number of fraction digits:
  rounding half away from zero, trailing zeros beyond the least number dropped.
\<close>

fun drop_zeros :: "nat \<Rightarrow> string \<Rightarrow> string" where
  "drop_zeros 0 s = s"
| "drop_zeros (Suc n) s = (if s \<noteq> [] \<and> last s = CHR ''0'' then drop_zeros n (butlast s) else s)"

definition ko_format :: "nat \<Rightarrow> nat \<Rightarrow> rat \<Rightarrow> string" where
  "ko_format lo hi q =
     (let m = scaled hi q;
          f = drop_zeros (hi - lo) (if hi = 0 then [] else pad_zero hi (nat_text (m mod 10 ^ hi)))
      in (if q < 0 then ''-'' else []) @ grouped (m div 10 ^ hi)
         @ (if f = [] then [] else CHR ''.'' # f))"

text \<open>\<open>q.toLocaleString("ko-KR")\<close>.\<close>

definition ko_number :: "rat \<Rightarrow> string" where
  "ko_number q = ko_format 0 3 q"

lemma filter_commas: "filter is_digit (commas s) = filter is_digit s"
  by (induction s rule: commas.induct) (auto simp: char_simps)

lemma grouped_digits: "filter is_digit (grouped n) = nat_text n"
proof -
  have "filter is_digit (grouped n) = rev (filter is_digit (commas (rev (nat_text n))))"
    by (simp add: grouped_def rev_filter)
  also have "\<dots> = filter is_digit (nat_text n)"
    by (simp add: filter_commas rev_filter [symmetric])
  also have "\<dots> = nat_text n" using all_digits_nat_text by (simp add: filter_id_conv)
  finally show ?thesis .
qed

lemma scaled_near: "\<bar>of_nat (scaled n q) - \<bar>q\<bar> * 10 ^ n\<bar> \<le> 1 / 2"
proof -
  have "0 \<le> \<lfloor>\<bar>q\<bar> * 10 ^ n + 1 / 2\<rfloor>" by simp
  then have "of_nat (scaled n q) = (of_int \<lfloor>\<bar>q\<bar> * 10 ^ n + 1 / 2\<rfloor> :: rat)"
    unfolding scaled_def by simp
  then show ?thesis by linarith
qed

text \<open>\<open>s.toUpperCase()\<close> on ASCII letters.\<close>

definition js_upper_ascii :: "string \<Rightarrow> string" where
  "js_upper_ascii s = map (\<lambda>c. if is_lower c then char_of (code_of c - 32) else c) s"

text \<open>
  The names every plain object inherits. \<open>k in o\<close> and \<open>o[k]\<close> find them although they
  are not keys of \<open>o\<close>.
\<close>

definition OBJECT_PROTOTYPE :: "string list" where
  "OBJECT_PROTOTYPE =
     [''constructor'', ''__defineGetter__'', ''__defineSetter__'', ''hasOwnProperty'',
      ''__lookupGetter__'', ''__lookupSetter__'', ''isPrototypeOf'', ''propertyIsEnumerable'',
      ''toString'', ''valueOf'', ''__proto__'', ''toLocaleString'']"

text \<open>
  An integer field of the server: a fraction does not decode, and null, as which JSON carries a
  number that is not finite, leaves zero.
\<close>

definition go_int :: "jnum \<Rightarrow> int option" where
  "go_int n = (case n of Fin q \<Rightarrow> if q = of_int \<lfloor>q\<rfloor> then Some \<lfloor>q\<rfloor> else None | _ \<Rightarrow> Some 0)"

lemma go_int_of_int [simp]: "go_int (Fin (of_int k)) = Some k"
  by (simp add: go_int_def)

lemma go_int_whole: "go_int n = Some k \<Longrightarrow> k \<noteq> 0 \<Longrightarrow> n = Fin (of_int k)"
  by (cases n) (auto simp: go_int_def split: if_splits)

text \<open>
  The patterns of the server for the names of events and properties (\<open>eventNamePatternForProperty\<close>,
  \<open>PropertyKeyPattern\<close>) and of environments (\<open>environmentNamePattern\<close>).
\<close>

definition property_name :: "string \<Rightarrow> bool" where
  "property_name t \<longleftrightarrow>
     (case t of
        [] \<Rightarrow> False
      | c # cs \<Rightarrow> (is_upper c \<or> is_lower c \<or> c = CHR ''_'') \<and> length cs \<le> 127
          \<and> list_all (\<lambda>x. is_word x \<or> x = CHR ''.'' \<or> x = CHR ''-'') cs)"

definition environment_pattern :: "string \<Rightarrow> bool" where
  "environment_pattern t \<longleftrightarrow>
     (case t of
        [] \<Rightarrow> False
      | c # cs \<Rightarrow> is_lower c \<and> length cs \<le> 31
          \<and> list_all (\<lambda>x. is_lower x \<or> is_digit x \<or> x = CHR ''_'' \<or> x = CHR ''-'') cs)"

lemma js_trim_nonblank_head: "s \<noteq> [] \<Longrightarrow> \<not> is_space (hd s) \<Longrightarrow> js_trim s \<noteq> []"
  by (cases s) (auto simp: js_trim_def trim_left_def)

text \<open>A cache kept as an association list holds what it held and what was put in.\<close>

lemma alist_update_subset: "set (AList.update k v xs) \<subseteq> insert (k, v) (set xs)"
  by (induction xs) auto

lemma alist_delete_subset: "set (AList.delete k xs) \<subseteq> set xs"
  by (induction xs) auto

end
