(* ===== verification/TableView.thy ===== *)
theory TableView
  imports ConsoleBase
begin

section \<open>Columns, pages and search of a table\<close>

text \<open>
  \<open>tablePrefs.ts\<close>, \<open>tablePaging.ts\<close> and \<open>tableSummary.ts\<close> of \<open>web/src/components\<close>: the columns
  a reader hides, the page a table shows, the marked parts of a search, and the caption.
\<close>

datatype density = Small | Medium

definition DENSITY_STORAGE_KEY :: string where
  "DENSITY_STORAGE_KEY = ''momento:table-density''"

subsection \<open>Hidden columns\<close>

definition tableStorageKey :: "string \<Rightarrow> string \<Rightarrow> string list \<Rightarrow> string" where
  "tableStorageKey title exportFilename columnKeys =
     ''momento:table-columns:'' @ or_str exportFilename (or_str title (join '','' columnKeys))"

text \<open>The strings of an array that the table knows.\<close>

definition known_string :: "string list \<Rightarrow> val \<Rightarrow> string option" where
  "known_string known v = (case v of VStr s \<Rightarrow> if s \<in> set known then Some s else None | _ \<Rightarrow> None)"

definition stored_strings :: "string list \<Rightarrow> string option \<Rightarrow> string list" where
  "stored_strings known raw =
     (case raw of
        None \<Rightarrow> []
      | Some s \<Rightarrow>
          if s = [] then []
          else (case json_parse s of
                  Some (VArr vs) \<Rightarrow> List.map_filter (known_string known) vs
                | _ \<Rightarrow> []))"

definition parseHidden :: "string option \<Rightarrow> string list \<Rightarrow> string list" where
  "parseHidden raw columnKeys = stored_strings columnKeys raw"

definition toggleHidden :: "string list \<Rightarrow> string \<Rightarrow> string list \<Rightarrow> string list" where
  "toggleHidden hidden key columnKeys =
     (if key \<in> set hidden then filter (\<lambda>item. item \<noteq> key) hidden
      else let visible = filter (\<lambda>item. item \<notin> set hidden) columnKeys in
        if length visible \<le> 1 then hidden else hidden @ [key])"

fun numeric_from :: "bool \<Rightarrow> val list \<Rightarrow> bool" where
  "numeric_from seen [] = seen"
| "numeric_from seen (v # vs) =
     (if nullish v \<or> v = VStr [] then numeric_from seen vs
      else case v of VNum n \<Rightarrow> numeric_from True vs | _ \<Rightarrow> False)"

definition isNumericColumn :: "val list \<Rightarrow> bool" where
  "isNumericColumn vs = numeric_from False vs"

text \<open>The class \<open>[\\/:*?"<>|]\<close>, and \<open>\s+\<close> replaced by a dash.\<close>

definition unsafe_in_name :: "char \<Rightarrow> bool" where
  "unsafe_in_name c \<longleftrightarrow> code_of c \<in> {92, 47, 58, 42, 63, 34, 60, 62, 124}"

function dash_spaces :: "string \<Rightarrow> string" where
  "dash_spaces [] = []"
| "dash_spaces (c # cs) =
     (if is_space c then CHR ''-'' # dash_spaces (dropWhile is_space cs) else c # dash_spaces cs)"
  by pat_completeness auto
termination
  by (relation "measure length") (auto simp: le_imp_less_Suc length_dropWhile_le)

definition exportName :: "string \<Rightarrow> string \<Rightarrow> string" where
  "exportName exportFilename title =
     (if exportFilename \<noteq> [] then exportFilename
      else let slug = take 60 (dash_spaces (filter (\<lambda>c. \<not> unsafe_in_name c) (js_trim title)))
           in ''momento-'' @ or_str slug ''table'')"

subsection \<open>Marking the matches of a search\<close>

text \<open>
  The loop over \<open>indexOf\<close>: \<open>lower\<close> and \<open>rest\<close> are the lower-case text and the text from the
  position \<open>from\<close> on. The query is not empty, so the rest shrinks.
\<close>

function highlight_from :: "string \<Rightarrow> string \<Rightarrow> string \<Rightarrow> (string \<times> bool) list" where
  "highlight_from query lower rest =
     (if query = [] then [(rest, False)]
      else case index_of query lower of
        None \<Rightarrow> if rest \<noteq> [] then [(rest, False)] else []
      | Some pos \<Rightarrow>
          (if pos > 0 then [(take pos rest, False)] else [])
          @ [(take (length query) (drop pos rest), True)]
          @ highlight_from query (drop (pos + length query) lower) (drop (pos + length query) rest))"
  by pat_completeness auto
termination
proof (relation "measure (\<lambda>(query, lower, rest). length lower)")
  fix query lower rest :: string and pos
  assume "query \<noteq> []" and pos: "index_of query lower = Some pos"
  then have "prefix query (drop pos lower)" using index_of_Some by blast
  then have "length query \<le> length lower - pos" by (auto simp: prefix_def dest: arg_cong [of _ _ length])
  with \<open>query \<noteq> []\<close> show "((query, drop (pos + length query) lower, drop (pos + length query) rest),
      query, lower, rest) \<in> measure (\<lambda>(query, lower, rest). length lower)"
    by (cases query) auto
qed simp

declare highlight_from.simps [simp del]

definition highlightParts :: "string \<Rightarrow> string \<Rightarrow> (string \<times> bool) list" where
  "highlightParts t needle =
     (let query = js_lower (js_trim needle) in
      if query = [] \<or> t = [] then [(t, False)]
      else let lower = js_lower t in
        if length lower \<noteq> length t then [(t, False)] else highlight_from query lower t)"

subsection \<open>Pages and caption\<close>

definition clampPage :: "jnum \<Rightarrow> int \<Rightarrow> int \<Rightarrow> int" where
  "clampPage page pageSize total_rows =
     (if total_rows \<le> 0 \<or> pageSize \<le> 0 then 0
      else case page of
        Fin q \<Rightarrow> if q \<le> 0 then 0
                 else let lastPage = \<lceil>(of_int total_rows :: rat) / of_int pageSize\<rceil> - 1
                      in min (js_trunc q) lastPage
      | _ \<Rightarrow> 0)"

datatype caption =
    Description string
  | ItemCount int
  | MatchCount int int
  | DescriptionWithMatches string int int

definition tableCaption :: "string \<Rightarrow> int \<Rightarrow> int \<Rightarrow> bool \<Rightarrow> caption" where
  "tableCaption description total_rows matched searching =
     (if \<not> searching then (if description \<noteq> [] then Description description else ItemCount total_rows)
      else if description \<noteq> [] then DescriptionWithMatches description total_rows matched
      else MatchCount total_rows matched)"

subsection \<open>A table never loses its last column\<close>

text \<open>Hiding and showing columns never empties a table that shows a column.\<close>

lemma toggle_keeps_one:
  assumes "\<exists>c \<in> set cols. c \<notin> set hidden" "distinct cols"
  shows "\<exists>c \<in> set cols. c \<notin> set (toggleHidden hidden k cols)"
proof -
  let ?visible = "filter (\<lambda>item. item \<notin> set hidden) cols"
  show ?thesis
  proof (cases "k \<in> set hidden \<or> length ?visible \<le> 1")
    case True
    then show ?thesis using assms(1) by (auto simp: toggleHidden_def)
  next
    case False
    then have "card (set ?visible) > 1"
      using distinct_card [of ?visible] assms(2) by simp
    then have "\<not> set ?visible \<subseteq> {k}"
      using card_mono [of "{k}" "set ?visible"] by auto
    then show ?thesis using False by (auto simp: toggleHidden_def)
  qed
qed

lemma toggle_twice: "k \<notin> set hidden \<Longrightarrow> toggleHidden hidden k cols \<noteq> hidden \<Longrightarrow>
   toggleHidden (toggleHidden hidden k cols) k cols = hidden"
  by (auto simp: toggleHidden_def Let_def filter_id_conv split: if_splits)

lemma stored_strings_known: "set (stored_strings known raw) \<subseteq> set known"
  by (auto simp: stored_strings_def known_string_def map_filter_def split: option.splits val.splits if_splits)

text \<open>A choice that was stored is read back.\<close>

lemma hidden_roundtrip:
  assumes "set hidden \<subseteq> set cols"
  shows "parseHidden (Some (json_text (VArr (map VStr hidden)))) cols = hidden"
proof -
  have clean: "json_clean (VArr (map VStr hidden)) = VArr (map VStr hidden)"
    by (simp add: clean_list_map comp_def)
  have ok: "list_ok (map VStr xs)" for xs by (induction xs) auto
  have "json_parse (json_text (VArr (map VStr hidden))) = Some (VArr (map VStr hidden))"
    using parse_json_text [of "VArr (map VStr hidden)"] clean ok by simp
  moreover have "json_text (VArr (map VStr hidden)) \<noteq> []" by (simp add: json_text_def clean)
  moreover have "List.map_filter (known_string cols) (map VStr hidden) = hidden"
    using assms by (induction hidden) (auto simp: map_filter_def known_string_def)
  ultimately show ?thesis by (simp add: parseHidden_def stored_strings_def)
qed

subsection \<open>Marking changes no text\<close>

lemma index_of_bounds:
  assumes "index_of q l = Some i"
  shows "i + length q \<le> length l" "take (length q) (drop i l) = q"
proof -
  have "prefix q (drop i l)" "i \<le> length l" using index_of_Some [OF assms] by auto
  then obtain z where "drop i l = q @ z" by (auto simp: prefix_def)
  then show "take (length q) (drop i l) = q" by simp
  have "length (drop i l) = length q + length z" using \<open>drop i l = q @ z\<close> by simp
  then show "i + length q \<le> length l" using \<open>i \<le> length l\<close> by simp
qed

lemma highlight_from_text:
  "js_lower rest = lower \<Longrightarrow> concat (map fst (highlight_from query lower rest)) = rest
     \<and> (\<forall>p \<in> set (highlight_from query lower rest). snd p \<longrightarrow> js_lower (fst p) = query)"
proof (induction query lower rest rule: highlight_from.induct)
  case (1 query lower rest)
  show ?case
  proof (cases "query = []")
    case False
    show ?thesis
    proof (cases "index_of query lower")
      case None
      with False show ?thesis by (subst (1 2) highlight_from.simps) auto
    next
      case (Some i)
      have low: "js_lower (drop n rest) = drop n lower" for n
        using 1(2) by (auto simp: js_lower_def drop_map)
      note IH = "1.IH" [OF False Some low]
      have "js_lower (take (length query) (drop i rest)) = query"
        using index_of_bounds(2) [OF Some] 1(2) by (auto simp: js_lower_def take_map drop_map)
      moreover have "take i rest @ take (length query) (drop i rest) @ drop (i + length query) rest = rest"
        by (metis append_take_drop_id drop_drop add.commute)
      ultimately show ?thesis
        using IH False Some by (subst (1 2) highlight_from.simps) auto
    qed
  qed (subst (1 2) highlight_from.simps, simp)
qed

lemma highlight_text:
  "concat (map fst (highlightParts t needle)) = t
   \<and> (\<forall>p \<in> set (highlightParts t needle). snd p \<longrightarrow> js_lower (fst p) = js_lower (js_trim needle))"
  using highlight_from_text [OF refl] by (auto simp: highlightParts_def Let_def)

subsection \<open>A page of a table with rows has rows\<close>

lemma clamp_page_rows:
  assumes "0 < total_rows" "0 < pageSize"
  shows "0 \<le> clampPage page pageSize total_rows \<and> clampPage page pageSize total_rows * pageSize < total_rows"
proof (cases page)
  case (Fin q)
  define lastPage where "lastPage = \<lceil>(of_int total_rows :: rat) / of_int pageSize\<rceil> - 1"
  have "of_int lastPage < (of_int total_rows :: rat) / of_int pageSize"
    unfolding lastPage_def by linarith
  then have "of_int (lastPage * pageSize) < (of_int total_rows :: rat)"
    using assms by (simp add: pos_less_divide_eq)
  then have l: "lastPage * pageSize < total_rows" by linarith
  have "0 < (of_int total_rows :: rat) / of_int pageSize" using assms by simp
  then have "0 \<le> lastPage" unfolding lastPage_def by linarith
  moreover have "min (js_trunc q) lastPage * pageSize \<le> lastPage * pageSize"
    using assms by (intro mult_right_mono) auto
  then have "min (js_trunc q) lastPage * pageSize < total_rows" using l by linarith
  ultimately show ?thesis
    using assms js_trunc_nonneg [of q] Fin
    by (auto simp: clampPage_def lastPage_def [symmetric] Let_def)
qed (use assms in \<open>simp_all add: clampPage_def\<close>)

end
