(* ===== verification/UrlParams.thy ===== *)
theory UrlParams
  imports ConsoleBase
begin

section \<open>Query strings\<close>

text \<open>
  \<open>URLSearchParams\<close> and \<open>encodeURIComponent\<close>, which the console uses to keep its state in the
  page's address and to build request addresses. The parameters are a list of name and value
  pairs, as in the URL standard; text is written as the UTF-8 of its code units.
\<close>

type_synonym params = "(string \<times> string) list"

definition param_get :: "params \<Rightarrow> string \<Rightarrow> string option" where
  "param_get ps k = map_option snd (find (\<lambda>(k', v). k' = k) ps)"

definition param_delete :: "string \<Rightarrow> params \<Rightarrow> params" where
  "param_delete k ps = filter (\<lambda>(k', v). k' \<noteq> k) ps"

text \<open>\<open>set\<close>: the first pair of that name takes the value and the others go, or a pair is added.\<close>

fun param_set :: "string \<Rightarrow> string \<Rightarrow> params \<Rightarrow> params" where
  "param_set k v [] = [(k, v)]"
| "param_set k v ((k', w) # ps) =
     (if k' = k then (k, v) # param_delete k ps else (k', w) # param_set k v ps)"

lemma param_get_Nil [simp]: "param_get [] k = None"
  by (simp add: param_get_def)

lemma param_get_Cons [simp]:
  "param_get ((k', v) # ps) k = (if k' = k then Some v else param_get ps k)"
  by (simp add: param_get_def)

lemma param_get_delete [simp]:
  "param_get (param_delete k ps) k' = (if k' = k then None else param_get ps k')"
  by (induction ps) (auto simp: param_delete_def)

lemma param_get_set [simp]:
  "param_get (param_set k v ps) k' = (if k' = k then Some v else param_get ps k')"
  by (induction k v ps rule: param_set.induct) auto

text \<open>Query strings are a keyed store whose absent value is \<open>None\<close>.\<close>

interpretation param_store:
  kv_store "\<lambda>ps k. param_get ps k" None
    "\<lambda>k (v :: string option) ps. case v of Some w \<Rightarrow> param_set k w ps | None \<Rightarrow> param_delete k ps"
    param_delete
  by unfold_locales (auto split: option.split)

subsection \<open>Percent encoding\<close>

definition hex_upper :: "nat \<Rightarrow> char" where
  "hex_upper d = (if d < 10 then digit_char d else char_of (55 + d))"

text \<open>The UTF-8 bytes of a code unit below 256.\<close>

definition utf8_of :: "char \<Rightarrow> nat list" where
  "utf8_of c =
     (let n = code_of c in
      if n < 128 then [n] else [192 + n div 64, 128 + n mod 64])"

definition percent :: "char \<Rightarrow> string" where
  "percent c = concat (map (\<lambda>b. [CHR ''%'', hex_upper (b div 16), hex_upper (b mod 16)]) (utf8_of c))"

text \<open>The characters that \<open>encodeURIComponent\<close> and the form encoding leave alone.\<close>

definition is_alnum :: "char \<Rightarrow> bool" where
  "is_alnum c \<longleftrightarrow> is_digit c \<or> is_upper c \<or> is_lower c"

definition uri_plain :: "char \<Rightarrow> bool" where
  "uri_plain c \<longleftrightarrow> is_alnum c \<or> c \<in> set ''-_.!~*'' \<or> c \<in> set ''()'' \<or> code_of c = 39"

definition form_plain :: "char \<Rightarrow> bool" where
  "form_plain c \<longleftrightarrow> is_alnum c \<or> c \<in> set ''*-._''"

definition encodeURIComponent :: "string \<Rightarrow> string" where
  "encodeURIComponent s = concat (map (\<lambda>c. if uri_plain c then [c] else percent c) s)"

definition form_encode :: "string \<Rightarrow> string" where
  "form_encode s =
     concat (map (\<lambda>c. if c = CHR '' '' then ''+'' else if form_plain c then [c] else percent c) s)"

definition params_text :: "params \<Rightarrow> string" where
  "params_text ps = join ''&'' (map (\<lambda>(k, v). form_encode k @ ''='' @ form_encode v) ps)"

subsection \<open>Reading a query string\<close>

fun unhex :: "char \<Rightarrow> nat option" where
  "unhex c = (if is_digit c then Some (digit_val c)
              else if in_range 65 70 c then Some (code_of c - 55)
              else if in_range 97 102 c then Some (code_of c - 87) else None)"

text \<open>Percent decoding to bytes, with plus read as a blank.\<close>

fun form_bytes :: "string \<Rightarrow> nat list" where
  "form_bytes (a # b # c # r) =
     (if a = CHR ''%'' then
        (case (unhex b, unhex c) of
           (Some x, Some y) \<Rightarrow> (16 * x + y) # form_bytes r
         | _ \<Rightarrow> 37 # form_bytes (b # c # r))
      else (if a = CHR ''+'' then 32 else code_of a) # form_bytes (b # c # r))"
| "form_bytes (a # r) = (if a = CHR ''+'' then 32 else code_of a) # form_bytes r"
| "form_bytes [] = []"

text \<open>
  UTF-8 decoding of the bytes that code units below 256 produce; other sequences become the
  replacement character, which lies outside the model, and are read byte by byte here.
\<close>

fun utf8_read :: "nat list \<Rightarrow> string" where
  "utf8_read (a # b # r) =
     (if 194 \<le> a \<and> a \<le> 195 \<and> 128 \<le> b \<and> b \<le> 191
      then char_of ((a - 192) * 64 + (b - 128)) # utf8_read r
      else char_of a # utf8_read (b # r))"
| "utf8_read [a] = [char_of a]"
| "utf8_read [] = []"

definition form_decode :: "string \<Rightarrow> string" where
  "form_decode s = utf8_read (form_bytes s)"

text \<open>\<open>new URLSearchParams(text)\<close>: a leading question mark goes, empty pieces are skipped.\<close>

definition parse_pair :: "string \<Rightarrow> string \<times> string" where
  "parse_pair s =
     (case index_of ''='' s of
        None \<Rightarrow> (form_decode s, [])
      | Some i \<Rightarrow> (form_decode (take i s), form_decode (drop (Suc i) s)))"

definition parse_params :: "string \<Rightarrow> params" where
  "parse_params s =
     (let t = (case s of c # r \<Rightarrow> if c = CHR ''?'' then r else s | [] \<Rightarrow> []) in
      map parse_pair (nonempty_strings (split_on CHR ''&'' t)))"

subsection \<open>Encoding hides the separators\<close>

lemma hex_upper_plain: "d < 16 \<Longrightarrow> is_alnum (hex_upper d)"
  by (cases "d < 10") (auto simp: hex_upper_def is_alnum_def is_upper_def in_range_def)

lemma utf8_of_bytes: "b \<in> set (utf8_of c) \<Longrightarrow> b < 256"
proof -
  have "code_of c < 4 * 64" by simp
  then have "code_of c div 64 < 4" by (rule less_mult_imp_div_less)
  then show "b \<in> set (utf8_of c) \<Longrightarrow> b < 256"
    by (auto simp: utf8_of_def Let_def split: if_splits)
qed

lemma set_concat_map: "x \<in> set (concat (map f bs)) \<Longrightarrow> \<exists>b \<in> set bs. x \<in> set (f b)"
  by (induction bs) auto

lemma percent_chars: "x \<in> set (percent c) \<Longrightarrow> x = CHR ''%'' \<or> is_alnum x"
proof -
  assume "x \<in> set (percent c)"
  then obtain b where b: "b \<in> set (utf8_of c)"
    and x: "x = CHR ''%'' \<or> x = hex_upper (b div 16) \<or> x = hex_upper (b mod 16)"
    unfolding percent_def by (fastforce dest: set_concat_map)
  have "b div 16 < 16" "b mod 16 < 16" using utf8_of_bytes [OF b] by auto
  with x show ?thesis using hex_upper_plain by blast
qed

lemma form_encode_chars:
  "x \<in> set (form_encode s) \<Longrightarrow> x = CHR ''%'' \<or> x = CHR ''+'' \<or> form_plain x"
  using percent_chars by (fastforce simp: form_encode_def form_plain_def split: if_splits)

lemma form_encode_marks:
  "CHR ''&'' \<notin> set (form_encode s)" "CHR ''='' \<notin> set (form_encode s)"
  "CHR ''?'' \<notin> set (form_encode s)" "CHR ''#'' \<notin> set (form_encode s)"
  using form_encode_chars [of _ s] by (fastforce simp: form_plain_def is_alnum_def char_simps)+

lemma uri_encode_chars:
  "x \<in> set (encodeURIComponent s) \<Longrightarrow> x = CHR ''%'' \<or> uri_plain x"
  using percent_chars by (fastforce simp: encodeURIComponent_def uri_plain_def split: if_splits)

lemma uri_encode_marks:
  "CHR ''&'' \<notin> set (encodeURIComponent s)" "CHR ''='' \<notin> set (encodeURIComponent s)"
  "CHR ''?'' \<notin> set (encodeURIComponent s)" "CHR ''#'' \<notin> set (encodeURIComponent s)"
  using uri_encode_chars [of _ s] by (fastforce simp: uri_plain_def is_alnum_def char_simps)+

subsection \<open>Reading back what was written\<close>

lemma form_bytes_plain:
  "c \<noteq> CHR ''%'' \<Longrightarrow> form_bytes (c # t) = (if c = CHR ''+'' then 32 else code_of c) # form_bytes t"
  by (cases t; cases "tl t") auto

lemma unhex_hex_upper: "d < 16 \<Longrightarrow> unhex (hex_upper d) = Some d"
  by (cases "d < 10") (auto simp: hex_upper_def in_range_def is_digit_def digit_val_def digit_char_def)

lemma form_bytes_percent:
  assumes "b < 256"
  shows "form_bytes (CHR ''%'' # hex_upper (b div 16) # hex_upper (b mod 16) # t) = b # form_bytes t"
proof -
  have "b div 16 < 16" "b mod 16 < 16" using assms by auto
  then show ?thesis by (simp add: unhex_hex_upper del: unhex.simps)
qed

lemma form_bytes_bytes:
  "\<forall>b \<in> set bs. b < 256 \<Longrightarrow>
     form_bytes (concat (map (\<lambda>b. [CHR ''%'', hex_upper (b div 16), hex_upper (b mod 16)]) bs) @ t)
     = bs @ form_bytes t"
  by (induction bs) (simp_all add: form_bytes_percent del: form_bytes.simps)

lemma form_bytes_percent_char: "form_bytes (percent c @ t) = utf8_of c @ form_bytes t"
  using form_bytes_bytes [of "utf8_of c" t] utf8_of_bytes [of _ c] by (simp add: percent_def)

lemma plain_ascii: "uri_plain c \<Longrightarrow> utf8_of c = [code_of c] \<and> c \<noteq> CHR ''%'' \<and> c \<noteq> CHR ''+''"
  by (auto simp: uri_plain_def is_alnum_def utf8_of_def char_simps)

lemma form_plain_uri: "form_plain c \<Longrightarrow> uri_plain c"
  by (auto simp: form_plain_def uri_plain_def)

lemma form_bytes_uri: "form_bytes (encodeURIComponent s) = concat (map utf8_of s)"
  by (induction s)
    (auto simp: encodeURIComponent_def form_bytes_percent_char form_bytes_plain plain_ascii
      simp del: form_bytes.simps(1,2))

lemma form_bytes_form: "form_bytes (form_encode s) = concat (map utf8_of s)"
proof (induction s)
  case (Cons c s)
  have blank: "utf8_of CHR '' '' = [32]" by (simp add: utf8_of_def)
  show ?case using Cons plain_ascii [OF form_plain_uri, of c] blank
    by (auto simp: form_encode_def form_bytes_percent_char form_bytes_plain simp del: form_bytes.simps(1,2))
qed (simp add: form_encode_def)

lemma utf8_read_byte: "b < 194 \<Longrightarrow> utf8_read (b # t) = char_of b # utf8_read t"
  by (cases t) auto

lemma utf8_read_char: "utf8_read (utf8_of c @ t) = c # utf8_read t"
proof (cases "code_of c < 128")
  case True
  then show ?thesis by (simp add: utf8_of_def utf8_read_byte)
next
  case False
  have "code_of c < 4 * 64" by simp
  then have top: "code_of c div 64 < 4" by (rule less_mult_imp_div_less)
  have "2 \<le> code_of c div 64" using False by simp
  then have "code_of c div 64 = 2 \<or> code_of c div 64 = 3" using top by linarith
  moreover have "code_of c div 64 * 64 + code_of c mod 64 = code_of c" by simp
  moreover have "code_of c mod 64 < 64" by simp
  ultimately show ?thesis using False by (auto simp: utf8_of_def Let_def)
qed

lemma utf8_read_text: "utf8_read (concat (map utf8_of s)) = s"
  by (induction s) (simp_all add: utf8_read_char)

lemma form_decode_uri [simp]: "form_decode (encodeURIComponent s) = s"
  by (simp add: form_decode_def form_bytes_uri utf8_read_text)

lemma form_decode_form [simp]: "form_decode (form_encode s) = s"
  by (simp add: form_decode_def form_bytes_form utf8_read_text)

text \<open>The pieces between the separators, for either encoding of names and values.\<close>

lemma parse_pair_text:
  assumes "CHR ''='' \<notin> set k"
  shows "parse_pair (k @ CHR ''='' # v) = (form_decode k, form_decode v)"
  using index_of_append [OF assms, of v] by (simp add: parse_pair_def)

lemma parse_pieces:
  assumes "\<forall>w \<in> set ws. CHR ''&'' \<notin> set w \<and> w \<noteq> []" "\<forall>w \<in> set ws. hd w \<noteq> CHR ''?''"
  shows "parse_params (join ''&'' ws) = map parse_pair ws"
proof (cases ws)
  case Nil
  then show ?thesis by (simp add: parse_params_def nonempty_strings_def)
next
  case (Cons w rest)
  obtain c r where w: "w = c # r" using assms(1) Cons by (cases w) auto
  obtain u where "join ''&'' ws = c # u" by (cases rest) (simp_all add: Cons w)
  moreover have "c \<noteq> CHR ''?''" using assms(2) by (simp add: Cons w)
  ultimately have "parse_params (join ''&'' ws) =
      map parse_pair (nonempty_strings (split_on CHR ''&'' (join ''&'' ws)))"
    by (simp add: parse_params_def)
  also have "split_on CHR ''&'' (join ''&'' ws) = ws"
    by (rule split_on_join) (use assms(1) Cons in auto)
  also have "nonempty_strings ws = ws"
    using assms(1) by (simp add: nonempty_strings_def filter_id_conv)
  finally show ?thesis .
qed

text \<open>
  Parameters written into an address are read back unchanged, whatever characters their names
  and values contain.
\<close>

theorem params_roundtrip: "parse_params (params_text ps) = ps"
proof -
  let ?piece = "\<lambda>(k, v). form_encode k @ ''='' @ form_encode v"
  have first: "hd (form_encode k @ CHR ''='' # form_encode v) \<noteq> CHR ''?''" for k v
    using form_encode_marks(3) [of k] by (cases "form_encode k") auto
  have "parse_params (params_text ps) = map parse_pair (map ?piece ps)"
    unfolding params_text_def
    by (rule parse_pieces) (auto simp: form_encode_marks first)
  then show ?thesis by (auto simp: parse_pair_text form_encode_marks comp_def case_prod_unfold)
qed

end
