(* ===== verification/Navigation.thy ===== *)
theory Navigation
  imports TableView UrlParams
begin

section \<open>Getting around the console\<close>

text \<open>
  \<open>commandPalette.ts\<close>, \<open>shortcuts.ts\<close>, \<open>navPrefs.ts\<close> and \<open>preference.ts\<close> of
  \<open>web/src/components\<close>: the command palette, the keyboard shortcuts, the sidebar's favourites and
  the store of view preferences they are kept in.
\<close>

subsection \<open>The palette\<close>

definition RECENT_LIMIT :: nat where
  "RECENT_LIMIT = 5"

text \<open>The remainder of the source keeps the sign of its left operand.\<close>

definition js_mod :: "int \<Rightarrow> int \<Rightarrow> int" where
  "js_mod a b = sgn a * (\<bar>a\<bar> mod \<bar>b\<bar>)"

definition moveActive :: "int \<Rightarrow> int \<Rightarrow> int \<Rightarrow> int" where
  "moveActive active delta len =
     (if len \<le> 0 then 0 else js_mod (js_mod (active + delta) len + len) len)"

definition route_parts :: "string \<Rightarrow> string \<times> params" where
  "route_parts to =
     (case split_on CHR ''?'' to of
        path # query # _ \<Rightarrow> (path, parse_params query)
      | [path] \<Rightarrow> (path, [])
      | [] \<Rightarrow> ([], []))"

definition route_matches :: "string \<Rightarrow> params \<Rightarrow> string \<Rightarrow> bool" where
  "route_matches pathname current to =
     (let (path, required) = route_parts to in
      path = pathname \<and> list_all (\<lambda>(k, v). param_get current k = Some v) required)"

definition specificity :: "string \<Rightarrow> int" where
  "specificity to = int (length (snd (route_parts to)))"

fun best_route :: "string \<Rightarrow> params \<Rightarrow> string option \<Rightarrow> int \<Rightarrow> string list \<Rightarrow> string option" where
  "best_route pathname current best n [] = best"
| "best_route pathname current best n (to # routes) =
     (if route_matches pathname current to \<and> specificity to > n
      then best_route pathname current (Some to) (specificity to) routes
      else best_route pathname current best n routes)"

definition routeFor :: "string \<Rightarrow> string \<Rightarrow> string list \<Rightarrow> string option" where
  "routeFor pathname search routes = best_route pathname (parse_params search) None (- 1) routes"

definition rememberRoute :: "string list \<Rightarrow> string \<Rightarrow> nat \<Rightarrow> string list" where
  "rememberRoute recent to limit = take limit (to # filter (\<lambda>item. item \<noteq> to) recent)"

fun string_item :: "val \<Rightarrow> string option" where
  "string_item (VStr s) = Some s"
| "string_item _ = None"

definition parseRecent :: "string option \<Rightarrow> string list" where
  "parseRecent raw =
     (case raw of
        None \<Rightarrow> []
      | Some s \<Rightarrow>
          if s = [] then []
          else (case json_parse s of
                  Some (VArr vs) \<Rightarrow> take RECENT_LIMIT (List.map_filter string_item vs)
                | _ \<Rightarrow> []))"

text \<open>A menu entry is its route and the rest of its data; the flag tells the recent ones.\<close>

definition orderWithRecent ::
  "(string \<times> 'm) list \<Rightarrow> string list \<Rightarrow> nat \<Rightarrow> ((string \<times> 'm) \<times> bool) list"
where
  "orderWithRecent routes recent limit =
     (let first = List.map_filter (\<lambda>to. find (\<lambda>r. fst r = to) (rev routes)) recent;
          seen = map fst first;
          rest = filter (\<lambda>r. fst r \<notin> set seen) routes
      in take limit (map (\<lambda>r. (r, True)) first @ map (\<lambda>r. (r, False)) rest))"

subsection \<open>Shortcuts\<close>

datatype go_label =
    Overview | Realtime | VisitorInsights | Events | Pages | Sessions
  | VisitorActivity | UserExplorer | Funnel | Explorer | AdminCenter

record go_target =
  go_key :: string
  go_to :: string
  go_label :: go_label
  adminOnly :: bool

definition go :: "string \<Rightarrow> string \<Rightarrow> go_label \<Rightarrow> go_target" where
  "go k to l = \<lparr>go_key = k, go_to = to, go_label = l, adminOnly = False\<rparr>"

definition GO_TARGETS :: "go_target list" where
  "GO_TARGETS =
     [go ''o'' ''/'' Overview, go ''r'' ''/realtime'' Realtime,
      go ''i'' ''/visitor-insights'' VisitorInsights, go ''e'' ''/events'' Events,
      go ''p'' ''/pages'' Pages, go ''s'' ''/sessions'' Sessions,
      go ''v'' ''/visitors'' VisitorActivity, go ''u'' ''/user-explorer'' UserExplorer,
      go ''f'' ''/funnel'' Funnel, go ''x'' ''/explorer'' Explorer,
      (go ''a'' ''/admin'' AdminCenter)\<lparr>adminOnly := True\<rparr>]"

definition SEQUENCE_WINDOW_MS :: rat where
  "SEQUENCE_WINDOW_MS = 1200"

datatype shortcut_action = Go string | SearchAction | HelpAction | NoAction

text \<open>The state is the time at which the sequence key was pressed.\<close>

definition readShortcut ::
  "rat option \<Rightarrow> string \<Rightarrow> rat \<Rightarrow> bool \<Rightarrow> rat option \<times> shortcut_action"
where
  "readShortcut pendingSince key now isAdmin =
     (if (case pendingSince of Some t \<Rightarrow> now - t \<le> SEQUENCE_WINDOW_MS | None \<Rightarrow> False)
      then (None,
            case find (\<lambda>item. go_key item = js_lower key \<and> (\<not> adminOnly item \<or> isAdmin)) GO_TARGETS of
              Some target \<Rightarrow> Go (go_to target)
            | None \<Rightarrow> NoAction)
      else if key = ''g'' \<or> key = ''G'' then (Some now, NoAction)
      else if key = ''/'' then (None, SearchAction)
      else if key = ''?'' then (None, HelpAction)
      else (None, NoAction))"

record typing_target =
  tagName :: string
  isContentEditable :: bool
  role_attribute :: "string option"

definition isTypingTarget :: "typing_target option \<Rightarrow> bool" where
  "isTypingTarget target =
     (case target of
        None \<Rightarrow> False
      | Some t \<Rightarrow>
          if isContentEditable t then True
          else let tag = js_upper_ascii (tagName t) in
            if tag = ''INPUT'' \<or> tag = ''TEXTAREA'' \<or> tag = ''SELECT'' then True
            else role_attribute t = Some ''textbox'' \<or> role_attribute t = Some ''combobox'')"

subsection \<open>Favourites and opened groups\<close>

definition FAVORITE_LIMIT :: nat where
  "FAVORITE_LIMIT = 8"

definition parseExpanded :: "string option \<Rightarrow> props" where
  "parseExpanded raw =
     (case raw of
        None \<Rightarrow> []
      | Some s \<Rightarrow>
          if s = [] then []
          else (case json_parse s of
                  Some (VObj ps) \<Rightarrow> filter (\<lambda>(k, v). case v of VBool b \<Rightarrow> True | _ \<Rightarrow> False) ps
                | _ \<Rightarrow> []))"

definition parseFavorites :: "string option \<Rightarrow> string list \<Rightarrow> string list" where
  "parseFavorites raw known = take FAVORITE_LIMIT (stored_strings known raw)"

definition toggleFavorite :: "string list \<Rightarrow> string \<Rightarrow> string list" where
  "toggleFavorite favorites to =
     (if to \<in> set favorites then filter (\<lambda>item. item \<noteq> to) favorites
      else last_n FAVORITE_LIMIT (favorites @ [to]))"

subsection \<open>The store of preferences\<close>

text \<open>
  The values read or written so far, the browser's storage, whether it can be read and written,
  and the keys whose listeners were called.
\<close>

record pref_state =
  memory :: "string \<Rightarrow> string option option"
  disk :: "string \<Rightarrow> string option"
  readable :: bool
  writable :: bool
  notified :: "string list"

definition readPreference :: "string \<Rightarrow> pref_state \<Rightarrow> string option \<times> pref_state" where
  "readPreference key s =
     (case memory s key of
        Some v \<Rightarrow> (v, s)
      | None \<Rightarrow>
          let value = (if readable s then disk s key else None)
          in (value, s\<lparr>memory := (memory s)(key := Some value)\<rparr>))"

definition writePreference :: "string \<Rightarrow> string option \<Rightarrow> pref_state \<Rightarrow> pref_state" where
  "writePreference key value s =
     s\<lparr>memory := (memory s)(key := Some value),
       disk := (if writable s then (disk s)(key := value) else disk s),
       notified := notified s @ [key]\<rparr>"

text \<open>
  The preferences are a keyed store for their readers, whether or not the browser keeps anything,
  and reading changes no later answer.
\<close>

interpretation preferences:
  kv_store "\<lambda>s k. fst (readPreference k s)" None "writePreference" "\<lambda>k. writePreference k None"
  by unfold_locales (auto simp: readPreference_def writePreference_def Let_def split: option.split)

lemma reading_is_silent:
  "fst (readPreference k (snd (readPreference k' s))) = fst (readPreference k s)"
  by (auto simp: readPreference_def Let_def split: option.splits)

subsection \<open>Facts\<close>

lemma find_member: "find P xs = Some x \<Longrightarrow> P x \<and> x \<in> set xs"
  by (auto simp: find_Some_iff)

lemma js_mod_range:
  assumes "0 < b"
  shows "- b < js_mod a b \<and> js_mod a b < b"
proof -
  define r where "r = \<bar>a\<bar> mod b"
  have "0 \<le> r" "r < b" using assms by (simp_all add: r_def)
  moreover have "js_mod a b = (if a > 0 then r else if a < 0 then - r else 0)"
    using assms by (simp add: js_mod_def sgn_if r_def)
  ultimately show ?thesis using assms by auto
qed

lemma js_mod_cong:
  assumes "0 < b"
  shows "js_mod a b mod b = a mod b"
proof (cases "a < 0")
  case True
  then have "js_mod a b = - ((- a) mod b)" using assms by (simp add: js_mod_def)
  then show ?thesis using mod_minus_eq [of "- a" b] by simp
next
  case False
  then show ?thesis using assms by (auto simp: js_mod_def sgn_if)
qed

text \<open>Moving the highlight stays on the list and wraps around at both ends.\<close>

lemma move_wraps: "0 < n \<Longrightarrow> moveActive i d n = (i + d) mod n"
proof -
  assume n: "0 < n"
  have pos: "0 < js_mod (i + d) n + n" using js_mod_range [OF n, of "i + d"] by linarith
  then have "moveActive i d n = (js_mod (i + d) n + n) mod n"
    using n by (simp add: moveActive_def js_mod_def [of "js_mod (i + d) n + n"])
  also have "\<dots> = (i + d) mod n" using js_mod_cong [OF n] by (metis mod_add_self2)
  finally show ?thesis .
qed

lemma remember_facts:
  "distinct recent \<Longrightarrow> distinct (rememberRoute recent to limit)"
  "length (rememberRoute recent to limit) \<le> limit"
  "0 < limit \<Longrightarrow> hd (rememberRoute recent to limit) = to"
  by (auto simp: rememberRoute_def)

lemma best_route_correct:
  "best_route p c best n routes = result \<Longrightarrow>
     (result = best \<and> (\<forall>to \<in> set routes. route_matches p c to \<longrightarrow> specificity to \<le> n))
   \<or> (\<exists>to. result = Some to \<and> to \<in> set routes \<and> route_matches p c to \<and> n < specificity to
        \<and> (\<forall>t \<in> set routes. route_matches p c t \<longrightarrow> specificity t \<le> specificity to))"
proof (induction routes arbitrary: best n)
  case (Cons r routes)
  show ?case
  proof (cases "route_matches p c r \<and> specificity r > n")
    case True
    then have "best_route p c (Some r) (specificity r) routes = result" using Cons.prems by simp
    from Cons.IH [OF this] show ?thesis
    proof
      assume "result = Some r \<and> (\<forall>to \<in> set routes. route_matches p c to \<longrightarrow> specificity to \<le> specificity r)"
      with True show ?thesis by (intro disjI2 exI [of _ r]) simp
    next
      assume "\<exists>to. result = Some to \<and> to \<in> set routes \<and> route_matches p c to
        \<and> specificity r < specificity to
        \<and> (\<forall>t \<in> set routes. route_matches p c t \<longrightarrow> specificity t \<le> specificity to)"
      then obtain to where "result = Some to" "to \<in> set routes" "route_matches p c to"
        "specificity r < specificity to"
        "\<forall>t \<in> set routes. route_matches p c t \<longrightarrow> specificity t \<le> specificity to" by blast
      with True show ?thesis by (intro disjI2 exI [of _ to]) simp
    qed
  next
    case False
    then have "best_route p c best n routes = result" using Cons.prems by (simp split: if_splits)
    from Cons.IH [OF this] show ?thesis
    proof
      assume "result = best \<and> (\<forall>to \<in> set routes. route_matches p c to \<longrightarrow> specificity to \<le> n)"
      with False show ?thesis by (intro disjI1) auto
    next
      assume "\<exists>to. result = Some to \<and> to \<in> set routes \<and> route_matches p c to \<and> n < specificity to
        \<and> (\<forall>t \<in> set routes. route_matches p c t \<longrightarrow> specificity t \<le> specificity to)"
      then obtain to where "result = Some to" "to \<in> set routes" "route_matches p c to"
        "n < specificity to"
        "\<forall>t \<in> set routes. route_matches p c t \<longrightarrow> specificity t \<le> specificity to" by blast
      with False show ?thesis by (intro disjI2 exI [of _ to]) auto
    qed
  qed
qed simp

text \<open>
  The route found for an address is one the menu has, all of its conditions hold of the address,
  and no other route whose conditions hold is more specific.
\<close>

lemma routeFor_most_specific:
  assumes "routeFor pathname search routes = Some to"
  shows "to \<in> set routes \<and> route_matches pathname (parse_params search) to
    \<and> (\<forall>t \<in> set routes. route_matches pathname (parse_params search) t \<longrightarrow>
         specificity t \<le> specificity to)"
  using best_route_correct [OF assms [unfolded routeFor_def]] by auto

lemma routeFor_none:
  "routeFor pathname search routes = None \<longleftrightarrow>
     (\<forall>t \<in> set routes. \<not> route_matches pathname (parse_params search) t)"
proof
  assume "routeFor pathname search routes = None"
  from best_route_correct [OF this [unfolded routeFor_def]]
  show "\<forall>t \<in> set routes. \<not> route_matches pathname (parse_params search) t"
    by (auto simp: specificity_def)
next
  assume a: "\<forall>t \<in> set routes. \<not> route_matches pathname (parse_params search) t"
  show "routeFor pathname search routes = None"
    using best_route_correct [of pathname "parse_params search" None "-1" routes] a
    unfolding routeFor_def by blast
qed

text \<open>Only an administrator's keys lead to the administration.\<close>

lemma shortcut_respects_role:
  "snd (readShortcut st key now False) \<noteq> Go ''/admin''"
proof -
  have "\<forall>t \<in> set GO_TARGETS. go_to t = ''/admin'' \<longrightarrow> adminOnly t"
    by (simp add: GO_TARGETS_def go_def)
  then show ?thesis
    by (auto simp: readShortcut_def dest: find_member split: option.splits)
qed

text \<open>A letter after the window is only a letter.\<close>

lemma late_letter:
  "now - t > SEQUENCE_WINDOW_MS \<Longrightarrow> snd (readShortcut (Some t) key now adm) \<noteq> Go to"
  by (auto simp: readShortcut_def)

lemma favorites_capped:
  "length favs \<le> FAVORITE_LIMIT \<Longrightarrow> length (toggleFavorite favs to) \<le> FAVORITE_LIMIT"
  unfolding toggleFavorite_def
  by (auto intro: le_trans [OF length_filter_le] simp: length_last_n)

lemma favorite_toggled: "to \<in> set (toggleFavorite favs to) \<longleftrightarrow> to \<notin> set favs"
  by (auto simp: toggleFavorite_def last_n_snoc FAVORITE_LIMIT_def)

lemma map_filter_find:
  "set (List.map_filter (\<lambda>to. find (\<lambda>r. fst r = to) rs) ks) \<subseteq> set rs"
  by (auto simp: map_filter_def dest: find_member)

lemma palette_shows_menu:
  "(r, flag) \<in> set (orderWithRecent routes recent limit) \<Longrightarrow> r \<in> set routes"
proof -
  assume "(r, flag) \<in> set (orderWithRecent routes recent limit)"
  then have "(r, flag) \<in> set (map (\<lambda>r. (r, True)) (List.map_filter (\<lambda>to. find (\<lambda>r. fst r = to) (rev routes)) recent)
      @ map (\<lambda>r. (r, False)) (filter (\<lambda>r. fst r \<notin> set (map fst (List.map_filter (\<lambda>to. find (\<lambda>r. fst r = to) (rev routes)) recent))) routes))"
    unfolding orderWithRecent_def Let_def by (rule in_set_takeD)
  then show ?thesis using map_filter_find [of "rev routes" recent] by auto
qed

end
