(* ===== verification/Csv.thy ===== *)
theory Csv
  imports ConsoleBase
begin

section \<open>Exporting a table as CSV\<close>

text \<open>
  \<open>web/src/components/csvExport.ts\<close>: the text of a cell, its quoting, and the marker that keeps a
  spreadsheet from evaluating text a visitor wrote. The reader of the format (RFC 4180, every
  field quoted) is the specification of what a spreadsheet gets to see.
\<close>

definition cellText :: "val \<Rightarrow> string" where
  "cellText v =
     (if nullish v then []
      else case v of VArr vs \<Rightarrow> json_text v | VObj ps \<Rightarrow> json_text v | _ \<Rightarrow> js_string v)"

text \<open>The test \<open>/^[\s]*[=+\-@]/\<close>.\<close>

definition starts_formula :: "string \<Rightarrow> bool" where
  "starts_formula s = (case dropWhile is_space s of c # r \<Rightarrow> c \<in> set ''=+-@'' | [] \<Rightarrow> False)"

definition apostrophe :: char where
  "apostrophe = CHR 0x27"

definition shown_text :: "val \<Rightarrow> string" where
  "shown_text v =
     (let t = cellText v in
      case v of VStr s \<Rightarrow> if starts_formula t then apostrophe # t else t | _ \<Rightarrow> t)"

definition double_quotes :: "string \<Rightarrow> string" where
  "double_quotes s = concat (map (\<lambda>c. if c = CHR 0x22 then [CHR 0x22, CHR 0x22] else [c]) s)"

definition csvValue :: "val \<Rightarrow> string" where
  "csvValue v = CHR 0x22 # double_quotes (shown_text v) @ [CHR 0x22]"

record csv_column =
  column_key :: string
  column_label :: string

definition newline :: char where
  "newline = CHR 0x0A"

definition buildCSV :: "csv_column list \<Rightarrow> props list \<Rightarrow> string" where
  "buildCSV columns rows =
     join [newline]
       (join '','' (map (\<lambda>c. csvValue (VStr (column_label c))) columns)
        # map (\<lambda>row. join '','' (map (\<lambda>c. csvValue (getp row (column_key c))) columns)) rows)"

subsection \<open>Reading the file\<close>

fun read_field :: "string \<Rightarrow> (string \<times> string) option" where
  "read_field [] = None"
| "read_field (c # r) =
     (if c = CHR 0x22 then
        (case r of d # r' \<Rightarrow> if d = CHR 0x22 then map_option (\<lambda>(w, t). (CHR 0x22 # w, t)) (read_field r')
                           else Some ([], r)
         | [] \<Rightarrow> Some ([], []))
      else map_option (\<lambda>(w, t). (c # w, t)) (read_field r))"

text \<open>The fuel is the length of the file, which every field shortens.\<close>

fun read_fields :: "nat \<Rightarrow> string \<Rightarrow> string list list option" where
  "read_fields 0 s = None"
| "read_fields (Suc n) s =
     (case s of
        [] \<Rightarrow> None
      | c # r \<Rightarrow>
          if c \<noteq> CHR 0x22 then None
          else (case read_field r of
            None \<Rightarrow> None
          | Some (w, t) \<Rightarrow>
              (case t of
                 [] \<Rightarrow> Some [[w]]
               | d # t' \<Rightarrow>
                   (case read_fields n t' of
                      Some (ws # rows) \<Rightarrow>
                        if d = CHR '','' then Some ((w # ws) # rows)
                        else if d = newline then Some ([w] # ws # rows)
                        else None
                    | _ \<Rightarrow> None))))"

definition read_csv :: "string \<Rightarrow> string list list option" where
  "read_csv s = read_fields (length s) s"

lemma read_field_quoted:
  "t = [] \<or> hd t \<noteq> CHR 0x22 \<Longrightarrow> read_field (double_quotes s @ CHR 0x22 # t) = Some (s, t)"
proof (induction s)
  case Nil
  then show ?case by (cases t) (auto simp: double_quotes_def)
next
  case (Cons c s)
  then show ?case by (auto simp: double_quotes_def)
qed

lemma read_fields_step:
  assumes "t = [] \<or> hd t \<noteq> CHR 0x22"
  shows "read_fields (Suc n) (csvValue v @ t) =
     (case t of
        [] \<Rightarrow> Some [[shown_text v]]
      | d # t' \<Rightarrow>
          (case read_fields n t' of
             Some (ws # rows) \<Rightarrow>
               if d = CHR '','' then Some ((shown_text v # ws) # rows)
               else if d = newline then Some ([shown_text v] # ws # rows)
               else None
           | _ \<Rightarrow> None))"
  using read_field_quoted [OF assms, of "shown_text v"] by (simp add: csvValue_def)

lemma join_snoc_line: "xs \<noteq> [] \<Longrightarrow> join sep (x # xs) = x @ sep @ join sep xs"
  by (simp add: join_Cons)

lemma read_line:
  assumes "vs \<noteq> []" "t = [] \<or> hd t = newline"
    and "length (join '','' (map csvValue vs) @ t) \<le> n"
    and "t \<noteq> [] \<Longrightarrow> \<exists>ws rows. \<forall>m \<ge> length (tl t). read_fields m (tl t) = Some (ws # rows)"
  shows "read_fields n (join '','' (map csvValue vs) @ t) =
     (if t = [] then Some [map shown_text vs]
      else map_option (\<lambda>rows. map shown_text vs # rows) (read_fields (length (tl t)) (tl t)))"
  using assms
proof (induction vs arbitrary: n)
  case (Cons v vs)
  obtain m where n: "n = Suc m" using Cons.prems(3)
    by (cases n) (auto simp: csvValue_def join_Cons split: if_splits)
  have tq: "t = [] \<or> hd t \<noteq> CHR 0x22" using Cons.prems(2) by (auto simp: newline_def)
  show ?case
  proof (cases "vs = []")
    case True
    show ?thesis
    proof (cases t)
      case Nil
      then show ?thesis using True read_fields_step [of t m v] by (simp add: n)
    next
      case (Cons d t')
      then obtain ws rows where r: "read_fields k t' = Some (ws # rows)" if "k \<ge> length t'" for k
        using Cons.prems(4) by auto
      have "length t' \<le> m" using Cons.prems(3) \<open>t = d # t'\<close> by (auto simp: n csvValue_def join_Cons True)
      with r [of m] r [of "length t'"] Cons True tq Cons.prems(2) show ?thesis
        using read_fields_step [of t m v] by (simp add: n newline_def)
    qed
  next
    case False
    define u where "u = join '','' (map csvValue vs) @ t"
    have "read_fields m u = (if t = [] then Some [map shown_text vs]
      else map_option (\<lambda>rows. map shown_text vs # rows) (read_fields (length (tl t)) (tl t)))"
      unfolding u_def using Cons.prems False
      by (intro Cons.IH) (auto simp: n join_Cons)
    moreover have "join '','' (map csvValue (v # vs)) @ t = csvValue v @ CHR '','' # u"
      using False by (simp add: join_Cons u_def)
    ultimately show ?thesis
      using read_fields_step [of "CHR '','' # u" m v] Cons.prems(4)
      by (auto simp: n split: option.splits list.splits)
  qed
qed simp

definition csv_line :: "val list \<Rightarrow> string" where
  "csv_line vs = join '','' (map csvValue vs)"

lemma read_lines:
  "vss \<noteq> [] \<Longrightarrow> \<forall>vs \<in> set vss. vs \<noteq> [] \<Longrightarrow> length (join [newline] (map csv_line vss)) \<le> n \<Longrightarrow>
     read_fields n (join [newline] (map csv_line vss)) = Some (map (map shown_text) vss)"
proof (induction vss arbitrary: n)
  case (Cons vs vss)
  define t where "t = (if vss = [] then [] else newline # join [newline] (map csv_line vss))"
  have eq: "join [newline] (map csv_line (vs # vss)) = join '','' (map csvValue vs) @ t"
    by (simp add: t_def join_Cons csv_line_def)
  have later: "read_fields m (tl t) = Some (map (map shown_text) vss)" if "t \<noteq> []" "length (tl t) \<le> m" for m
    using that Cons.IH [of m] Cons.prems by (auto simp: t_def split: if_splits)
  have "read_fields n (join '','' (map csvValue vs) @ t) =
     (if t = [] then Some [map shown_text vs]
      else map_option (\<lambda>rows. map shown_text vs # rows) (read_fields (length (tl t)) (tl t)))"
  proof (rule read_line)
    show "vs \<noteq> []" using Cons.prems by simp
    show "t = [] \<or> hd t = newline" by (simp add: t_def)
    show "length (join '','' (map csvValue vs) @ t) \<le> n" using Cons.prems(3) unfolding eq .
    show "\<exists>ws rows. \<forall>m \<ge> length (tl t). read_fields m (tl t) = Some (ws # rows)" if "t \<noteq> []"
      using that later by (cases vss) (auto simp: t_def)
  qed
  then show ?case using later unfolding eq by (auto simp: t_def)
qed simp

lemma shown_text_safe: "\<not> starts_formula (shown_text (VStr s))"
  by (auto simp: shown_text_def starts_formula_def apostrophe_def char_simps Let_def)

lemma shown_text_cases: "shown_text v = cellText v \<or> shown_text v = apostrophe # cellText v"
  by (cases v) (auto simp: shown_text_def Let_def)

text \<open>
  C34: Reading an exported file gives back the labels and, row by row and column by column, the text
  of every cell, except that a string a spreadsheet would evaluate has an apostrophe in front; no
  string field of the file starts a formula.
\<close>

theorem csv_roundtrip:
  assumes "columns \<noteq> []"
  shows "read_csv (buildCSV columns rows) =
       Some (map (\<lambda>c. shown_text (VStr (column_label c))) columns
             # map (\<lambda>row. map (\<lambda>c. shown_text (getp row (column_key c))) columns) rows)
     \<and> (\<forall>v. shown_text v = cellText v \<or> shown_text v = apostrophe # cellText v)
     \<and> (\<forall>s. \<not> starts_formula (shown_text (VStr s)))"
proof (intro conjI allI)
  let ?vss = "map (\<lambda>c. VStr (column_label c)) columns
              # map (\<lambda>row. map (\<lambda>c. getp row (column_key c)) columns) rows"
  have "buildCSV columns rows = join [newline] (map csv_line ?vss)"
    by (simp add: buildCSV_def csv_line_def comp_def)
  then show "read_csv (buildCSV columns rows) =
       Some (map (\<lambda>c. shown_text (VStr (column_label c))) columns
             # map (\<lambda>row. map (\<lambda>c. shown_text (getp row (column_key c))) columns) rows)"
    using read_lines [of ?vss] assms by (simp add: read_csv_def comp_def)
qed (rule shown_text_cases, rule shown_text_safe)

lemma csv_roundtrip_witness:
  "read_csv (buildCSV [\<lparr>column_key = ''page'', column_label = ''Page''\<rparr>]
     [[(''page'', VStr ''=HYPERLINK()'')], [(''page'', VStr ''/a'')]]) =
     Some [[''Page''], [apostrophe # ''=HYPERLINK()''], [''/a'']]"
  using csv_roundtrip [of "[\<lparr>column_key = ''page'', column_label = ''Page''\<rparr>]"
      "[[(''page'', VStr ''=HYPERLINK()'')], [(''page'', VStr ''/a'')]]"]
  by (simp add: shown_text_def cellText_def starts_formula_def char_simps)

end
