(* ===== verification/Settings.thy ===== *)
theory Settings
  imports UrlParams "HOL-Library.Monad_Syntax"
begin

section \<open>The audit log and the settings forms\<close>

text \<open>
  Four small modules of \<open>web/src/pages\<close>: \<open>auditQuery.ts\<close>, whose paging is composed here with
  the page the server answers (\<open>listAudit\<close> of \<open>internal/httpapi/admin.go\<close>),
  \<open>mcpOauth.ts\<close>, \<open>queryPolicyForm.ts\<close> and \<open>aggregateJobStatus.ts\<close>.
\<close>

text \<open>\<open>Number(v)\<close>.\<close>

fun to_number :: "val \<Rightarrow> jnum" where
  "to_number VUndef = NaN"
| "to_number VNull = Fin 0"
| "to_number (VBool b) = Fin (if b then 1 else 0)"
| "to_number (VNum n) = n"
| "to_number (VStr s) = js_number s"
| "to_number (VArr vs) = js_number (js_string (VArr vs))"
| "to_number (VObj _) = NaN"

subsection \<open>Paging through the audit log\<close>

definition AUDIT_PAGE_SIZE :: nat where
  "AUDIT_PAGE_SIZE = 200"

record audit_filters =
  f_action :: string
  f_actor :: string
  f_resource :: string

definition emptyAuditFilters :: audit_filters where
  "emptyAuditFilters = \<lparr>f_action = [], f_actor = [], f_resource = []\<rparr>"

definition put_filter :: "string \<Rightarrow> string \<Rightarrow> params \<Rightarrow> params" where
  "put_filter k raw ps = (let v = js_trim raw in if v \<noteq> [] then param_set k v ps else ps)"

definition auditPath :: "audit_filters \<Rightarrow> rat option \<Rightarrow> nat \<Rightarrow> string" where
  "auditPath filters beforeId limit =
     (let ps = put_filter ''resource'' (f_resource filters)
                 (put_filter ''actor'' (f_actor filters)
                   (put_filter ''action'' (f_action filters) []));
          ps = param_set ''limit'' (nat_text limit) ps;
          ps = (case beforeId of
                  Some b \<Rightarrow> if b \<noteq> 0 then param_set ''before_id'' (rat_text b) ps else ps
                | None \<Rightarrow> ps)
      in ''/api/v1/audit?'' @ params_text ps)"

definition positive_id :: "val \<Rightarrow> rat option" where
  "positive_id entry =
     (case to_number (field entry ''id'') of
        Fin q \<Rightarrow> if q > 0 then Some q else None
      | _ \<Rightarrow> None)"

definition nextAuditCursor :: "val list \<Rightarrow> nat \<Rightarrow> rat option" where
  "nextAuditCursor page limit =
     (if length page < limit then None
      else let ids = List.map_filter positive_id page
           in if ids \<noteq> [] then Some (Min (set ids)) else None)"

definition auditDetailText :: "val \<Rightarrow> string" where
  "auditDetailText detail =
     (if nullish detail then []
      else case detail of
        VObj [] \<Rightarrow> []
      | VStr s \<Rightarrow> s
      | _ \<Rightarrow> json_text detail)"

text \<open>
  The server's page: the entries older than the cursor, newest first, up to the limit. The log is
  the list of the ids that pass the filters, newest first.
\<close>

definition audit_page :: "int list \<Rightarrow> rat option \<Rightarrow> nat \<Rightarrow> val list" where
  "audit_page trail before limit =
     map (\<lambda>i. VObj [(''id'', vint i)])
       (take limit (filter (\<lambda>i. case before of None \<Rightarrow> True | Some b \<Rightarrow> of_int i < b) trail))"

text \<open>
  Reading on until there is no next page, as \<open>AuditAdmin\<close> does with \<open>useInfiniteQuery\<close>; a trail
  that never ends would be the value \<open>None\<close>.
\<close>

partial_function (option) read_log :: "int list \<Rightarrow> nat \<Rightarrow> rat option \<Rightarrow> val list option" where
  "read_log trail limit before =
     (let page = audit_page trail before limit in
      case nextAuditCursor page limit of
        None \<Rightarrow> Some page
      | Some cursor \<Rightarrow> do { rest \<leftarrow> read_log trail limit (Some cursor); Some (page @ rest) })"

lemma positive_id_entry [simp]:
  "positive_id (VObj [(''id'', vint i)]) = (if i > 0 then Some (of_int i) else None)"
  by (simp add: positive_id_def)

lemma cursor_of_page:
  assumes "\<forall>i \<in> set ids. i > 0" "sorted_wrt (>) ids" "0 < limit"
  shows "nextAuditCursor (map (\<lambda>i. VObj [(''id'', vint i)]) ids) limit =
     (if length ids < limit then None else Some (of_int (last ids)))"
proof (cases "length ids < limit")
  case False
  then have ne: "ids \<noteq> []" using assms(3) by auto
  have ids: "List.map_filter positive_id (map (\<lambda>i. VObj [(''id'', vint i)]) ids) = map of_int ids"
    using assms(1) by (induction ids) (auto simp: List.map_filter_def)
  have "last ids \<le> i" if "i \<in> set ids" for i
  proof -
    obtain xs where xs: "ids = xs @ [last ids]" using ne by (metis append_butlast_last_id)
    then have "\<forall>x \<in> set xs. x > last ids" using assms(2) by (metis list.set_intros(1) sorted_wrt_append)
    with that xs show ?thesis by (metis Un_iff empty_iff insert_iff less_imp_le list.set order_refl set_append)
  qed
  then have "Min (set (map of_int ids :: rat list)) = of_int (last ids)"
    using ne by (intro Min_eqI) auto
  with False ne ids show ?thesis by (simp add: nextAuditCursor_def)
qed (simp add: nextAuditCursor_def)

lemma filter_older:
  fixes ids rest :: "int list"
  assumes "sorted_wrt (>) (ids @ rest)" "ids \<noteq> []"
  shows "filter (\<lambda>i. (of_int i :: rat) < of_int (last ids)) (ids @ rest) = rest"
proof -
  have "\<forall>i \<in> set rest. i < last ids"
    using assms by (auto simp: sorted_wrt_append)
  moreover have "\<forall>i \<in> set ids. \<not> i < last ids"
  proof
    fix i assume "i \<in> set ids"
    moreover have "ids = butlast ids @ [last ids]" using assms(2) by simp
    moreover have "sorted_wrt (>) ids" using assms(1) by (simp add: sorted_wrt_append)
    ultimately show "\<not> i < last ids"
      by (metis Un_iff empty_iff insert_iff less_asym list.set set_append sorted_wrt_append)
  qed
  ultimately show ?thesis by (simp add: filter_id_conv)
qed

lemma read_log_from:
  assumes "sorted_wrt (>) (done_ids @ trail)" "\<forall>i \<in> set (done_ids @ trail). i > 0" "0 < limit"
    and "filter (\<lambda>i. case before of None \<Rightarrow> True | Some b \<Rightarrow> of_int i < b) (done_ids @ trail) = trail"
  shows "read_log (done_ids @ trail) limit before = Some (map (\<lambda>i. VObj [(''id'', vint i)]) trail)"
  using assms
proof (induction "length trail" arbitrary: done_ids trail before rule: less_induct)
  case less
  define page where "page = take limit trail"
  have page: "audit_page (done_ids @ trail) before limit = map (\<lambda>i. VObj [(''id'', vint i)]) page"
    using less.prems(4) by (simp add: audit_page_def page_def)
  have sorted: "sorted_wrt (>) page"
    using less.prems(1) by (simp add: page_def sorted_wrt_append sorted_wrt_take)
  have pos: "\<forall>i \<in> set page. i > 0"
    using less.prems(2) set_take_subset [of limit trail] by (auto simp: page_def)
  note cursor = cursor_of_page [OF pos sorted less.prems(3)]
  show ?case
  proof (cases "length page < limit")
    case True
    then have eq: "page = trail" by (auto simp: page_def)
    show ?thesis
      by (subst read_log.simps) (simp add: page [unfolded eq] cursor [unfolded eq] Let_def True [unfolded eq])
  next
    case False
    define rest where "rest = drop limit trail"
    have trail: "trail = page @ rest" by (simp add: page_def rest_def)
    have ne: "page \<noteq> []" using False less.prems(3) by auto
    have dec: "length rest < length trail" using ne trail by (metis append_eq_append_conv2 length_append
        length_greater_0_conv less_add_same_cancel2)
    have all: "done_ids @ trail = (done_ids @ page) @ rest" by (simp add: trail)
    have "read_log ((done_ids @ page) @ rest) limit (Some (of_int (last page))) =
        Some (map (\<lambda>i. VObj [(''id'', vint i)]) rest)"
    proof (rule less.hyps [OF dec])
      show "sorted_wrt (>) ((done_ids @ page) @ rest)" using less.prems(1) all by simp
      show "\<forall>i \<in> set ((done_ids @ page) @ rest). i > 0" using less.prems(2) all by simp
      show "0 < limit" by (rule less.prems(3))
      show "filter (\<lambda>i. case Some (of_int (last page) :: rat) of None \<Rightarrow> True | Some b \<Rightarrow> of_int i < b)
          ((done_ids @ page) @ rest) = rest"
        using filter_older [of "done_ids @ page" rest] less.prems(1) all ne by simp
    qed
    with False show ?thesis
      by (subst read_log.simps)
        (simp add: page cursor Let_def all [symmetric], simp add: trail)
  qed
qed

text \<open>
  C26: Paging with the console's cursor through a log of distinct positive ids, newest first, comes
  to an end for every page size, and the pages together hold every entry once and in order.
\<close>

theorem paging_ends_and_covers:
  assumes "sorted_wrt (>) trail" "\<forall>i \<in> set trail. i > 0" "0 < limit"
  shows "read_log trail limit None = Some (map (\<lambda>i. VObj [(''id'', vint i)]) trail)"
  using read_log_from [of "[]" trail limit None] assms by simp

lemma paging_ends_and_covers_witness:
  "read_log [9, 7, 4, 2, 1] 2 None =
     Some [VObj [(''id'', vint 9)], VObj [(''id'', vint 7)], VObj [(''id'', vint 4)],
           VObj [(''id'', vint 2)], VObj [(''id'', vint 1)]]"
  using paging_ends_and_covers [of "[9, 7, 4, 2, 1]" 2] by simp

lemma auditPath_no_blank_filters:
  "put_filter k raw ps = ps" if "js_trim raw = []"
  using that by (simp add: put_filter_def)

subsection \<open>The MCP sign-in card\<close>

text \<open>\<open>new URL(s).origin\<close>, where the URL parses, is the browser's and a parameter.\<close>

definition setting_text :: "val \<Rightarrow> string" where
  "setting_text v = (case v of VStr s \<Rightarrow> js_trim s | _ \<Rightarrow> [])"

definition mcpResource :: "props \<Rightarrow> props \<Rightarrow> string" where
  "mcpResource mcpOauth general =
     (let explicit = setting_text (getp mcpOauth ''resource'') in
      if explicit \<noteq> [] then explicit
      else let publicUrl = strip_trailing CHR ''/'' (setting_text (getp general ''public_url''))
           in if publicUrl \<noteq> [] then publicUrl @ ''/mcp'' else [])"

definition mcpMetadataUrl :: "(string \<Rightarrow> string option) \<Rightarrow> string \<Rightarrow> string" where
  "mcpMetadataUrl originOf resource =
     (case originOf resource of
        Some origin \<Rightarrow> origin @ ''/.well-known/oauth-protected-resource/mcp''
      | None \<Rightarrow> [])"

datatype mcp_readiness = Ready | NoIssuer | NoResource

definition mcpOauthReadiness :: "props \<Rightarrow> props \<Rightarrow> props \<Rightarrow> mcp_readiness" where
  "mcpOauthReadiness mcpOauth oidc general =
     (if setting_text (getp oidc ''issuer_url'') = [] then NoIssuer
      else if mcpResource mcpOauth general = [] then NoResource
      else Ready)"

lemma ready_iff:
  "mcpOauthReadiness m o' g = Ready \<longleftrightarrow>
     setting_text (getp o' ''issuer_url'') \<noteq> [] \<and> mcpResource m g \<noteq> []"
  by (simp add: mcpOauthReadiness_def)

lemma derived_resource:
  assumes "setting_text (getp m ''resource'') = []" "mcpResource m g \<noteq> []"
  obtains base where "mcpResource m g = base @ ''/mcp''" "base \<noteq> []" "last base \<noteq> CHR ''/''"
  using assms strip_trailing_last [of "CHR ''/''" "setting_text (getp g ''public_url'')"]
  by (auto simp: mcpResource_def Let_def split: if_splits)

subsection \<open>The query policy form\<close>

definition queryPolicyFields :: "string list" where
  "queryPolicyFields =
     [''max_exact_days'', ''max_complexity_score'', ''background_threshold'',
      ''fast_sample_percent'', ''preview_sample_percent'']"

definition defaultQueryPolicyForm :: props where
  "defaultQueryPolicyForm =
     [(''max_exact_days'', vint 180), (''max_complexity_score'', vint 90),
      (''background_threshold'', vint 60), (''fast_sample_percent'', vint 10),
      (''preview_sample_percent'', vint 1)]"

fun finite_number :: "val \<Rightarrow> bool" where
  "finite_number (VNum (Fin q)) = True"
| "finite_number _ = False"

definition take_field :: "val \<Rightarrow> string \<Rightarrow> props \<Rightarrow> props" where
  "take_field source f form =
     (let v = field source f in if finite_number v then setp f v form else form)"

definition readQueryPolicy :: "val \<Rightarrow> props \<Rightarrow> props" where
  "readQueryPolicy answered current =
     (let source = (if truthy answered then answered else VObj []) in
      fold (take_field source) queryPolicyFields current)"

datatype policy_label =
  MaxExactDays | MaxComplexity | BackgroundThreshold | FastSample | PreviewSample

definition queryPolicyLabel :: "string \<Rightarrow> policy_label option" where
  "queryPolicyLabel =
     map_of [(''max_exact_days'', MaxExactDays), (''max_complexity_score'', MaxComplexity),
             (''background_threshold'', BackgroundThreshold), (''fast_sample_percent'', FastSample),
             (''preview_sample_percent'', PreviewSample)]"

text \<open>The type \<open>QueryPolicyForm\<close>: the five fields, each with a number.\<close>

definition policy_form :: "props \<Rightarrow> bool" where
  "policy_form form \<longleftrightarrow>
     map fst form = queryPolicyFields \<and> list_all (\<lambda>(k, v). finite_number v) form"

lemma keys_setp_known: "k \<in> set (keys ps) \<Longrightarrow> keys (setp k v ps) = keys ps"
  by (induction k v ps rule: setp.induct) auto

lemma finite_setp:
  "finite_number v \<Longrightarrow> list_all (\<lambda>(k, w). finite_number w) ps \<Longrightarrow>
     list_all (\<lambda>(k, w). finite_number w) (setp k v ps)"
  by (induction k v ps rule: setp.induct) auto

lemma take_field_form:
  "policy_form form \<Longrightarrow> f \<in> set queryPolicyFields \<Longrightarrow> policy_form (take_field src f form)"
  by (auto simp: policy_form_def take_field_def Let_def keys_setp_known finite_setp)

lemma fold_take_field_form:
  "policy_form form \<Longrightarrow> set fs \<subseteq> set queryPolicyFields \<Longrightarrow> policy_form (fold (take_field src) fs form)"
  by (induction fs arbitrary: form) (auto simp: take_field_form)

lemma getp_fold_take_field:
  "distinct fs \<Longrightarrow> getp (fold (take_field src) fs form) f =
     (if f \<in> set fs \<and> finite_number (field src f) then field src f else getp form f)"
  by (induction fs arbitrary: form) (auto simp: take_field_def Let_def getp_setp)

lemma field_default [simp]:
  "field (if truthy v then v else VObj []) f = field v f"
  by (cases v) auto

text \<open>
  C40: Whatever the endpoint answers, the form stays a form of exactly the five numbers; each is the
  answer's where the answer has a finite number under its name, and unchanged otherwise.
\<close>

theorem policy_form_preserved:
  assumes "policy_form current"
  shows "policy_form (readQueryPolicy answered current)
    \<and> getp (readQueryPolicy answered current) f =
      (if f \<in> set queryPolicyFields \<and> finite_number (field answered f)
       then field answered f else getp current f)"
proof
  show "policy_form (readQueryPolicy answered current)"
    unfolding readQueryPolicy_def Let_def by (rule fold_take_field_form [OF assms]) simp
  show "getp (readQueryPolicy answered current) f =
      (if f \<in> set queryPolicyFields \<and> finite_number (field answered f)
       then field answered f else getp current f)"
    unfolding readQueryPolicy_def Let_def
    by (subst getp_fold_take_field) (simp_all add: queryPolicyFields_def)
qed

lemma policy_form_preserved_witness:
  "policy_form (readQueryPolicy (VObj [(''defaults'', VBool True), (''max_exact_days'', vint 30)])
     defaultQueryPolicyForm)
   \<and> getp (readQueryPolicy (VObj [(''defaults'', VBool True), (''max_exact_days'', vint 30)])
        defaultQueryPolicyForm) ''defaults'' = VUndef"
proof -
  have d: "policy_form defaultQueryPolicyForm"
    by (simp add: policy_form_def defaultQueryPolicyForm_def queryPolicyFields_def)
  show ?thesis
    using policy_form_preserved [OF d, of "VObj [(''defaults'', VBool True), (''max_exact_days'', vint 30)]"]
    by (simp add: queryPolicyFields_def defaultQueryPolicyForm_def)
qed

subsection \<open>Aggregation jobs\<close>

datatype job_color = Success | Error | Warning | Default

datatype job_label = WaitingToRetry | Status string

definition describeAggregateJobStatus :: "props \<Rightarrow> job_label \<times> job_color" where
  "describeAggregateJobStatus row =
     (let status = (if nullish (getp row ''status'') then [] else js_string (getp row ''status''));
          err = (case getp row ''error'' of VStr s \<Rightarrow> js_trim s | _ \<Rightarrow> [])
      in if status = ''pending'' \<and> err \<noteq> [] then (WaitingToRetry, Warning)
         else if status = ''success'' then (Status status, Success)
         else if status = ''failed'' then (Status status, Error)
         else (Status status, Default))"

lemma only_failed_is_error:
  "snd (describeAggregateJobStatus row) = Error \<longleftrightarrow> js_string (getp row ''status'') = ''failed''"
  by (cases "getp row ''status''") (auto simp: describeAggregateJobStatus_def Let_def)

end
