(* ===== verification/PathFlow.thy ===== *)
theory PathFlow
  imports Settings
begin

section \<open>The flow of paths\<close>

text \<open>
  \<open>web/src/pages/pathFlow.ts\<close>: the transitions between pages or events become the nodes and links
  of a Sankey diagram, which must be acyclic. A transition arrives as an object whose properties
  may be missing; its names and its count are coerced. The ellipsis that ends a shortened label is
  outside the 8-bit text and is the flag of \<open>short_label\<close>.
\<close>

record path_node =
  node_name :: string
  displayName :: string
  shortName :: "string \<times> bool"     \<comment> \<open>the text, and whether an ellipsis follows\<close>
  depth :: nat

record path_link =
  link_source :: string
  link_target :: string
  link_value :: jnum
  sourceName :: string
  targetName :: string

record transition =
  tr_source :: string
  tr_target :: string
  tr_count :: jnum

text \<open>\<open>urlPath raw\<close> is the path and query of \<open>new URL(raw)\<close>, where it parses.\<close>

definition shortPathLabel :: "(string \<Rightarrow> (string \<times> string) option) \<Rightarrow> string \<Rightarrow> nat \<Rightarrow> string \<times> bool" where
  "shortPathLabel urlPath v maxLength =
     (let label = (case urlPath v of Some (path, search) \<Rightarrow> or_str (path @ search) ''/'' | None \<Rightarrow> v) in
      if length label \<le> maxLength then (label, False)
      else (take (max 1 (maxLength - 1)) label, True))"

text \<open>\<open>String(v || other)\<close> and \<open>Number(v) || 0\<close>.\<close>

definition name_or :: "val \<Rightarrow> string \<Rightarrow> string" where
  "name_or v other = (if truthy v then js_string v else other)"

definition count_of :: "val \<Rightarrow> jnum" where
  "count_of v = (case to_number v of NaN \<Rightarrow> Fin 0 | n \<Rightarrow> n)"

fun positive :: "jnum \<Rightarrow> bool" where
  "positive (Fin q) = (q > 0)"
| "positive PInf = True"
| "positive NInf = False"
| "positive NaN = False"

definition read_transition :: "props \<Rightarrow> transition" where
  "read_transition row =
     \<lparr>tr_source = name_or (getp row ''source'') ''(unknown)'',
      tr_target = name_or (getp row ''target'') ''(unknown)'',
      tr_count = count_of (getp row ''count'')\<rparr>"

definition kept :: "transition \<Rightarrow> bool" where
  "kept t \<longleftrightarrow> tr_source t \<noteq> tr_target t \<and> positive (tr_count t)"

text \<open>A \<open>Map\<close>: setting a present key keeps its place.\<close>

fun map_put :: "'k \<Rightarrow> 'v \<Rightarrow> ('k \<times> 'v) list \<Rightarrow> ('k \<times> 'v) list" where
  "map_put k v [] = [(k, v)]"
| "map_put k v ((k', w) # ps) = (if k = k' then (k, v) # ps else (k', w) # map_put k v ps)"

definition from_node :: "(string \<Rightarrow> (string \<times> string) option) \<Rightarrow> string \<Rightarrow> path_node" where
  "from_node urlPath s =
     \<lparr>node_name = ''from:'' @ s, displayName = s, shortName = shortPathLabel urlPath s 34, depth = 0\<rparr>"

definition to_node :: "(string \<Rightarrow> (string \<times> string) option) \<Rightarrow> string \<Rightarrow> path_node" where
  "to_node urlPath s =
     \<lparr>node_name = ''to:'' @ s, displayName = s, shortName = shortPathLabel urlPath s 34, depth = 1\<rparr>"

definition add_nodes ::
  "(string \<Rightarrow> (string \<times> string) option) \<Rightarrow> transition \<Rightarrow> (string \<times> path_node) list
   \<Rightarrow> (string \<times> path_node) list"
where
  "add_nodes urlPath t nodes =
     map_put (''to:'' @ tr_target t) (to_node urlPath (tr_target t))
       (map_put (''from:'' @ tr_source t) (from_node urlPath (tr_source t)) nodes)"

definition link_of :: "transition \<Rightarrow> path_link" where
  "link_of t =
     \<lparr>link_source = ''from:'' @ tr_source t, link_target = ''to:'' @ tr_target t,
      link_value = tr_count t, sourceName = tr_source t, targetName = tr_target t\<rparr>"

definition buildPathFlow ::
  "(string \<Rightarrow> (string \<times> string) option) \<Rightarrow> props list \<Rightarrow> nat \<Rightarrow> path_node list \<times> path_link list"
where
  "buildPathFlow urlPath rows limit =
     (let transitions = take limit (filter kept (map read_transition rows)) in
      (map snd (fold (add_nodes urlPath) transitions []), map link_of transitions))"

subsection \<open>Nodes and links\<close>

lemma map_put_keys: "set (map fst (map_put k v ps)) = insert k (set (map fst ps))"
  by (induction k v ps rule: map_put.induct) auto

lemma map_put_distinct: "distinct (map fst ps) \<Longrightarrow> distinct (map fst (map_put k v ps))"
proof (induction k v ps rule: map_put.induct)
  case (2 k v k' w ps)
  then show ?case using map_put_keys [of k v ps] by auto
qed simp

lemma map_put_members: "(k', w) \<in> set (map_put k v ps) \<Longrightarrow> (k', w) = (k, v) \<or> (k', w) \<in> set ps"
  by (induction k v ps rule: map_put.induct) (auto split: if_splits)

definition node_ok :: "string \<times> path_node \<Rightarrow> bool" where
  "node_ok p \<longleftrightarrow> node_name (snd p) = fst p
     \<and> (depth (snd p) = 0 \<and> prefix ''from:'' (fst p) \<or> depth (snd p) = 1 \<and> prefix ''to:'' (fst p))"

lemma nodes_invariant:
  "distinct (map fst ns) \<Longrightarrow> list_all node_ok ns \<Longrightarrow>
   distinct (map fst (fold (add_nodes u) ts ns)) \<and> list_all node_ok (fold (add_nodes u) ts ns)
   \<and> set (map fst (fold (add_nodes u) ts ns)) = set (map fst ns)
        \<union> (\<lambda>t. ''from:'' @ tr_source t) ` set ts \<union> (\<lambda>t. ''to:'' @ tr_target t) ` set ts"
proof (induction ts arbitrary: ns)
  case (Cons t ts)
  have "distinct (map fst (add_nodes u t ns))"
    unfolding add_nodes_def by (intro map_put_distinct Cons.prems)
  moreover have "list_all node_ok (add_nodes u t ns)"
    using Cons.prems(2)
    by (auto simp: list_all_iff add_nodes_def node_ok_def from_node_def to_node_def
        dest!: map_put_members)
  moreover have "set (map fst (add_nodes u t ns)) =
      insert (''to:'' @ tr_target t) (insert (''from:'' @ tr_source t) (set (map fst ns)))"
    unfolding add_nodes_def map_put_keys ..
  ultimately show ?case
    using Cons.IH [of "add_nodes u t ns"] by (auto simp del: set_map append.simps)
qed simp

text \<open>
  The diagram is two layers: node names are distinct, every link runs from a node of depth 0 to
  a node of depth 1 of the node list, so no path of links returns; every link carries a positive
  count of a transition between different names; there are at most \<open>limit\<close> links.
\<close>

theorem flow_is_two_layers:
  "let (nodes, links) = buildPathFlow urlPath rows limit in
     distinct (map node_name nodes) \<and> length links \<le> limit
     \<and> list_all (\<lambda>l. sourceName l \<noteq> targetName l \<and> positive (link_value l)
          \<and> (\<exists>a \<in> set nodes. node_name a = link_source l \<and> depth a = 0)
          \<and> (\<exists>b \<in> set nodes. node_name b = link_target l \<and> depth b = 1)) links"
proof -
  define ts where "ts = take limit (filter kept (map read_transition rows))"
  define ns where "ns = fold (add_nodes urlPath) ts []"
  note inv = nodes_invariant [of "[]" urlPath ts, folded ns_def, simplified]
  have names: "map node_name (map snd ns) = map fst ns"
    using inv by (simp add: list_all_iff node_ok_def)
  have kept: "kept t" if "t \<in> set ts" for t
    using that set_take_subset by (fastforce simp: ts_def)
  have node: "\<exists>a \<in> set (map snd ns). node_name a = k \<and> depth a = d"
    if k: "k \<in> fst ` set ns" and d: "d = (if prefix ''from:'' k then 0 else 1)" for k d
  proof -
    obtain v where v: "(k, v) \<in> set ns" using k by force
    then have "node_ok (k, v)" using inv by (simp add: list_all_iff)
    with v d show ?thesis
      by (intro bexI [of _ v]) (auto simp: node_ok_def prefix_def rev_image_eqI)
  qed
  have "list_all (\<lambda>l. sourceName l \<noteq> targetName l \<and> positive (link_value l)
          \<and> (\<exists>a \<in> set (map snd ns). node_name a = link_source l \<and> depth a = 0)
          \<and> (\<exists>b \<in> set (map snd ns). node_name b = link_target l \<and> depth b = 1)) (map link_of ts)"
    unfolding list_all_iff
  proof
    fix l assume "l \<in> set (map link_of ts)"
    then obtain t where t: "t \<in> set ts" "l = link_of t" by auto
    have "''from:'' @ tr_source t \<in> fst ` set ns" "''to:'' @ tr_target t \<in> fst ` set ns"
      using inv t(1) by auto
    from node [OF this(1), of 0] node [OF this(2), of 1] show "sourceName l \<noteq> targetName l \<and> positive (link_value l)
          \<and> (\<exists>a \<in> set (map snd ns). node_name a = link_source l \<and> depth a = 0)
          \<and> (\<exists>b \<in> set (map snd ns). node_name b = link_target l \<and> depth b = 1)"
      using kept [OF t(1)] by (simp add: t(2) link_of_def kept_def)
  qed
  moreover have "length ts \<le> limit" by (simp add: ts_def)
  moreover have "distinct (map node_name (map snd ns))" using inv unfolding names by (rule conjunct1)
  ultimately show ?thesis
    unfolding buildPathFlow_def Let_def prod.case ts_def [symmetric] ns_def [symmetric] by simp
qed

lemma label_length: "length (fst (shortPathLabel u v n)) \<le> max 1 n"
  by (auto simp: shortPathLabel_def Let_def)

end
