(* ===== verification/Calendar.thy ===== *)
theory Calendar
  imports ConsoleBase
begin

section \<open>The calendar of the language library\<close>

text \<open>
  \<open>Date.UTC\<close> and the fields of a \<open>Date\<close> in UTC, as the language standard defines them on day
  numbers since 1970: months and days out of range carry over, and years from 0 to 99 mean
  1900 to 1999. The console uses them to check and to compute calendar dates.
\<close>

definition day_from_year :: "int \<Rightarrow> int" where
  "day_from_year y =
     365 * (y - 1970) + (y - 1969) div 4 - (y - 1901) div 100 + (y - 1601) div 400"

definition leap :: "int \<Rightarrow> bool" where
  "leap y \<longleftrightarrow> y mod 4 = 0 \<and> (y mod 100 \<noteq> 0 \<or> y mod 400 = 0)"

text \<open>The day of the year on which a month starts; months are numbered from 0.\<close>

definition month_starts :: "bool \<Rightarrow> int list" where
  "month_starts l =
     (if l then [0, 31, 60, 91, 121, 152, 182, 213, 244, 274, 305, 335, 366]
      else [0, 31, 59, 90, 120, 151, 181, 212, 243, 273, 304, 334, 365])"

definition month_start :: "int \<Rightarrow> int \<Rightarrow> int" where
  "month_start y m = month_starts (leap y) ! nat m"

definition days_in_month :: "int \<Rightarrow> int \<Rightarrow> int" where
  "days_in_month y m = month_start y (m + 1) - month_start y m"

text \<open>\<open>MakeDay\<close>, and the day number of \<open>Date.UTC(y, m, d)\<close>.\<close>

definition make_day :: "int \<Rightarrow> int \<Rightarrow> int \<Rightarrow> int" where
  "make_day y m d = day_from_year (y + m div 12) + month_start (y + m div 12) (m mod 12) + d - 1"

definition utc_day :: "int \<Rightarrow> int \<Rightarrow> int \<Rightarrow> int" where
  "utc_day y m d = make_day (if 0 \<le> y \<and> y \<le> 99 then 1900 + y else y) m d"

lemma div_step:
  fixes x k :: int
  assumes "1 < k"
  shows "(x + 1) div k = x div k + (if (x + 1) mod k = 0 then 1 else 0)"
proof (cases "x mod k + 1 < k")
  case True
  have "x + 1 = k * (x div k) + (x mod k + 1)" by simp
  moreover have nonneg: "0 \<le> x mod k" using assms by simp
  ultimately have "(x + 1) div k = x div k" "(x + 1) mod k = x mod k + 1"
    using True int_div_pos_eq [of "x + 1" k "x div k" "x mod k + 1"]
      int_mod_pos_eq [of "x + 1" k "x div k" "x mod k + 1"] by simp_all
  moreover have "x mod k + 1 \<noteq> 0" using nonneg by linarith
  ultimately show ?thesis by simp
next
  case False
  then have "x mod k + 1 = k" using assms pos_mod_bound [of k x] by linarith
  moreover have "x + 1 = k * (x div k) + (x mod k + 1)" by simp
  ultimately have "x + 1 = k * (x div k) + k" by simp
  then have "x + 1 = k * (x div k + 1) + 0" by (simp add: distrib_left)
  then have "(x + 1) div k = x div k + 1" "(x + 1) mod k = 0"
    using assms int_div_pos_eq [of "x + 1" k "x div k + 1" 0]
      int_mod_pos_eq [of "x + 1" k "x div k + 1" 0] by simp_all
  then show ?thesis by simp
qed

lemma year_length: "day_from_year (y + 1) = day_from_year y + (if leap y then 366 else 365)"
proof -
  have 4: "(y - 1968) div 4 = (y - 1969) div 4 + (if y mod 4 = 0 then 1 else 0)"
    using div_step [of 4 "y - 1969"] mod_mult_self1 [of y "- 492" 4] by simp
  have 100: "(y - 1900) div 100 = (y - 1901) div 100 + (if y mod 100 = 0 then 1 else 0)"
    using div_step [of 100 "y - 1901"] mod_mult_self1 [of y "- 19" 100] by simp
  have 400: "(y - 1600) div 400 = (y - 1601) div 400 + (if y mod 400 = 0 then 1 else 0)"
    using div_step [of 400 "y - 1601"] mod_mult_self1 [of y "- 4" 400] by simp
  have "400 dvd y \<Longrightarrow> 100 dvd y" "100 dvd y \<Longrightarrow> 4 dvd y"
    by (erule dvd_trans [rotated], simp)+
  then have implied: "y mod 400 = 0 \<Longrightarrow> y mod 100 = 0" "y mod 100 = 0 \<Longrightarrow> y mod 4 = 0"
    by (simp_all only: dvd_eq_mod_eq_0)
  define p q r where "p \<longleftrightarrow> y mod 4 = 0" and "q \<longleftrightarrow> y mod 100 = 0" and "r \<longleftrightarrow> y mod 400 = 0"
  note mods = p_def q_def r_def
  have rq: "r \<Longrightarrow> q" "q \<Longrightarrow> p" unfolding mods by (fact implied)+
  have lp: "leap y \<longleftrightarrow> p \<and> (\<not> q \<or> r)" unfolding leap_def mods ..
  define a b c where "a = (y - 1969) div 4" and "b = (y - 1901) div 100" and "c = (y - 1601) div 400"
  note abc = a_def b_def c_def
  have "day_from_year (y + 1) =
      365 * (y - 1970) + 365 + (y - 1968) div 4 - (y - 1900) div 100 + (y - 1600) div 400"
    by (simp add: day_from_year_def)
  then have "day_from_year (y + 1) = 365 * (y - 1970) + 365 + (a + (if p then 1 else 0))
      - (b + (if q then 1 else 0)) + (c + (if r then 1 else 0))"
    unfolding 4 100 400 abc mods .
  moreover have "day_from_year y = 365 * (y - 1970) + a - b + c"
    unfolding day_from_year_def abc by simp
  moreover have "(if leap y then 366 else 365 :: int) =
      365 + (if p then 1 else 0) - (if q then 1 else 0) + (if r then 1 else 0)"
    unfolding lp using rq by (cases p; cases q; cases r) simp_all
  ultimately show ?thesis by linarith
qed

lemma day_from_year_less: "day_from_year y < day_from_year (y + 1)"
  by (simp add: year_length)

lemma day_from_year_mono: "y \<le> z \<Longrightarrow> day_from_year y \<le> day_from_year z"
proof (induction z rule: int_ge_induct)
  case (step i)
  then show ?case using day_from_year_less [of i] by linarith
qed simp

text \<open>\<open>YearFromTime\<close>: the year that starts at or before the day and ends after it.\<close>

function find_year :: "int \<Rightarrow> int \<Rightarrow> int" where
  "find_year n y = (if day_from_year (y + 1) \<le> n then find_year n (y + 1) else y)"
  by pat_completeness auto
termination
  by (relation "measure (\<lambda>(n, y). nat (n - day_from_year y))")
    (use day_from_year_less in \<open>auto simp: nat_less_eq_zless intro: order_less_le_trans\<close>)

declare find_year.simps [simp del]

definition year_of :: "int \<Rightarrow> int" where
  "year_of n = find_year n (if n \<ge> 0 then 1970 + n div 366 else 1970 + n div 365)"

fun find_month :: "int \<Rightarrow> int \<Rightarrow> int list \<Rightarrow> int" where
  "find_month i m (s # t # ts) = (if t \<le> i then find_month i (m + 1) (t # ts) else m)"
| "find_month i m _ = m"

text \<open>The fields of a date: year, month from 0, day of the month.\<close>

definition utc_fields :: "int \<Rightarrow> int \<times> int \<times> int" where
  "utc_fields n =
     (let y = year_of n; i = n - day_from_year y; m = find_month i 0 (month_starts (leap y))
      in (y, m, i - month_start y m + 1))"

lemma find_year_bracket:
  "day_from_year y \<le> n \<Longrightarrow>
     day_from_year (find_year n y) \<le> n \<and> n < day_from_year (find_year n y + 1)"
proof (induction n y rule: find_year.induct)
  case (1 n y)
  show ?case
    by (subst (1 2) find_year.simps) (use 1 in auto)
qed

lemma div_bounds:
  fixes x k :: int
  assumes "0 < k"
  shows "k * (x div k) \<le> x \<and> x < k * (x div k) + k"
proof -
  have "x = k * (x div k) + x mod k" by simp
  moreover have "0 \<le> x mod k" "x mod k < k" using assms by simp_all
  ultimately show ?thesis by linarith
qed

lemma start_year:
  fixes q :: int
  shows "0 \<le> q \<Longrightarrow> day_from_year (1970 + q) \<le> 366 * q"
    and "q < 0 \<Longrightarrow> day_from_year (1970 + q) \<le> 365 * q"
proof -
  obtain a b c where abc: "a = (q + 1) div 4" "b = (q + 69) div 100" "c = (q + 369) div 400" by blast
  have d: "day_from_year (1970 + q) = 365 * q + a - b + c"
    by (simp add: day_from_year_def abc add.commute)
  have bounds: "4 * a \<le> q + 1" "q + 69 < 100 * b + 100" "400 * c \<le> q + 369"
    using div_bounds [of 4 "q + 1"] div_bounds [of 100 "q + 69"] div_bounds [of 400 "q + 369"]
    unfolding abc [symmetric] by simp_all
  show "day_from_year (1970 + q) \<le> 366 * q" if "0 \<le> q"
  proof (cases "q = 0 \<or> q = 1")
    case True
    then show ?thesis by (auto simp: day_from_year_def)
  next
    case False
    with that have "2 \<le> q" by linarith
    with bounds show ?thesis unfolding d by linarith
  qed
  show "day_from_year (1970 + q) \<le> 365 * q" if "q < 0"
  proof (cases "q \<le> -7")
    case True
    with bounds show ?thesis unfolding d by linarith
  next
    case False
    with that have "q = -1 \<or> q = -2 \<or> q = -3 \<or> q = -4 \<or> q = -5 \<or> q = -6" by linarith
    then show ?thesis by (elim disjE) (simp_all add: day_from_year_def)
  qed
qed

lemma year_of_bracket: "day_from_year (year_of n) \<le> n \<and> n < day_from_year (year_of n + 1)"
  unfolding year_of_def
proof (rule find_year_bracket, cases "0 \<le> n")
  case True
  then have "0 \<le> n div 366" by (simp add: pos_imp_zdiv_nonneg_iff)
  then have "day_from_year (1970 + n div 366) \<le> 366 * (n div 366)" by (rule start_year)
  also have "\<dots> \<le> n" using mult_div_mod_eq [of 366 n] pos_mod_sign [of 366 n] by linarith
  finally show "day_from_year (if n \<ge> 0 then 1970 + n div 366 else 1970 + n div 365) \<le> n"
    using True by simp
next
  case False
  then have "n div 365 < 0" by (simp add: neg_imp_zdiv_neg_iff)
  then have "day_from_year (1970 + n div 365) \<le> 365 * (n div 365)" by (rule start_year)
  also have "\<dots> \<le> n" using mult_div_mod_eq [of 365 n] pos_mod_sign [of 365 n] by linarith
  finally show "day_from_year (if n \<ge> 0 then 1970 + n div 366 else 1970 + n div 365) \<le> n"
    using False by simp
qed

lemma year_of_unique:
  assumes "day_from_year y \<le> n" "n < day_from_year (y + 1)"
  shows "year_of n = y"
proof (rule ccontr)
  assume "year_of n \<noteq> y"
  then have "year_of n + 1 \<le> y \<or> y + 1 \<le> year_of n" by linarith
  then show False
    using year_of_bracket [of n] assms day_from_year_mono [of "year_of n + 1" y]
      day_from_year_mono [of "y + 1" "year_of n"] by linarith
qed

lemma month_cases: "0 \<le> m \<Longrightarrow> m \<le> 11 \<Longrightarrow> m \<in> {0, 1, 2, 3, 4, 5, 6, 7, 8, 9, 10, 11 :: int}"
  unfolding insert_iff empty_iff by presburger

lemma find_month_correct:
  assumes "0 \<le> m" "m \<le> 11" "month_start y m \<le> i" "i < month_start y (m + 1)"
  shows "find_month i 0 (month_starts (leap y)) = m"
  using month_cases [OF assms(1,2)] assms(3,4)
  by (cases "leap y") (auto simp: month_start_def month_starts_def)

lemma find_month_scan:
  "ts \<noteq> [] \<Longrightarrow> s \<le> i \<Longrightarrow> i < last ts \<Longrightarrow>
   \<exists>k < length ts. find_month i m (s # ts) = m + int k \<and> (s # ts) ! k \<le> i \<and> i < ts ! k"
proof (induction ts arbitrary: s m)
  case (Cons t ts)
  show ?case
  proof (cases "t \<le> i")
    case True
    with Cons.prems have "ts \<noteq> []" by auto
    with Cons.IH [of t "m + 1"] Cons.prems True obtain k where
      "k < length ts" "find_month i (m + 1) (t # ts) = m + 1 + int k" "(t # ts) ! k \<le> i" "i < ts ! k"
      by auto
    with True show ?thesis by (intro exI [of _ "Suc k"]) simp
  next
    case False
    with Cons.prems show ?thesis by (intro exI [of _ 0]) simp
  qed
qed simp

lemma find_month_bracket:
  assumes "0 \<le> i" "i < (if leap y then 366 else 365)"
  shows "let m = find_month i 0 (month_starts (leap y)) in
    0 \<le> m \<and> m \<le> 11 \<and> month_start y m \<le> i \<and> i < month_start y (m + 1)"
proof -
  obtain ts where ts: "month_starts (leap y) = 0 # ts" "length ts = 12"
    "last ts = (if leap y then 366 else 365)"
    by (cases "leap y") (auto simp: month_starts_def)
  then have "ts \<noteq> []" by auto
  from find_month_scan [OF this, of 0 i 0] assms ts(3) obtain k where
    k: "k < length ts" "find_month i 0 (0 # ts) = int k" "(0 # ts) ! k \<le> i" "i < ts ! k" by auto
  moreover have "nat (int k + 1) = Suc k" by simp
  ultimately show ?thesis using ts(1,2) by (simp add: month_start_def Let_def)
qed

lemma month_in_year:
  assumes "0 \<le> m" "m \<le> 11"
  shows "0 \<le> month_start y m" "month_start y (m + 1) \<le> (if leap y then 366 else 365)"
  using month_cases [OF assms] by (auto simp: month_start_def month_starts_def)

lemma utc_fields_make_day:
  assumes "0 \<le> m" "m \<le> 11" "1 \<le> d" "d \<le> days_in_month y m"
  shows "utc_fields (make_day y m d) = (y, m, d)"
proof -
  define n where "n = make_day y m d"
  have n: "n = day_from_year y + month_start y m + d - 1"
    using assms by (simp add: n_def make_day_def)
  have i: "month_start y m \<le> n - day_from_year y" "n - day_from_year y < month_start y (m + 1)"
    using assms n by (simp_all add: days_in_month_def)
  have "year_of n = y"
    using month_in_year [OF assms(1,2), of y] i by (intro year_of_unique) (auto simp: year_length)
  then show ?thesis
    using find_month_correct [OF assms(1,2) i] n by (simp add: utc_fields_def n_def Let_def)
qed

lemma utc_fields_valid:
  assumes "utc_fields n = (y, m, d)"
  shows "0 \<le> m \<and> m \<le> 11 \<and> 1 \<le> d \<and> d \<le> days_in_month y m \<and> make_day y m d = n"
proof -
  define i where "i = n - day_from_year y"
  have y: "y = year_of n" and m: "m = find_month i 0 (month_starts (leap y))"
    and d: "d = i - month_start y m + 1"
    using assms by (auto simp: utc_fields_def Let_def i_def)
  have "0 \<le> i" "i < (if leap y then 366 else 365)"
    using year_of_bracket [of n] year_length [of y] by (auto simp: i_def y split: if_splits)
  from find_month_bracket [OF this]
  have "0 \<le> m \<and> m \<le> 11 \<and> month_start y m \<le> i \<and> i < month_start y (m + 1)"
    unfolding Let_def m [symmetric] .
  then show ?thesis by (simp add: days_in_month_def d i_def make_day_def)
qed

end
