(* ===== verification/Period.thy ===== *)
theory Period
  imports Calendar UrlParams
begin

section \<open>The period of an analysis\<close>

text \<open>
  \<open>web/src/components/periodParam.ts\<close> and \<open>usePeriodParam.ts\<close>: the period a screen shows lives in
  the page's address, as a number of days or as two dates, and is read back from it. With it the
  date functions of \<open>web/src/api/client.ts\<close>, which turn a period into the dates of a request. A
  time zone's current date comes from the language library and is a parameter.
\<close>

definition PERIOD_PARAM :: string where
  "PERIOD_PARAM = ''days''"

definition MAX_RANGE_DAYS :: int where
  "MAX_RANGE_DAYS = 3660"

definition parsePeriod :: "string option \<Rightarrow> nat \<Rightarrow> nat list \<Rightarrow> nat" where
  "parsePeriod raw fallback options =
     (case raw of
        None \<Rightarrow> fallback
      | Some text \<Rightarrow>
          let t = js_trim text in
          if \<not> (digits_only t \<and> length t \<le> 4) then fallback
          else let value = nat_of_digits t in if value \<in> set options then value else fallback)"

definition withPeriod :: "params \<Rightarrow> nat \<Rightarrow> nat \<Rightarrow> params" where
  "withPeriod ps days fallback =
     (let next = param_delete ''to'' (param_delete ''from'' ps) in
      if days = fallback then param_delete PERIOD_PARAM next
      else param_set PERIOD_PARAM (nat_text days) next)"

record date_range =
  from_day :: string
  to_day :: string

text \<open>The pattern \<open>/^(\d{4})-(\d{2})-(\d{2})$/\<close>.\<close>

definition match_date :: "string \<Rightarrow> (int \<times> int \<times> int) option" where
  "match_date s =
     (if length s = 10 \<and> s ! 4 = CHR ''-'' \<and> s ! 7 = CHR ''-''
         \<and> list_all is_digit (take 4 s) \<and> list_all is_digit (take 2 (drop 5 s))
         \<and> list_all is_digit (drop 8 s)
      then Some (int (nat_of_digits (take 4 s)), int (nat_of_digits (take 2 (drop 5 s))),
                 int (nat_of_digits (drop 8 s)))
      else None)"

definition dayNumber :: "string \<Rightarrow> int option" where
  "dayNumber value =
     (case match_date value of
        None \<Rightarrow> None
      | Some (year, month, day) \<Rightarrow>
          let n = utc_day year (month - 1) day in
          if utc_fields n \<noteq> (year, month - 1, day) then None else Some n)"

definition or_zero :: "int option \<Rightarrow> int" where
  "or_zero v = (case v of Some n \<Rightarrow> n | None \<Rightarrow> 0)"

definition rangeLength :: "date_range \<Rightarrow> int" where
  "rangeLength r = or_zero (dayNumber (to_day r)) - or_zero (dayNumber (from_day r)) + 1"

definition parseRange :: "string option \<Rightarrow> string option \<Rightarrow> date_range option" where
  "parseRange from to =
     (case (from, to) of
        (Some f, Some t) \<Rightarrow>
          if f = [] \<or> t = [] then None
          else (case (dayNumber (js_trim f), dayNumber (js_trim t)) of
                  (Some start, Some stop) \<Rightarrow>
                    if start > stop then None
                    else if stop - start + 1 > MAX_RANGE_DAYS then None
                    else Some \<lparr>from_day = js_trim f, to_day = js_trim t\<rparr>
                | _ \<Rightarrow> None)
      | _ \<Rightarrow> None)"

datatype range_problem =
    PickBothDates | StartsAfterEnd | EndsInFuture
  | OverPolicy int int         \<comment> \<open>the policy's limit and the chosen length\<close>
  | OverMaximum int

definition rangeProblem :: "date_range \<Rightarrow> string \<Rightarrow> int option \<Rightarrow> range_problem option" where
  "rangeProblem rng today maxDays =
     (case (dayNumber (from_day rng), dayNumber (to_day rng)) of
        (Some start, Some stop) \<Rightarrow>
          if start > stop then Some StartsAfterEnd
          else if (case dayNumber today of Some n \<Rightarrow> stop > n | None \<Rightarrow> False) then Some EndsInFuture
          else let len = stop - start + 1 in
            (case maxDays of
               Some m \<Rightarrow> if m > 0 \<and> len > m then Some (OverPolicy m len)
                         else if len > MAX_RANGE_DAYS then Some (OverMaximum MAX_RANGE_DAYS) else None
             | None \<Rightarrow> if len > MAX_RANGE_DAYS then Some (OverMaximum MAX_RANGE_DAYS) else None)
      | _ \<Rightarrow> Some PickBothDates)"

definition withRange :: "params \<Rightarrow> date_range option \<Rightarrow> params" where
  "withRange ps rng =
     (let next = param_delete PERIOD_PARAM ps in
      case rng of
        Some r \<Rightarrow> param_set ''to'' (to_day r) (param_set ''from'' (from_day r) next)
      | None \<Rightarrow> param_delete ''to'' (param_delete ''from'' next))"

definition periodKey :: "int \<Rightarrow> date_range option \<Rightarrow> string" where
  "periodKey days rng =
     (case rng of Some r \<Rightarrow> from_day r @ ''..'' @ to_day r | None \<Rightarrow> int_text days)"

subsection \<open>The hook\<close>

definition TOOLBAR_PERIODS :: "nat list" where
  "TOOLBAR_PERIODS = [7, 30, 90]"

record period =
  days :: int
  custom :: "date_range option"
  period_key :: string

definition usePeriodParam :: "params \<Rightarrow> nat \<Rightarrow> nat list \<Rightarrow> period" where
  "usePeriodParam ps fallback options =
     (let c = parseRange (param_get ps ''from'') (param_get ps ''to'');
          n = (case c of
                 Some r \<Rightarrow> rangeLength r
               | None \<Rightarrow> int (parsePeriod (param_get ps PERIOD_PARAM) fallback options));
          rng = (case c of
                     Some r \<Rightarrow> if from_day r \<noteq> [] \<and> to_day r \<noteq> [] then Some r else None
                   | None \<Rightarrow> None)
      in \<lparr>days = n, custom = rng, period_key = periodKey n rng\<rparr>)"

subsection \<open>The dates of a request\<close>

definition date_text :: "int \<times> int \<times> int \<Rightarrow> string" where
  "date_text f =
     (case f of (y, m, d) \<Rightarrow>
        int_text y @ ''-'' @ pad_zero 2 (int_text (m + 1)) @ ''-'' @ pad_zero 2 (int_text d))"

text \<open>\<open>today\<close> is the current date in the site's time zone: year, month from 1, day.\<close>

definition dateRangeValues :: "int \<Rightarrow> int \<times> int \<times> int \<Rightarrow> date_range" where
  "dateRangeValues n today =
     (case today of (year, month, day) \<Rightarrow>
        \<lparr>from_day = date_text (utc_fields (utc_day year (month - 1) (day - (n - 1)))),
         to_day = int_text year @ ''-'' @ pad_zero 2 (int_text month) @ ''-''
                  @ pad_zero 2 (int_text day)\<rparr>)"

definition periodRange :: "period \<Rightarrow> int \<times> int \<times> int \<Rightarrow> date_range" where
  "periodRange p today =
     (case custom p of Some r \<Rightarrow> r | None \<Rightarrow> dateRangeValues (days p) today)"

text \<open>\<open>stored\<close> is the item \<open>momento:selected-environment\<close> of the browser's storage.\<close>

definition rangeQueryFor :: "string option \<Rightarrow> date_range \<Rightarrow> string" where
  "rangeQueryFor stored r =
     (let environment = (case stored of Some e \<Rightarrow> or_str e ''prd'' | None \<Rightarrow> ''prd'') in
      ''from='' @ from_day r @ ''&to='' @ to_day r @ ''&environment='' @ encodeURIComponent environment)"

definition periodQuery :: "string option \<Rightarrow> period \<Rightarrow> int \<times> int \<times> int \<Rightarrow> string" where
  "periodQuery stored p today = rangeQueryFor stored (periodRange p today)"

definition rangeQuery :: "string option \<Rightarrow> int \<Rightarrow> int \<times> int \<times> int \<Rightarrow> string" where
  "rangeQuery stored n today = rangeQueryFor stored (dateRangeValues n today)"

subsection \<open>Date text\<close>

lemma int_text_nat: "0 \<le> k \<Longrightarrow> int_text k = nat_text (nat k)"
  by (simp add: int_text_def)

lemma nat_text_small: "n < 10 \<Longrightarrow> nat_text n = [digit_char n]"
  by (subst nat_text.simps) simp

lemma nat_text_step: "10 \<le> n \<Longrightarrow> nat_text n = nat_text (n div 10) @ [digit_char (n mod 10)]"
  by (subst nat_text.simps) simp

lemma four_digits: "1000 \<le> n \<Longrightarrow> n \<le> 9999 \<Longrightarrow> length (nat_text n) = 4"
  using div_le_mono [of n 9999 10] div_le_mono [of n 9999 100] div_le_mono [of n 9999 1000]
    div_le_mono [of 1000 n 10] div_le_mono [of 1000 n 100] div_le_mono [of 1000 n 1000]
  by (simp add: nat_text_step nat_text_small div_mult2_eq [symmetric])

lemma two_digits:
  assumes "n < 100"
  shows "length (pad_zero 2 (nat_text n)) = 2" "nat_of_digits (pad_zero 2 (nat_text n)) = n"
    "list_all is_digit (pad_zero 2 (nat_text n))"
proof -
  have "n div 10 < 10" using assms by simp
  moreover have "\<not> n < 10 \<Longrightarrow> nat_text n = nat_text (n div 10) @ [digit_char (n mod 10)]"
    by (rule nat_text_step) simp
  ultimately have "nat_text n = (if n < 10 then [digit_char n]
      else [digit_char (n div 10), digit_char (n mod 10)])"
    by (simp add: nat_text_small)
  moreover have "is_digit CHR ''0''" "digit_val CHR ''0'' = 0"
    by (simp_all add: char_simps digit_val_def)
  ultimately show "length (pad_zero 2 (nat_text n)) = 2"
    "nat_of_digits (pad_zero 2 (nat_text n)) = n" "list_all is_digit (pad_zero 2 (nat_text n))"
    using assms by (auto simp: pad_zero_def nat_of_digits_def)
qed

lemma match_date_text:
  assumes "1000 \<le> y" "y \<le> 9999" "1 \<le> m" "m \<le> 12" "1 \<le> d" "d \<le> 31"
  shows "match_date (int_text y @ ''-'' @ pad_zero 2 (int_text m) @ ''-'' @ pad_zero 2 (int_text d))
     = Some (y, m, d)"
proof -
  have Y: "length (nat_text (nat y)) = 4" using assms by (intro four_digits) auto
  have Yd: "list_all is_digit (nat_text (nat y))"
    using all_digits_nat_text by (simp add: list_all_iff)
  have "nat m < 100" "nat d < 100" using assms by auto
  note M = two_digits [OF this(1)] and D = two_digits [OF this(2)]
  have len: "length (nat_text (nat y) @ ''-'' @ pad_zero 2 (nat_text (nat m)) @ ''-''
      @ pad_zero 2 (nat_text (nat d))) = 10"
    using Y M(1) D(1) by simp
  show ?thesis
    using assms Y Yd M D len by (simp add: match_date_def int_text_nat nth_append)
qed

lemma date_text_day:
  assumes "utc_fields n = (y, m, d)" "1000 \<le> y" "y \<le> 9999"
  shows "dayNumber (date_text (y, m, d)) = Some n"
proof -
  note v = utc_fields_valid [OF assms(1)]
  then have "d \<le> 31"
    using month_cases [of m] by (auto simp: days_in_month_def month_start_def month_starts_def split: if_splits)
  then have "match_date (date_text (y, m, d)) = Some (y, m + 1, d)"
    using match_date_text [of y "m + 1" d] v assms by (simp add: date_text_def)
  moreover have "utc_day y m d = n" using v assms(2) by (simp add: utc_day_def)
  ultimately show ?thesis using assms(1) by (simp add: dayNumber_def)
qed

lemma digits_trim: "dayNumber t = Some n \<Longrightarrow> js_trim t = t"
proof -
  assume "dayNumber t = Some n"
  then have m: "length t = 10" "t ! 4 = CHR ''-''" "t ! 7 = CHR ''-''"
    "list_all is_digit (take 4 t)" "list_all is_digit (take 2 (drop 5 t))"
    "list_all is_digit (drop 8 t)"
    by (auto simp: dayNumber_def match_date_def split: option.splits if_splits)
  have t: "t = take 4 t @ [t ! 4] @ take 2 (drop 5 t) @ [t ! 7] @ drop 8 t"
    using m(1) by (auto simp: list_eq_iff_nth_eq nth_append nth_Cons' intro: arg_cong [of _ _ "nth t"])
  have "\<forall>c \<in> set t. \<not> is_space c"
    using m digit_not_space by (subst t) (auto simp: list_all_iff char_simps)
  then show "js_trim t = t" by (rule js_trim_id)
qed

subsection \<open>The address holds the period\<close>

text \<open>A direct range that the screen accepts: both dates exist and stand in the address as they are.\<close>

definition good_range :: "date_range \<Rightarrow> bool" where
  "good_range r \<longleftrightarrow> parseRange (Some (from_day r)) (Some (to_day r)) = Some r"

lemma length_nat_text: "n < 10 ^ Suc k \<Longrightarrow> length (nat_text n) \<le> Suc k"
proof (induction k arbitrary: n)
  case 0
  then show ?case by (simp add: nat_text_small)
next
  case (Suc k)
  show ?case
  proof (cases "n < 10")
    case False
    have "n div 10 < 10 ^ Suc k" using Suc.prems by (simp add: less_mult_imp_div_less)
    from Suc.IH [OF this] False show ?thesis by (simp add: nat_text_step)
  qed (simp add: nat_text_small)
qed

lemma parsePeriod_text: "d \<in> set options \<Longrightarrow> d \<le> 9999 \<Longrightarrow> parsePeriod (Some (nat_text d)) fb options = d"
proof -
  assume d: "d \<in> set options" "d \<le> 9999"
  have "length (nat_text d) \<le> Suc 3" using d(2) by (intro length_nat_text) simp
  then show ?thesis
    using d by (simp add: parsePeriod_def js_trim_digits [OF conjunct2 [OF digits_only_nat_text [unfolded digits_only_def]]] Let_def)
qed

lemma parseRange_nonempty: "parseRange f t = Some r \<Longrightarrow> from_day r \<noteq> [] \<and> to_day r \<noteq> []"
  by (auto simp: parseRange_def dayNumber_def match_date_def split: option.splits if_splits)

lemma good_range_days:
  assumes "good_range r"
  shows "\<exists>a b. dayNumber (from_day r) = Some a \<and> dayNumber (to_day r) = Some b
    \<and> a \<le> b \<and> b - a + 1 \<le> MAX_RANGE_DAYS"
proof -
  obtain a b where ab: "dayNumber (js_trim (from_day r)) = Some a" "dayNumber (js_trim (to_day r)) = Some b"
    "a \<le> b" "b - a + 1 \<le> MAX_RANGE_DAYS"
    and r: "r = \<lparr>from_day = js_trim (from_day r), to_day = js_trim (to_day r)\<rparr>"
    using assms by (auto simp: good_range_def parseRange_def split: option.splits if_splits)
  have "from_day r = js_trim (from_day r)" "to_day r = js_trim (to_day r)"
    using arg_cong [OF r, of from_day] arg_cong [OF r, of to_day] by simp_all
  with ab show ?thesis by metis
qed

lemma date_nonempty: "dayNumber s = Some n \<Longrightarrow> s \<noteq> []"
  by (auto simp: dayNumber_def match_date_def)

lemma parseRange_good: "parseRange f t = Some r \<Longrightarrow> good_range r"
  unfolding parseRange_def good_range_def
  by (auto dest: date_nonempty split: option.splits if_splits)

text \<open>
  C38: A period written to the address is read back from it: an offered number of days as the last
  days, a valid range as itself with its length, whatever the address said before; and a valid
  range has at least one and at most \<open>MAX_RANGE_DAYS\<close> days.
\<close>

theorem period_roundtrip:
  assumes "d \<in> set options" "d \<le> 9999" "good_range r"
  shows "usePeriodParam (withPeriod ps d fallback) fallback options =
           \<lparr>days = int d, custom = None, period_key = nat_text d\<rparr>
       \<and> usePeriodParam (withRange ps (Some r)) fallback options =
           \<lparr>days = rangeLength r, custom = Some r, period_key = from_day r @ ''..'' @ to_day r\<rparr>
       \<and> 1 \<le> rangeLength r \<and> rangeLength r \<le> MAX_RANGE_DAYS"
proof (intro conjI)
  have "parsePeriod (param_get (withPeriod ps d fallback) PERIOD_PARAM) fallback options = d"
    using parsePeriod_text [OF assms(1,2), of fallback]
    by (auto simp: withPeriod_def Let_def) (simp add: parsePeriod_def)
  moreover have "param_get (withPeriod ps d fallback) ''from'' = None"
    by (simp add: withPeriod_def Let_def PERIOD_PARAM_def)
  ultimately show "usePeriodParam (withPeriod ps d fallback) fallback options =
      \<lparr>days = int d, custom = None, period_key = nat_text d\<rparr>"
    by (simp add: usePeriodParam_def parseRange_def periodKey_def int_text_nat)
  show "usePeriodParam (withRange ps (Some r)) fallback options =
      \<lparr>days = rangeLength r, custom = Some r, period_key = from_day r @ ''..'' @ to_day r\<rparr>"
    using assms(3) parseRange_nonempty [of _ _ r]
    by (simp add: usePeriodParam_def withRange_def good_range_def periodKey_def)
  show "1 \<le> rangeLength r" "rangeLength r \<le> MAX_RANGE_DAYS"
    using good_range_days [OF assms(3)] by (auto simp: rangeLength_def or_zero_def)
qed

lemma period_roundtrip_witness:
  "usePeriodParam (withPeriod [(''from'', ''2026-01-01'')] 90 30) 30 TOOLBAR_PERIODS =
     \<lparr>days = 90, custom = None, period_key = nat_text 90\<rparr>"
proof -
  have g: "good_range \<lparr>from_day = ''2024-02-29'', to_day = ''2024-03-01''\<rparr>"
  proof -
    have "dayNumber ''2024-02-29'' = Some 19782" "dayNumber ''2024-03-01'' = Some 19783"
      using date_text_day [of 19782 2024 1 29] date_text_day [of 19783 2024 2 1]
        utc_fields_make_day [of 1 29 2024] utc_fields_make_day [of 2 1 2024]
      by (simp_all add: make_day_def day_from_year_def month_start_def month_starts_def leap_def
          days_in_month_def date_text_def int_text_def pad_zero_def nat_text_step nat_text_small
          digit_char_def char_of_def bit_0)
    then show ?thesis
      using digits_trim [of "''2024-02-29''"] digits_trim [of "''2024-03-01''"]
      by (simp add: good_range_def parseRange_def MAX_RANGE_DAYS_def)
  qed
  show ?thesis
    using period_roundtrip [OF _ _ g, of 90 TOOLBAR_PERIODS "[(''from'', ''2026-01-01'')]" 30]
    by (simp add: TOOLBAR_PERIODS_def)
qed

text \<open>
  The dates the console requests for the last n days are dates of the calendar: they read back
  as a valid range of exactly n days that ends today, which the form for a direct range accepts.
\<close>

theorem last_days_are_a_range:
  assumes today: "utc_fields t = (y, m - 1, d)" "1970 \<le> y" "y \<le> 9999"
    and n: "1 \<le> n" "n \<le> MAX_RANGE_DAYS"
  shows "let r = dateRangeValues n (y, m, d) in
    good_range r \<and> rangeLength r = n \<and> dayNumber (to_day r) = Some t
    \<and> rangeProblem r (to_day r) None = None"
proof -
  note v = utc_fields_valid [OF today(1)]
  have mm: "(m - 1) div 12 = 0" "(m - 1) mod 12 = m - 1" using v by simp_all
  have start: "utc_day y (m - 1) (d - (n - 1)) = t - (n - 1)"
    using v today(2) by (simp add: utc_day_def make_day_def mm)
  obtain y' m' d' where f: "utc_fields (t - (n - 1)) = (y', m', d')"
    by (cases "utc_fields (t - (n - 1))")
  have y': "y' = year_of (t - (n - 1))" using f by (simp add: utc_fields_def Let_def)
  have "day_from_year 1970 \<le> day_from_year y" using today(2) by (rule day_from_year_mono)
  also have "\<dots> \<le> t"
    using v month_in_year(1) [of "m - 1" y] by (simp add: make_day_def mm)
  finally have "0 \<le> t" by (simp add: day_from_year_def)
  moreover have "day_from_year 1000 \<le> - 4000" by (simp add: day_from_year_def)
  ultimately have low: "day_from_year 1000 \<le> t - (n - 1)"
    using n unfolding MAX_RANGE_DAYS_def by linarith
  note bracket = year_of_bracket [of "t - (n - 1)", folded y']
  have "1000 \<le> y'"
  proof (rule ccontr)
    assume "\<not> 1000 \<le> y'"
    then have "day_from_year (y' + 1) \<le> day_from_year 1000" by (intro day_from_year_mono) simp
    with low bracket show False by linarith
  qed
  moreover have "y' \<le> 9999"
  proof (rule ccontr)
    assume "\<not> y' \<le> 9999"
    then have "day_from_year (y + 1) \<le> day_from_year y'" using today(3) by (intro day_from_year_mono) simp
    moreover have "y = year_of t" using today(1) by (simp add: utc_fields_def Let_def)
    then have "t < day_from_year (y + 1)" using year_of_bracket [of t] by simp
    ultimately show False using bracket n by linarith
  qed
  ultimately have from_day: "dayNumber (date_text (y', m', d')) = Some (t - (n - 1))"
    by (rule date_text_day [OF f])
  have to_day: "dayNumber (date_text (y, m - 1, d)) = Some t"
    using today by (intro date_text_day) auto
  have r: "dateRangeValues n (y, m, d) =
      \<lparr>from_day = date_text (y', m', d'), to_day = date_text (y, m - 1, d)\<rparr>"
    by (simp add: dateRangeValues_def start f) (simp add: date_text_def)
  have ne: "date_text x \<noteq> []" for x by (cases x) (simp add: date_text_def)
  show ?thesis
    using from_day to_day n ne digits_trim [OF from_day] digits_trim [OF to_day]
    by (simp add: r good_range_def parseRange_def rangeLength_def or_zero_def rangeProblem_def)
qed

lemma last_days_are_a_range_witness:
  "let r = dateRangeValues 30 (2024, 3, 1) in
    good_range r \<and> rangeLength r = 30 \<and> dayNumber (to_day r) = Some 19783
    \<and> rangeProblem r (to_day r) None = None"
proof (rule last_days_are_a_range)
  have "make_day 2024 2 1 = 19783"
    by (simp add: make_day_def day_from_year_def month_start_def month_starts_def leap_def)
  then show "utc_fields 19783 = (2024, 3 - 1, 1)"
    using utc_fields_make_day [of 2 1 2024] by (simp add: days_in_month_def month_start_def month_starts_def leap_def)
qed (simp_all add: MAX_RANGE_DAYS_def)

lemma query_has_three_parameters:
  "\<exists>e. periodQuery stored p today =
     ''from='' @ from_day (periodRange p today) @ ''&to='' @ to_day (periodRange p today)
     @ ''&environment='' @ e \<and> CHR ''&'' \<notin> set e \<and> CHR ''='' \<notin> set e"
  unfolding periodQuery_def rangeQueryFor_def Let_def
  using uri_encode_marks by blast

end
