(* ===== verification/Cidr.thy ===== *)
theory Cidr
  imports ConsoleBase "HOL-Library.Word"
begin

unbundle bit_operations_syntax

section \<open>Network ranges\<close>

text \<open>
  \<open>web/src/pages/cidrRule.ts\<close>: what the form for network ranges says about a CIDR before it
  is sent. The address arithmetic of the source is on unbounded numbers; the theorems compare it
  with the mask on 32-bit words.
\<close>

datatype cidr_message =
    NoBitsYet                  \<comment> \<open>the number of bits is missing, with \<open>CIDR_RULE\<close>\<close>
  | BitsNotANumber             \<comment> \<open>with \<open>CIDR_RULE\<close>\<close>
  | BitsOutOfRange bool        \<comment> \<open>the range of IPv6, or that of IPv4\<close>
  | NotFourOctets              \<comment> \<open>with \<open>CIDR_RULE\<close>\<close>
  | StartsAt string nat        \<comment> \<open>the first address of the range and the number of bits\<close>

record cidr_judgement =
  blocking :: "cidr_message option"
  wrong :: bool
  hint :: "cidr_message option"

definition no_objection :: cidr_judgement where
  "no_objection = \<lparr>blocking = None, wrong = False, hint = None\<rparr>"

definition IPV4_MAX_BITS :: nat where
  "IPV4_MAX_BITS = 32"

definition IPV6_MAX_BITS :: nat where
  "IPV6_MAX_BITS = 128"

fun read_octets :: "string list \<Rightarrow> nat list option" where
  "read_octets [] = Some []"
| "read_octets (f # fs) =
     (if \<not> digits_only f then None
      else if nat_of_digits f > 255 then None
      else map_option (\<lambda>os. nat_of_digits f # os) (read_octets fs))"

definition readIPv4 :: "string \<Rightarrow> nat list option" where
  "readIPv4 address =
     (let fields = split_on CHR ''.'' address in
      if length fields \<noteq> 4 then None else read_octets fields)"

definition dotted :: "nat \<Rightarrow> string" where
  "dotted v =
     join ''.'' (map (\<lambda>place. nat_text (v div place mod 256)) [2 ^ 24, 2 ^ 16, 2 ^ 8, 1])"

definition address_value :: "nat list \<Rightarrow> nat" where
  "address_value octets = foldl (\<lambda>acc octet. acc * 256 + octet) 0 octets"

definition range_start :: "nat \<Rightarrow> nat \<Rightarrow> nat" where
  "range_start v bits = v - v mod 2 ^ (IPV4_MAX_BITS - bits)"

definition judgeCIDR :: "string \<Rightarrow> cidr_judgement" where
  "judgeCIDR text =
     (if text = [] then no_objection
      else case index_of ''/'' text of
        None \<Rightarrow> no_objection\<lparr>blocking := Some NoBitsYet\<rparr>
      | Some slash \<Rightarrow>
          let address = take slash text;
              mask_text = drop (Suc slash) text;
              ipv6 = js_includes address '':'';
              maxBits = (if ipv6 then IPV6_MAX_BITS else IPV4_MAX_BITS)
          in if \<not> digits_only mask_text
             then no_objection\<lparr>blocking := Some BitsNotANumber, wrong := True\<rparr>
             else
               let bits = nat_of_digits mask_text in
               if bits > maxBits
               then no_objection\<lparr>blocking := Some (BitsOutOfRange ipv6), wrong := True\<rparr>
               else if ipv6 then no_objection
               else case readIPv4 address of
                      None \<Rightarrow> no_objection\<lparr>blocking := Some NotFourOctets, wrong := True\<rparr>
                    | Some octets \<Rightarrow>
                        let v = address_value octets; start = range_start v bits in
                        if start \<noteq> v
                        then no_objection\<lparr>hint := Some (StartsAt (dotted start) bits)\<rparr>
                        else no_objection)"

subsection \<open>Dotted text and its value\<close>

lemma dotted_no_slash: "c \<in> set (dotted v) \<Longrightarrow> is_digit c \<or> c = CHR ''.''"
  using nat_text_digits by (auto simp: dotted_def)

lemma dotted_marks: "CHR ''/'' \<notin> set (dotted v)" "CHR '':'' \<notin> set (dotted v)"
  using dotted_no_slash [of _ v] by (fastforce simp: char_simps)+

lemma nat_text_no_dot [simp]: "CHR ''.'' \<notin> set (nat_text n)"
  using nat_text_digits [of "CHR ''.''" n] by (auto simp: char_simps)

lemma split_dotted:
  "split_on CHR ''.'' (dotted v) =
     map (\<lambda>place. nat_text (v div place mod 256)) [2 ^ 24, 2 ^ 16, 2 ^ 8, 1]"
  unfolding dotted_def by (rule split_on_join) auto

lemma read_octets_texts:
  "\<forall>n \<in> set ns. n \<le> 255 \<Longrightarrow> read_octets (map nat_text ns) = Some ns"
  by (induction ns) auto

lemma octet_small: "(n :: nat) mod 256 \<le> 255"
  using mod_less_divisor [of 256 n] by linarith

definition octets_of :: "nat \<Rightarrow> nat list" where
  "octets_of v = map (\<lambda>place. v div place mod 256) [2 ^ 24, 2 ^ 16, 2 ^ 8, 1]"

lemma octets_of_small: "\<forall>n \<in> set (octets_of v). n \<le> 255"
  unfolding octets_of_def set_map by (intro ballI) (elim imageE, simp only: octet_small)

lemma readIPv4_dotted: "readIPv4 (dotted v) = Some (octets_of v)"
proof -
  have "split_on CHR ''.'' (dotted v) = map nat_text (octets_of v)"
    unfolding split_dotted octets_of_def map_map o_def ..
  moreover have "length (octets_of v) = 4" by (simp only: octets_of_def length_map list.size)
  ultimately show ?thesis
    using read_octets_texts [OF octets_of_small [of v]] by (simp only: readIPv4_def Let_def length_map) simp
qed

lemma base256: "(v :: nat) < 256 * m \<Longrightarrow> v div m mod 256 = v div m"
  by (rule mod_less) (rule less_mult_imp_div_less)

lemma nested_div:
  "(v :: nat) div 2 ^ 24 = v div 256 div 256 div 256" "v div 2 ^ 16 = v div 256 div 256"
  "v div 2 ^ 8 = v div 256"
  by (simp_all add: div_mult2_eq [symmetric])

lemma address_value_octets:
  assumes "v < 2 ^ 32"
  shows "address_value (octets_of v) = v"
proof -
  have top: "v div 2 ^ 24 mod 256 = v div 2 ^ 24"
    by (rule base256) (use assms in simp)
  have "address_value (octets_of v) =
     ((v div 2 ^ 24 * 256 + v div 2 ^ 16 mod 256) * 256 + v div 2 ^ 8 mod 256) * 256 + v mod 256"
    by (simp only: address_value_def octets_of_def list.map foldl.simps top div_by_1 mult_0 add_0)
  also have "\<dots> = v"
    by (simp only: nested_div div_mult_mod_eq)
  finally show ?thesis .
qed

lemma address_value_less:
  assumes "list_all (\<lambda>n. n \<le> 255) os" "length os = 4"
  shows "address_value os < 2 ^ 32"
proof -
  obtain a b c d where os: "os = [a, b, c, d]"
    using assms(2) by (auto simp: length_Suc_conv eval_nat_numeral)
  then have "a \<le> 255" "b \<le> 255" "c \<le> 255" "d \<le> 255" using assms(1) by simp_all
  then have "((a * 256 + b) * 256 + c) * 256 + d < 4294967296"
    by (simp add: add_mult_distrib)
  then show ?thesis by (simp add: os address_value_def)
qed

lemma read_octets_bound:
  "read_octets fs = Some os \<Longrightarrow> length os = length fs \<and> list_all (\<lambda>n. n \<le> 255) os"
  by (induction fs arbitrary: os) (auto split: if_splits)

lemma readIPv4_value: "readIPv4 a = Some os \<Longrightarrow> address_value os < 2 ^ 32"
  using read_octets_bound address_value_less by (auto simp: readIPv4_def Let_def split: if_splits)

text \<open>Every 32-bit address is read back from its dotted text.\<close>

lemma dotted_roundtrip:
  "v < 2 ^ 32 \<Longrightarrow> map_option address_value (readIPv4 (dotted v)) = Some v"
  by (simp only: readIPv4_dotted option.map address_value_octets)

subsection \<open>The first address of a range\<close>

text \<open>Clearing the host bits of the word is what the subtraction of the remainder does.\<close>

lemma range_start_word:
  assumes "v < 2 ^ 32" "bits \<le> 32"
  shows "range_start v bits = unat (word_of_nat v AND NOT (mask (32 - bits)) :: 32 word)"
proof -
  define w :: "32 word" where "w = word_of_nat v"
  have v: "unat w = v" using assms by (simp add: w_def unat_of_nat take_bit_nat_eq_self)
  define n where "n = 32 - bits"
  have "w AND NOT (mask n) = push_bit n (drop_bit n w)"
    by (rule bit_word_eqI) (auto simp: bit_simps)
  then have "unat (w AND NOT (mask n)) = take_bit 32 (push_bit n (drop_bit n (take_bit 32 v)))"
    by (simp only: unsigned_push_bit_eq unsigned_drop_bit_eq v) simp
  also have "\<dots> = (v div 2 ^ n * 2 ^ n) mod 2 ^ 32"
    using assms by (simp only: take_bit_eq_mod push_bit_eq_mult drop_bit_eq_div mod_less)
  also have "v div 2 ^ n * 2 ^ n = v - v mod 2 ^ n" by (simp add: minus_mod_eq_div_mult)
  also have "(v - v mod 2 ^ n) mod 2 ^ 32 = v - v mod 2 ^ n"
    using assms by (intro mod_less) linarith
  finally show ?thesis by (simp add: range_start_def IPV4_MAX_BITS_def w_def n_def)
qed

lemma range_start_le: "range_start v bits \<le> v"
  by (simp add: range_start_def)

lemma range_start_idem: "range_start (range_start v bits) bits = range_start v bits"
  by (simp add: range_start_def)

lemma judge_v4_text:
  assumes "readIPv4 a = Some os" "CHR ''/'' \<notin> set a" "CHR '':'' \<notin> set a"
    and "digits_only m" "nat_of_digits m \<le> 32"
  shows "judgeCIDR (a @ CHR ''/'' # m) =
     (let v = address_value os; start = range_start v (nat_of_digits m) in
      if start \<noteq> v
      then no_objection\<lparr>hint := Some (StartsAt (dotted start) (nat_of_digits m))\<rparr>
      else no_objection)"
  using assms index_of_append [of "CHR ''/''" a m] index_of_none [of "CHR '':''" a]
  by (simp add: judgeCIDR_def js_includes_def IPV4_MAX_BITS_def Let_def)

lemmas judge_v4 = judge_v4_text [OF _ _ _ digits_only_nat_text, unfolded nat_of_digits_nat_text]

lemma js_includes_char: "js_includes x [c] \<longleftrightarrow> c \<in> set x"
  by (induction x) (auto simp: js_includes_def)

lemma judge_inv:
  assumes "blocking (judgeCIDR t) = None" "t \<noteq> []"
  obtains a m where "t = a @ CHR ''/'' # m" "CHR ''/'' \<notin> set a" "digits_only m"
    "nat_of_digits m \<le> (if CHR '':'' \<in> set a then 128 else 32)"
    "CHR '':'' \<notin> set a \<longrightarrow> readIPv4 a \<noteq> None"
proof -
  from assms obtain i where i: "index_of ''/'' t = Some i"
    by (cases "index_of ''/'' t") (auto simp: judgeCIDR_def no_objection_def)
  have inc: "js_includes x '':'' \<longleftrightarrow> CHR '':'' \<in> set x" for x
    by (rule js_includes_char)
  have "t = take i t @ CHR ''/'' # drop (Suc i) t" "CHR ''/'' \<notin> set (take i t)"
    using index_of_split [OF i] by blast+
  moreover have "digits_only (drop (Suc i) t)"
    "nat_of_digits (drop (Suc i) t) \<le> (if CHR '':'' \<in> set (take i t) then 128 else 32)"
    "CHR '':'' \<notin> set (take i t) \<longrightarrow> readIPv4 (take i t) \<noteq> None"
    using assms i
    by (auto simp: judgeCIDR_def no_objection_def inc Let_def IPV4_MAX_BITS_def IPV6_MAX_BITS_def
        split: if_splits option.splits)
  ultimately show thesis using that by blast
qed

lemma hint_not_blocking: "hint (judgeCIDR t) \<noteq> None \<Longrightarrow> blocking (judgeCIDR t) = None \<and> t \<noteq> []"
  by (auto simp: judgeCIDR_def no_objection_def Let_def split: if_splits option.splits)

lemma ipv6_no_hint:
  "CHR ''/'' \<notin> set a \<Longrightarrow> CHR '':'' \<in> set a \<Longrightarrow> digits_only m \<Longrightarrow> nat_of_digits m \<le> 128 \<Longrightarrow>
   judgeCIDR (a @ CHR ''/'' # m) = no_objection"
  using index_of_append [of "CHR ''/''" a m]
  by (simp add: judgeCIDR_def js_includes_char IPV6_MAX_BITS_def)

subsection \<open>What the form says\<close>

text \<open>
  C32: For an IPv4 range written as an address and a number of bits up to 32, the form objects to
  nothing, and it names a first address exactly when the address has bits set outside the network
  mask; that first address is the bitwise conjunction of the 32-bit address with the mask.
\<close>

theorem judged_like_the_mask:
  assumes "v < 2 ^ 32" "bits \<le> 32"
    and net: "net = (word_of_nat v AND NOT (mask (32 - bits)) :: 32 word)"
  shows "judgeCIDR (dotted v @ ''/'' @ nat_text bits) =
     (if net = word_of_nat v then no_objection
      else no_objection\<lparr>hint := Some (StartsAt (dotted (unat net)) bits)\<rparr>)"
proof -
  have start: "range_start v bits = unat net"
    unfolding net by (rule range_start_word [OF assms(1,2)])
  have v: "unat (word_of_nat v :: 32 word) = v"
    using assms by (simp add: unat_of_nat take_bit_nat_eq_self)
  have same: "net = word_of_nat v \<longleftrightarrow> unat net = v"
    by (metis v unsigned_word_eqI)
  show ?thesis
    using judge_v4 [OF readIPv4_dotted dotted_marks assms(2), of v]
    by (simp add: address_value_octets [OF assms(1)] start same)
qed

lemma judged_like_the_mask_witness:
  "judgeCIDR (dotted 169090561 @ ''/'' @ nat_text 24) =
     no_objection\<lparr>hint := Some (StartsAt (dotted 169090560) 24)\<rparr>"
  by (subst judged_like_the_mask [of 169090561 24, OF _ _ refl]) (simp_all add: mask_eq_exp_minus_1)

text \<open>
  The range the form proposes is one it has nothing more to say about.
\<close>

theorem proposed_range_is_clean:
  assumes "hint (judgeCIDR input) = Some (StartsAt address bits)"
  shows "judgeCIDR (address @ ''/'' @ nat_text bits) = no_objection"
proof -
  from assms have "blocking (judgeCIDR input) = None" and ne: "input \<noteq> []"
    using hint_not_blocking [of input] by auto
  then obtain a m where t: "input = a @ CHR ''/'' # m" "CHR ''/'' \<notin> set a" and
    m: "digits_only m" "nat_of_digits m \<le> (if CHR '':'' \<in> set a then 128 else 32)" and
    v4: "CHR '':'' \<notin> set a \<longrightarrow> readIPv4 a \<noteq> None"
    by (rule judge_inv)
  have no: "CHR '':'' \<notin> set a"
    using assms ipv6_no_hint [OF t(2) _ m(1)] m(2) t(1)
    by (auto simp: no_objection_def)
  then obtain os where os: "readIPv4 a = Some os" using v4 by blast
  have le: "nat_of_digits m \<le> 32" using no m by simp
  have addr: "address = dotted (range_start (address_value os) (nat_of_digits m))"
    "bits = nat_of_digits m"
    using assms judge_v4_text [OF os t(2) no m(1) le]
    by (auto simp: t(1) Let_def no_objection_def split: if_splits)
  define u where "u = range_start (address_value os) (nat_of_digits m)"
  have "u < 2 ^ 32"
    using readIPv4_value [OF os] range_start_le [of "address_value os" "nat_of_digits m"] by (simp add: u_def)
  then have "address_value (octets_of u) = u" by (rule address_value_octets)
  moreover have "range_start u (nat_of_digits m) = u" by (simp add: u_def range_start_idem)
  ultimately show ?thesis
    using judge_v4 [OF readIPv4_dotted dotted_marks le, of u] addr by (simp add: u_def)
qed

lemma proposed_range_is_clean_witness:
  "hint (judgeCIDR ''10.20.30.1/24'') = Some (StartsAt ''10.20.30.0'' 24)
   \<and> judgeCIDR (''10.20.30.0'' @ ''/'' @ nat_text 24) = no_objection"
proof -
  have h: "hint (judgeCIDR ''10.20.30.1/24'') = Some (StartsAt ''10.20.30.0'' 24)"
  proof -
    have r: "readIPv4 ''10.20.30.1'' = Some [10, 20, 30, 1]" by code_simp
    have m: "digits_only ''24''" "nat_of_digits ''24'' = 24" by code_simp+
    show ?thesis
      using judge_v4_text [OF r _ _ m(1)]
      by (simp add: m address_value_def range_start_def IPV4_MAX_BITS_def dotted_def nat_text.simps
          digit_char_def no_objection_def char_of_def bit_0)
  qed
  then show ?thesis using proposed_range_is_clean [OF h] by blast
qed

end
