(* ===== verification/Retention.thy ===== *)
theory Retention
  imports ConsoleBase
begin

section \<open>The retention policy form\<close>

text \<open>
  \<open>web/src/pages/retentionRule.ts\<close>: the five fields of the form, their ranges and what the form
  says below them, beside the check of the server (\<open>validateRetention\<close> of
  \<open>internal/httpapi/advanced_analytics.go\<close>), which is the authority. The theorems state that the
  form refuses what the server refuses, field by field, and nothing else.
\<close>

datatype time_unit = Months | Hours | Days

datatype field_label =
  RawEventLabel | SessionLabel | AggregationLabel | RealtimeLabel | DebugLabel

datatype retention_note =
    SummaryKept            \<comment> \<open>summaries outlive the raw events\<close>
  | BlankIsForever         \<comment> \<open>blank means forever, and what is then kept per person\<close>
  | NotApplied             \<comment> \<open>there is no separate realtime store\<close>

record retention_limit =
  column :: string
  label :: field_label
  lo :: int
  hi :: int
  span_unit :: time_unit
  nullable :: bool
  limit_note :: "retention_note option"

definition RETENTION_LIMITS :: "retention_limit list" where
  "RETENTION_LIMITS =
     [\<lparr>column = ''raw_event_months'', label = RawEventLabel, lo = 1, hi = 120, span_unit = Months,
       nullable = False , limit_note = None\<rparr>,
      \<lparr>column = ''session_months'', label = SessionLabel, lo = 1, hi = 120, span_unit = Months,
       nullable = False , limit_note = Some SummaryKept\<rparr>,
      \<lparr>column = ''aggregation_months'', label = AggregationLabel, lo = 1, hi = 1200, span_unit = Months,
       nullable = True , limit_note = Some BlankIsForever\<rparr>,
      \<lparr>column = ''realtime_hours'', label = RealtimeLabel, lo = 1, hi = 168, span_unit = Hours,
       nullable = False , limit_note = Some NotApplied\<rparr>,
      \<lparr>column = ''debug_days'', label = DebugLabel, lo = 1, hi = 90, span_unit = Days,
       nullable = False , limit_note = None\<rparr>]"

text \<open>An unknown column is an exception of the source: \<open>None\<close>.\<close>

definition retentionLimit :: "string \<Rightarrow> retention_limit option" where
  "retentionLimit c = find (\<lambda>entry. column entry = c) RETENTION_LIMITS"

text \<open>
  The sentences: a range with its unit, possibly led by the permission to leave the field blank;
  the note of a field; the refusal that names the field; the refusal of a fraction.
\<close>

datatype retention_text =
    Range bool int int time_unit
  | Note retention_note
  | OutOfRange field_label bool int int time_unit
  | NotAnInteger field_label

definition retention_span :: "retention_limit \<Rightarrow> retention_text" where
  "retention_span l = Range False (lo l) (hi l) (span_unit l)"

definition retentionRangeText :: "string \<Rightarrow> retention_text option" where
  "retentionRangeText c =
     map_option (\<lambda>l. if nullable l then Range True (lo l) (hi l) (span_unit l) else retention_span l)
       (retentionLimit c)"

definition retentionHelperText :: "string \<Rightarrow> retention_text list option" where
  "retentionHelperText c =
     map_option (\<lambda>l. retention_span l # (case limit_note l of None \<Rightarrow> [] | Some n \<Rightarrow> [Note n]))
       (retentionLimit c)"

definition notice_of :: "retention_limit \<Rightarrow> retention_text" where
  "notice_of l = OutOfRange (label l) (nullable l) (lo l) (hi l) (span_unit l)"

definition retentionNotice :: "string \<Rightarrow> retention_text option" where
  "retentionNotice c = map_option notice_of (retentionLimit c)"

record retention_judgement =
  blocking :: "retention_text option"
  wrong :: bool

definition accepted :: retention_judgement where
  "accepted = \<lparr>blocking = None, wrong = False\<rparr>"

definition refused :: "retention_text \<Rightarrow> retention_judgement" where
  "refused t = \<lparr>blocking = Some t, wrong = True\<rparr>"

fun int_of_num :: "jnum \<Rightarrow> int option" where
  "int_of_num (Fin q) = (if of_int \<lfloor>q\<rfloor> = q then Some \<lfloor>q\<rfloor> else None)"
| "int_of_num _ = None"

definition judge_value :: "retention_limit \<Rightarrow> jnum option \<Rightarrow> retention_judgement" where
  "judge_value l value =
     (case value of
        None \<Rightarrow> if nullable l then accepted else refused (notice_of l)
      | Some x \<Rightarrow>
          (case int_of_num x of
             None \<Rightarrow> refused (NotAnInteger (label l))
           | Some k \<Rightarrow> if k < lo l \<or> k > hi l then refused (notice_of l) else accepted))"

definition judgeRetention :: "string \<Rightarrow> jnum option \<Rightarrow> retention_judgement option" where
  "judgeRetention c value = map_option (\<lambda>l. judge_value l value) (retentionLimit c)"

record field_props =
  shown_label :: field_label
  helperText :: "retention_text list"
  field_error :: bool

definition retentionFieldProps :: "string \<Rightarrow> jnum option \<Rightarrow> field_props option" where
  "retentionFieldProps c value =
     (case (retentionLimit c, judgeRetention c value, retentionHelperText c) of
        (Some l, Some j, Some h) \<Rightarrow>
          Some \<lparr>shown_label = label l,
                helperText = (case blocking j of Some t \<Rightarrow> [t] | None \<Rightarrow> h),
                field_error = wrong j\<rparr>
      | _ \<Rightarrow> None)"

subsection \<open>The server's check\<close>

record retention_policy =
  RawEventMonths :: int
  SessionMonths :: int
  AggregationMonths :: "int option"
  RealtimeHours :: int
  DebugDays :: int

text \<open>The first refusal, in the order of the source; \<open>None\<close> accepts the policy.\<close>

definition validateRetention :: "retention_policy \<Rightarrow> string option" where
  "validateRetention p =
     (if RawEventMonths p < 1 \<or> RawEventMonths p > 120
      then Some ''raw_event_months must be between 1 and 120''
      else if SessionMonths p < 1 \<or> SessionMonths p > 120
      then Some ''session_months must be between 1 and 120''
      else if (case AggregationMonths p of None \<Rightarrow> False | Some n \<Rightarrow> n < 1 \<or> n > 1200)
      then Some ''aggregation_months must be null or between 1 and 1200''
      else if RealtimeHours p < 1 \<or> RealtimeHours p > 168
      then Some ''realtime_hours must be between 1 and 168''
      else if DebugDays p < 1 \<or> DebugDays p > 90
      then Some ''debug_days must be between 1 and 90''
      else None)"

text \<open>The values the form would hold for a policy, column by column.\<close>

definition form_values :: "retention_policy \<Rightarrow> (string \<times> jnum option) list" where
  "form_values p =
     [(''raw_event_months'', Some (Fin (of_int (RawEventMonths p)))),
      (''session_months'', Some (Fin (of_int (SessionMonths p)))),
      (''aggregation_months'', map_option (\<lambda>n. Fin (of_int n)) (AggregationMonths p)),
      (''realtime_hours'', Some (Fin (of_int (RealtimeHours p)))),
      (''debug_days'', Some (Fin (of_int (DebugDays p))))]"

subsection \<open>The form and the server agree\<close>

lemma int_of_num_of_int [simp]: "int_of_num (Fin (of_int k)) = Some k"
  by simp

lemma retentionLimit_simps [simp]:
  "retentionLimit ''raw_event_months'' = Some (RETENTION_LIMITS ! 0)"
  "retentionLimit ''session_months'' = Some (RETENTION_LIMITS ! 1)"
  "retentionLimit ''aggregation_months'' = Some (RETENTION_LIMITS ! 2)"
  "retentionLimit ''realtime_hours'' = Some (RETENTION_LIMITS ! 3)"
  "retentionLimit ''debug_days'' = Some (RETENTION_LIMITS ! 4)"
  by code_simp+

lemmas limit_entries = RETENTION_LIMITS_def eval_nat_numeral

lemma judge_value_blocking:
  "blocking (judge_value l v) = None \<longleftrightarrow>
     (case v of None \<Rightarrow> nullable l
      | Some x \<Rightarrow> \<exists>k. int_of_num x = Some k \<and> lo l \<le> k \<and> k \<le> hi l)"
  by (auto simp: judge_value_def accepted_def refused_def split: option.splits)

text \<open>The first field, in the order of the form, that the form refuses.\<close>

definition first_refused :: "(string \<times> jnum option) list \<Rightarrow> string option" where
  "first_refused vs =
     map_option fst
       (find (\<lambda>(c, v). case judgeRetention c v of
                None \<Rightarrow> False | Some j \<Rightarrow> blocking j \<noteq> None) vs)"

lemma form_and_server:
  "case validateRetention p of
     None \<Rightarrow> first_refused (form_values p) = None
   | Some reason \<Rightarrow>
       first_refused (form_values p) = Some (takeWhile (\<lambda>x. x \<noteq> CHR '' '') reason)"
proof -
  have num: "(\<exists>y. blocking (judge_value l (Some (Fin (of_int k)))) = Some y) \<longleftrightarrow> k < lo l \<or> k > hi l"
    for l k by (auto simp: judge_value_def accepted_def refused_def)
  have blank: "(\<exists>y. blocking (judge_value l None) = Some y) \<longleftrightarrow> \<not> nullable l" for l
    by (simp add: judge_value_def accepted_def refused_def)
  show ?thesis
    unfolding first_refused_def form_values_def validateRetention_def judgeRetention_def
    by (cases "AggregationMonths p") (simp_all add: num blank limit_entries)
qed

text \<open>
  The form refuses some field of a policy exactly when the server refuses the policy, and the
  first field it refuses is the one the server's sentence starts with.
\<close>

theorem form_agrees_with_server:
  "first_refused (form_values p) =
     map_option (takeWhile (\<lambda>x. x \<noteq> CHR '' '')) (validateRetention p)"
  using form_and_server [of p] by (simp split: option.splits)

text \<open>What the form shows is one sentence when it refuses, and the standing help otherwise.\<close>

lemma refusal_reasons:
  "validateRetention p = Some r \<Longrightarrow> r \<in>
     {''raw_event_months must be between 1 and 120'', ''session_months must be between 1 and 120'',
      ''aggregation_months must be null or between 1 and 1200'',
      ''realtime_hours must be between 1 and 168'', ''debug_days must be between 1 and 90''}"
  by (simp add: validateRetention_def split: if_splits option.splits)

lemma judge_value_wrong: "wrong (judge_value l v) \<longleftrightarrow> blocking (judge_value l v) \<noteq> None"
  by (auto simp: judge_value_def accepted_def refused_def split: option.splits)

lemma field_props_error:
  assumes "retentionLimit c = Some l" "retentionFieldProps c v = Some f"
  shows "field_error f \<longleftrightarrow> blocking (judge_value l v) \<noteq> None"
    and "helperText f =
      (case blocking (judge_value l v) of
         Some t \<Rightarrow> [t]
       | None \<Rightarrow> retention_span l # (case limit_note l of None \<Rightarrow> [] | Some n \<Rightarrow> [Note n]))"
  using assms
  by (auto simp: retentionFieldProps_def judgeRetention_def retentionHelperText_def judge_value_wrong
      split: option.split)

lemma known_columns: "retentionLimit c \<noteq> None \<longleftrightarrow> c \<in> set (map column RETENTION_LIMITS)"
  by (auto simp: retentionLimit_def find_None_iff)

end
