(* ===== verification/Users.thy ===== *)
theory Users
  imports ConsoleBase
begin

section \<open>User administration\<close>

text \<open>
  \<open>web/src/pages/roleScope.ts\<close> and \<open>passwordRule.ts\<close>: which operations on accounts the console
  offers, beside the guards of the server's \<open>createUser\<close> and \<open>updateUser\<close>
  (\<open>internal/httpapi/admin.go\<close>) with \<open>RoleAbove\<close> and \<open>PasswordProblem\<close>
  (\<open>internal/auth/auth.go\<close>). The console mirrors a rule of another program in another language;
  the theorem of this theory is that the mirror is exact. A password is the list of its code
  points, because the two bounds count characters and bytes.
\<close>

subsection \<open>The console's rules\<close>

definition ROLE_ORDER :: "string list" where
  "ROLE_ORDER =
     [''viewer'', ''analyst'', ''workspace_admin'', ''organization_admin'', ''super_admin'']"

text \<open>\<open>indexOf(role) + 1\<close>; an absent role has index -1 and so rank 0.\<close>

fun position :: "'a \<Rightarrow> 'a list \<Rightarrow> nat option" where
  "position x [] = None"
| "position x (y # ys) = (if x = y then Some 0 else map_option Suc (position x ys))"

definition roleRank :: "string \<Rightarrow> nat" where
  "roleRank role = (case position role ROLE_ORDER of None \<Rightarrow> 0 | Some i \<Rightarrow> i + 1)"

definition canAdministerRole :: "string \<Rightarrow> string \<Rightarrow> bool" where
  "canAdministerRole callerRole targetRole =
     (let caller = roleRank callerRole in
      if caller = 0 then False else roleRank targetRole \<le> caller)"

definition assignableRoles :: "string \<Rightarrow> string list" where
  "assignableRoles callerRole = filter (canAdministerRole callerRole) ROLE_ORDER"

record self_limits =
  canChangeRole :: bool
  canDeactivate :: bool
  canResetPassword :: bool

definition selfAccountLimits :: "'id option \<Rightarrow> 'id \<Rightarrow> self_limits" where
  "selfAccountLimits callerId targetId =
     (let self = (callerId \<noteq> None \<and> callerId = Some targetId) in
      \<lparr>canChangeRole = \<not> self, canDeactivate = \<not> self, canResetPassword = \<not> self\<rparr>)"

definition MIN_PASSWORD_LENGTH :: nat where
  "MIN_PASSWORD_LENGTH = 12"

definition MAX_PASSWORD_BYTES :: nat where
  "MAX_PASSWORD_BYTES = 72"

text \<open>The bytes of one code point in UTF-8.\<close>

definition utf8_len :: "nat \<Rightarrow> nat" where
  "utf8_len c = (if c < 128 then 1 else if c < 2048 then 2 else if c < 65536 then 3 else 4)"

definition utf8_bytes :: "nat list \<Rightarrow> nat" where
  "utf8_bytes cs = sum_list (map utf8_len cs)"

definition passwordWithinBounds :: "nat list \<Rightarrow> bool" where
  "passwordWithinBounds password =
     (let characters = length password; bytes = utf8_bytes password
      in characters \<ge> MIN_PASSWORD_LENGTH \<and> bytes \<le> MAX_PASSWORD_BYTES)"

subsection \<open>The server's guards\<close>

definition server_rank :: "string \<Rightarrow> nat" where
  "server_rank role =
     (case map_of [(''viewer'', 1), (''analyst'', 2), (''workspace_admin'', 3),
                   (''organization_admin'', 4), (''super_admin'', 5)] role of
        None \<Rightarrow> 0 | Some n \<Rightarrow> n)"

definition RoleAbove :: "string \<Rightarrow> string \<Rightarrow> bool" where
  "RoleAbove role callerRole \<longleftrightarrow> server_rank role > server_rank callerRole"

definition validRole :: "string \<Rightarrow> bool" where
  "validRole role \<longleftrightarrow>
     role \<in> {''super_admin'', ''organization_admin'', ''workspace_admin'', ''analyst'', ''viewer''}"

datatype password_problem = TooShort | TooManyBytes

definition PasswordProblem :: "nat list \<Rightarrow> password_problem option" where
  "PasswordProblem password =
     (if length password < 12 then Some TooShort
      else if utf8_bytes password > 72 then Some TooManyBytes
      else None)"

datatype role_lookup = Role string | NoSuchUser | LookupFailed

datatype refusal =
    INVALID_ID | INVALID_PAYLOAD | INVALID_ROLE | SELF_DISABLE
  | ROLE_ABOVE_GRANT          \<comment> \<open>\<open>ROLE_ABOVE_CALLER\<close>: the role to grant is above the caller's\<close>
  | ROLE_ABOVE_CREATE         \<comment> \<open>\<open>ROLE_ABOVE_CALLER\<close>: the same for a new account\<close>
  | ROLE_ABOVE_TARGET         \<comment> \<open>\<open>ROLE_ABOVE_CALLER\<close>: the account is above the caller\<close>
  | USER_NOT_FOUND | LOOKUP_FAILED | SELF_ROLE | SELF_PASSWORD
  | WEAK_PASSWORD password_problem | HASH_FAILED
  | INVALID_USER_ROLE | INVALID_USER_PASSWORD password_problem

record update_request =
  req_role :: string
  req_active :: "bool option"
  req_password :: "nat list"

text \<open>
  The guards of \<open>updateUser\<close>, in order, up to the statement that changes the row. The parsed id
  and body, the role the database returns for the account, and whether hashing succeeds come from
  outside.
\<close>

definition updateUser_guards ::
  "'target \<Rightarrow> string \<Rightarrow> 'target option \<Rightarrow> update_request option \<Rightarrow> ('target \<Rightarrow> role_lookup) \<Rightarrow> bool \<Rightarrow> refusal option"
where
  "updateUser_guards callerId callerRole pathId body currentRole hashed =
     (case pathId of None \<Rightarrow> Some INVALID_ID | Some target \<Rightarrow>
      case body of None \<Rightarrow> Some INVALID_PAYLOAD | Some body_in \<Rightarrow>
      if \<not> validRole (req_role body_in) then Some INVALID_ROLE
      else if target = callerId \<and> req_active body_in = Some False then Some SELF_DISABLE
      else if RoleAbove (req_role body_in) callerRole then Some ROLE_ABOVE_GRANT
      else case currentRole target of
        NoSuchUser \<Rightarrow> Some USER_NOT_FOUND
      | LookupFailed \<Rightarrow> Some LOOKUP_FAILED
      | Role current \<Rightarrow>
          if RoleAbove current callerRole then Some ROLE_ABOVE_TARGET
          else if target = callerId \<and> current \<noteq> req_role body_in then Some SELF_ROLE
          else if req_password body_in = [] then None
          else if target = callerId then Some SELF_PASSWORD
          else case PasswordProblem (req_password body_in) of
            Some problem \<Rightarrow> Some (WEAK_PASSWORD problem)
          | None \<Rightarrow> if hashed then None else Some HASH_FAILED)"

definition createUser_guards ::
  "string \<Rightarrow> (string \<times> nat list) option \<Rightarrow> refusal option"
where
  "createUser_guards callerRole body =
     (case body of None \<Rightarrow> Some INVALID_PAYLOAD | Some (role, password) \<Rightarrow>
      if \<not> validRole role then Some INVALID_USER_ROLE
      else case PasswordProblem password of
        Some problem \<Rightarrow> Some (INVALID_USER_PASSWORD problem)
      | None \<Rightarrow> if RoleAbove role callerRole then Some ROLE_ABOVE_CREATE else None)"

subsection \<open>The mirror is exact\<close>

lemma server_rank_eq: "server_rank role = roleRank role"
  by (simp add: server_rank_def roleRank_def ROLE_ORDER_def)

lemma validRole_known: "validRole role \<longleftrightarrow> role \<in> set ROLE_ORDER"
  by (auto simp: validRole_def ROLE_ORDER_def)

lemma known_rank: "roleRank role \<noteq> 0 \<longleftrightarrow> role \<in> set ROLE_ORDER"
  by (simp add: roleRank_def ROLE_ORDER_def)

lemma canAdminister_iff:
  "roleRank caller \<noteq> 0 \<Longrightarrow> canAdministerRole caller target \<longleftrightarrow> \<not> RoleAbove target caller"
  by (simp add: canAdministerRole_def RoleAbove_def server_rank_eq not_less)

lemma unknown_caller: "roleRank caller = 0 \<Longrightarrow> assignableRoles caller = []"
  by (simp add: assignableRoles_def canAdministerRole_def)

lemma assignable_iff:
  "roleRank caller \<noteq> 0 \<Longrightarrow>
     role \<in> set (assignableRoles caller) \<longleftrightarrow> validRole role \<and> \<not> RoleAbove role caller"
  by (auto simp: assignableRoles_def validRole_known canAdminister_iff)

lemma password_iff: "passwordWithinBounds p \<longleftrightarrow> PasswordProblem p = None"
  by (auto simp: passwordWithinBounds_def PasswordProblem_def MIN_PASSWORD_LENGTH_def
      MAX_PASSWORD_BYTES_def)

text \<open>Authority never grows: what a caller may hand out is bounded by the caller's own rank.\<close>

lemma assignable_bounded: "role \<in> set (assignableRoles caller) \<Longrightarrow> roleRank role \<le> roleRank caller"
  by (auto simp: assignableRoles_def canAdministerRole_def Let_def split: if_splits)

definition console_offers ::
  "'target \<Rightarrow> string \<Rightarrow> 'target \<Rightarrow> string \<Rightarrow> update_request \<Rightarrow> bool"
where
  "console_offers callerId callerRole target current r =
     (let limits = selfAccountLimits (Some callerId) target in
      canAdministerRole callerRole current
      \<and> req_role r \<in> set (assignableRoles callerRole)
      \<and> (req_role r = current \<or> canChangeRole limits)
      \<and> (if req_active r = Some False then canDeactivate limits else True)
      \<and> (if req_password r = [] then True
         else canResetPassword limits \<and> passwordWithinBounds (req_password r)))"

text \<open>
  C4: For a caller with a known role, the server lets an update of an existing account through its
  guards exactly when the console's own rules offer it: the account and the granted role are
  within the caller's rank, nobody disables, re-roles or resets the password of their own account,
  and a new password is within its bounds.
\<close>

theorem console_mirrors_server:
  assumes "roleRank callerRole \<noteq> 0"
  shows "updateUser_guards callerId callerRole (Some target) (Some r) (\<lambda>_. Role current) True = None
     \<longleftrightarrow> console_offers callerId callerRole target current r"
  using assms
  by (auto simp: updateUser_guards_def console_offers_def selfAccountLimits_def canAdminister_iff
      assignable_iff password_iff split: option.splits)

lemma console_mirrors_server_witness:
  "updateUser_guards (1::nat) ''workspace_admin'' (Some 2)
     (Some \<lparr>req_role = ''analyst'', req_active = Some False, req_password = []\<rparr>)
     (\<lambda>_. Role ''super_admin'') True = Some ROLE_ABOVE_TARGET
   \<and> \<not> console_offers (1::nat) ''workspace_admin'' 2 ''super_admin''
        \<lparr>req_role = ''analyst'', req_active = Some False, req_password = []\<rparr>"
proof -
  have k: "roleRank ''workspace_admin'' \<noteq> 0" by code_simp
  have g: "updateUser_guards (1::nat) ''workspace_admin'' (Some 2)
     (Some \<lparr>req_role = ''analyst'', req_active = Some False, req_password = []\<rparr>)
     (\<lambda>_. Role ''super_admin'') True = Some ROLE_ABOVE_TARGET"
    by (simp add: updateUser_guards_def validRole_def RoleAbove_def server_rank_def)
  with console_mirrors_server [OF k, of "1::nat" "2::nat"
      "\<lparr>req_role = ''analyst'', req_active = Some False, req_password = []\<rparr>" "''super_admin''"]
  show ?thesis by simp
qed

text \<open>The same for a new account.\<close>

lemma create_mirrors_server:
  "roleRank callerRole \<noteq> 0 \<Longrightarrow>
   createUser_guards callerRole (Some (role, password)) = None \<longleftrightarrow>
     role \<in> set (assignableRoles callerRole) \<and> passwordWithinBounds password"
  by (auto simp: createUser_guards_def assignable_iff password_iff split: option.splits)

end
