(* ===== verification/AdminErrors.thy ===== *)
theory AdminErrors
  imports Cidr Retention Users
begin

section \<open>What a refused administration request says\<close>

text \<open>
  \<open>web/src/pages/adminErrors.ts\<close> and \<open>schemaTextRule.ts\<close>: the sentence a form shows for a
  request that failed, chosen by the error's code and, where one code has several causes, by the
  server's text. The server's own text is shown below the sentence only where it is the one
  remaining clue. Composed with the guards of \<open>Users\<close> and the check of \<open>Retention\<close>, the theorems
  follow a refusal from the server's branch to the sentence on the screen.
\<close>

subsection \<open>Errors as the console sees them\<close>

record thrown =
  is_object :: bool           \<comment> \<open>\<open>typeof error === "object"\<close> and not null\<close>
  code_field :: val           \<comment> \<open>its property \<open>code\<close>\<close>
  is_error :: bool            \<comment> \<open>\<open>instanceof Error\<close>\<close>
  is_syntax :: bool           \<comment> \<open>\<open>instanceof SyntaxError\<close>\<close>
  error_text :: string

definition api_error :: "string \<Rightarrow> string \<Rightarrow> thrown" where
  "api_error c m = \<lparr>is_object = True, code_field = VStr c, is_error = True, is_syntax = False,
                    error_text = m\<rparr>"

definition syntax_error :: "string \<Rightarrow> thrown" where
  "syntax_error m = \<lparr>is_object = True, code_field = VUndef, is_error = True, is_syntax = True,
                     error_text = m\<rparr>"

definition error_code :: "thrown \<Rightarrow> string" where
  "error_code e = (if is_object e then (case code_field e of VStr s \<Rightarrow> s | _ \<Rightarrow> []) else [])"

definition error_message :: "thrown \<Rightarrow> string" where
  "error_message e = (if is_error e then error_text e else [])"

text \<open>The pair that the source calls \<open>refusal\<close>.\<close>

definition read_refusal :: "thrown \<Rightarrow> string \<times> string" where
  "read_refusal e = (error_code e, error_message e)"

datatype admin_message =
    ServerSaid string                \<comment> \<open>the server's own text, for a code without a branch\<close>
  | NotCompleted
  | UnreadablePayload | LostRequest
  | PasswordNotice | CheckRoleAndPassword | TargetAbove | RoleTooHigh
  | EmailTaken | AccountNotCreated | ChangesNotSaved | UsersNotRead
  | UserUnknown | RoleInvalid | UserGone | NoSelfDisable | NoSelfRole | NoSelfPassword
  | SiteNameMissing | TimezoneInvalid | EngagementRange | TimeoutRange
  | SiteUnknown | SiteGone | SiteNotCreated | SiteNotSaved
  | CidrInvalid | NetworkNotAdded
  | SchemaNotJson | ModeInvalid | DefinitionNotSaved
  | RetentionField retention_text | RetentionRange | SiteNotFound | RetentionNotSaved

record notice =
  message :: admin_message
  detail :: "string option"

definition plain :: "admin_message \<Rightarrow> notice" where
  "plain m = \<lparr>message = m, detail = None\<rparr>"

definition with_clue :: "admin_message \<Rightarrow> string \<Rightarrow> notice" where
  "with_clue m text = \<lparr>message = m, detail = (if text = [] then None else Some text)\<rparr>"

definition fallback :: "string \<Rightarrow> notice" where
  "fallback text = plain (if text = [] then NotCompleted else ServerSaid text)"

definition UNIQUENESS_VIOLATION :: "string \<Rightarrow> bool" where
  "UNIQUENESS_VIOLATION text =
     (let t = js_lower text in
      js_includes t ''duplicate key'' \<or> js_includes t ''unique constraint''
      \<or> js_includes t ''23505'')"

subsection \<open>The five forms\<close>

definition describeUserError :: "thrown \<Rightarrow> notice" where
  "describeUserError error =
     (let (code, text) = read_refusal error in
      if code = ''INVALID_PAYLOAD'' then with_clue UnreadablePayload text
      else if code = ''INVALID_USER'' then
        plain (if js_includes text ''password must be'' then PasswordNotice else CheckRoleAndPassword)
      else if code = ''WEAK_PASSWORD'' then plain PasswordNotice
      else if code = ''ROLE_ABOVE_CALLER'' then
        plain (if js_includes text ''administer'' then TargetAbove else RoleTooHigh)
      else if code = ''USER_CREATE_FAILED'' then
        (if UNIQUENESS_VIOLATION text then plain EmailTaken else with_clue AccountNotCreated text)
      else if code = ''USER_UPDATE_FAILED'' then with_clue ChangesNotSaved text
      else if code = ''QUERY_FAILED'' then with_clue UsersNotRead text
      else if code = ''INVALID_ID'' then plain UserUnknown
      else if code = ''INVALID_ROLE'' then plain RoleInvalid
      else if code = ''USER_NOT_FOUND'' then plain UserGone
      else if code = ''SELF_DISABLE'' then plain NoSelfDisable
      else if code = ''SELF_ROLE'' then plain NoSelfRole
      else if code = ''SELF_PASSWORD'' then plain NoSelfPassword
      else if code = ''REQUEST_FAILED'' then with_clue LostRequest text
      else fallback text)"

definition describeSiteError :: "thrown \<Rightarrow> notice" where
  "describeSiteError error =
     (let (code, text) = read_refusal error in
      if code = ''INVALID_PAYLOAD'' then with_clue UnreadablePayload text
      else if code = ''INVALID_NAME'' then plain SiteNameMissing
      else if code = ''INVALID_TIMEZONE'' then plain TimezoneInvalid
      else if code = ''INVALID_ENGAGEMENT_THRESHOLD'' then plain EngagementRange
      else if code = ''INVALID_TIMEOUT'' then plain TimeoutRange
      else if code = ''INVALID_ID'' then plain SiteUnknown
      else if code = ''NOT_FOUND'' then plain SiteGone
      else if code = ''SITE_CREATE_FAILED'' then with_clue SiteNotCreated text
      else if code = ''SITE_UPDATE_FAILED'' then with_clue SiteNotSaved text
      else if code = ''REQUEST_FAILED'' then with_clue LostRequest text
      else fallback text)"

definition describeNetworkError :: "thrown \<Rightarrow> notice" where
  "describeNetworkError error =
     (let (code, text) = read_refusal error in
      if code = ''INVALID_PAYLOAD'' then with_clue UnreadablePayload text
      else if code = ''INVALID_CIDR'' then plain CidrInvalid
      else if code = ''NETWORK_CREATE_FAILED'' then with_clue NetworkNotAdded text
      else if code = ''REQUEST_FAILED'' then with_clue LostRequest text
      else fallback text)"

definition describeEventDefinitionError :: "thrown \<Rightarrow> notice" where
  "describeEventDefinitionError error =
     (let (code, text) = read_refusal error in
      if is_syntax error \<or> (code = [] \<and> js_includes text ''JSON'')
      then with_clue SchemaNotJson text
      else if code = ''INVALID_PAYLOAD'' then with_clue UnreadablePayload text
      else if code = ''INVALID_MODE'' then plain ModeInvalid
      else if code = ''DEFINITION_SAVE_FAILED'' then with_clue DefinitionNotSaved text
      else if code = ''REQUEST_FAILED'' then with_clue LostRequest text
      else fallback text)"

definition describeRetentionError :: "thrown \<Rightarrow> notice" where
  "describeRetentionError error =
     (let (code, text) = read_refusal error in
      if code = ''INVALID_PAYLOAD'' then with_clue UnreadablePayload text
      else if code = ''INVALID_RETENTION'' then
        (case find (\<lambda>entry. js_includes text (column entry)) RETENTION_LIMITS of
           Some entry \<Rightarrow> plain (RetentionField (notice_of entry))
         | None \<Rightarrow> with_clue RetentionRange text)
      else if code = ''UNKNOWN_SITE'' then plain SiteNotFound
      else if code = ''RETENTION_SAVE_FAILED'' then with_clue RetentionNotSaved text
      else if code = ''REQUEST_FAILED'' then with_clue LostRequest text
      else fallback text)"

subsection \<open>The schema box\<close>

datatype schema_message = SchemaEmpty | SchemaRule

record schema_judgement =
  schema_blocking :: "schema_message option"
  schema_wrong :: bool
  schema_detail :: "string option"

text \<open>The engine's sentence about broken JSON is the engine's and a parameter.\<close>

definition judgeSchemaText :: "(string \<Rightarrow> string) \<Rightarrow> string \<Rightarrow> schema_judgement" where
  "judgeSchemaText engineText t =
     (if js_trim t = []
      then \<lparr>schema_blocking = Some SchemaEmpty, schema_wrong = False, schema_detail = None\<rparr>
      else if json_parse t = None
      then \<lparr>schema_blocking = Some SchemaRule, schema_wrong = True,
            schema_detail = (if engineText t = [] then None else Some (engineText t))\<rparr>
      else \<lparr>schema_blocking = None, schema_wrong = False, schema_detail = None\<rparr>)"

text \<open>What the form would do on saving: parse the text, and send it only if that succeeds.\<close>

definition save_schema :: "(string \<Rightarrow> string) \<Rightarrow> string \<Rightarrow> thrown + val" where
  "save_schema engineText t =
     (case json_parse t of None \<Rightarrow> Inl (syntax_error (engineText t)) | Some v \<Rightarrow> Inr v)"

subsection \<open>From the server's branch to the sentence\<close>

text \<open>The answers of the guards: the code and the server's text. \<open>e\<close> is text from outside.\<close>

fun problem_text :: "password_problem \<Rightarrow> string" where
  "problem_text TooShort = ''password must be at least 12 characters''"
| "problem_text TooManyBytes = ''password must be at most 72 bytes''"

fun refusal_error :: "string \<Rightarrow> refusal \<Rightarrow> thrown" where
  "refusal_error e INVALID_ID = api_error ''INVALID_ID'' ''invalid user id''"
| "refusal_error e INVALID_PAYLOAD = api_error ''INVALID_PAYLOAD'' e"
| "refusal_error e INVALID_ROLE = api_error ''INVALID_ROLE'' ''role is invalid''"
| "refusal_error e SELF_DISABLE =
     api_error ''SELF_DISABLE'' ''you cannot disable your own account''"
| "refusal_error e ROLE_ABOVE_GRANT =
     api_error ''ROLE_ABOVE_CALLER'' ''you cannot grant more authority than your own''"
| "refusal_error e ROLE_ABOVE_CREATE =
     api_error ''ROLE_ABOVE_CALLER''
       ''you cannot create an account with more authority than your own''"
| "refusal_error e ROLE_ABOVE_TARGET =
     api_error ''ROLE_ABOVE_CALLER''
       ''you cannot administer an account with more authority than your own''"
| "refusal_error e USER_NOT_FOUND = api_error ''USER_NOT_FOUND'' ''user not found''"
| "refusal_error e LOOKUP_FAILED = api_error ''QUERY_FAILED'' e"
| "refusal_error e SELF_ROLE = api_error ''SELF_ROLE'' ''you cannot change your own role''"
| "refusal_error e SELF_PASSWORD =
     api_error ''SELF_PASSWORD''
       ''change your own password from your profile, where the current one is asked for''"
| "refusal_error e (WEAK_PASSWORD p) = api_error ''WEAK_PASSWORD'' (problem_text p)"
| "refusal_error e HASH_FAILED = api_error ''USER_UPDATE_FAILED'' e"
| "refusal_error e INVALID_USER_ROLE =
     api_error ''INVALID_USER'' ''valid role and password of at least 12 characters are required''"
| "refusal_error e (INVALID_USER_PASSWORD p) = api_error ''INVALID_USER'' (problem_text p)"

text \<open>The sentence each refusal deserves.\<close>

fun deserved :: "refusal \<Rightarrow> admin_message" where
  "deserved INVALID_ID = UserUnknown"
| "deserved INVALID_PAYLOAD = UnreadablePayload"
| "deserved INVALID_ROLE = RoleInvalid"
| "deserved SELF_DISABLE = NoSelfDisable"
| "deserved ROLE_ABOVE_GRANT = RoleTooHigh"
| "deserved ROLE_ABOVE_CREATE = RoleTooHigh"
| "deserved ROLE_ABOVE_TARGET = TargetAbove"
| "deserved USER_NOT_FOUND = UserGone"
| "deserved LOOKUP_FAILED = UsersNotRead"
| "deserved SELF_ROLE = NoSelfRole"
| "deserved SELF_PASSWORD = NoSelfPassword"
| "deserved (WEAK_PASSWORD p) = PasswordNotice"
| "deserved HASH_FAILED = ChangesNotSaved"
| "deserved INVALID_USER_ROLE = CheckRoleAndPassword"
| "deserved (INVALID_USER_PASSWORD p) = PasswordNotice"

lemma read_api [simp]: "read_refusal (api_error c m) = (c, m)"
  by (simp add: read_refusal_def api_error_def error_code_def error_message_def)

lemma read_syntax [simp]: "read_refusal (syntax_error m) = ([], m)"
  by (simp add: read_refusal_def syntax_error_def error_code_def error_message_def)

lemma notice_fields [simp]:
  "message (plain m) = m" "detail (plain m) = None"
  "message (with_clue m t) = m" "detail (with_clue m t) = (if t = [] then None else Some t)"
  by (simp_all add: plain_def with_clue_def)

lemma sentences_apart:
  "js_includes ''you cannot grant more authority than your own'' ''administer'' = False"
  "js_includes ''you cannot create an account with more authority than your own'' ''administer'' = False"
  "js_includes ''you cannot administer an account with more authority than your own'' ''administer'' = True"
  "js_includes ''valid role and password of at least 12 characters are required'' ''password must be'' = False"
  "js_includes (problem_text p) ''password must be'' = True"
  by (code_simp, code_simp, code_simp, code_simp, cases p, simp_all only: problem_text.simps, code_simp+)

text \<open>
  Every refusal of the guards of \<open>createUser\<close> and \<open>updateUser\<close> is shown as the sentence
  about its own cause, and the server's text is kept below it only where it came from outside the
  guards.
\<close>

theorem refusals_are_explained:
  "message (describeUserError (refusal_error e r)) = deserved r
   \<and> detail (describeUserError (refusal_error e r)) \<in> {None, Some e}"
  by (cases r) (simp_all add: describeUserError_def sentences_apart)

lemma column_find:
  "find (\<lambda>entry. js_includes ''raw_event_months must be between 1 and 120'' (column entry))
     RETENTION_LIMITS = Some (RETENTION_LIMITS ! 0)"
  "find (\<lambda>entry. js_includes ''session_months must be between 1 and 120'' (column entry))
     RETENTION_LIMITS = Some (RETENTION_LIMITS ! 1)"
  "find (\<lambda>entry. js_includes ''aggregation_months must be null or between 1 and 1200'' (column entry))
     RETENTION_LIMITS = Some (RETENTION_LIMITS ! 2)"
  "find (\<lambda>entry. js_includes ''realtime_hours must be between 1 and 168'' (column entry))
     RETENTION_LIMITS = Some (RETENTION_LIMITS ! 3)"
  "find (\<lambda>entry. js_includes ''debug_days must be between 1 and 90'' (column entry))
     RETENTION_LIMITS = Some (RETENTION_LIMITS ! 4)"
  by code_simp+

text \<open>
  A policy the server refuses is reported as the very sentence the form shows below the first
  field it refuses itself.
\<close>

theorem retention_refusal_names_the_field:
  assumes "validateRetention p = Some reason"
  shows "\<exists>c. first_refused (form_values p) = Some c
    \<and> Some (message (describeRetentionError (api_error ''INVALID_RETENTION'' reason))) =
        map_option RetentionField (retentionNotice c)"
proof -
  have c: "first_refused (form_values p) = Some (takeWhile (\<lambda>x. x \<noteq> CHR '' '') reason)"
    using form_and_server [of p] assms by simp
  have "Some (message (describeRetentionError (api_error ''INVALID_RETENTION'' reason))) =
     map_option RetentionField (retentionNotice (takeWhile (\<lambda>x. x \<noteq> CHR '' '') reason))"
    using refusal_reasons [OF assms]
    by (auto simp: describeRetentionError_def column_find retentionNotice_def)
  with c show ?thesis by blast
qed

lemma retention_refusal_names_the_field_witness:
  "\<exists>c. first_refused (form_values \<lparr>RawEventMonths = 3, SessionMonths = 0, AggregationMonths = None,
        RealtimeHours = 24, DebugDays = 7\<rparr>) = Some c
    \<and> Some (message (describeRetentionError (api_error ''INVALID_RETENTION''
          ''session_months must be between 1 and 120''))) =
        map_option RetentionField (retentionNotice c)"
  by (rule retention_refusal_names_the_field) (simp add: validateRetention_def)

text \<open>
  The box for a schema closes the save button exactly on the texts whose saving would fail, and
  the alert for such a failure says what the box says.
\<close>

lemma schema_box_is_exact:
  "schema_blocking (judgeSchemaText eng t) \<noteq> None \<longleftrightarrow>
     js_trim t = [] \<or> (\<exists>e. save_schema eng t = Inl e)"
  by (auto simp: judgeSchemaText_def save_schema_def split: option.splits)

lemma schema_alert:
  "save_schema eng t = Inl e \<Longrightarrow> message (describeEventDefinitionError e) = SchemaNotJson"
  by (auto simp: save_schema_def describeEventDefinitionError_def read_refusal_def syntax_error_def
      split: option.splits)

end
