(* ===== verification/TableSort.thy ===== *)
theory TableSort
  imports ConsoleBase "HOL-Library.Multiset"
begin

section \<open>Sorting a table\<close>

text \<open>
  \<open>web/src/components/tableSort.ts\<close>. \<open>Array.prototype.sort\<close> is modelled as a stable insertion sort
  over the comparator of the source; the locale \<open>sort_order\<close> states what a comparator must satisfy
  for the result to be determined, and the theorems show that the table's comparator does. The
  collator is the language library's and a parameter, with the law that it is a total preorder.
  Rows come from JSON, so dates and big integers do not occur.
\<close>

subsection \<open>Sorting by a comparator\<close>

fun insert_by :: "('a \<Rightarrow> 'a \<Rightarrow> bool) \<Rightarrow> 'a \<Rightarrow> 'a list \<Rightarrow> 'a list" where
  "insert_by gt x [] = [x]"
| "insert_by gt x (y # ys) = (if gt x y then y # insert_by gt x ys else x # y # ys)"

definition js_sort :: "('a \<Rightarrow> 'a \<Rightarrow> bool) \<Rightarrow> 'a list \<Rightarrow> 'a list" where
  "js_sort gt xs = foldr (insert_by gt) xs []"

lemma mset_insert_by [simp]: "mset (insert_by gt x ys) = add_mset x (mset ys)"
  by (induction ys) auto

lemma mset_js_sort [simp]: "mset (js_sort gt xs) = mset xs"
  by (induction xs) (auto simp: js_sort_def)

lemma set_js_sort [simp]: "set (js_sort gt xs) = set xs"
  by (metis mset_js_sort set_mset_mset)

lemma length_js_sort [simp]: "length (js_sort gt xs) = length xs"
  by (metis mset_js_sort size_mset)

text \<open>
  A comparator, read as \<open>gt a b\<close> for a positive result, orders a list when "not greater" is total
  and transitive.
\<close>

locale sort_order =
  fixes gt :: "'a \<Rightarrow> 'a \<Rightarrow> bool"
  assumes asymmetric: "gt a b \<Longrightarrow> \<not> gt b a"
    and transitive: "\<not> gt a b \<Longrightarrow> \<not> gt b c \<Longrightarrow> \<not> gt a c"
begin

lemma insert_sorted:
  "sorted_wrt (\<lambda>a b. \<not> gt a b) ys \<Longrightarrow> sorted_wrt (\<lambda>a b. \<not> gt a b) (insert_by gt x ys)"
proof (induction ys)
  case (Cons y ys)
  have members: "set (insert_by gt x ys) = insert x (set ys)"
    by (metis mset_insert_by set_mset_add_mset_insert set_mset_mset)
  show ?case
  proof (cases "gt x y")
    case True
    then have "\<not> gt y x" by (rule asymmetric)
    with Cons members True show ?thesis by auto
  next
    case False
    then have "\<forall>z \<in> set ys. \<not> gt x z" using Cons.prems transitive [of x y] by auto
    with Cons.prems False show ?thesis by auto
  qed
qed simp

lemma sorted: "sorted_wrt (\<lambda>a b. \<not> gt a b) (js_sort gt xs)"
  by (induction xs) (auto simp: js_sort_def intro: insert_sorted)

lemma insert_filter:
  assumes "sorted_wrt (\<lambda>a b. \<not> gt a b) ys" "\<And>y. P y \<Longrightarrow> \<not> gt x y"
  shows "filter P (insert_by gt x ys) = (if P x then x # filter P ys else filter P ys)"
  using assms by (induction ys) auto

text \<open>Stability: elements that compare equal keep their order.\<close>

lemma stable:
  "filter (\<lambda>b. \<not> gt a b \<and> \<not> gt b a) (js_sort gt xs) = filter (\<lambda>b. \<not> gt a b \<and> \<not> gt b a) xs"
proof (induction xs)
  case (Cons x xs)
  let ?P = "\<lambda>b. \<not> gt a b \<and> \<not> gt b a"
  have step: "js_sort gt (x # xs) = insert_by gt x (js_sort gt xs)" by (simp add: js_sort_def)
  show ?case
  proof (cases "?P x")
    case True
    then have "filter ?P (insert_by gt x (js_sort gt xs)) = x # filter ?P (js_sort gt xs)"
      using insert_filter [OF sorted, of ?P x xs] transitive by meson
    then show ?thesis using Cons True by (simp add: step)
  next
    case False
    have "filter ?P (insert_by gt x ys) = filter ?P ys" for ys
      using False by (induction ys) auto
    then show ?thesis using Cons False by (simp add: step)
  qed
qed (simp add: js_sort_def)

text \<open>When no two elements compare equal, the sorted arrangement is unique.\<close>

lemma unique:
  assumes "mset ys = mset xs" "sorted_wrt (\<lambda>a b. \<not> gt a b) ys"
    and strict: "\<And>a b. a \<in> set xs \<Longrightarrow> b \<in> set xs \<Longrightarrow> \<not> gt a b \<Longrightarrow> \<not> gt b a \<Longrightarrow> a = b"
  shows "ys = js_sort gt xs"
proof -
  have "ys = zs" if "mset ys = mset zs" "sorted_wrt (\<lambda>a b. \<not> gt a b) ys"
    "sorted_wrt (\<lambda>a b. \<not> gt a b) zs" "set zs \<subseteq> set xs" for ys zs
    using that
  proof (induction zs arbitrary: ys)
    case (Cons z zs)
    obtain w ws where ys: "ys = w # ws"
      using Cons.prems(1) by (cases ys) auto
    have wz: "w \<in> insert z (set zs)" "z \<in> insert w (set ws)"
      using mset_eq_setD [OF Cons.prems(1)] by (auto simp: ys)
    have "w = z"
    proof (rule ccontr)
      assume ne: "w \<noteq> z"
      then have "\<not> gt z w" "\<not> gt w z" using wz Cons.prems(2,3) by (auto simp: ys)
      then show False using strict [of w z] wz Cons.prems(4) ne by auto
    qed
    with Cons.IH [of ws] Cons.prems show ?case by (simp add: ys)
  qed simp
  then show ?thesis using assms(1,2) sorted [of xs] by simp
qed

end

subsection \<open>Comparing cells\<close>

datatype direction = Asc | Desc

record sort_state =
  sort_key :: string
  sort_direction :: direction

definition isBlank :: "val \<Rightarrow> bool" where
  "isBlank v \<longleftrightarrow> nullish v \<or> (case v of VStr s \<Rightarrow> js_trim s = [] | _ \<Rightarrow> False)"

fun comparable :: "val \<Rightarrow> jnum + string" where
  "comparable (VNum n) = Inl n"
| "comparable (VBool b) = Inl (Fin (if b then 1 else 0))"
| "comparable (VStr s) = Inr s"
| "comparable VUndef = Inr ''undefined''"
| "comparable v = Inr (json_text v)"

text \<open>\<open>left - right\<close>.\<close>

fun num_sub :: "jnum \<Rightarrow> jnum \<Rightarrow> jnum" where
  "num_sub (Fin a) (Fin b) = Fin (a - b)"
| "num_sub NaN b = NaN"
| "num_sub a NaN = NaN"
| "num_sub PInf PInf = NaN"
| "num_sub NInf NInf = NaN"
| "num_sub PInf b = PInf"
| "num_sub NInf b = NInf"
| "num_sub a PInf = NInf"
| "num_sub a NInf = PInf"

definition nan_flag :: "jnum \<Rightarrow> rat" where
  "nan_flag n = (if n = NaN then 1 else 0)"

definition compareValues :: "(string \<Rightarrow> string \<Rightarrow> int) \<Rightarrow> val \<Rightarrow> val \<Rightarrow> jnum" where
  "compareValues collate a b =
     (case (comparable a, comparable b) of
        (Inl x, Inl y) \<Rightarrow>
          if x = NaN \<or> y = NaN then Fin (nan_flag x - nan_flag y) else num_sub x y
      | (Inl x, Inr t) \<Rightarrow> Fin (- 1)
      | (Inr s, Inl y) \<Rightarrow> Fin 1
      | (Inr s, Inr t) \<Rightarrow> Fin (of_int (collate s t)))"

record 'r entry =
  row :: 'r
  index :: nat
  cell :: val

definition signed :: "direction \<Rightarrow> jnum \<Rightarrow> jnum" where
  "signed d n = (if d = Asc then n else neg_num n)"

definition compare_entries ::
  "(string \<Rightarrow> string \<Rightarrow> int) \<Rightarrow> direction \<Rightarrow> 'r entry \<Rightarrow> 'r entry \<Rightarrow> jnum"
where
  "compare_entries collate d a b =
     (let blankA = isBlank (cell a); blankB = isBlank (cell b);
          by_index = Fin (of_nat (index a) - of_nat (index b)) in
      if blankA \<or> blankB then
        (if blankA \<and> blankB then by_index else if blankA then Fin 1 else Fin (- 1))
      else let c = signed d (compareValues collate (cell a) (cell b)) in
        if c = Fin 0 \<or> c = NaN then by_index else c)"

fun positive_num :: "jnum \<Rightarrow> bool" where
  "positive_num (Fin q) = (q > 0)"
| "positive_num PInf = True"
| "positive_num _ = False"

definition entry_gt :: "(string \<Rightarrow> string \<Rightarrow> int) \<Rightarrow> direction \<Rightarrow> 'r entry \<Rightarrow> 'r entry \<Rightarrow> bool" where
  "entry_gt collate d a b \<longleftrightarrow> positive_num (compare_entries collate d a b)"

definition entries :: "('r \<Rightarrow> val) \<Rightarrow> 'r list \<Rightarrow> 'r entry list" where
  "entries valueOf rows =
     map (\<lambda>(i, r). \<lparr>row = r, index = i, cell = valueOf r\<rparr>) (enumerate 0 rows)"

definition sortRows :: "(string \<Rightarrow> string \<Rightarrow> int) \<Rightarrow> 'r list \<Rightarrow> ('r \<Rightarrow> val) \<Rightarrow> direction \<Rightarrow> 'r list" where
  "sortRows collate rows valueOf d =
     map row (js_sort (entry_gt collate d) (entries valueOf rows))"

fun firstDirection :: "val list \<Rightarrow> direction" where
  "firstDirection [] = Asc"
| "firstDirection (v # vs) =
     (if isBlank v then firstDirection vs
      else case v of VNum n \<Rightarrow> Desc | _ \<Rightarrow> Asc)"

definition flip :: "direction \<Rightarrow> direction" where
  "flip d = (if d = Asc then Desc else Asc)"

definition nextSort :: "sort_state option \<Rightarrow> string \<Rightarrow> direction \<Rightarrow> sort_state option" where
  "nextSort current k first =
     (case current of
        None \<Rightarrow> Some \<lparr>sort_key = k, sort_direction = first\<rparr>
      | Some c \<Rightarrow>
          if sort_key c \<noteq> k then Some \<lparr>sort_key = k, sort_direction = first\<rparr>
          else if sort_direction c = first then Some \<lparr>sort_key = k, sort_direction = flip first\<rparr>
          else None)"

subsection \<open>The comparator is an order\<close>

text \<open>What the library promises of \<open>Intl.Collator\<close>: a total preorder on strings.\<close>

definition collation :: "(string \<Rightarrow> string \<Rightarrow> int) \<Rightarrow> bool" where
  "collation c \<longleftrightarrow>
     (\<forall>s t. sgn (c t s) = - sgn (c s t)) \<and> (\<forall>s t u. c s t \<le> 0 \<longrightarrow> c t u \<le> 0 \<longrightarrow> c s u \<le> 0)"

text \<open>The sign of a comparison, with the results that count as a tie.\<close>

fun sign_of :: "jnum \<Rightarrow> int" where
  "sign_of (Fin q) = (if q > 0 then 1 else if q < 0 then -1 else 0)"
| "sign_of PInf = 1"
| "sign_of NInf = -1"
| "sign_of NaN = 0"

definition cmp :: "(string \<Rightarrow> string \<Rightarrow> int) \<Rightarrow> val \<Rightarrow> val \<Rightarrow> int" where
  "cmp collate a b = sign_of (compareValues collate a b)"

text \<open>Numbers, with a missing number after all others, and strings after the numbers.\<close>

fun num_rank :: "jnum \<Rightarrow> int \<times> rat" where
  "num_rank NInf = (-1, 0)"
| "num_rank (Fin q) = (0, q)"
| "num_rank PInf = (1, 0)"
| "num_rank NaN = (2, 0)"

definition num_cmp :: "jnum \<Rightarrow> jnum \<Rightarrow> int" where
  "num_cmp x y =
     (let (i, p) = num_rank x; (j, q) = num_rank y in
      if i < j \<or> i = j \<and> p < q then -1 else if i = j \<and> p = q then 0 else 1)"

lemma num_cmp_sub:
  "(if x = NaN \<or> y = NaN then sign_of (Fin (nan_flag x - nan_flag y)) else sign_of (num_sub x y))
     = num_cmp x y"
  by (cases x; cases y) (simp_all add: num_cmp_def nan_flag_def)

lemma num_cmp_flip: "num_cmp y x = - num_cmp x y"
  by (cases "num_rank x"; cases "num_rank y") (auto simp: num_cmp_def)

lemma num_cmp_trans: "num_cmp x y \<le> 0 \<Longrightarrow> num_cmp y z \<le> 0 \<Longrightarrow> num_cmp x z \<le> 0"
  by (cases "num_rank x"; cases "num_rank y"; cases "num_rank z")
    (auto simp: num_cmp_def split: if_splits)

lemma cmp_cases:
  "cmp c a b =
     (case (comparable a, comparable b) of
        (Inl x, Inl y) \<Rightarrow> num_cmp x y
      | (Inl x, Inr t) \<Rightarrow> -1
      | (Inr s, Inl y) \<Rightarrow> 1
      | (Inr s, Inr t) \<Rightarrow> sgn (c s t))"
  unfolding cmp_def compareValues_def num_cmp_sub [symmetric]
  by (auto simp: sgn_if split: sum.split)

lemma collation_flip: "collation c \<Longrightarrow> sgn (c t s) = - sgn (c s t)"
  unfolding collation_def by blast

lemma cmp_flip: "collation c \<Longrightarrow> cmp c b a = - cmp c a b"
  by (cases "comparable a"; cases "comparable b")
    (simp_all add: cmp_cases, (rule num_cmp_flip | rule collation_flip, assumption)+)

lemma collation_trans: "collation c \<Longrightarrow> c s t \<le> 0 \<Longrightarrow> c t u \<le> 0 \<Longrightarrow> c s u \<le> 0"
  unfolding collation_def by blast

lemma sgn_le_0: "sgn (k :: int) \<le> 0 \<longleftrightarrow> k \<le> 0"
  by (simp add: sgn_if)

lemma cmp_trans: "collation c \<Longrightarrow> cmp c a b \<le> 0 \<Longrightarrow> cmp c b d \<le> 0 \<Longrightarrow> cmp c a d \<le> 0"
  by (cases "comparable a"; cases "comparable b"; cases "comparable d")
    (simp_all add: cmp_cases sgn_le_0, (blast intro: num_cmp_trans collation_trans)+)

definition directed :: "(string \<Rightarrow> string \<Rightarrow> int) \<Rightarrow> direction \<Rightarrow> val \<Rightarrow> val \<Rightarrow> int" where
  "directed c d a b = (if d = Asc then cmp c a b else - cmp c a b)"

lemma sign_neg [simp]: "sign_of (neg_num n) = - sign_of n"
  by (cases n) auto

lemma sign_zero: "sign_of n = 0 \<longleftrightarrow> n = Fin 0 \<or> n = NaN"
  by (cases n) auto

lemma positive_sign: "positive_num n \<longleftrightarrow> sign_of n = 1"
  by (cases n) auto

lemma sign_range: "sign_of n \<in> {-1, 0, 1}"
  by (cases n) auto

lemma entry_gt_iff:
  "entry_gt c d a b \<longleftrightarrow>
     (if isBlank (cell a) \<or> isBlank (cell b)
      then isBlank (cell a) \<and> (isBlank (cell b) \<longrightarrow> index a > index b)
      else directed c d (cell a) (cell b) = 1
           \<or> directed c d (cell a) (cell b) = 0 \<and> index a > index b)"
proof -
  have s: "sign_of (signed d (compareValues c (cell a) (cell b))) = directed c d (cell a) (cell b)"
    by (simp add: signed_def directed_def cmp_def)
  show ?thesis
    unfolding entry_gt_def compare_entries_def Let_def positive_sign sign_zero [symmetric] s
    using s by auto
qed

lemma directed_range: "directed c d a b \<in> {-1, 0, 1}"
  using sign_range [of "compareValues c a b"] by (auto simp: directed_def cmp_def)

lemma entry_order: "collation c \<Longrightarrow> sort_order (entry_gt c d)"
proof
  assume c: "collation c"
  have flip: "directed c d y x = - directed c d x y" for x y
    using cmp_flip [OF c, of x y] by (simp add: directed_def)
  have trans: "directed c d x y \<le> 0 \<Longrightarrow> directed c d y z \<le> 0 \<Longrightarrow> directed c d x z \<le> 0" for x y z
  proof (cases d)
    case Asc
    then show "directed c d x y \<le> 0 \<Longrightarrow> directed c d y z \<le> 0 \<Longrightarrow> directed c d x z \<le> 0"
      using cmp_trans [OF c, of x y z] by (simp add: directed_def)
  next
    case Desc
    have "directed c Desc u v = cmp c v u" for u v
      using cmp_flip [OF c, of u v] by (simp add: directed_def)
    with Desc show "directed c d x y \<le> 0 \<Longrightarrow> directed c d y z \<le> 0 \<Longrightarrow> directed c d x z \<le> 0"
      using cmp_trans [OF c, of z y x] by simp
  qed
  fix a b e :: "'a entry"
  show "\<not> entry_gt c d b a" if "entry_gt c d a b"
    using that flip [of "cell b" "cell a"] by (auto simp: entry_gt_iff split: if_splits)
  show "\<not> entry_gt c d a e" if ab: "\<not> entry_gt c d a b" and be: "\<not> entry_gt c d b e"
  proof (cases "isBlank (cell a) \<or> isBlank (cell b) \<or> isBlank (cell e)")
    case True
    with ab be show ?thesis by (auto simp: entry_gt_iff split: if_splits)
  next
    case False
    let ?x = "directed c d (cell a) (cell b)" and ?y = "directed c d (cell b) (cell e)"
      and ?z = "directed c d (cell a) (cell e)"
    have le: "?x \<le> 0" "?y \<le> 0"
      using ab be False directed_range [of c d "cell a" "cell b"] directed_range [of c d "cell b" "cell e"]
      by (auto simp: entry_gt_iff)
    then have "?z \<le> 0" by (rule trans)
    moreover have "?x = 0 \<and> ?y = 0" if "?z = 0"
      using that le trans [of "cell e" "cell a" "cell b"] trans [of "cell b" "cell e" "cell a"]
        flip [of "cell a" "cell e"] flip [of "cell a" "cell b"] flip [of "cell b" "cell e"] by auto
    ultimately show ?thesis using ab be False by (auto simp: entry_gt_iff)
  qed
qed

subsection \<open>What the reader sees\<close>

lemma entries_facts [simp]:
  "map row (entries f rows) = rows" "map index (entries f rows) = [0..<length rows]"
  "e \<in> set (entries f rows) \<Longrightarrow> cell e = f (row e)"
proof -
  show "map row (entries f rows) = rows"
    by (simp add: entries_def comp_def case_prod_unfold)
  show "map index (entries f rows) = [0..<length rows]"
    by (simp add: entries_def comp_def case_prod_unfold)
  show "e \<in> set (entries f rows) \<Longrightarrow> cell e = f (row e)"
    by (auto simp: entries_def)
qed

lemma inj_index: "inj_on index (set (entries f rows))"
  using distinct_map [of index "entries f rows"] by simp

lemma directed_refl: "collation c \<Longrightarrow> directed c d v v = 0"
  using cmp_flip [of c v v] by (simp add: directed_def)

text \<open>Rows whose cells satisfy a property that makes them tie keep the order of their indices.\<close>

lemma class_in_order:
  assumes c: "collation c" and tie: "\<And>a b. P a \<Longrightarrow> P b \<Longrightarrow> isBlank a \<and> isBlank b
     \<or> \<not> isBlank a \<and> \<not> isBlank b \<and> directed c d a b = 0"
  shows "filter (P \<circ> cell) (js_sort (entry_gt c d) (entries f rows)) =
         filter (P \<circ> cell) (entries f rows)"
proof -
  let ?es = "entries f rows" and ?ss = "js_sort (entry_gt c d) (entries f rows)"
  have inj: "inj_on index (set (filter (P \<circ> cell) ?ss))"
    using inj_index [of f rows] by (rule inj_on_subset) auto
  have sorted_es: "sorted (map index (filter (P \<circ> cell) ?es))"
    using sorted_filter [of index ?es "P \<circ> cell"] by simp
  have "sorted_wrt (\<lambda>a b. \<not> entry_gt c d a b) (filter (P \<circ> cell) ?ss)"
    by (intro sorted_wrt_filter sort_order.sorted [OF entry_order [OF c]])
  then have "sorted_wrt (\<lambda>a b. index a \<le> index b) (filter (P \<circ> cell) ?ss)"
  proof (rule sorted_wrt_mono_rel [rotated])
    fix a b
    assume "a \<in> set (filter (P \<circ> cell) ?ss)" "b \<in> set (filter (P \<circ> cell) ?ss)"
      "\<not> entry_gt c d a b"
    then show "index a \<le> index b"
      using tie [of "cell a" "cell b"] by (auto simp: entry_gt_iff split: if_splits)
  qed
  then have sorted_ss: "sorted (map index (filter (P \<circ> cell) ?ss))"
    by (simp add: sorted_map)
  have "mset (filter (P \<circ> cell) ?ss) = mset (filter (P \<circ> cell) ?es)"
    by (simp add: mset_filter)
  then show ?thesis
    using sort_key_inj_key_eq [OF _ inj sorted_es] sort_key_inj_key_eq [OF refl inj sorted_ss] by simp
qed

definition in_order :: "(string \<Rightarrow> string \<Rightarrow> int) \<Rightarrow> direction \<Rightarrow> val \<Rightarrow> val \<Rightarrow> bool" where
  "in_order c d v w \<longleftrightarrow>
     (if isBlank v then isBlank w else if isBlank w then True else directed c d v w \<le> 0)"


text \<open>A collator that compares lengths, for evaluation.\<close>

definition by_length :: "string \<Rightarrow> string \<Rightarrow> int" where
  "by_length s t = int (length s) - int (length t)"

lemma by_length_collation: "collation by_length"
  by (auto simp: collation_def by_length_def sgn_if)


text \<open>
  The remark at \<open>compareValues\<close> that a missing number goes to the end like a blank holds for the
  ascending direction only: the direction multiplies this result too.
\<close>

lemma missing_number_first_when_descending:
  "sortRows c [vint 1, VNum NaN] id Desc = [VNum NaN, vint 1]"
  by (simp add: sortRows_def entries_def js_sort_def entry_gt_iff isBlank_def directed_def cmp_cases
      num_cmp_def)

subsection \<open>The clicks on a column head\<close>

definition click :: "direction \<Rightarrow> string \<Rightarrow> sort_state option \<Rightarrow> sort_state option" where
  "click first k st = nextSort st k first"

text \<open>Three clicks on a column bring back the server's order, from any state of another column.\<close>

lemma three_clicks:
  assumes "case st of None \<Rightarrow> True | Some c \<Rightarrow> sort_key c \<noteq> k"
  shows "click first k (click first k (click first k st)) = None"
proof -
  have "click first k st = Some \<lparr>sort_key = k, sort_direction = first\<rparr>"
    using assms by (cases st) (simp_all add: click_def nextSort_def)
  then show ?thesis by (simp add: click_def nextSort_def flip_def)
qed

lemma firstDirection_blank:
  "firstDirection vs = Desc \<longleftrightarrow> (\<exists>n. find (\<lambda>v. \<not> isBlank v) vs = Some (VNum n))"
  by (induction vs) (auto split: val.splits)

end
