(* ===== verification/QueryError.thy ===== *)
theory QueryError
  imports AdminErrors TableSort
begin

section \<open>A failed or slow query\<close>

text \<open>
  \<open>web/src/components/queryError.ts\<close> and \<open>web/src/api/keepPrevious.ts\<close>: the way out that is
  offered for a failed query, the periods a site's policy allows, and when the previous answer may
  stay on the screen. A title and its explanation go together and are one constructor.
\<close>

datatype query_sentence =
    TimedOut | RangeOverPolicy | Canceled | Failed | TooManySegments | InvalidSegment
  | InvalidRange | UnknownSite | ProfilesDisabled | InvalidTimezone | NotEncodable
  | SharedMemory | NotJson | Forbidden
  | Incomplete "string option"    \<comment> \<open>the server's message as the explanation, or the general one\<close>

datatype action_label =
    NarrowBySegment | FastMode | ScheduledDelivery | ChangePolicy | ManageSegments | CheckSegment
  | SiteList | PrivacyPolicy | SiteSettings

datatype recovery_action = Retry | Narrow | Link action_label string

record recovery =
  sentence :: query_sentence
  actions :: "recovery_action list"
  server_message :: "string option"

record recovery_options =
  canNarrowRange :: bool
  canRetry :: bool
  canEditPolicy :: bool

definition explorer :: string where "explorer = ''/explorer''"
definition automation :: string where "automation = ''/admin/automation''"
definition segments :: string where "segments = ''/segments''"
definition sites :: string where "sites = ''/admin?section=sites''"
definition privacy :: string where "privacy = ''/admin?section=privacy''"
definition queryPolicy :: string where
  "queryPolicy = ''/admin/analytics-engineering?panel=query-cost''"

definition recover :: "query_sentence \<Rightarrow> recovery_action list \<Rightarrow> string option \<Rightarrow> recovery" where
  "recover s as d = \<lparr>sentence = s, actions = as, server_message = d\<rparr>"

definition describeQueryError :: "thrown \<Rightarrow> recovery_options \<Rightarrow> recovery" where
  "describeQueryError error opts =
     (let code = error_code error; message = error_message error;
          retry = (if canRetry opts then [Retry] else []);
          narrow = (if canNarrowRange opts then [Narrow] else []);
          retry_anyway = (if retry \<noteq> [] then retry else [Retry]) in
      if code = ''QUERY_TIMEOUT'' then
        recover TimedOut
          (narrow @ [Link NarrowBySegment segments, Link FastMode explorer,
                     Link ScheduledDelivery automation] @ retry) None
      else if code = ''RANGE_EXCEEDS_POLICY'' then
        recover RangeOverPolicy
          (narrow @ (if canEditPolicy opts then [Link ChangePolicy queryPolicy] else [])
                  @ [Link ScheduledDelivery automation]) (Some message)
      else if code = ''QUERY_CANCELED'' then recover Canceled retry_anyway None
      else if code = ''QUERY_FAILED'' then recover Failed retry_anyway (Some message)
      else if code = ''TOO_MANY_SEGMENTS'' then
        recover TooManySegments [Link ManageSegments segments] None
      else if code = ''INVALID_SEGMENT'' then
        recover InvalidSegment [Link CheckSegment segments] (Some message)
      else if code = ''INVALID_RANGE'' then recover InvalidRange narrow (Some message)
      else if code = ''UNKNOWN_SITE'' then recover UnknownSite [Link SiteList sites] None
      else if code = ''VISITOR_PROFILES_DISABLED'' then
        recover ProfilesDisabled [Link PrivacyPolicy privacy] None
      else if code = ''INVALID_TIMEZONE'' then
        recover InvalidTimezone [Link SiteSettings sites] (Some message)
      else if code = ''RESPONSE_NOT_ENCODABLE'' then recover NotEncodable [] (Some message)
      else if code = ''DATABASE_SHARED_MEMORY'' then
        recover SharedMemory [Link SiteSettings sites] (Some message)
      else if code = ''RESPONSE_NOT_JSON'' then recover NotJson retry_anyway (Some message)
      else if code = ''FORBIDDEN'' then recover Forbidden [] None
      else recover (Incomplete (if message = [] then None else Some message)) retry None)"

datatype slow_notice = SlowerThanUsual | NearTheLimit

definition slowQueryNotice :: "rat \<Rightarrow> slow_notice option" where
  "slowQueryNotice elapsedMs =
     (if elapsedMs < 8000 then None
      else if elapsedMs < 20000 then Some SlowerThanUsual
      else Some NearTheLimit)"

subsection \<open>Periods\<close>

definition longer_first :: "int \<Rightarrow> int \<Rightarrow> bool" where
  "longer_first a b \<longleftrightarrow> b - a > 0"

interpretation descending: sort_order longer_first
  by unfold_locales (auto simp: longer_first_def)

definition narrowerRange :: "int \<Rightarrow> int list \<Rightarrow> int option" where
  "narrowerRange days options =
     (let shorter = js_sort longer_first (filter (\<lambda>option. option < days) options)
      in if shorter \<noteq> [] then Some (hd shorter) else None)"

definition limited :: "int option \<Rightarrow> bool" where
  "limited maxExactDays \<longleftrightarrow> (case maxExactDays of Some m \<Rightarrow> m > 0 | None \<Rightarrow> False)"

definition allowedRanges :: "int list \<Rightarrow> int option \<Rightarrow> int list" where
  "allowedRanges options maxExactDays =
     (if \<not> limited maxExactDays then options
      else let allowed = filter (\<lambda>option. option \<le> the maxExactDays) options
           in if allowed \<noteq> [] then allowed else take 1 options)"

definition policyRange :: "int \<Rightarrow> int option \<Rightarrow> int" where
  "policyRange days maxExactDays =
     (if \<not> limited maxExactDays then days else min days (the maxExactDays))"

text \<open>The next shorter period is the longest of those offered below the current one.\<close>

lemma narrower_is_longest:
  "narrowerRange d options = (if \<exists>x \<in> set options. x < d then Some (Max {x \<in> set options. x < d}) else None)"
proof (cases "\<exists>x \<in> set options. x < d")
  case True
  let ?s = "js_sort longer_first (filter (\<lambda>x. x < d) options)"
  have mem: "set ?s = {x \<in> set options. x < d}" by auto
  then have ne: "?s \<noteq> []" using True by (metis (mono_tags, lifting) empty_iff empty_set mem_Collect_eq)
  have "\<forall>y \<in> set (tl ?s). \<not> longer_first (hd ?s) y"
    using descending.sorted [of "filter (\<lambda>x. x < d) options"] ne by (cases ?s) auto
  then have "\<forall>y \<in> set ?s. y \<le> hd ?s"
    using ne by (cases ?s) (auto simp: longer_first_def)
  then have "Max (set ?s) = hd ?s" using hd_in_set [OF ne] by (intro Max_eqI) (simp_all del: set_js_sort)
  then show ?thesis using True ne unfolding mem by (simp add: narrowerRange_def)
next
  case False
  then have "filter (\<lambda>x. x < d) options = []" by (auto simp: filter_empty_conv)
  then show ?thesis using False by (simp add: narrowerRange_def js_sort_def)
qed

lemma policy_range_allowed: "limited (Some m) \<Longrightarrow> policyRange d (Some m) \<le> m"
  by (simp add: policyRange_def)

lemma allowed_ranges_facts:
  "set (allowedRanges options m) \<subseteq> set options"
  "options \<noteq> [] \<Longrightarrow> allowedRanges options m \<noteq> []"
  by (auto simp: allowedRanges_def Let_def dest: in_set_takeD)

text \<open>No dead end is offered: a retry only where trying again can help.\<close>

lemma no_idle_retry:
  "code_field e = VStr c \<Longrightarrow> is_object e \<Longrightarrow>
   c \<in> {''RESPONSE_NOT_ENCODABLE'', ''RANGE_EXCEEDS_POLICY'', ''FORBIDDEN'', ''INVALID_TIMEZONE'',
        ''VISITOR_PROFILES_DISABLED'', ''DATABASE_SHARED_MEMORY''} \<Longrightarrow>
   Retry \<notin> set (actions (describeQueryError e opts))"
  by (auto simp: describeQueryError_def error_code_def recover_def)

subsection \<open>The previous answer\<close>

text \<open>A query key is a list of values; an undefined element of the scope is not compared.\<close>

definition keepWithinScope :: "val list \<Rightarrow> 'd option \<Rightarrow> val list option \<Rightarrow> 'd option" where
  "keepWithinScope scope previous previousKey =
     (case (previous, previousKey) of
        (Some d, Some key) \<Rightarrow>
          if list_all (\<lambda>v. v = VUndef \<or> v \<in> set key) scope then Some d else None
      | _ \<Rightarrow> None)"

lemma kept_only_in_scope:
  "keepWithinScope scope previous previousKey = Some d \<Longrightarrow> v \<in> set scope \<Longrightarrow> v \<noteq> VUndef \<Longrightarrow>
   \<exists>key. previousKey = Some key \<and> v \<in> set key"
  by (auto simp: keepWithinScope_def list_all_iff split: option.splits if_splits)

end
