(* ===== verification/Client.thy ===== *)
theory Client
  imports QueryError UrlParams
begin

section \<open>Talking to the server\<close>

text \<open>
  \<open>web/src/api/client.ts\<close>: how a request is built and how its answer becomes a value or an error,
  beside the shape in which the server writes a refusal (\<open>writeError\<close> of
  \<open>internal/httpapi/response.go\<close>); \<open>web/src/contexts/AuthContext.tsx\<close>: what an answer means for who
  is signed in; and \<open>web/src/version.ts\<close>. The network is a parameter: a response, or nothing
  when the request never got one.
\<close>

subsection \<open>Requests\<close>

record request =
  target :: string
  req_method :: string
  req_headers :: "(string \<times> string) list"
  req_body :: "string option"

text \<open>A parsed address: path, parameters, fragment. Parsing is the browser's.\<close>

record parsed_url =
  pathname :: string
  search_params :: params
  fragment :: string

record init =
  init_method :: "string option"
  init_headers :: "(string \<times> string) list"
  init_body :: "string option"

definition no_init :: init where
  "no_init = \<lparr>init_method = None, init_headers = [], init_body = None\<rparr>"

text \<open>\<open>searchParams.toString()\<close> behind a question mark, where there are parameters.\<close>

definition search_text :: "params \<Rightarrow> string" where
  "search_text ps = (if ps = [] then [] else CHR ''?'' # params_text ps)"

definition site_target ::
  "(string \<Rightarrow> parsed_url) \<Rightarrow> string option \<Rightarrow> string \<Rightarrow> string \<Rightarrow> string"
where
  "site_target parseUrl storedEnvironment requestMethod url =
     (if requestMethod = ''GET'' \<and> js_includes url ''/api/v1/sites/'' then
        let environment = (case storedEnvironment of Some e \<Rightarrow> or_str e ''prd'' | None \<Rightarrow> ''prd'');
            parsed = parseUrl url;
            ps = (if param_get (search_params parsed) ''environment'' = None
                  then param_set ''environment'' environment (search_params parsed)
                  else search_params parsed)
        in pathname parsed @ search_text ps @ fragment parsed
      else url)"

text \<open>\<open>{...a, ...b}\<close> on headers: a later value replaces an earlier one.\<close>

definition merge_headers ::
  "(string \<times> string) list \<Rightarrow> (string \<times> string) list \<Rightarrow> (string \<times> string) list"
where
  "merge_headers a b = fold (\<lambda>(k, v) ps. param_set k v ps) b a"

definition build_request ::
  "(string \<Rightarrow> parsed_url) \<Rightarrow> string option \<Rightarrow> string \<Rightarrow> init \<Rightarrow> request"
where
  "build_request parseUrl storedEnvironment url i =
     (let requestMethod = (case init_method i of Some m \<Rightarrow> or_str m ''GET'' | None \<Rightarrow> ''GET'') in
      \<lparr>target = site_target parseUrl storedEnvironment requestMethod url,
       req_method = requestMethod,
       req_headers =
         merge_headers
           (case init_body i of
              Some b \<Rightarrow> if b \<noteq> [] then [(''Content-Type'', ''application/json'')] else []
            | None \<Rightarrow> [])
           (init_headers i),
       req_body = init_body i\<rparr>)"

text \<open>\<open>get\<close>, \<open>post\<close>, \<open>put\<close>, \<open>patch\<close>, \<open>del\<close> differ in the method and the body.\<close>

definition post_init :: "val \<Rightarrow> init" where
  "post_init body =
     no_init\<lparr>init_method := Some ''POST'',
             init_body := (if body = VUndef then None else Some (json_text body))\<rparr>"

definition put_init :: "val \<Rightarrow> init" where
  "put_init body = no_init\<lparr>init_method := Some ''PUT'', init_body := Some (json_text body)\<rparr>"

definition patch_init :: "val \<Rightarrow> init" where
  "patch_init body = no_init\<lparr>init_method := Some ''PATCH'', init_body := Some (json_text body)\<rparr>"

definition del_init :: init where
  "del_init = no_init\<lparr>init_method := Some ''DELETE''\<rparr>"

subsection \<open>Answers\<close>

record response =
  status :: int
  body_text :: string

definition response_ok :: "response \<Rightarrow> bool" where
  "response_ok r \<longleftrightarrow> 200 \<le> status r \<and> status r \<le> 299"

datatype api_failure =
    APIError int val val           \<comment> \<open>status, code, message\<close>
  | NotJsonError int               \<comment> \<open>status; code \<open>RESPONSE_NOT_JSON\<close>\<close>
  | FetchError string              \<comment> \<open>the request got no response\<close>

definition or_val :: "val \<Rightarrow> val \<Rightarrow> val" where
  "or_val a b = (if truthy a then a else b)"

text \<open>\<open>Inr None\<close> is the \<open>undefined\<close> of an answer without content.\<close>

definition read_response :: "response \<Rightarrow> api_failure + val option" where
  "read_response r =
     (if status r = 204 then Inr None
      else
        let body = (if body_text r = [] then None else json_parse (body_text r)) in
        if \<not> response_ok r then
          (let e = (case body of Some b \<Rightarrow> field b ''error'' | None \<Rightarrow> VUndef) in
           Inl (APIError (status r) (or_val (field e ''code'') (VStr ''REQUEST_FAILED''))
                  (or_val (field e ''message'') (VStr (''HTTP '' @ int_text (status r))))))
        else (case body of None \<Rightarrow> Inl (NotJsonError (status r)) | Some b \<Rightarrow> Inr (Some b)))"

definition api :: "(request \<Rightarrow> response option) \<Rightarrow> request \<Rightarrow> api_failure + val option" where
  "api fetch r = (case fetch r of None \<Rightarrow> Inl (FetchError ''Failed to fetch'') | Some resp \<Rightarrow> read_response resp)"

text \<open>The error object that the screens see; the sentence of a non-JSON answer is Korean and left out.\<close>

fun thrown_of :: "api_failure \<Rightarrow> thrown" where
  "thrown_of (APIError st c m) =
     \<lparr>is_object = True, code_field = c, is_error = True, is_syntax = False, error_text = str_of m\<rparr>"
| "thrown_of (NotJsonError st) =
     \<lparr>is_object = True, code_field = VStr ''RESPONSE_NOT_JSON'', is_error = True, is_syntax = False,
      error_text = []\<rparr>"
| "thrown_of (FetchError m) =
     \<lparr>is_object = True, code_field = VUndef, is_error = True, is_syntax = False, error_text = m\<rparr>"

text \<open>The server's \<open>writeError\<close>.\<close>

definition writeError :: "int \<Rightarrow> string \<Rightarrow> string \<Rightarrow> response" where
  "writeError st c m =
     \<lparr>status = st,
      body_text = json_text (VObj [(''error'', VObj [(''code'', VStr c), (''message'', VStr m)])])\<rparr>"

text \<open>
  A refusal the server writes is read back by the console as exactly its code and message, so
  that every table of sentences sees what the handler said.
\<close>

theorem refusal_roundtrip:
  assumes "c \<noteq> []" "m \<noteq> []" "400 \<le> st"
  shows "\<exists>e. read_response (writeError st c m) = Inl e \<and> read_refusal (thrown_of e) = (c, m)"
proof -
  let ?v = "VObj [(''error'', VObj [(''code'', VStr c), (''message'', VStr m)])]"
  have clean: "json_clean ?v = ?v" by simp
  have "json_parse (json_text ?v) = Some ?v"
    using parse_json_text [of ?v] clean by (simp add: wf_obj_def)
  moreover have "json_text ?v \<noteq> []" by (simp add: json_text_def)
  ultimately have "read_response (writeError st c m) = Inl (APIError st (VStr c) (VStr m))"
    using assms by (simp add: read_response_def writeError_def response_ok_def or_val_def Let_def)
  then show ?thesis
    by (simp add: read_refusal_def error_code_def error_message_def)
qed

lemma refusal_roundtrip_witness:
  "\<exists>e. read_response (writeError 403 ''ROLE_ABOVE_CALLER'' ''you cannot grant more authority than your own'')
     = Inl e
   \<and> read_refusal (thrown_of e) =
       (''ROLE_ABOVE_CALLER'', ''you cannot grant more authority than your own'')"
  by (rule refusal_roundtrip) simp_all

text \<open>A success that is not JSON is not a success, and a failure is never an answer.\<close>

lemma success_is_json:
  "read_response r = Inr (Some v) \<Longrightarrow> response_ok r \<and> json_parse (body_text r) = Some v"
  by (auto simp: read_response_def Let_def split: if_splits option.splits)

lemma error_not_success: "\<not> response_ok r \<Longrightarrow> \<exists>e. read_response r = Inl e"
  by (auto simp: read_response_def response_ok_def Let_def)

text \<open>Reads below a site always carry an environment, the one in the address first.\<close>

lemma site_reads_carry_environment:
  "\<exists>e. param_get (if param_get ps ''environment'' = None then param_set ''environment'' d ps else ps)
     ''environment'' = Some e"
  by auto

subsection \<open>Who is signed in\<close>

record auth_state =
  user :: "val option"
  loading :: bool
  sessionError :: "api_failure option"

definition auth_start :: auth_state where
  "auth_start = \<lparr>user = None, loading = True, sessionError = None\<rparr>"

fun session_refused :: "api_failure \<Rightarrow> bool" where
  "session_refused (APIError st c m) = (st = 401 \<or> st = 403)"
| "session_refused (NotJsonError st) = (st = 401 \<or> st = 403)"
| "session_refused (FetchError m) = False"

text \<open>The three operations, with the outcome of their request.\<close>

datatype auth_step =
    AuthRefresh "api_failure + val option"
  | AuthLogin "api_failure + val option"
  | AuthLogout "api_failure + val option"

fun auth_next :: "auth_step \<Rightarrow> auth_state \<Rightarrow> auth_state" where
  "auth_next (AuthRefresh (Inr v)) s = s\<lparr>user := v, sessionError := None, loading := False\<rparr>"
| "auth_next (AuthRefresh (Inl e)) s =
     (if session_refused e then s\<lparr>user := None, sessionError := None, loading := False\<rparr>
      else s\<lparr>sessionError := Some e, loading := False\<rparr>)"
| "auth_next (AuthLogin (Inr v)) s = s\<lparr>user := v\<rparr>"
| "auth_next (AuthLogin (Inl e)) s = s"
| "auth_next (AuthLogout r) s = s\<lparr>user := None, sessionError := None\<rparr>"

definition signs_out :: "auth_step \<Rightarrow> bool" where
  "signs_out st \<longleftrightarrow>
     (case st of
        AuthLogout r \<Rightarrow> True
      | AuthRefresh (Inl e) \<Rightarrow> session_refused e
      | AuthRefresh (Inr None) \<Rightarrow> True
      | AuthLogin (Inr None) \<Rightarrow> True
      | _ \<Rightarrow> False)"

lemma user_kept:
  "user s \<noteq> None \<Longrightarrow> \<not> signs_out st \<Longrightarrow> user (auth_next st s) \<noteq> None"
  by (cases "(st, s)" rule: auth_next.cases) (auto simp: signs_out_def split: option.splits)



subsection \<open>Versions\<close>

datatype commit_text = DevelopmentBuild | Commit string

definition shortCommit :: "string option \<Rightarrow> commit_text" where
  "shortCommit c =
     (case c of
        Some s \<Rightarrow> if s = [] \<or> s = ''unknown'' then DevelopmentBuild else Commit (take 8 s)
      | None \<Rightarrow> DevelopmentBuild)"

text \<open>\<open>formatDate\<close> is \<open>new Date(s).toLocaleString()\<close>, or \<open>None\<close> for an invalid date.\<close>

definition buildStamp :: "(string \<Rightarrow> string option) \<Rightarrow> string option \<Rightarrow> string" where
  "buildStamp formatDate build_time =
     (case build_time of
        None \<Rightarrow> []
      | Some t \<Rightarrow> if t = [] \<or> t = ''unknown'' then []
                  else (case formatDate t of Some s \<Rightarrow> s | None \<Rightarrow> []))"

end
