(* ===== verification/Sites.thy ===== *)
theory Sites
  imports Client
begin

section \<open>The selected site and its environments\<close>

text \<open>
  \<open>web/src/contexts/SiteContext.tsx\<close>: the list of sites, the selected one, and the environments of
  that site, which are read from the server whenever the site changes. Answers arrive in any
  order; an answer for a site that is no longer shown must not be used. A request in flight is the
  number of its effect run and the site it was made for; the effect's flag \<open>current\<close> is true for
  the latest run only. React's rendering between an event and its effect is one step here.
\<close>

record environment =
  env_name :: string
  env_active :: bool

record site_state =
  sites_list :: "string list"             \<comment> \<open>the \<open>site_id\<close> of each site\<close>
  selected :: string
  environment_name :: string
  environments :: "environment list"
  load_error :: "api_failure option"
  stored_site :: "string option"          \<comment> \<open>\<open>momento:selected-site\<close>\<close>
  stored_environment :: "string option"   \<comment> \<open>\<open>momento:selected-environment\<close>\<close>
  effect_site :: "string option"          \<comment> \<open>the site of the last run of the effect\<close>
  effect_run :: nat
  in_flight :: "(nat \<times> string) list"
  shown_for :: "string option"            \<comment> \<open>ghost: the site whose answer \<open>environments\<close> is\<close>
  run_failed :: bool                      \<comment> \<open>ghost: the current run's request failed\<close>

definition stored_or :: "string option \<Rightarrow> string \<Rightarrow> string" where
  "stored_or v d = (case v of Some s \<Rightarrow> or_str s d | None \<Rightarrow> d)"

definition site_start :: "string option \<Rightarrow> string option \<Rightarrow> site_state" where
  "site_start storedSite storedEnv =
     \<lparr>sites_list = [], selected = stored_or storedSite [],
      environment_name = stored_or storedEnv ''prd'', environments = [], load_error = None,
      stored_site = storedSite, stored_environment = storedEnv, effect_site = None, effect_run = 0,
      in_flight = [], shown_for = None, run_failed = False\<rparr>"

text \<open>\<open>sites.find((s) => s.site_id === selected) || sites[0] || null\<close>.\<close>

definition current_site :: "site_state \<Rightarrow> string option" where
  "current_site s =
     (if selected s \<in> set (sites_list s) then Some (selected s)
      else case sites_list s of x # _ \<Rightarrow> Some x | [] \<Rightarrow> None)"

text \<open>The effect that depends on the site: it runs again only when the site has changed.\<close>

definition site_effect :: "site_state \<Rightarrow> site_state" where
  "site_effect s =
     (let siteID = current_site s in
      if siteID = effect_site s then s
      else case siteID of
        None \<Rightarrow> s\<lparr>effect_site := None, effect_run := Suc (effect_run s), environments := [],
                  shown_for := None, run_failed := False\<rparr>
      | Some site \<Rightarrow>
          s\<lparr>effect_site := Some site, effect_run := Suc (effect_run s),
            in_flight := in_flight s @ [(Suc (effect_run s), site)], run_failed := False\<rparr>)"

definition refresh_ok :: "string list \<Rightarrow> site_state \<Rightarrow> site_state" where
  "refresh_ok next s =
     (let selectedSite = (if selected s \<in> set next then selected s
                          else case next of x # _ \<Rightarrow> x | [] \<Rightarrow> []) in
      s\<lparr>load_error := None, sites_list := next, selected := selectedSite,
        stored_site := (if selectedSite \<noteq> [] then Some selectedSite else None)\<rparr>)"

definition refresh_failed :: "api_failure \<Rightarrow> site_state \<Rightarrow> site_state" where
  "refresh_failed e s = s\<lparr>load_error := Some e\<rparr>"

definition environments_arrived :: "nat \<Rightarrow> string \<Rightarrow> environment list \<Rightarrow> site_state \<Rightarrow> site_state" where
  "environments_arrived run site items s =
     (let s = s\<lparr>in_flight := filter (\<lambda>f. f \<noteq> (run, site)) (in_flight s)\<rparr> in
      if run \<noteq> effect_run s then s
      else
        let active = filter env_active items;
            s = s\<lparr>environments := active, shown_for := Some site\<rparr>
        in if environment_name s \<in> set (map env_name active) then s
           else let chosen = (if ''prd'' \<in> set (map env_name active) then ''prd''
                              else case active of x # _ \<Rightarrow> or_str (env_name x) ''prd'' | [] \<Rightarrow> ''prd'')
                in s\<lparr>environment_name := chosen, stored_environment := Some chosen\<rparr>)"

definition environments_failed :: "nat \<Rightarrow> string \<Rightarrow> api_failure \<Rightarrow> site_state \<Rightarrow> site_state" where
  "environments_failed run site e s =
     (let s = s\<lparr>in_flight := filter (\<lambda>f. f \<noteq> (run, site)) (in_flight s)\<rparr> in
      if run = effect_run s then s\<lparr>load_error := Some e, run_failed := True\<rparr> else s)"

definition select_site :: "string \<Rightarrow> site_state \<Rightarrow> site_state" where
  "select_site i s = s\<lparr>selected := i, stored_site := Some i\<rparr>"

definition select_environment :: "string \<Rightarrow> site_state \<Rightarrow> site_state" where
  "select_environment n s = s\<lparr>environment_name := n, stored_environment := Some n\<rparr>"

text \<open>One event and the effect run that follows it; only requests in flight are answered.\<close>

inductive site_step :: "site_state \<Rightarrow> site_state \<Rightarrow> bool" where
  Refresh: "site_step s (site_effect (refresh_ok next s))"
| RefreshFails: "site_step s (site_effect (refresh_failed e s))"
| Answer: "(run, site) \<in> set (in_flight s) \<Longrightarrow>
    site_step s (site_effect (environments_arrived run site items s))"
| AnswerFails: "(run, site) \<in> set (in_flight s) \<Longrightarrow>
    site_step s (site_effect (environments_failed run site e s))"
| Select: "site_step s (site_effect (select_site i s))"
| SelectEnvironment: "site_step s (site_effect (select_environment n s))"

inductive_cases site_stepE: "site_step s t"

subsection \<open>Answers belong to the site shown\<close>

text \<open>
  The invariant: the effect is up to date; a request numbered with the current run was made for
  the current site, and no request has a later number; the environments shown are those of the
  current site unless its request is in flight or has failed.
\<close>

definition flights_ok :: "site_state \<Rightarrow> bool" where
  "flights_ok s \<longleftrightarrow>
     list_all (\<lambda>(run, site). run \<le> effect_run s \<and> (run = effect_run s \<longrightarrow> Some site = effect_site s))
       (in_flight s)"

definition shown_ok :: "site_state \<Rightarrow> bool" where
  "shown_ok s \<longleftrightarrow>
     shown_for s = effect_site s \<or> effect_run s \<in> set (map fst (in_flight s)) \<or> run_failed s"

definition site_inv :: "site_state \<Rightarrow> bool" where
  "site_inv s \<longleftrightarrow> effect_site s = current_site s \<and> flights_ok s \<and> shown_ok s"

lemma effect_current: "effect_site (site_effect s) = current_site (site_effect s)"
  by (auto simp: site_effect_def current_site_def Let_def split: option.split list.split)

lemma effect_establishes: "flights_ok s \<Longrightarrow> shown_ok s \<Longrightarrow> site_inv (site_effect s)"
  unfolding site_inv_def
  using effect_current [of s]
  by (auto simp: flights_ok_def shown_ok_def site_effect_def Let_def list_all_iff split: option.splits)

text \<open>Events that touch neither the requests nor the environments.\<close>

lemma quiet_events:
  assumes "in_flight t = in_flight s" "effect_run t = effect_run s" "effect_site t = effect_site s"
    "shown_for t = shown_for s" "run_failed t = run_failed s"
  shows "flights_ok t = flights_ok s" "shown_ok t = shown_ok s"
  using assms by (simp_all add: flights_ok_def shown_ok_def)

lemma flights_filter: "flights_ok s \<Longrightarrow> flights_ok (s\<lparr>in_flight := filter P (in_flight s)\<rparr>)"
  by (auto simp: flights_ok_def list_all_iff)

lemma answer_fields:
  "in_flight (environments_arrived run site items s) = filter (\<lambda>f. f \<noteq> (run, site)) (in_flight s)"
  "effect_run (environments_arrived run site items s) = effect_run s"
  "effect_site (environments_arrived run site items s) = effect_site s"
  "run_failed (environments_arrived run site items s) = run_failed s"
  "shown_for (environments_arrived run site items s) =
     (if run = effect_run s then Some site else shown_for s)"
  "environments (environments_arrived run site items s) =
     (if run = effect_run s then filter env_active items else environments s)"
  by (auto simp: environments_arrived_def Let_def)

lemma answer_keeps:
  assumes "flights_ok s" "shown_ok s" "(run, site) \<in> set (in_flight s)"
  shows "flights_ok (environments_arrived run site items s)"
    "shown_ok (environments_arrived run site items s)"
    "flights_ok (environments_failed run site e s)" "shown_ok (environments_failed run site e s)"
  using assms
  by (auto simp: flights_ok_def shown_ok_def answer_fields environments_failed_def list_all_iff Let_def
      image_iff)

lemma site_step_inv: "site_step s t \<Longrightarrow> site_inv s \<Longrightarrow> site_inv t"
proof (erule site_stepE)
  assume "site_inv s"
  then have ok: "flights_ok s" "shown_ok s" by (simp_all add: site_inv_def)
  { fix u :: site_state assume "in_flight u = in_flight s" "effect_run u = effect_run s"
      "effect_site u = effect_site s" "shown_for u = shown_for s" "run_failed u = run_failed s"
    from quiet_events [OF this] ok have "site_inv (site_effect u)" by (simp add: effect_establishes) }
  note quiet = this
  show "t = site_effect (refresh_ok next s) \<Longrightarrow> site_inv t" for "next"
    by (simp, rule quiet) (simp_all add: refresh_ok_def Let_def)
  show "t = site_effect (refresh_failed e s) \<Longrightarrow> site_inv t" for e
    by (simp, rule quiet) (simp_all add: refresh_failed_def)
  show "t = site_effect (select_site i s) \<Longrightarrow> site_inv t" for i
    by (simp, rule quiet) (simp_all add: select_site_def)
  show "t = site_effect (select_environment n s) \<Longrightarrow> site_inv t" for n
    by (simp, rule quiet) (simp_all add: select_environment_def)
  show "t = site_effect (environments_arrived run site items s) \<Longrightarrow> (run, site) \<in> set (in_flight s)
      \<Longrightarrow> site_inv t" for run site items
    using answer_keeps [OF ok] effect_establishes by simp
  show "t = site_effect (environments_failed run site e s) \<Longrightarrow> (run, site) \<in> set (in_flight s)
      \<Longrightarrow> site_inv t" for run site e
    using answer_keeps [OF ok] effect_establishes by simp
qed

lemma site_start_inv: "site_inv (site_start a b)"
  by (simp add: site_inv_def site_start_def current_site_def flights_ok_def shown_ok_def)

lemma site_run_inv: "site_step\<^sup>*\<^sup>* (site_start a b) s \<Longrightarrow> site_inv s"
  by (induction rule: rtranclp_induct) (auto simp: site_start_inv intro: site_step_inv)


text \<open>A run of the page: two sites, a quick switch, and the answers in the wrong order.\<close>

definition prd :: environment where
  "prd = \<lparr>env_name = ''prd'', env_active = True\<rparr>"

definition stg :: environment where
  "stg = \<lparr>env_name = ''stg'', env_active = True\<rparr>"

definition two_sites :: site_state where
  "two_sites = site_effect (refresh_ok [''a'', ''b''] (site_start None None))"

definition switched :: site_state where
  "switched = site_effect (select_site ''b'' two_sites)"

lemma two_sites_eq:
  "two_sites =
     \<lparr>sites_list = [''a'', ''b''], selected = ''a'', environment_name = ''prd'', environments = [],
      load_error = None, stored_site = Some ''a'', stored_environment = None,
      effect_site = Some ''a'', effect_run = 1, in_flight = [(1, ''a'')], shown_for = None,
      run_failed = False\<rparr>"
  by (simp add: two_sites_def site_effect_def refresh_ok_def site_start_def current_site_def
      stored_or_def or_str_def Let_def)

lemma switched_eq:
  "switched =
     \<lparr>sites_list = [''a'', ''b''], selected = ''b'', environment_name = ''prd'', environments = [],
      load_error = None, stored_site = Some ''b'', stored_environment = None,
      effect_site = Some ''b'', effect_run = 2, in_flight = [(1, ''a''), (2, ''b'')],
      shown_for = None, run_failed = False\<rparr>"
  by (simp add: switched_def two_sites_eq site_effect_def select_site_def current_site_def
      Let_def numeral_2_eq_2)

lemma two_sites_reached: "site_step\<^sup>*\<^sup>* (site_start None None) two_sites"
  unfolding two_sites_def by (intro r_into_rtranclp site_step.Refresh)

lemma switched_reached: "site_step\<^sup>*\<^sup>* (site_start None None) switched"
  using two_sites_reached unfolding switched_def
  by (rule rtranclp.rtrancl_into_rtrancl) (rule site_step.Select)


subsection \<open>A failure that a refresh forgets\<close>

text \<open>
  Site a's environments are on the screen, site b is selected and its request fails: the error is
  kept. A later refresh of the site list clears the error, and as the site has not changed, the
  environments are not read again: the page then shows b with a's environments and no error.
\<close>

definition forgotten :: site_state where
  "forgotten =
     site_effect (refresh_ok [''a'', ''b'']
       (site_effect (environments_failed 2 ''b'' (FetchError ''Failed to fetch'')
         (site_effect (select_site ''b''
           (site_effect (environments_arrived 1 ''a'' [stg] two_sites)))))))"

lemma forgotten_reached: "site_step\<^sup>*\<^sup>* (site_start None None) forgotten"
proof -
  let ?s1 = "site_effect (environments_arrived 1 ''a'' [stg] two_sites)"
  let ?s2 = "site_effect (select_site ''b'' ?s1)"
  let ?s3 = "site_effect (environments_failed 2 ''b'' (FetchError ''Failed to fetch'') ?s2)"
  have "site_step two_sites ?s1" by (rule site_step.Answer) (simp add: two_sites_eq)
  moreover have "site_step ?s1 ?s2" by (rule site_step.Select)
  moreover have "site_step ?s2 ?s3"
    by (rule site_step.AnswerFails)
      (simp add: two_sites_eq environments_arrived_def site_effect_def select_site_def
        current_site_def stg_def or_str_def Let_def numeral_2_eq_2)
  moreover have "site_step ?s3 forgotten" unfolding forgotten_def by (rule site_step.Refresh)
  ultimately show ?thesis
    using two_sites_reached by (meson rtranclp.rtrancl_into_rtrancl)
qed

text \<open>
  A page can come to show one site with the environments of another, with no error and no
  request in flight that would correct it.
\<close>

theorem failure_forgotten_by_refresh:
  "site_step\<^sup>*\<^sup>* (site_start None None) forgotten
   \<and> current_site forgotten = Some ''b'' \<and> shown_for forgotten = Some ''a''
   \<and> environments forgotten = [stg] \<and> load_error forgotten = None \<and> in_flight forgotten = []"
  using forgotten_reached
  by (simp add: forgotten_def two_sites_eq environments_arrived_def environments_failed_def
      site_effect_def select_site_def refresh_ok_def current_site_def stg_def or_str_def
      Let_def numeral_2_eq_2)

end
