(* ===== verification/Snippet.thy ===== *)
theory Snippet
  imports Consent ConsoleBase
begin

section \<open>The install snippet\<close>

text \<open>
  \<open>web/src/pages/sdkGuide.ts\<close>: the script tag the console hands out, and the content security
  policy it asks for. The tag is read back here the way a browser reads a start tag (attribute
  names, quoted values, character references), so that the snippet can be composed with the
  tracker's own reading of its data attributes (\<open>snippet_options\<close> of \<open>Consent\<close>).
\<close>

subsection \<open>Attribute values\<close>

text \<open>\<open>value.replaceAll(c, r)\<close> for a one-character pattern.\<close>

definition replace_char :: "char \<Rightarrow> string \<Rightarrow> string \<Rightarrow> string" where
  "replace_char c r s = concat (map (\<lambda>x. if x = c then r else [x]) s)"

definition escapeAttribute :: "string \<Rightarrow> string" where
  "escapeAttribute v =
     replace_char CHR ''>'' ''&gt;''
       (replace_char CHR ''<'' ''&lt;''
         (replace_char CHR 0x22 ''&quot;''
           (replace_char CHR ''&'' ''&amp;'' v)))"

definition escaped_char :: "char \<Rightarrow> string" where
  "escaped_char c =
     (if c = CHR ''&'' then ''&amp;''
      else if c = CHR 0x22 then ''&quot;''
      else if c = CHR ''<'' then ''&lt;''
      else if c = CHR ''>'' then ''&gt;'' else [c])"

lemma escape_by_char: "escapeAttribute v = concat (map escaped_char v)"
  by (induction v) (simp_all add: escapeAttribute_def replace_char_def escaped_char_def)

lemma escape_Nil [simp]: "escapeAttribute [] = []"
  by (simp add: escape_by_char)

lemma escape_Cons: "escapeAttribute (c # v) = escaped_char c @ escapeAttribute v"
  by (simp add: escape_by_char)

lemma escaped_safe:
  "CHR 0x22 \<notin> set (escapeAttribute v)" "CHR ''<'' \<notin> set (escapeAttribute v)"
  "CHR ''>'' \<notin> set (escapeAttribute v)"
  by (induction v) (auto simp: escape_Cons escaped_char_def)

text \<open>Character references, as the browser reads them inside a quoted value.\<close>

function attribute_text :: "string \<Rightarrow> string" where
  "attribute_text s =
     (case s of
        [] \<Rightarrow> []
      | c # r \<Rightarrow>
          if prefix ''&amp;'' s then CHR ''&'' # attribute_text (drop 4 r)
          else if prefix ''&quot;'' s then CHR 0x22 # attribute_text (drop 5 r)
          else if prefix ''&lt;'' s then CHR ''<'' # attribute_text (drop 3 r)
          else if prefix ''&gt;'' s then CHR ''>'' # attribute_text (drop 3 r)
          else c # attribute_text r)"
  by auto
termination by (relation "measure length") auto

declare attribute_text.simps [simp del]

lemma attribute_text_Nil [simp]: "attribute_text [] = []"
  by (simp add: attribute_text.simps)

lemma attribute_text_escaped: "attribute_text (escaped_char c @ s) = c # attribute_text s"
  by (subst attribute_text.simps) (auto simp: escaped_char_def)

lemma attribute_text_escape [simp]: "attribute_text (escapeAttribute v) = v"
  by (induction v) (simp_all add: escape_Cons attribute_text_escaped)

subsection \<open>The snippet\<close>

datatype tracking_mode = FullMode | ConsentRequiredMode | CookielessMode

fun mode_text :: "tracking_mode \<Rightarrow> string" where
  "mode_text FullMode = ''full''"
| "mode_text ConsentRequiredMode = ''consent-required''"
| "mode_text CookielessMode = ''cookieless''"

record sdk_snippet_options =
  sn_endpoint :: string
  sn_siteId :: string
  sn_environment :: string
  sn_mode :: tracking_mode
  sn_proxyPath :: "string option"
  sn_collectSearchTerms :: bool
  sn_sessionTimeoutMinutes :: "rat option"

definition normalizeProxyPath :: "string option \<Rightarrow> string" where
  "normalizeProxyPath v =
     (let trimmed = strip_trailing CHR ''/'' (js_trim (opt_text v)) in
      if trimmed = [] then []
      else if prefix ''/'' trimmed then trimmed else CHR ''/'' # trimmed)"

text \<open>The comment line, in UTF-8.\<close>

definition SNIPPET_COMMENT :: string where
  "SNIPPET_COMMENT =
     ''<!-- Momento JavaScript SDK: <head> '' @
     [CHR 0xEC, CHR 0x95, CHR 0x88, CHR 0xEC, CHR 0x97, CHR 0x90, CHR '' '',
      CHR 0xEC, CHR 0xB6, CHR 0x94, CHR 0xEA, CHR 0xB0, CHR 0x80] @ '' -->''"

text \<open>A line \<open>  name="value"\<close>.\<close>

definition attr_line :: "string \<Rightarrow> string \<Rightarrow> string" where
  "attr_line n v = ''  '' @ n @ ''='' @ [CHR 0x22] @ v @ [CHR 0x22]"

definition timeout_lines :: "rat option \<Rightarrow> string list" where
  "timeout_lines t =
     (case t of
        None \<Rightarrow> []
      | Some m \<Rightarrow> if m \<noteq> 0 \<and> m \<noteq> 30 then [attr_line ''data-session-timeout'' (rat_text m)] else [])"

definition attribute_lines :: "sdk_snippet_options \<Rightarrow> string list" where
  "attribute_lines options =
     (let endpoint = strip_trailing CHR ''/'' (sn_endpoint options);
          proxyPath = normalizeProxyPath (sn_proxyPath options) in
      [''  async'',
       attr_line ''src'' (escapeAttribute endpoint @ ''/tracker.js''),
       attr_line ''data-site-id'' (escapeAttribute (sn_siteId options)),
       attr_line ''data-environment'' (escapeAttribute (sn_environment options)),
       attr_line ''data-contract-version'' ''1'',
       attr_line ''data-mode'' (escapeAttribute (mode_text (sn_mode options)))]
      @ timeout_lines (sn_sessionTimeoutMinutes options)
      @ (if proxyPath \<noteq> [] then [attr_line ''data-endpoint'' (escapeAttribute proxyPath)] else [])
      @ [attr_line ''data-auto-rum'' ''true'', attr_line ''data-frustration-signals'' ''true'',
         attr_line ''data-search-tracking'' ''true'']
      @ (if sn_collectSearchTerms options then [attr_line ''data-collect-search-terms'' ''true''] else [])
      @ [attr_line ''data-debug'' ''false''])"

definition buildSDKSnippet :: "sdk_snippet_options \<Rightarrow> string" where
  "buildSDKSnippet options =
     join [CHR 0x0A] ([SNIPPET_COMMENT, ''<script''] @ attribute_lines options @ [''></script>''])"

subsection \<open>How a browser reads the tag\<close>

definition attr_name_char :: "char \<Rightarrow> bool" where
  "attr_name_char c \<longleftrightarrow> \<not> is_space c \<and> c \<noteq> CHR ''='' \<and> c \<noteq> CHR ''>'' \<and> c \<noteq> CHR ''/''"

lemma dropWhile_shorter: "takeWhile P xs \<noteq> [] \<Longrightarrow> length (dropWhile P xs) < length xs"
  by (cases xs) (auto split: if_splits simp: le_imp_less_Suc length_dropWhile_le)

function read_attrs :: "string \<Rightarrow> (string \<times> string) list" where
  "read_attrs s =
     (let u = dropWhile is_space s; n = takeWhile attr_name_char u; r = dropWhile attr_name_char u in
      if n = [] then []
      else if prefix [CHR ''='', CHR 0x22] r then
        let v = drop 2 r in
        (n, attribute_text (takeWhile (\<lambda>c. c \<noteq> CHR 0x22) v))
          # read_attrs (drop 1 (dropWhile (\<lambda>c. c \<noteq> CHR 0x22) v))
      else (n, []) # read_attrs r)"
  by auto
termination
proof (relation "measure length", goal_cases)
  case 1 then show ?case by simp
next
  case (2 s u n r v)
  have "length (drop 1 (dropWhile (\<lambda>c. c \<noteq> CHR 0x22) v)) \<le> length r"
    using length_dropWhile_le [of "\<lambda>c. c \<noteq> CHR 0x22" v] 2 by simp
  moreover have "length r < length s"
    using 2 dropWhile_shorter [of attr_name_char u] length_dropWhile_le [of is_space s] by simp
  ultimately show ?case by simp
next
  case (3 s u n r)
  then show ?case
    using dropWhile_shorter [of attr_name_char u] length_dropWhile_le [of is_space s] by simp
qed

declare read_attrs.simps [simp del]

text \<open>The attributes of the first script tag of a page.\<close>

definition script_attrs :: "string \<Rightarrow> (string \<times> string) list" where
  "script_attrs html =
     (case index_of ''<script'' html of
        None \<Rightarrow> []
      | Some i \<Rightarrow> read_attrs (drop (i + 7) html))"

text \<open>\<open>script.dataset\<close>.\<close>

definition script_tag_of :: "(string \<times> string) list \<Rightarrow> script_tag" where
  "script_tag_of ps =
     (let d = (\<lambda>n. map_of ps (''data-'' @ n)) in
      \<lparr>ds_siteId = opt_text (d ''site-id''), ds_mode = d ''mode'', ds_environment = d ''environment'',
       ds_contractVersion = d ''contract-version'', ds_debug = d ''debug'',
       ds_collectElementText = d ''collect-element-text'', ds_sessionTimeout = d ''session-timeout'',
       ds_autoRum = d ''auto-rum'', ds_frustrationSignals = d ''frustration-signals'',
       ds_searchTracking = d ''search-tracking'', ds_collectSearchTerms = d ''collect-search-terms'',
       ds_searchParams = d ''search-params'', ds_appVersion = d ''app-version'',
       ds_releaseVersion = d ''release-version'', ds_gitSha = d ''git-sha'',
       ds_deploymentId = d ''deployment-id''\<rparr>)"

subsection \<open>The snippet read back\<close>

lemma read_attr_line:
  assumes "n \<noteq> []" "list_all attr_name_char n" "CHR 0x22 \<notin> set v"
  shows "read_attrs (CHR 0x0A # attr_line n v @ t) = (n, attribute_text v) # read_attrs t"
proof -
  let ?u = "n @ CHR ''='' # CHR 0x22 # v @ CHR 0x22 # t"
  have u: "dropWhile is_space (CHR 0x0A # attr_line n v @ t) = ?u"
    using assms by (cases n) (auto simp: attr_line_def attr_name_char_def is_space_def in_range_def)
  have n: "takeWhile attr_name_char ?u = n" "dropWhile attr_name_char ?u = CHR ''='' # CHR 0x22 # v @ CHR 0x22 # t"
    using assms(2) by (auto simp: list_all_iff attr_name_char_def takeWhile_append dropWhile_append)
  have v: "takeWhile (\<lambda>c. c \<noteq> CHR 0x22) (v @ CHR 0x22 # t) = v"
    "dropWhile (\<lambda>c. c \<noteq> CHR 0x22) (v @ CHR 0x22 # t) = CHR 0x22 # t"
    using assms(3) by (auto simp: takeWhile_append dropWhile_append)
  show ?thesis
    unfolding read_attrs.simps [of "CHR 0x0A # attr_line n v @ t"] Let_def u n
    by (simp add: v assms(1))
qed

lemma read_attr_flag:
  "read_attrs (CHR 0x0A # ''  async'' @ CHR 0x0A # t) = (''async'', []) # read_attrs (CHR 0x0A # t)"
  by (subst read_attrs.simps)
    (simp add: Let_def attr_name_char_def is_space_def in_range_def)

lemma read_attrs_end: "read_attrs (CHR 0x0A # ''></script>'') = []"
  by (subst read_attrs.simps)
    (simp add: Let_def attr_name_char_def is_space_def in_range_def)

definition line_text :: "string \<times> string \<Rightarrow> string" where
  "line_text = (\<lambda>(n, v). CHR 0x0A # attr_line n (escapeAttribute v))"

lemma read_attr_lines:
  assumes "list_all (\<lambda>(n, v). n \<noteq> [] \<and> list_all attr_name_char n) ps"
  shows "read_attrs (concat (map line_text ps) @ t) = ps @ read_attrs t"
  using assms
proof (induction ps)
  case (Cons p ps)
  obtain n v where p: "p = (n, v)" by (cases p)
  with Cons show ?case
    using read_attr_line [of n "escapeAttribute v" "concat (map line_text ps) @ t"]
    by (simp add: line_text_def escaped_safe)
qed simp

text \<open>The attributes the snippet is meant to carry.\<close>

definition timeout_attrs :: "rat option \<Rightarrow> (string \<times> string) list" where
  "timeout_attrs t =
     (case t of
        None \<Rightarrow> []
      | Some m \<Rightarrow> if m \<noteq> 0 \<and> m \<noteq> 30 then [(''data-session-timeout'', rat_text m)] else [])"

definition snippet_attrs :: "sdk_snippet_options \<Rightarrow> (string \<times> string) list" where
  "snippet_attrs p =
     [(''src'', strip_trailing CHR ''/'' (sn_endpoint p) @ ''/tracker.js''), (''data-site-id'', sn_siteId p),
      (''data-environment'', sn_environment p), (''data-contract-version'', ''1''),
      (''data-mode'', mode_text (sn_mode p))]
     @ timeout_attrs (sn_sessionTimeoutMinutes p)
     @ (if normalizeProxyPath (sn_proxyPath p) \<noteq> []
        then [(''data-endpoint'', normalizeProxyPath (sn_proxyPath p))] else [])
     @ [(''data-auto-rum'', ''true''), (''data-frustration-signals'', ''true''),
        (''data-search-tracking'', ''true'')]
     @ (if sn_collectSearchTerms p then [(''data-collect-search-terms'', ''true'')] else [])
     @ [(''data-debug'', ''false'')]"

definition whole_minutes :: "rat option \<Rightarrow> bool" where
  "whole_minutes t \<longleftrightarrow> (case t of None \<Rightarrow> True | Some m \<Rightarrow> 0 \<le> m \<and> of_int \<lfloor>m\<rfloor> = m)"

lemma rat_text_whole:
  assumes "0 \<le> m" "of_int \<lfloor>m\<rfloor> = m"
  shows "rat_text m = nat_text (nat \<lfloor>m\<rfloor>)"
proof -
  have "frac m = 0" unfolding frac_def using assms(2) by linarith
  moreover have "\<bar>m\<bar> = m" "\<not> m < 0" using assms(1) by simp_all
  ultimately show ?thesis by (simp add: rat_text_def)
qed

lemma escape_nat_text: "escapeAttribute (nat_text n) = nat_text n"
proof -
  have "\<forall>c \<in> set s. is_digit c \<Longrightarrow> escapeAttribute s = s" for s
    by (induction s) (auto simp: escape_Cons escaped_char_def char_simps)
  then show ?thesis using nat_text_digits by blast
qed

lemma nl_join:
  "join [CHR 0x0A] (x # xs) = x @ concat (map (\<lambda>l. CHR 0x0A # l) xs)"
  by (induction xs arbitrary: x) (simp_all add: join_Cons)

lemma escape_append: "escapeAttribute (a @ b) = escapeAttribute a @ escapeAttribute b"
  by (simp add: escape_by_char)

lemmas escape_chars = escape_Cons escaped_char_def

lemma attr_line_text: "CHR 0x0A # attr_line n (escapeAttribute v) = line_text (n, v)"
  by (simp add: line_text_def)

lemma timeout_lines_text:
  assumes "whole_minutes t"
  shows "map (\<lambda>l. CHR 0x0A # l) (timeout_lines t) = map line_text (timeout_attrs t)"
  using assms
  by (auto simp: timeout_lines_def timeout_attrs_def line_text_def whole_minutes_def rat_text_whole
      escape_nat_text split: option.splits)

lemma attribute_lines_text:
  assumes "whole_minutes (sn_sessionTimeoutMinutes p)"
  shows "map (\<lambda>l. CHR 0x0A # l) (attribute_lines p)
    = (CHR 0x0A # ''  async'') # map line_text (snippet_attrs p)"
  using timeout_lines_text [OF assms]
  by (simp add: attribute_lines_def snippet_attrs_def Let_def line_text_def escape_append escape_chars)

lemma find_script:
  "index_of ''<script'' (SNIPPET_COMMENT @ CHR 0x0A # ''<script'' @ t) = Some 54"
  by (simp add: SNIPPET_COMMENT_def)

lemma comment_length: "length SNIPPET_COMMENT = 53"
  by (simp add: SNIPPET_COMMENT_def)

lemma snippet_text:
  assumes "whole_minutes (sn_sessionTimeoutMinutes p)"
  shows "buildSDKSnippet p = SNIPPET_COMMENT @ CHR 0x0A # ''<script'' @ CHR 0x0A # ''  async''
    @ concat (map line_text (snippet_attrs p)) @ CHR 0x0A # ''></script>''"
  unfolding buildSDKSnippet_def
  using attribute_lines_text [OF assms] by (simp add: nl_join)

lemma snippet_names:
  "list_all (\<lambda>(n, v). n \<noteq> [] \<and> list_all attr_name_char n) (snippet_attrs p)"
  by (simp add: snippet_attrs_def timeout_attrs_def attr_name_char_def is_space_def in_range_def
      split: option.split)

lemma read_snippet:
  assumes "whole_minutes (sn_sessionTimeoutMinutes p)"
  shows "script_attrs (buildSDKSnippet p) = (''async'', []) # snippet_attrs p"
proof -
  let ?t = "CHR 0x0A # ''  async'' @ concat (map line_text (snippet_attrs p)) @ CHR 0x0A # ''></script>''"
  have "drop (54 + 7) (SNIPPET_COMMENT @ CHR 0x0A # ''<script'' @ ?t) = ?t"
    by (simp add: comment_length)
  then have "script_attrs (buildSDKSnippet p) = read_attrs ?t"
    unfolding script_attrs_def snippet_text [OF assms] find_script by simp
  moreover obtain u where u: "concat (map line_text (snippet_attrs p)) = CHR 0x0A # u"
    by (simp add: snippet_attrs_def line_text_def)
  ultimately show ?thesis
    using read_attr_flag [of "u @ CHR 0x0A # ''></script>''"]
      read_attr_lines [OF snippet_names [of p], of "CHR 0x0A # ''></script>''"] read_attrs_end
    by simp
qed

text \<open>
  C6: The snippet the console shows, read by the browser and then by the tracker, configures the
  tracker as the console says: the site and environment whatever characters they contain, the
  mode, the contract version, the session timeout (left to the default when it is 30 minutes or
  unset), the signals on, the search terms only when asked for, and the proxy path as endpoint.
\<close>

theorem snippet_configures_tracker:
  assumes "whole_minutes (sn_sessionTimeoutMinutes p)"
  shows
    "let attrs = script_attrs (buildSDKSnippet p);
         q = snippet_options (script_tag_of attrs) resolved;
         path = normalizeProxyPath (sn_proxyPath p)
     in in_siteId q = sn_siteId p
      \<and> in_environment q = Some (or_str (sn_environment p) ''prd'')
      \<and> in_mode q = Some (Some (mode_text (sn_mode p)))
      \<and> in_contractVersion q = Some (Fin 1)
      \<and> in_sessionTimeoutMinutes q =
          Some (case sn_sessionTimeoutMinutes p of
                  None \<Rightarrow> None | Some m \<Rightarrow> if m = 0 \<or> m = 30 then None else Some m)
      \<and> in_autoRUM q = Some (Some True) \<and> in_frustrationSignals q = Some (Some True)
      \<and> in_searchTracking q = Some (Some True) \<and> in_debug q = Some False
      \<and> in_collectSearchTerms q = Some (Some (sn_collectSearchTerms p))
      \<and> map_of attrs ''data-endpoint'' = (if path = [] then None else Some path)"
proof -
  have one: "js_number ''1'' = Fin 1" by code_simp
  have none: "number_or_undefined None = None" by (simp add: number_or_undefined_def)
  have mode: "mode_text m \<noteq> []" for m by (cases m) simp_all
  have minutes: "number_or_undefined (Some (rat_text m)) = (if m = 0 then None else Some m)"
    if "whole_minutes (Some m)" for m
  proof -
    have m: "0 \<le> m" "of_int \<lfloor>m\<rfloor> = m" using that unfolding whole_minutes_def option.case by blast+
    then have "m = of_nat (nat \<lfloor>m\<rfloor>)" by (metis of_nat_nat zero_le_floor)
    then obtain k where "m = of_nat k" by blast
    then show ?thesis by (simp add: number_or_undefined_def rat_text_def frac_def)
  qed
  show ?thesis
    using assms minutes
    by (auto simp: read_snippet [OF assms] snippet_attrs_def timeout_attrs_def script_tag_of_def
        snippet_options_def Let_def opt_text_def or_str_def one none mode split: option.splits)
qed

lemma snippet_configures_tracker_witness:
  "in_siteId (snippet_options (script_tag_of (script_attrs (buildSDKSnippet
     \<lparr>sn_endpoint = ''https://m.example.com/'', sn_siteId = ''A&B'', sn_environment = ''stg'',
      sn_mode = CookielessMode, sn_proxyPath = Some '' momento/ '', sn_collectSearchTerms = False,
      sn_sessionTimeoutMinutes = Some 45\<rparr>))) ''https://m.example.com'') = ''A&B''"
  using snippet_configures_tracker [of
      "\<lparr>sn_endpoint = ''https://m.example.com/'', sn_siteId = ''A&B'', sn_environment = ''stg'',
        sn_mode = CookielessMode, sn_proxyPath = Some '' momento/ '', sn_collectSearchTerms = False,
        sn_sessionTimeoutMinutes = Some 45\<rparr>" "''https://m.example.com''"]
  by (simp add: whole_minutes_def Let_def)

text \<open>The proxy path is a rooted path without trailing slash.\<close>

lemma proxy_path_shape:
  "normalizeProxyPath v \<noteq> [] \<Longrightarrow>
     hd (normalizeProxyPath v) = CHR ''/'' \<and> last (normalizeProxyPath v) \<noteq> CHR ''/''"
  using strip_trailing_last [of "CHR ''/''" "js_trim (opt_text v)"]
  by (cases "strip_trailing CHR ''/'' (js_trim (opt_text v))")
    (auto simp: normalizeProxyPath_def Let_def)

subsection \<open>Content security policy\<close>

text \<open>\<open>new URL(s)\<close> is a parameter: protocol and host, or \<open>None\<close> when it throws.\<close>

definition collectorOrigin :: "(string \<Rightarrow> (string \<times> string) option) \<Rightarrow> string \<Rightarrow> string" where
  "collectorOrigin parseUrl address =
     (let trimmed = strip_trailing CHR ''/'' (js_trim address) in
      case parseUrl trimmed of
        Some (protocol, host) \<Rightarrow> protocol @ ''//'' @ host
      | None \<Rightarrow> trimmed)"

record csp_guidance =
  csp_origin :: string
  csp_header :: string
  csp_meta :: string
  csp_proxy :: string

definition csp_sources :: "string \<Rightarrow> string" where
  "csp_sources from = ''script-src 'self' '' @ from @ ''; connect-src 'self' '' @ from"

definition buildCSPGuidance ::
  "(string \<Rightarrow> (string \<times> string) option) \<Rightarrow> string \<Rightarrow> string \<Rightarrow> csp_guidance"
where
  "buildCSPGuidance parseUrl address proxyPath =
     (let from = collectorOrigin parseUrl address;
          path = or_str (normalizeProxyPath (Some proxyPath)) ''/momento'' in
      \<lparr>csp_origin = from,
       csp_header = ''Content-Security-Policy: '' @ csp_sources from,
       csp_meta = ''<meta http-equiv='' @ [CHR 0x22] @ ''Content-Security-Policy'' @ [CHR 0x22] @
         '' content='' @ [CHR 0x22] @ csp_sources from @ [CHR 0x22] @ ''>'',
       csp_proxy = join [CHR 0x0A]
         [''location '' @ path @ ''/ {'', ''  proxy_pass '' @ from @ ''/;'',
          ''  proxy_set_header Host $host;'',
          ''  proxy_set_header X-Forwarded-For $proxy_add_x_forwarded_for;'',
          ''  proxy_set_header X-Forwarded-Proto $scheme;'', ''}'']\<rparr>)"

end
