(* ===== verification/Channels.thy ===== *)
theory Channels
  imports ConsoleBase "HOL-Library.AList"
begin

section \<open>Delivery channels and scheduled reports\<close>

text \<open>
  \<open>web/src/pages/channelHeaders.ts\<close> (the header rows of a delivery channel) and
  \<open>web/src/pages/scheduleDefinition.ts\<close> (the definition of a scheduled report), with the two
  readers on the server: the header rule of \<open>saveDeliveryChannel\<close> in
  \<open>internal/httpapi/automation.go\<close> and the settings \<open>buildPayload\<close> takes out of a
  definition in \<open>internal/service/automation.go\<close>. Korean sentences are constructors carrying
  the values they mention.
\<close>

subsection \<open>Header rows\<close>

record header_row =
  row_name :: string
  row_value :: string

definition emptyHeaderRow :: header_row where
  "emptyHeaderRow = \<lparr>row_name = [], row_value = []\<rparr>"

text \<open>\<open>Object.entries\<close> of a parsed document; it throws on \<open>null\<close>.\<close>

definition object_entries :: "val \<Rightarrow> props option" where
  "object_entries v =
     (case v of
        VObj ps \<Rightarrow> Some ps
      | VArr vs \<Rightarrow> Some (zip (map nat_text [0..<length vs]) vs)
      | VStr s \<Rightarrow> Some (zip (map nat_text [0..<length s]) (map (\<lambda>c. VStr [c]) s))
      | VNull \<Rightarrow> None
      | VUndef \<Rightarrow> None
      | _ \<Rightarrow> Some [])"

definition row_of :: "string \<times> val \<Rightarrow> header_row" where
  "row_of = (\<lambda>(name, v).
     \<lparr>row_name = name, row_value = (case v of VStr s \<Rightarrow> s | _ \<Rightarrow> if nullish v then [] else js_string v)\<rparr>)"

definition parseHeaderRows :: "string \<Rightarrow> header_row list" where
  "parseHeaderRows json =
     (if js_trim json = [] then [emptyHeaderRow]
      else case Option.bind (json_parse json) object_entries of
        None \<Rightarrow> [emptyHeaderRow]
      | Some ps \<Rightarrow> if ps = [] then [emptyHeaderRow] else map row_of ps)"

text \<open>\<open>headers[name] = value\<close>; writing text to \<open>__proto__\<close> has no effect.\<close>

definition put_header :: "string \<Rightarrow> string \<Rightarrow> (string \<times> string) list \<Rightarrow> (string \<times> string) list" where
  "put_header name v headers = (if name = ''__proto__'' then headers else AList.update name v headers)"

definition build_step :: "(string \<times> string) list \<Rightarrow> header_row \<Rightarrow> (string \<times> string) list" where
  "build_step headers row =
     (let name = js_trim (row_name row) in
      if name = [] then headers else put_header name (js_trim (row_value row)) headers)"

definition buildHeaders :: "header_row list \<Rightarrow> (string \<times> string) list" where
  "buildHeaders rows = foldl build_step [] rows"

datatype header_issue =
    ValueWithoutName
  | HostOverridden
  | DuplicateName string
  | LineBreakIn string
  | EmptyValue string

definition has_break :: "string \<Rightarrow> bool" where
  "has_break s \<longleftrightarrow> CHR 0x0D \<in> set s \<or> CHR 0x0A \<in> set s"

definition row_issues :: "string list \<Rightarrow> header_row \<Rightarrow> header_issue list" where
  "row_issues seen row =
     (let name = js_trim (row_name row); key = js_lower name in
      if name = [] then (if js_trim (row_value row) \<noteq> [] then [ValueWithoutName] else [])
      else
        (if key = ''host'' then [HostOverridden] else [])
        @ (if key \<in> set seen then [DuplicateName name] else [])
        @ (if has_break name \<or> has_break (row_value row) then [LineBreakIn name] else [])
        @ (if js_trim (row_value row) = [] then [EmptyValue name] else []))"

definition seen_after :: "string list \<Rightarrow> header_row \<Rightarrow> string list" where
  "seen_after seen row =
     (let name = js_trim (row_name row) in if name = [] then seen else js_lower name # seen)"

fun issues_from :: "string list \<Rightarrow> header_row list \<Rightarrow> header_issue list" where
  "issues_from seen [] = []"
| "issues_from seen (row # rows) = row_issues seen row @ issues_from (seen_after seen row) rows"

definition headerIssues :: "header_row list \<Rightarrow> header_issue list" where
  "headerIssues rows = uniq (issues_from [] rows)"

text \<open>The server: \<open>strings.EqualFold\<close> on ASCII, \<open>strings.ContainsAny(key+value, "\r\n")\<close>.\<close>

definition headers_accepted :: "(string \<times> string) list \<Rightarrow> bool" where
  "headers_accepted headers \<longleftrightarrow>
     list_all (\<lambda>(k, v). \<not> (k = [] \<or> js_lower k = js_lower ''Host'' \<or> has_break (k @ v))) headers"

subsection \<open>What the form accepts, the server accepts\<close>

text \<open>The rows that become headers.\<close>

definition named_rows :: "header_row list \<Rightarrow> (string \<times> string) list" where
  "named_rows rows =
     filter (\<lambda>(k, v). k \<noteq> [] \<and> k \<noteq> ''__proto__'')
       (map (\<lambda>row. (js_trim (row_name row), js_trim (row_value row))) rows)"

lemma named_rows_simps [simp]:
  "named_rows [] = []"
  "named_rows (row # rows) =
     (if js_trim (row_name row) = [] \<or> js_trim (row_name row) = ''__proto__'' then named_rows rows
      else (js_trim (row_name row), js_trim (row_value row)) # named_rows rows)"
  by (simp_all add: named_rows_def)

lemma build_named:
  "foldl build_step headers rows = fold (\<lambda>(k, v). AList.update k v) (named_rows rows) headers"
  by (induction rows arbitrary: headers) (simp_all add: build_step_def put_header_def Let_def)

lemma map_of_puts:
  "map_of (fold (\<lambda>(k, v). AList.update k v) kvs headers) = map_of headers ++ map_of (rev kvs)"
  by (induction kvs arbitrary: headers) (auto simp: update_conv')

lemma map_of_rev_distinct: "distinct (map fst xs) \<Longrightarrow> map_of (rev xs) = map_of xs"
proof (induction xs)
  case (Cons x xs)
  obtain k v where x: "x = (k, v)" by (cases x)
  then have "map_of xs k = None" using Cons.prems by (simp add: map_of_eq_None_iff)
  then show ?case using Cons x by (auto simp: map_add_def fun_eq_iff split: option.split)
qed simp

lemma distinct_puts:
  "distinct (map fst headers) \<Longrightarrow> distinct (map fst (fold (\<lambda>(k, v). AList.update k v) kvs headers))"
  by (induction kvs arbitrary: headers) (auto simp: distinct_update)

lemma issue_free_names:
  "issues_from seen rows = [] \<Longrightarrow>
     distinct (map fst (named_rows rows)) \<and> (\<forall>k \<in> fst ` set (named_rows rows). js_lower k \<notin> set seen)"
proof (induction rows arbitrary: seen)
  case (Cons row rows)
  let ?n = "js_trim (row_name row)"
  have rest: "distinct (map fst (named_rows rows))"
    "\<forall>k \<in> fst ` set (named_rows rows). js_lower k \<notin> set (seen_after seen row)"
    using Cons by auto
  show ?case
  proof (cases "?n = [] \<or> ?n = ''__proto__''")
    case True
    then show ?thesis using rest by (auto simp: seen_after_def Let_def split: if_splits)
  next
    case False
    have "js_lower ?n \<notin> set seen"
      using Cons.prems False by (auto simp: row_issues_def Let_def split: if_splits)
    then show ?thesis using rest False by (auto simp: seen_after_def Let_def)
  qed
qed simp

lemma set_js_trim_break: "\<not> has_break s \<Longrightarrow> \<not> has_break (js_trim s)"
  using set_js_trim [of s] by (auto simp: has_break_def)

lemma issue_free_rows:
  "issues_from seen rows = [] \<Longrightarrow> (k, v) \<in> set (named_rows rows) \<Longrightarrow>
     k \<noteq> [] \<and> js_lower k \<noteq> ''host'' \<and> \<not> has_break (k @ v) \<and> v \<noteq> []"
proof (induction rows arbitrary: seen)
  case (Cons row rows)
  show ?case
  proof (cases "(k, v) \<in> set (named_rows rows)")
    case True
    then show ?thesis using Cons by auto
  next
    case False
    then have "k = js_trim (row_name row)" "v = js_trim (row_value row)" "k \<noteq> []"
      using Cons.prems(2) by (auto split: if_splits)
    then show ?thesis
      using Cons.prems(1) set_js_trim_break [of "row_value row"]
      by (auto simp: row_issues_def has_break_def Let_def split: if_splits)
  qed
qed simp

lemma uniq_free: "headerIssues rows = [] \<Longrightarrow> issues_from [] rows = []"
  by (simp add: headerIssues_def)

lemma buildHeaders_map:
  assumes "headerIssues rows = []"
  shows "map_of (buildHeaders rows) = map_of (named_rows rows)"
    and "distinct (map fst (buildHeaders rows))"
proof -
  have "distinct (map fst (named_rows rows))" using issue_free_names [OF uniq_free [OF assms]] by blast
  then show "map_of (buildHeaders rows) = map_of (named_rows rows)"
    by (simp add: buildHeaders_def build_named map_of_puts map_of_rev_distinct)
  show "distinct (map fst (buildHeaders rows))"
    by (simp add: buildHeaders_def build_named distinct_puts)
qed

text \<open>
  Header rows in which the form finds nothing wrong are accepted by the server, and no filled
  row is lost on the way: every row with a name (other than \<open>__proto__\<close>) is sent under that name
  with its trimmed, non-empty value, and nothing else is sent.
\<close>

theorem header_form_agrees:
  assumes "headerIssues rows = []"
  shows "headers_accepted (buildHeaders rows)
    \<and> set (buildHeaders rows) = set (named_rows rows) \<and> (\<forall>kv \<in> set (buildHeaders rows). snd kv \<noteq> [])"
proof -
  have free: "issues_from [] rows = []" by (rule uniq_free [OF assms])
  have "distinct (map fst (named_rows rows))" using issue_free_names [OF free] by blast
  then have same: "set (buildHeaders rows) = set (named_rows rows)"
    using buildHeaders_map [OF assms] map_of_inject_set by blast
  have "js_lower ''Host'' = ''host''" by code_simp
  then show ?thesis
    using issue_free_rows [OF free] unfolding same
    by (auto simp: headers_accepted_def list_all_iff same)
qed

lemma header_form_agrees_witness:
  "headers_accepted (buildHeaders [\<lparr>row_name = '' X-Api-Key'', row_value = ''k 1 ''\<rparr>, emptyHeaderRow])"
proof -
  have "headerIssues [\<lparr>row_name = '' X-Api-Key'', row_value = ''k 1 ''\<rparr>, emptyHeaderRow] = []"
    by code_simp
  then show ?thesis using header_form_agrees by blast
qed

lemma char_brace_nonblank: "\<not> is_space CHR ''{''"
  by (simp add: char_simps)

text \<open>A saved set of headers is shown as the rows that would send it again.\<close>

lemma header_rows_roundtrip:
  assumes "distinct (map fst headers)" "headers \<noteq> []"
  shows "parseHeaderRows (json_text (VObj (map (\<lambda>(k, v). (k, VStr v)) headers)))
    = map (\<lambda>(k, v). \<lparr>row_name = k, row_value = v\<rparr>) headers"
proof -
  let ?o = "VObj (map (\<lambda>(k, v). (k, VStr v)) headers)"
  have members: "members_value (map (\<lambda>(k, v). (k, VStr v)) headers)"
    by (induction headers) auto
  have ok: "json_value ?o"
    using assms(1) members by (simp add: wf_obj_def comp_def case_prod_unfold)
  then have parsed: "json_parse (json_text ?o) = Some ?o"
    using parse_json_text [OF json_value_ok(1) [OF ok]] clean_of_json_value(1) [OF ok] by simp
  have "json_text ?o = CHR ''{'' # tl (json_text ?o)" by (simp add: json_text_def)
  then have "js_trim (json_text ?o) \<noteq> []"
    by (metis js_trim_nonblank_head list.sel(1) list.discI char_brace_nonblank)
  then show ?thesis
    using assms(2) by (auto simp: parseHeaderRows_def parsed object_entries_def row_of_def)
qed

subsection \<open>Scheduled reports\<close>

definition SCHEDULE_KINDS :: "string list" where
  "SCHEDULE_KINDS =
     [''overview'', ''insights'', ''visitor_insight'', ''anomaly'', ''adoption'', ''experience'', ''ai'', ''segment'']"

record schedule_form =
  sf_environment :: string
  sf_days :: rat
  sf_notifyOn :: "string list"
  sf_alwaysSend :: bool
  sf_segmentId :: string
  sf_eventName :: string
  sf_feature :: string
  sf_department :: string

definition defaultScheduleForm :: schedule_form where
  "defaultScheduleForm =
     \<lparr>sf_environment = ''prd'', sf_days = 7, sf_notifyOn = [''new'', ''recovered''], sf_alwaysSend = False,
      sf_segmentId = [], sf_eventName = [], sf_feature = [], sf_department = []\<rparr>"

definition kindUsesRange :: "string \<Rightarrow> bool" where
  "kindUsesRange kind \<longleftrightarrow> kind \<noteq> ''anomaly''"

definition kindUsesAlertState :: "string \<Rightarrow> bool" where
  "kindUsesAlertState kind \<longleftrightarrow> kind = ''anomaly''"

definition kindUsesSegmentFilters :: "string \<Rightarrow> bool" where
  "kindUsesSegmentFilters kind \<longleftrightarrow> kind = ''segment''"

definition trimmed_member :: "string \<Rightarrow> string \<Rightarrow> props" where
  "trimmed_member k v = (if js_trim v \<noteq> [] then [(k, VStr (js_trim v))] else [])"

definition buildScheduleDefinition :: "string \<Rightarrow> schedule_form \<Rightarrow> props" where
  "buildScheduleDefinition kind form =
     [(''environment'', VStr (sf_environment form))]
     @ (if kindUsesRange kind then [(''days'', vrat (sf_days form))] else [])
     @ (if kindUsesAlertState kind then
          [(''notify_on'',
            VArr (map VStr (if sf_notifyOn form \<noteq> [] then sf_notifyOn form else [''new'', ''recovered''])))]
          @ (if sf_alwaysSend form then [(''always_send'', VBool True)] else [])
        else [])
     @ (if kindUsesSegmentFilters kind then
          trimmed_member ''segment_id'' (sf_segmentId form)
          @ trimmed_member ''event_name'' (sf_eventName form)
          @ trimmed_member ''feature'' (sf_feature form)
          @ trimmed_member ''department'' (sf_department form)
        else [])"

text \<open>\<open>value in scheduleKindLabel\<close> also finds what every object inherits.\<close>

definition parseScheduleKind :: "string option \<Rightarrow> string option" where
  "parseScheduleKind v =
     (case v of
        None \<Rightarrow> None
      | Some s \<Rightarrow> if s = [] then None
                  else if s \<in> set SCHEDULE_KINDS \<or> s \<in> set OBJECT_PROTOTYPE then Some s else None)"

text \<open>The server's \<open>validReportKind\<close>.\<close>

definition validReportKind :: "string \<Rightarrow> bool" where
  "validReportKind kind \<longleftrightarrow>
     kind = ''overview'' \<or> kind = ''adoption'' \<or> kind = ''experience'' \<or> kind = ''ai'' \<or> kind = ''segment''
     \<or> kind = ''insights'' \<or> kind = ''visitor_insight'' \<or> kind = ''anomaly''"

lemma kinds_agree: "validReportKind kind \<longleftrightarrow> kind \<in> set SCHEDULE_KINDS"
  by (auto simp: validReportKind_def SCHEDULE_KINDS_def)

text \<open>
  A deep link selects every kind the server knows, but not only those: the check is
  \<open>value in scheduleKindLabel\<close>, which the inherited names pass, so the link \<open>kind=toString\<close> selects
  a kind the server rejects.
\<close>

theorem linked_kind_may_be_rejected:
  "(\<forall>kind. validReportKind kind \<longrightarrow> parseScheduleKind (Some kind) = Some kind)
   \<and> parseScheduleKind (Some ''toString'') = Some ''toString'' \<and> \<not> validReportKind ''toString''"
  unfolding kinds_agree
  by (auto simp: parseScheduleKind_def SCHEDULE_KINDS_def OBJECT_PROTOTYPE_def)

subsection \<open>What the scheduler reads\<close>

text \<open>The settings \<open>buildPayload\<close> takes out of a definition, by report kind.\<close>

record delivery_settings =
  set_environment :: string
  set_days :: int
  set_notify :: "string list"
  set_always :: bool
  set_segment :: string
  set_event :: string
  set_feature :: string
  set_department :: string

fun text_items :: "val list \<Rightarrow> string list" where
  "text_items [] = []"
| "text_items (VStr s # vs) = s # text_items vs"
| "text_items (_ # vs) = text_items vs"

lemma text_items_strings [simp]: "text_items (map VStr ss) = ss"
  by (induction ss) simp_all

definition settings_of :: "string \<Rightarrow> props \<Rightarrow> delivery_settings" where
  "settings_of kind definition =
     \<lparr>set_environment = or_str (str_of (getp definition ''environment'')) ''prd'',
      set_days = (case getp definition ''days'' of
          VNum (Fin q) \<Rightarrow> if 1 \<le> q \<and> q \<le> 365 then js_trunc q else 7 | _ \<Rightarrow> 7),
      set_notify = (if kind \<noteq> ''anomaly'' then []
        else case getp definition ''notify_on'' of
          VArr vs \<Rightarrow> if vs \<noteq> [] then text_items vs else [''new'', ''recovered'']
        | _ \<Rightarrow> [''new'', ''recovered'']),
      set_always = (kind = ''anomaly'' \<and> getp definition ''always_send'' = VBool True),
      set_segment = (if kind = ''segment'' then str_of (getp definition ''segment_id'') else []),
      set_event = (if kind = ''segment'' then str_of (getp definition ''event_name'') else []),
      set_feature = (if kind = ''segment'' then str_of (getp definition ''feature'') else []),
      set_department = (if kind = ''segment'' then str_of (getp definition ''department'') else [])\<rparr>"

text \<open>What the form means, without the detour over a document.\<close>

definition form_settings :: "string \<Rightarrow> schedule_form \<Rightarrow> delivery_settings" where
  "form_settings kind form =
     \<lparr>set_environment = sf_environment form,
      set_days = (if kind = ''anomaly'' then 7 else \<lfloor>sf_days form\<rfloor>),
      set_notify = (if kind \<noteq> ''anomaly'' then []
        else if sf_notifyOn form = [] then [''new'', ''recovered''] else sf_notifyOn form),
      set_always = (kind = ''anomaly'' \<and> sf_alwaysSend form),
      set_segment = (if kind = ''segment'' then js_trim (sf_segmentId form) else []),
      set_event = (if kind = ''segment'' then js_trim (sf_eventName form) else []),
      set_feature = (if kind = ''segment'' then js_trim (sf_feature form) else []),
      set_department = (if kind = ''segment'' then js_trim (sf_department form) else [])\<rparr>"

lemmas schedule_uses = kindUsesRange_def kindUsesAlertState_def kindUsesSegmentFilters_def trimmed_member_def

lemma definition_read:
  assumes "sf_environment form \<noteq> []" "1 \<le> sf_days form" "sf_days form \<le> 365"
  shows "settings_of kind (buildScheduleDefinition kind form) = form_settings kind form"
  using assms
  by (simp add: settings_of_def form_settings_def buildScheduleDefinition_def schedule_uses or_str_def
      js_trunc_def)

lemma definition_keys:
  "set (keys (buildScheduleDefinition kind form)) \<subseteq>
     (if kind = ''anomaly'' then {''environment'', ''notify_on'', ''always_send''}
      else if kind = ''segment'' then
        {''environment'', ''days'', ''segment_id'', ''event_name'', ''feature'', ''department''}
      else {''environment'', ''days''})"
  by (auto simp: buildScheduleDefinition_def schedule_uses split: if_splits)

text \<open>
  The definition the console builds is read by the scheduler as exactly what the form says, for
  every kind of report, and it carries no key the report does not read.
\<close>

theorem schedule_means_form:
  assumes "sf_environment form \<noteq> []" "1 \<le> sf_days form" "sf_days form \<le> 365"
  shows "settings_of kind (buildScheduleDefinition kind form) = form_settings kind form
    \<and> set (keys (buildScheduleDefinition kind form)) \<subseteq>
        (if kind = ''anomaly'' then {''environment'', ''notify_on'', ''always_send''}
         else if kind = ''segment'' then
           {''environment'', ''days'', ''segment_id'', ''event_name'', ''feature'', ''department''}
         else {''environment'', ''days''})"
  using definition_read [OF assms] definition_keys by blast

lemma schedule_means_form_witness:
  "settings_of ''anomaly'' (buildScheduleDefinition ''anomaly'' (defaultScheduleForm\<lparr>sf_notifyOn := []\<rparr>))
   = form_settings ''anomaly'' (defaultScheduleForm\<lparr>sf_notifyOn := []\<rparr>)"
  using schedule_means_form [of "defaultScheduleForm\<lparr>sf_notifyOn := []\<rparr>" "''anomaly''"]
  by (simp add: defaultScheduleForm_def)

subsection \<open>The sentence under the form\<close>

definition intervalPresets :: "rat list" where
  "intervalPresets = [60, 360, 1440, 10080]"

datatype cadence = Preset rat | EveryMinutes rat

datatype alert_label = NewState | OngoingState | RecoveredState | RawState string

definition alertStateLabel :: "string \<Rightarrow> alert_label" where
  "alertStateLabel state =
     (if state = ''new'' then NewState
      else if state = ''ongoing'' then OngoingState
      else if state = ''recovered'' then RecoveredState
      else RawState state)"

datatype schedule_part =
    What cadence string                  \<comment> \<open>the cadence and the label of the kind\<close>
  | Where string
  | LastDays rat
  | SentEveryTime
  | OnlyStates "alert_label list"
  | NamedSegment string
  | Conditions "string list"
  | NoFurtherCondition
  | NoCondition

definition describeSchedule :: "string \<Rightarrow> schedule_form \<Rightarrow> string \<Rightarrow> rat \<Rightarrow> schedule_part list" where
  "describeSchedule kind form segmentName intervalMinutes =
     [What (if intervalMinutes \<in> set intervalPresets then Preset intervalMinutes
            else EveryMinutes intervalMinutes) kind,
      Where (js_upper_ascii (sf_environment form))]
     @ (if kindUsesRange kind then [LastDays (sf_days form)] else [])
     @ (if kindUsesAlertState kind then
          [if sf_alwaysSend form then SentEveryTime else OnlyStates (map alertStateLabel (sf_notifyOn form))]
        else [])
     @ (if kindUsesSegmentFilters kind then
          let filters = filter (\<lambda>s. s \<noteq> []) [sf_eventName form, sf_feature form, sf_department form] in
          (if segmentName \<noteq> [] then [NamedSegment segmentName] else [])
          @ [if filters \<noteq> [] then Conditions filters
             else if segmentName \<noteq> [] then NoFurtherCondition else NoCondition]
        else [])"

text \<open>
  The sentence and the definition differ on two inputs: without a chosen alert state the sentence
  names none while the definition asks for new and recovered anomalies, and a blank filter is
  named as a condition that the definition does not have.
\<close>

lemma sentence_differs_from_definition:
  "OnlyStates [] \<in> set (describeSchedule ''anomaly'' (form\<lparr>sf_notifyOn := [], sf_alwaysSend := False\<rparr>) [] m)
   \<and> set_notify (settings_of ''anomaly''
        (buildScheduleDefinition ''anomaly'' (form\<lparr>sf_notifyOn := [], sf_alwaysSend := False\<rparr>)))
      = [''new'', ''recovered'']
   \<and> Conditions ['' ''] \<in> set (describeSchedule ''segment''
        (form\<lparr>sf_eventName := '' '', sf_feature := [], sf_department := []\<rparr>) [] m)
   \<and> set_event (settings_of ''segment''
        (buildScheduleDefinition ''segment'' (form\<lparr>sf_eventName := '' ''\<rparr>))) = []"
proof -
  have "js_trim '' '' = []" by code_simp
  then show ?thesis
    by (simp add: describeSchedule_def settings_of_def buildScheduleDefinition_def schedule_uses Let_def)
qed

end
