(* ===== verification/Insights.thy ===== *)
theory Insights
  imports TableSort
begin

section \<open>Visitor insights and what needs attention\<close>

text \<open>
  \<open>web/src/pages/visitorInsights.ts\<close> (the values and the digest of the visitor insight report)
  and \<open>web/src/pages/attention.ts\<close> (the ranked list of the landing screen). Numbers are exact
  rationals; Korean words are constructors, and a sentence is a constructor with the values it
  mentions.
\<close>

subsection \<open>Values\<close>

datatype insight_format = NumberFormat | PercentFormat | DecimalFormat | DurationFormat

datatype insight_text = Plain string | MinutesSeconds int int

text \<open>\<open>a % b\<close> for a positive \<open>b\<close>: the sign of \<open>a\<close>.\<close>

definition js_rem :: "rat \<Rightarrow> rat \<Rightarrow> rat" where
  "js_rem a b = a - b * of_int (js_trunc (a / b))"

definition formatInsightValue :: "rat \<Rightarrow> insight_format \<Rightarrow> insight_text" where
  "formatInsightValue v f =
     (case f of
        PercentFormat \<Rightarrow> Plain (to_fixed 1 v @ ''%'')
      | DecimalFormat \<Rightarrow> Plain (to_fixed 2 v)
      | DurationFormat \<Rightarrow> MinutesSeconds \<lfloor>v / 60\<rfloor> (js_round (js_rem v 60))
      | NumberFormat \<Rightarrow> Plain (ko_format 0 1 v))"

text \<open>
  \<open>Math.round(value * 10) / 10\<close> shown with one decimal unless it is whole. Rounding a small
  negative value gives negative zero, which is written with its sign. \<open>formatCredit\<close> and
  \<open>formatGoalNumber\<close> have the same text.
\<close>

definition one_decimal :: "rat \<Rightarrow> string" where
  "one_decimal v =
     (let rounded = of_int (js_round (v * 10)) / 10 in
      if rounded = 0 \<and> v < 0 then ''-0''
      else if of_int \<lfloor>rounded\<rfloor> = rounded then ko_number rounded
      else ko_format 1 1 rounded)"

definition formatCredit :: "rat \<Rightarrow> string" where
  "formatCredit v = one_decimal v"

definition formatGoalNumber :: "rat \<Rightarrow> string" where
  "formatGoalNumber v = one_decimal v"

datatype change_text = NoChange | ChangeBy string

definition formatChange :: "rat \<Rightarrow> change_text" where
  "formatChange c =
     (if \<bar>c\<bar> < 1 / 20 then NoChange
      else ChangeBy ((if c > 0 then ''+'' else []) @ to_fixed 1 c @ ''%''))"

datatype insight_goal = Higher | Lower | Neutral

record insight_kpi =
  kp_label :: string
  kp_format :: insight_format
  kp_current :: rat
  kp_previous :: rat
  kp_change_percent :: rat
  kp_key :: string
  kp_goal :: insight_goal

datatype tone = Good | Bad | Flat

definition changeTone :: "insight_kpi \<Rightarrow> tone" where
  "changeTone kpi =
     (if kp_goal kpi = Neutral \<or> \<bar>kp_change_percent kpi\<bar> < 1 then Flat
      else if (kp_change_percent kpi > 0) = (kp_goal kpi = Higher) then Good else Bad)"

text \<open>Opposite movements and opposite goals have opposite tones.\<close>

lemma change_tone_mirrors:
  assumes "kp_goal kpi \<noteq> Neutral" "1 \<le> \<bar>kp_change_percent kpi\<bar>"
  shows "(changeTone (kpi\<lparr>kp_change_percent := - kp_change_percent kpi\<rparr>) = Good) = (changeTone kpi = Bad)"
    and "(changeTone (kpi\<lparr>kp_goal := (if kp_goal kpi = Higher then Lower else Higher)\<rparr>) = Good)
      = (changeTone kpi = Bad)"
  using assms by (cases "kp_goal kpi"; auto simp: changeTone_def)+

text \<open>A duration is cut into minutes before its seconds are rounded, so it can read sixty seconds.\<close>

lemma duration_of_nonneg:
  assumes "0 \<le> v"
  shows "js_rem v 60 = v - 60 * of_int \<lfloor>v / 60\<rfloor>"
  using assms by (simp add: js_rem_def js_trunc_def)

text \<open>
  The minutes and seconds shown for a duration are within half a second of it, but the seconds
  may read sixty: exactly when less than half a second is missing from a full minute.
\<close>

theorem duration_may_read_sixty:
  assumes "0 \<le> v"
  shows "\<exists>m s. formatInsightValue v DurationFormat = MinutesSeconds m s
    \<and> \<bar>of_int (60 * m + s) - v\<bar> \<le> 1 / 2 \<and> 0 \<le> s \<and> s \<le> 60
    \<and> (s = 60 \<longleftrightarrow> v \<ge> of_int (60 * (m + 1)) - 1 / 2)"
proof -
  let ?m = "\<lfloor>v / 60\<rfloor>"
  let ?r = "v - 60 * of_int ?m"
  let ?s = "js_round ?r"
  have range: "0 \<le> ?r" "?r < 60"
    by (linarith)+
  have near: "\<bar>of_int ?s - ?r\<bar> \<le> 1 / 2" by (rule js_round_nearest)
  have low: "0 \<le> ?s" "?s \<le> 60"
    using js_round_mono [of 0 ?r] js_round_mono [of ?r 60] js_round_int [of 0] js_round_int [of 60] range
    by simp_all
  have top: "?s = 60 \<longleftrightarrow> ?r \<ge> 60 - 1 / 2"
    using low(2) unfolding js_round_def by linarith
  have "formatInsightValue v DurationFormat = MinutesSeconds ?m ?s"
    using duration_of_nonneg [OF assms] by (simp add: formatInsightValue_def)
  then show ?thesis using near low top by (intro exI [of _ ?m] exI [of _ ?s]) (simp add: algebra_simps)
qed

lemma duration_may_read_sixty_witness:
  "formatInsightValue (239 / 2) DurationFormat = MinutesSeconds 1 60
   \<and> (\<exists>m s. formatInsightValue (239 / 2) DurationFormat = MinutesSeconds m s \<and> s \<le> 60)"
proof -
  have "\<lfloor>239 / 120 :: rat\<rfloor> = 1" by (simp add: floor_eq_iff)
  then show ?thesis
    using duration_may_read_sixty [of "239 / 2"]
    by (auto simp: formatInsightValue_def js_rem_def js_trunc_def js_round_def)
qed

subsection \<open>Anomalies and goals\<close>

datatype anomaly_severity =
  AnomalyCritical | AnomalyWarning | AnomalyPositive | AnomalyNormal | InsufficientHistory | AnomalyUnknown

datatype transition_state = NewTransition | OngoingTransition | RecoveredTransition

record anomaly =
  an_metric :: string
  an_label :: string
  an_severity :: anomaly_severity
  an_evidence :: string
  an_action :: "string option"
  an_date :: string
  an_value :: rat
  an_baseline :: rat
  an_change_percent :: rat
  an_robust_z :: rat
  an_direction :: string
  an_samples :: nat
  an_weekday :: string

record anomaly_transition =
  tr_metric :: string
  tr_label :: string
  tr_state :: transition_state
  tr_days_open :: nat
  tr_evidence :: string
  tr_severity :: string
  tr_robust_z :: rat
  tr_action :: "string option"
  tr_notifiable :: bool

datatype state_text = Recovered | Fresh | OpenFor nat

definition stateSummary :: "anomaly_transition \<Rightarrow> state_text" where
  "stateSummary transition =
     (case tr_state transition of
        RecoveredTransition \<Rightarrow> Recovered
      | NewTransition \<Rightarrow> Fresh
      | OngoingTransition \<Rightarrow> OpenFor (tr_days_open transition))"

datatype attention_severity = Critical | Warning | Info

datatype attention_source = FromAnomaly | FromGoal

record goal_evaluation =
  ge_id :: string
  ge_name :: string
  ge_value :: rat
  ge_target_value :: rat
  ge_achieved :: bool
  ge_forecast_available :: "bool option"
  ge_forecast_behind :: bool
  ge_projected_value :: "rat option"
  ge_elapsed_percent :: "rat option"
  ge_metric_name :: string
  ge_comparator :: string
  ge_period :: string
  ge_progress_percent :: rat

datatype attention_title =
    GrewALot string
  | LeftBaseline string "state_text option"
  | MissesTarget string

datatype attention_detail =
    Evidence string
  | GoalOutlook string string string int    \<comment> \<open>current, projected, target, elapsed percent\<close>

record attention_item =
  at_id :: string
  at_severity :: attention_severity
  at_title :: attention_title
  at_detail :: attention_detail
  at_action :: "string option"
  at_to :: string
  at_source :: attention_source

fun severityRank :: "attention_severity \<Rightarrow> nat" where
  "severityRank Critical = 0"
| "severityRank Warning = 1"
| "severityRank Info = 2"

definition anomalySeverity :: "anomaly \<Rightarrow> attention_severity option" where
  "anomalySeverity a =
     (case an_severity a of
        AnomalyCritical \<Rightarrow> Some Critical
      | AnomalyWarning \<Rightarrow> Some Warning
      | AnomalyPositive \<Rightarrow> Some Info
      | _ \<Rightarrow> None)"

definition stateSuffix :: "anomaly_transition option \<Rightarrow> state_text option" where
  "stateSuffix transition =
     (case transition of
        None \<Rightarrow> None
      | Some t \<Rightarrow>
          (case tr_state t of
             OngoingTransition \<Rightarrow> Some (OpenFor (tr_days_open t))
           | NewTransition \<Rightarrow> Some Fresh
           | RecoveredTransition \<Rightarrow> None))"

definition anomaly_item :: "anomaly_transition list \<Rightarrow> anomaly \<Rightarrow> attention_item option" where
  "anomaly_item transitions a =
     (case anomalySeverity a of
        None \<Rightarrow> None
      | Some severity \<Rightarrow>
          let transition = find (\<lambda>t. tr_metric t = an_metric a) transitions in
          Some \<lparr>at_id = ''anomaly:'' @ an_metric a, at_severity = severity,
                at_title = (if severity = Info then GrewALot (an_label a)
                            else LeftBaseline (an_label a) (stateSuffix transition)),
                at_detail = Evidence (an_evidence a), at_action = an_action a,
                at_to = ''/visitor-insights'', at_source = FromAnomaly\<rparr>)"

definition goal_item :: "goal_evaluation \<Rightarrow> attention_item option" where
  "goal_item g =
     (if ge_achieved g \<or> ge_forecast_available g = Some False then None
      else if \<not> ge_forecast_behind g then None
      else
        let projected = (case ge_projected_value g of Some p \<Rightarrow> p | None \<Rightarrow> 0);
            elapsed = (case ge_elapsed_percent g of Some p \<Rightarrow> p | None \<Rightarrow> 0) in
        Some \<lparr>at_id = ''goal:'' @ ge_id g, at_severity = Warning, at_title = MissesTarget (ge_name g),
              at_detail = GoalOutlook (formatGoalNumber (ge_value g)) (formatGoalNumber projected)
                (formatGoalNumber (ge_target_value g)) (js_round elapsed),
              at_action = None, at_to = ''/goals'', at_source = FromGoal\<rparr>)"

text \<open>The comparator; \<open>say\<close> is the Korean sentence of a title, \<open>collate\<close> is \<open>localeCompare\<close>.\<close>

definition attention_compare ::
  "(string \<Rightarrow> string \<Rightarrow> int) \<Rightarrow> (attention_title \<Rightarrow> string) \<Rightarrow> attention_item \<Rightarrow> attention_item \<Rightarrow> int"
where
  "attention_compare collate say l r =
     (if severityRank (at_severity l) \<noteq> severityRank (at_severity r)
      then int (severityRank (at_severity l)) - int (severityRank (at_severity r))
      else if at_source l \<noteq> at_source r then (if at_source l = FromAnomaly then - 1 else 1)
      else collate (say (at_title l)) (say (at_title r)))"

definition attention_gt ::
  "(string \<Rightarrow> string \<Rightarrow> int) \<Rightarrow> (attention_title \<Rightarrow> string) \<Rightarrow> attention_item \<Rightarrow> attention_item \<Rightarrow> bool"
where
  "attention_gt collate say l r \<longleftrightarrow> attention_compare collate say l r > 0"

definition attention_candidates ::
  "anomaly list \<Rightarrow> anomaly_transition list \<Rightarrow> goal_evaluation list \<Rightarrow> attention_item list"
where
  "attention_candidates anomalies transitions goals =
     List.map_filter (anomaly_item transitions) anomalies @ List.map_filter goal_item goals"

definition buildAttentionItems ::
  "(string \<Rightarrow> string \<Rightarrow> int) \<Rightarrow> (attention_title \<Rightarrow> string)
   \<Rightarrow> anomaly list \<Rightarrow> anomaly_transition list \<Rightarrow> goal_evaluation list \<Rightarrow> nat \<Rightarrow> attention_item list \<times> nat"
where
  "buildAttentionItems collate say anomalies transitions goals limit =
     (let items = js_sort (attention_gt collate say) (attention_candidates anomalies transitions goals) in
      (take limit items, length items - limit))"

subsection \<open>The list is ranked and complete\<close>

lemma attention_order:
  assumes "collation c"
  shows "sort_order (attention_gt c say)"
proof
  fix a b :: attention_item
  assume "attention_gt c say a b"
  then show "\<not> attention_gt c say b a"
    using collation_flip [OF assms, of "say (at_title a)" "say (at_title b)"]
    by (cases "at_source a"; cases "at_source b")
      (auto simp: attention_gt_def attention_compare_def sgn_if split: if_splits)
next
  fix a b d :: attention_item
  assume "\<not> attention_gt c say a b" "\<not> attention_gt c say b d"
  then show "\<not> attention_gt c say a d"
    using collation_trans [OF assms, of "say (at_title a)" "say (at_title b)" "say (at_title d)"]
    by (cases "at_source a"; cases "at_source b"; cases "at_source d")
      (auto simp: attention_gt_def attention_compare_def split: if_splits)
qed

lemma not_gt_rank:
  "\<not> attention_gt c say a b \<Longrightarrow> severityRank (at_severity a) \<le> severityRank (at_severity b)"
  by (auto simp: attention_gt_def attention_compare_def split: if_splits)

text \<open>
  The landing screen's list holds the deserving anomalies and goals, each once, at most
  \<open>limit\<close> of them and the rest counted; it is sorted by severity, and nothing left out is more
  severe than anything shown.
\<close>

theorem attention_is_ranked:
  assumes "collation c"
  shows "let all = js_sort (attention_gt c say) (attention_candidates anomalies transitions goals);
             (shown, hidden) = buildAttentionItems c say anomalies transitions goals limit
         in mset all = mset (attention_candidates anomalies transitions goals)
          \<and> shown @ drop limit all = all \<and> length shown \<le> limit
          \<and> length shown + hidden = length (attention_candidates anomalies transitions goals)
          \<and> sorted (map (severityRank \<circ> at_severity) shown)
          \<and> (\<forall>x \<in> set shown. \<forall>y \<in> set (drop limit all).
               severityRank (at_severity x) \<le> severityRank (at_severity y))"
proof -
  let ?all = "js_sort (attention_gt c say) (attention_candidates anomalies transitions goals)"
  have "sorted_wrt (\<lambda>a b. \<not> attention_gt c say a b) ?all"
    by (rule sort_order.sorted [OF attention_order [OF assms]])
  then have ranked: "sorted_wrt (\<lambda>a b. severityRank (at_severity a) \<le> severityRank (at_severity b)) ?all"
    by (rule sorted_wrt_mono_rel [rotated]) (simp add: not_gt_rank)
  then have parts: "sorted_wrt (\<lambda>a b. severityRank (at_severity a) \<le> severityRank (at_severity b))
      (take limit ?all @ drop limit ?all)"
    by simp
  have "sorted (map (severityRank \<circ> at_severity) (take limit ?all))"
    using parts by (simp only: sorted_wrt_append sorted_map comp_def)
  moreover have "\<forall>x \<in> set (take limit ?all). \<forall>y \<in> set (drop limit ?all).
      severityRank (at_severity x) \<le> severityRank (at_severity y)"
    using parts unfolding sorted_wrt_append by blast
  ultimately show ?thesis by (simp add: buildAttentionItems_def Let_def)
qed

lemma attention_is_ranked_witness:
  "let (shown, hidden) = buildAttentionItems by_length (\<lambda>_. []) [] []
        [\<lparr>ge_id = ''g'', ge_name = ''n'', ge_value = 1, ge_target_value = 2, ge_achieved = False,
          ge_forecast_available = Some True, ge_forecast_behind = True, ge_projected_value = None,
          ge_elapsed_percent = None, ge_metric_name = ''m'', ge_comparator = ''gte'', ge_period = ''month'',
          ge_progress_percent = 50\<rparr>] 5
   in length shown \<le> 5 \<and> length shown + hidden = 1"
  using attention_is_ranked [OF by_length_collation, of "\<lambda>_. []" "[]" "[]"
      "[\<lparr>ge_id = ''g'', ge_name = ''n'', ge_value = 1, ge_target_value = 2, ge_achieved = False,
         ge_forecast_available = Some True, ge_forecast_behind = True, ge_projected_value = None,
         ge_elapsed_percent = None, ge_metric_name = ''m'', ge_comparator = ''gte'', ge_period = ''month'',
          ge_progress_percent = 50\<rparr>]" 5]
  by (simp add: Let_def buildAttentionItems_def attention_candidates_def List.map_filter_def goal_item_def)

text \<open>What deserves attention, and what does not.\<close>

lemma achieved_goals_left_out: "ge_achieved g \<Longrightarrow> goal_item g = None"
  by (simp add: goal_item_def)

lemma normal_anomalies_left_out:
  "anomaly_item ts a = None \<longleftrightarrow>
     an_severity a \<in> {AnomalyNormal, InsufficientHistory, AnomalyUnknown}"
  by (cases "an_severity a") (simp_all add: anomaly_item_def anomalySeverity_def Let_def)

subsection \<open>The digest\<close>

datatype finding_severity = FindingCritical | FindingWarning | FindingInfo | FindingPositive

record insight_finding =
  fi_title :: string
  fi_severity :: finding_severity
  fi_evidence :: string
  fi_cause :: string
  fi_action :: string
  fi_id :: string
  fi_impact :: rat

record insight_lifecycle =
  li_kind :: string
  li_users :: rat
  li_sessions_per_user :: rat
  li_conversion_rate :: rat
  li_share_percent :: rat
  li_sessions :: rat

record insight_channel =
  ic_channel :: string
  ic_users :: rat
  ic_conversion_rate :: rat
  ic_change_percent :: rat
  ic_user_share_percent :: rat
  ic_sessions :: rat
  ic_converted_users :: rat
  ic_previous_users :: rat

record insight_landing =
  il_page :: string
  il_sessions :: rat
  il_bounce_rate :: rat
  il_conversion_rate :: rat
  il_session_share_percent :: rat
  il_engagement_rate :: rat
  il_average_seconds :: rat

record insight_bucket =
  ib_bucket :: string
  ib_label :: string
  ib_users :: rat
  ib_share_percent :: rat
  ib_conversion_rate :: rat

record insight_device =
  id_device :: string
  id_users :: rat
  id_sessions :: rat
  id_conversion_rate :: rat
  id_share_percent :: rat

record insight_audience =
  ia_label :: string
  ia_users :: rat
  ia_action :: string
  ia_key :: string
  ia_segment :: val
  ia_segment_note :: "string option"

record insight_report =
  ir_environment :: string
  ir_timezone :: string
  ir_from :: string
  ir_to :: string
  ir_previous_from :: string
  ir_previous_to :: string
  ir_headline :: string
  ir_kpis :: "insight_kpi list"
  ir_findings :: "insight_finding list"
  ir_lifecycle :: "insight_lifecycle list"
  ir_channels :: "insight_channel list"
  ir_landing_pages :: "insight_landing list"
  ir_audiences :: "insight_audience list"
  ir_notes :: "string list"
  ir_days :: nat
  ir_frequency :: "insight_bucket list"
  ir_recency :: "insight_bucket list"
  ir_devices :: "insight_device list"

record anomaly_report =
  ar_evaluated_date :: string
  ar_baseline_weeks :: nat
  ar_detected :: "anomaly list"
  ar_transitions :: "anomaly_transition list"
  ar_environment :: string
  ar_timezone :: string
  ar_checked :: "anomaly list"
  ar_note :: string
  ar_notify_on :: "string list"

datatype lifecycle_label = NewVisitors | ReturningVisitors | OtherKind string | InheritedProperty string

definition lifecycleName :: "string \<Rightarrow> lifecycle_label" where
  "lifecycleName kind =
     (if kind = ''new'' then NewVisitors
      else if kind = ''returning'' then ReturningVisitors
      else if kind \<in> set OBJECT_PROTOTYPE then InheritedProperty kind
      else OtherKind kind)"

datatype digest_cell =
    Words string
  | Measured insight_text
  | Moved change_text
  | Visitors lifecycle_label

datatype digest_table = KpiTable | LifecycleTable | ChannelTable | LandingTable

record anomaly_line =
  al_severity :: anomaly_severity
  al_state :: "state_text option"
  al_label :: string
  al_evidence :: string
  al_action :: "string option"

datatype digest_section =
    DigestTitle string string
  | DigestHeadline string
  | DigestPeriod string string string string "string option"
  | AnomalyHeading string nat
  | AnomalyLines "anomaly_line list"
  | RecoveredLines "(string \<times> string) list"
  | FindingsHeading
  | FindingLines "(nat \<times> insight_finding) list"
  | TableHeading digest_table
  | DigestTable digest_table "digest_cell list list"
  | AudienceHeading
  | AudienceLines "(string \<times> string \<times> string) list"
  | NotesHeading
  | NoteLines "string list"

definition percent :: "rat \<Rightarrow> digest_cell" where
  "percent v = Words (to_fixed 1 v @ ''%'')"

definition localDate :: "string \<Rightarrow> string" where
  "localDate v = take 10 v"

definition or_none :: "string \<Rightarrow> string option" where
  "or_none s = (if s = [] then None else Some s)"

definition anomaly_sections :: "anomaly_report option \<Rightarrow> digest_section list" where
  "anomaly_sections anomalies =
     (case anomalies of
        None \<Rightarrow> []
      | Some r \<Rightarrow>
          if ar_detected r = [] then []
          else
            let line = (\<lambda>a. \<lparr>al_severity = an_severity a,
                  al_state = map_option stateSummary (find (\<lambda>t. tr_metric t = an_metric a) (ar_transitions r)),
                  al_label = an_label a, al_evidence = an_evidence a,
                  al_action = Option.bind (an_action a) or_none\<rparr>);
                recovered = filter (\<lambda>t. tr_state t = RecoveredTransition) (ar_transitions r)
            in [AnomalyHeading (take 10 (ar_evaluated_date r)) (ar_baseline_weeks r),
                AnomalyLines (map line (ar_detected r))]
               @ (if recovered \<noteq> [] then [RecoveredLines (map (\<lambda>t. (tr_label t, tr_evidence t)) recovered)]
                  else []))"

definition table_section :: "digest_table \<Rightarrow> ('r \<Rightarrow> digest_cell list) \<Rightarrow> 'r list \<Rightarrow> digest_section list" where
  "table_section t cells rows =
     (if rows = [] then [] else [TableHeading t, DigestTable t (map cells rows)])"

definition kpi_cells :: "insight_kpi \<Rightarrow> digest_cell list" where
  "kpi_cells k =
     [Words (kp_label k), Measured (formatInsightValue (kp_current k) (kp_format k)),
      Measured (formatInsightValue (kp_previous k) (kp_format k)), Moved (formatChange (kp_change_percent k))]"

definition lifecycle_cells :: "insight_lifecycle \<Rightarrow> digest_cell list" where
  "lifecycle_cells r =
     [Visitors (lifecycleName (li_kind r)), Words (ko_format 0 1 (li_users r)), percent (li_share_percent r),
      Words (to_fixed 2 (li_sessions_per_user r)), percent (li_conversion_rate r)]"

definition channel_cells :: "insight_channel \<Rightarrow> digest_cell list" where
  "channel_cells r =
     [Words (ic_channel r), Words (ko_format 0 1 (ic_users r)), percent (ic_user_share_percent r),
      percent (ic_conversion_rate r), Moved (formatChange (ic_change_percent r))]"

definition landing_cells :: "insight_landing \<Rightarrow> digest_cell list" where
  "landing_cells r =
     [Words (il_page r), Words (ko_format 0 1 (il_sessions r)), percent (il_session_share_percent r),
      percent (il_bounce_rate r), percent (il_conversion_rate r)]"

definition buildInsightMarkdown ::
  "insight_report \<Rightarrow> string \<Rightarrow> anomaly_report option \<Rightarrow> digest_section list"
where
  "buildInsightMarkdown report siteName anomalies =
     (let actionable = filter (\<lambda>a. ia_users a > 0) (ir_audiences report) in
      [DigestTitle siteName (js_upper_ascii (ir_environment report)),
       DigestHeadline (ir_headline report),
       DigestPeriod (localDate (ir_from report)) (localDate (ir_to report))
         (localDate (ir_previous_from report)) (localDate (ir_previous_to report))
         (or_none (ir_timezone report))]
      @ anomaly_sections anomalies
      @ (if ir_findings report \<noteq> []
         then [FindingsHeading,
               FindingLines (zip [1..<Suc (length (ir_findings report))] (ir_findings report))]
         else [])
      @ table_section KpiTable kpi_cells (ir_kpis report)
      @ table_section LifecycleTable lifecycle_cells (ir_lifecycle report)
      @ table_section ChannelTable channel_cells (ir_channels report)
      @ table_section LandingTable landing_cells (ir_landing_pages report)
      @ (if actionable \<noteq> []
         then [AudienceHeading,
               AudienceLines (map (\<lambda>a. (ia_label a, ko_format 0 1 (ia_users a), ia_action a)) actionable)]
         else [])
      @ (if ir_notes report \<noteq> [] then [NotesHeading, NoteLines (ir_notes report)] else []))"

text \<open>Every row of a table has a cell per column.\<close>

fun columns_of :: "digest_table \<Rightarrow> nat" where
  "columns_of KpiTable = 4"
| "columns_of LifecycleTable = 5"
| "columns_of ChannelTable = 5"
| "columns_of LandingTable = 5"

lemma digest_tables_rectangular:
  assumes "DigestTable t rows \<in> set (buildInsightMarkdown report siteName anomalies)"
  shows "rows \<noteq> [] \<and> (\<forall>row \<in> set rows. length row = columns_of t)"
  using assms
  by (auto simp: buildInsightMarkdown_def table_section_def anomaly_sections_def kpi_cells_def
      lifecycle_cells_def channel_cells_def landing_cells_def Let_def split: if_splits option.splits)

text \<open>The table as Markdown: one separator more than cells, unless a cell holds one itself.\<close>

definition table_line :: "string list \<Rightarrow> string" where
  "table_line cells = ''| '' @ join '' | '' cells @ '' |''"

definition markdown_table :: "string list \<Rightarrow> string list list \<Rightarrow> string" where
  "markdown_table header rows =
     join [CHR 0x0A] ([table_line header, table_line (map (\<lambda>_. ''---'') header)] @ map table_line rows)"

abbreviation bars :: "string \<Rightarrow> nat" where
  "bars s \<equiv> length (filter (\<lambda>c. c = CHR ''|'') s)"

lemma bars_join: "cells \<noteq> [] \<Longrightarrow> bars (join '' | '' cells) + 1 = length cells + sum_list (map bars cells)"
  by (induction cells) (auto simp: join_Cons)

lemma table_line_cells:
  "cells \<noteq> [] \<Longrightarrow> bars (table_line cells) = length cells + 1 + sum_list (map bars cells)"
  using bars_join [of cells] by (simp add: table_line_def)

lemma page_with_bar_adds_a_column:
  "bars (table_line [''/a|b'', ''1'']) = bars (table_line [''/a'', ''b'', ''1''])"
  by (simp add: table_line_def)

end
