(* ===== verification/Trace.thy ===== *)
theory Trace
  imports QueryError UrlParams
begin

section \<open>The trace of a visitor\<close>

text \<open>
  \<open>web/src/pages/visitorTrace.ts\<close>: durations and gaps, the shape of a visit, the trace as a
  document, the cursor of the next page, and the sentence about how far a search looked. Times
  are texts the browser formats (parameters); Korean words are constructors.
\<close>

subsection \<open>Durations\<close>

datatype duration_text =
    Seconds int
  | Minutes int int            \<comment> \<open>the seconds are left out when zero\<close>
  | Hours int int              \<comment> \<open>the minutes are left out when zero\<close>
  | DaysHours int int

definition formatDuration :: "rat \<Rightarrow> duration_text" where
  "formatDuration seconds =
     (let total = max 0 (js_round seconds) in
      if total < 60 then Seconds total
      else let minutes = total div 60 in
        if minutes < 60 then Minutes minutes (total mod 60)
        else let hours = minutes div 60; restMinutes = minutes mod 60 in
          if hours < 24 then Hours hours restMinutes
          else DaysHours (hours div 24) (hours mod 24))"

definition formatGap :: "rat \<Rightarrow> duration_text option" where
  "formatGap seconds = (if seconds = 0 \<or> seconds \<le> 0 then None else Some (formatDuration seconds))"

text \<open>The seconds a text stands for, the precision it was cut to, and its fields in range.\<close>

fun said_seconds :: "duration_text \<Rightarrow> int" where
  "said_seconds (Seconds s) = s"
| "said_seconds (Minutes m s) = 60 * m + s"
| "said_seconds (Hours h m) = 3600 * h + 60 * m"
| "said_seconds (DaysHours d h) = 86400 * d + 3600 * h"

fun said_unit :: "duration_text \<Rightarrow> int" where
  "said_unit (Seconds s) = 1"
| "said_unit (Minutes m s) = 1"
| "said_unit (Hours h m) = 60"
| "said_unit (DaysHours d h) = 3600"

fun fields_in_range :: "duration_text \<Rightarrow> bool" where
  "fields_in_range (Seconds s) = (0 \<le> s \<and> s < 60)"
| "fields_in_range (Minutes m s) = (1 \<le> m \<and> m < 60 \<and> 0 \<le> s \<and> s < 60)"
| "fields_in_range (Hours h m) = (1 \<le> h \<and> h < 24 \<and> 0 \<le> m \<and> m < 60)"
| "fields_in_range (DaysHours d h) = (1 \<le> d \<and> 0 \<le> h \<and> h < 24)"

text \<open>
  A duration is said as its seconds rounded to the nearest and cut to the unit shown, never
  more than the rounded value and less than one unit below it, with every field in its range.
\<close>

theorem duration_said_right:
  "let t = formatDuration v; total = max 0 (js_round v) in
     fields_in_range t \<and> said_seconds t \<le> total \<and> total < said_seconds t + said_unit t"
proof -
  define total where "total = max 0 (js_round v)"
  define m where "m = total div 60"
  define h where "h = m div 60"
  have t: "0 \<le> total" by (simp add: total_def)
  have tm: "total = 60 * m + total mod 60" "0 \<le> total mod 60" "total mod 60 < 60"
    unfolding m_def by simp_all
  have mh: "m = 60 * h + m mod 60" "0 \<le> m mod 60" "m mod 60 < 60"
    unfolding h_def by simp_all
  have hd: "h = 24 * (h div 24) + h mod 24" "0 \<le> h mod 24" "h mod 24 < 24" by simp_all
  have said: "formatDuration v =
      (if total < 60 then Seconds total
       else if m < 60 then Minutes m (total mod 60)
       else if h < 24 then Hours h (m mod 60) else DaysHours (h div 24) (h mod 24))"
    by (simp add: formatDuration_def Let_def total_def m_def h_def)
  consider "total < 60" | "60 \<le> total" "m < 60" | "60 \<le> m" "h < 24" | "24 \<le> h" by linarith
  then show ?thesis
    unfolding Let_def total_def [symmetric] said
    by cases (use t tm mh hd in \<open>simp_all; linarith\<close>)+
qed

lemma gap_is_positive: "formatGap v = Some t \<Longrightarrow> 0 < v \<and> t = formatDuration v"
  by (auto simp: formatGap_def split: if_splits)

subsection \<open>The shape of a visit\<close>

record trace_event =
  te_name :: string
  te_timestamp :: string
  te_page_url :: string
  te_is_conversion :: bool
  te_properties :: "props option"
  te_seconds_since_previous :: rat
  te_identified :: bool
  te_event_id :: string
  te_visitor_id :: string
  te_session_id :: string
  te_user_id :: "string option"
  te_page_title :: "string option"
  te_referrer :: "string option"
  te_environment :: string
  te_contract_version :: nat
  te_traffic_class :: string

record trace_session =
  ts_started_at :: string
  ts_duration_seconds :: rat
  ts_events :: "trace_event list"
  ts_event_count :: nat
  ts_page_views :: nat
  ts_conversions :: nat
  ts_engaged :: bool
  ts_partial :: bool
  ts_device_type :: string
  ts_browser :: string
  ts_source :: string
  ts_medium :: string
  ts_network :: string
  ts_landing_page :: string
  ts_exit_page :: string
  ts_session_id :: string
  ts_visitor_id :: string
  ts_ended_at :: string
  ts_os :: string
  ts_campaign :: string
  ts_interaction_count :: nat
  ts_active_engagement_ms :: nat

datatype title_part =
    StartedAt string
  | Lasted duration_text
  | ChannelName string
  | DeviceName "string list"

definition title_kept :: "title_part \<Rightarrow> bool" where
  "title_kept p \<longleftrightarrow> (case p of
     StartedAt s \<Rightarrow> s \<noteq> [] | Lasted d \<Rightarrow> True | ChannelName s \<Rightarrow> s \<noteq> [] | DeviceName ws \<Rightarrow> ws \<noteq> [])"

definition sessionTitle :: "(string \<Rightarrow> string) \<Rightarrow> trace_session \<Rightarrow> title_part list" where
  "sessionTitle localeString s =
     (let channel = (if ts_source s \<noteq> []
            then ts_source s @ (if ts_medium s \<noteq> [] then '' / '' @ ts_medium s else [])
            else ''direct'')
      in filter title_kept
           [StartedAt (localeString (ts_started_at s)), Lasted (formatDuration (ts_duration_seconds s)),
            ChannelName channel, DeviceName (nonempty_strings [ts_device_type s, ts_browser s])])"

datatype path_text = NoPath | OnePage string | FromTo string string

definition entryExit :: "trace_session \<Rightarrow> path_text" where
  "entryExit s =
     (if ts_landing_page s = [] \<and> ts_exit_page s = [] then NoPath
      else if ts_landing_page s = ts_exit_page s then OnePage (ts_landing_page s)
      else FromTo (or_str (ts_landing_page s) ''?'') (or_str (ts_exit_page s) ''?''))"

definition shown_property :: "string \<times> val \<Rightarrow> bool" where
  "shown_property = (\<lambda>(k, v). v \<noteq> VNull \<and> v \<noteq> VUndef \<and> v \<noteq> VStr [])"

definition property_text :: "string \<times> val \<Rightarrow> string" where
  "property_text = (\<lambda>(k, v). k @ ''='' @
     (case v of VObj _ \<Rightarrow> json_text v | VArr _ \<Rightarrow> json_text v | _ \<Rightarrow> js_string v))"

definition propertySummary :: "props option \<Rightarrow> string" where
  "propertySummary properties =
     (case properties of
        None \<Rightarrow> []
      | Some ps \<Rightarrow> join '', '' (map property_text (take 6 (filter shown_property ps))))"

lemma property_summary_empty_values:
  "propertySummary (Some (filter shown_property ps)) = propertySummary (Some ps)"
  by (simp add: propertySummary_def)

subsection \<open>The trace as a document\<close>

record trace_link =
  tl_visitor_id :: string
  tl_first_seen :: string
  tl_linked_at :: string
  tl_source :: string
  tl_last_seen :: string
  tl_confidence :: rat

record trace_top =
  tt_value :: string
  tt_events :: nat
  tt_last_seen :: string

record trace_summary =
  tm_first_seen :: "string option"
  tm_last_seen :: "string option"
  tm_events :: nat
  tm_sessions :: nat
  tm_conversions :: nat
  tm_page_views :: nat
  tm_active_days :: nat
  tm_top_pages :: "trace_top list"
  tm_top_features :: "trace_top list"
  tm_devices :: "trace_top list"
  tm_networks :: "trace_top list"

record trace_other_site =
  to_site_id :: string
  to_name :: string
  to_first_seen :: string
  to_last_seen :: string

record trace_paging =
  tp_window :: "string \<times> string \<times> string"      \<comment> \<open>from, to, environment\<close>
  tp_limit :: nat
  tp_has_more :: bool
  tp_next_before :: string
  tp_next_before_id :: "string option"

record visitor_trace =
  vt_visitor_id :: string
  vt_user_id :: "string option"
  vt_person :: bool
  vt_visitor_ids :: "string list"
  vt_user_properties :: "props option"
  vt_summary :: trace_summary
  vt_other_sites :: "trace_other_site list"
  vt_identity_links :: "trace_link list"
  vt_sessions :: "trace_session list"
  vt_paging :: trace_paging

datatype trace_subject = TraceUser string | TraceVisitor string

datatype meta_part =
    EventCount nat
  | PageViews nat
  | ConversionCount nat
  | Engaged bool
  | Network string
  | PartOnly

datatype detail_part = PageAddress string | PropertiesText string | IdentifiedHere | Converted

datatype trace_line =
    TraceTitle string trace_subject
  | BlankLine
  | PersonScope nat
  | DeviceScope
  | EnvironmentLine string
  | FirstActivity "string option"
  | LastActivity "string option"
  | Totals nat nat nat nat
  | OtherSites "(string \<times> string) list"
  | LinksHeading
  | LinkLine string string string string
  | TimelineHeading
  | NoActivity
  | SessionHeading "title_part list"
  | SessionMeta "meta_part list"
  | SessionPath path_text
  | EventLine string "duration_text option" string "detail_part list"
  | MoreRecords

definition date_or_dash :: "(string \<Rightarrow> string) \<Rightarrow> string option \<Rightarrow> string option" where
  "date_or_dash localeString d =
     (case d of None \<Rightarrow> None | Some s \<Rightarrow> if s = [] then None else Some (localeString s))"

definition event_line :: "(string \<Rightarrow> string) \<Rightarrow> trace_event \<Rightarrow> trace_line" where
  "event_line localeTime e =
     EventLine (localeTime (te_timestamp e)) (formatGap (te_seconds_since_previous e)) (te_name e)
       ((if te_page_url e \<noteq> [] then [PageAddress (te_page_url e)] else [])
        @ (let summary = propertySummary (te_properties e) in
           if summary \<noteq> [] then [PropertiesText summary] else [])
        @ (if te_identified e then [IdentifiedHere] else [])
        @ (if te_is_conversion e then [Converted] else []))"

definition session_lines ::
  "(string \<Rightarrow> string) \<Rightarrow> (string \<Rightarrow> string) \<Rightarrow> trace_session \<Rightarrow> trace_line list"
where
  "session_lines localeString localeTime s =
     [BlankLine, SessionHeading (sessionTitle localeString s),
      SessionMeta
        ([EventCount (ts_event_count s), PageViews (ts_page_views s)]
         @ (if ts_conversions s \<noteq> 0 then [ConversionCount (ts_conversions s)] else [])
         @ [Engaged (ts_engaged s)]
         @ (if ts_network s \<noteq> [] then [Network (ts_network s)] else [])
         @ (if ts_partial s then [PartOnly] else []))]
     @ (if entryExit s \<noteq> NoPath then [SessionPath (entryExit s)] else [])
     @ map (event_line localeTime) (ts_events s)"

definition link_line :: "(string \<Rightarrow> string) \<Rightarrow> trace_link \<Rightarrow> trace_line" where
  "link_line localeString l =
     LinkLine (tl_visitor_id l) (localeString (tl_first_seen l)) (localeString (tl_linked_at l)) (tl_source l)"

definition trace_subject_of :: "visitor_trace \<Rightarrow> trace_subject" where
  "trace_subject_of t =
     (case vt_user_id t of
        Some u \<Rightarrow> if u \<noteq> [] then TraceUser u else TraceVisitor (vt_visitor_id t)
      | None \<Rightarrow> TraceVisitor (vt_visitor_id t))"

definition buildTraceMarkdown ::
  "(string \<Rightarrow> string) \<Rightarrow> (string \<Rightarrow> string) \<Rightarrow> visitor_trace \<Rightarrow> string \<Rightarrow> trace_line list"
where
  "buildTraceMarkdown localeString localeTime t siteName =
     (let m = vt_summary t; (from, until, env) = tp_window (vt_paging t) in
      [TraceTitle siteName (trace_subject_of t), BlankLine,
       if vt_person t then PersonScope (length (vt_visitor_ids t)) else DeviceScope,
       EnvironmentLine (js_upper_ascii env),
       FirstActivity (date_or_dash localeString (tm_first_seen m)),
       LastActivity (date_or_dash localeString (tm_last_seen m)),
       Totals (tm_active_days m) (tm_sessions m) (tm_events m) (tm_conversions m)]
      @ (if vt_other_sites t \<noteq> [] then [OtherSites (map (\<lambda>site. (to_name site, to_site_id site)) (vt_other_sites t))] else [])
      @ (if vt_identity_links t \<noteq> []
         then [BlankLine, LinksHeading] @ map (link_line localeString) (vt_identity_links t) else [])
      @ [BlankLine, TimelineHeading]
      @ (if vt_sessions t = [] then [NoActivity] else [])
      @ concat (map (session_lines localeString localeTime) (vt_sessions t))
      @ (if tp_has_more (vt_paging t) then [BlankLine, MoreRecords] else []))"

text \<open>The events of the document, in the order they appear.\<close>

definition event_lines :: "trace_line list \<Rightarrow> trace_line list" where
  "event_lines ls = filter (\<lambda>l. case l of EventLine _ _ _ _ \<Rightarrow> True | _ \<Rightarrow> False) ls"

lemma event_lines_simps [simp]:
  "event_lines [] = []"
  "event_lines (l # ls) = (case l of EventLine _ _ _ _ \<Rightarrow> l # event_lines ls | _ \<Rightarrow> event_lines ls)"
  by (simp_all add: event_lines_def split: trace_line.split)

lemma event_lines_append: "event_lines (a @ b) = event_lines a @ event_lines b"
  by (simp add: event_lines_def)

lemma event_lines_session:
  "event_lines (session_lines f g s) = map (event_line g) (ts_events s)"
  by (auto simp: event_lines_def session_lines_def event_line_def filter_id_conv)

lemma event_lines_sessions:
  "event_lines (concat (map (session_lines f g) ss)) = map (event_line g) (concat (map ts_events ss))"
  by (induction ss) (simp_all add: event_lines_append event_lines_session)

text \<open>
  The document attached to a ticket holds every event of the trace exactly once, in the order of
  the sessions, whatever else it holds, and says so when the server has more.
\<close>

theorem trace_document_complete:
  "event_lines (buildTraceMarkdown f g t siteName)
     = map (event_line g) (concat (map ts_events (vt_sessions t)))
   \<and> (MoreRecords \<in> set (buildTraceMarkdown f g t siteName) \<longleftrightarrow> tp_has_more (vt_paging t))"
proof
  have links: "event_lines (map (link_line f) ls) = []" for ls
    by (induction ls) (simp_all add: link_line_def)
  show "event_lines (buildTraceMarkdown f g t siteName)
      = map (event_line g) (concat (map ts_events (vt_sessions t)))"
    by (cases "tp_window (vt_paging t)")
      (simp add: buildTraceMarkdown_def Let_def event_lines_append event_lines_sessions links)
  have "MoreRecords \<notin> set (session_lines f g s)" for s
    by (auto simp: session_lines_def event_line_def)
  moreover have "MoreRecords \<notin> set (map (link_line f) ls)" for ls
    by (auto simp: link_line_def)
  ultimately show "MoreRecords \<in> set (buildTraceMarkdown f g t siteName) \<longleftrightarrow> tp_has_more (vt_paging t)"
    by (cases "tp_window (vt_paging t)") (auto simp: buildTraceMarkdown_def Let_def)
qed

subsection \<open>The next page\<close>

definition traceCursor :: "trace_paging \<Rightarrow> string" where
  "traceCursor p =
     (if \<not> tp_has_more p \<or> tp_next_before p = [] then []
      else
        let i = (case tp_next_before_id p of
              Some s \<Rightarrow> if s \<noteq> [] then ''&before_id='' @ encodeURIComponent s else []
            | None \<Rightarrow> [])
        in ''&before='' @ encodeURIComponent (tp_next_before p) @ i)"

text \<open>
  The fragment reads back, behind whatever query it is appended to, as the pair of time and row
  id the server sent.
\<close>

lemma cursor_reads_back:
  assumes "tp_has_more p" "tp_next_before p \<noteq> []"
  shows "parse_params (drop 1 (traceCursor p)) =
    (''before'', tp_next_before p)
      # (case tp_next_before_id p of
           Some s \<Rightarrow> if s \<noteq> [] then [(''before_id'', s)] else [] | None \<Rightarrow> [])"
proof -
  have plain: "form_decode ''before'' = ''before''" "form_decode ''before_id'' = ''before_id''"
    by code_simp+
  have pairs: "parse_pair (''before='' @ encodeURIComponent s) = (''before'', s)"
    "parse_pair (''before_id='' @ encodeURIComponent s) = (''before_id'', s)" for s
    using parse_pair_text [of "''before''" "encodeURIComponent s"]
      parse_pair_text [of "''before_id''" "encodeURIComponent s"] by (simp_all add: plain)
  show ?thesis
  proof (cases "tp_next_before_id p = None \<or> tp_next_before_id p = Some []")
    case True
    then have "drop 1 (traceCursor p) = join ''&'' [''before='' @ encodeURIComponent (tp_next_before p)]"
      using assms by (auto simp: traceCursor_def Let_def)
    then show ?thesis
      using True parse_pieces [of "[''before='' @ encodeURIComponent (tp_next_before p)]"]
      by (auto simp: uri_encode_marks pairs [simplified])
  next
    case False
    then obtain s where s: "tp_next_before_id p = Some s" "s \<noteq> []" by auto
    then have "drop 1 (traceCursor p) = join ''&''
        [''before='' @ encodeURIComponent (tp_next_before p), ''before_id='' @ encodeURIComponent s]"
      using assms by (simp add: traceCursor_def Let_def)
    then show ?thesis
      using s parse_pieces [of "[''before='' @ encodeURIComponent (tp_next_before p),
          ''before_id='' @ encodeURIComponent s]"]
      by (auto simp: uri_encode_marks pairs [simplified])
  qed
qed

subsection \<open>How far a search looked\<close>

definition SEARCH_DAYS :: int where
  "SEARCH_DAYS = 90"

datatype window_text = LastDays int | LastDaysByPolicy int

definition searchWindowLabel :: "int \<Rightarrow> int option \<Rightarrow> window_text" where
  "searchWindowLabel days maxExactDays =
     (let effective = policyRange days maxExactDays in
      if effective < days then LastDaysByPolicy effective else LastDays effective)"

definition searchEmptyDescription :: "string \<Rightarrow> int \<Rightarrow> int option \<Rightarrow> window_text \<times> string" where
  "searchEmptyDescription query days maxExactDays = (searchWindowLabel days maxExactDays, query)"

lemma window_label_is_the_request:
  "searchWindowLabel days m \<in> {LastDays (policyRange days m), LastDaysByPolicy (policyRange days m)}"
  by (simp add: searchWindowLabel_def Let_def)

end
