(* ===== verification/SegmentEdit.thy ===== *)
theory SegmentEdit
  imports ConsoleBase
begin

section \<open>The segment editor\<close>

text \<open>
  \<open>web/src/components/SegmentBuilder.tsx\<close>: the tree of conditions a segment is, and every
  operation of the nested group editors with the guard of its button, beside the checks the
  server's compiler makes of the tree (\<open>compile\<close> of \<open>internal/segment/segment.go\<close>; what a single
  field compiles to needs the database and is a parameter). A nested editor's \<open>onChange\<close> is its
  parent's \<open>updateRule\<close>, so an action names the path from the root to the group it is made in.
\<close>

datatype segment_node =
  Node (combinator: "string option") (rules: "segment_node list option")
    (node_field: "string option") (operator: "string option") (node_value: val)

definition emptyRule :: segment_node where
  "emptyRule = Node None None (Some ''event.name'') (Some ''='') (VStr [])"

definition emptySegment :: segment_node where
  "emptySegment = Node (Some ''and'') (Some [emptyRule]) None None VUndef"

definition is_list_operator :: "string option \<Rightarrow> bool" where
  "is_list_operator op \<longleftrightarrow> op = Some ''in'' \<or> op = Some ''not in''"

definition valueForInput :: "segment_node \<Rightarrow> string" where
  "valueForInput rule =
     (case node_value rule of
        VArr vs \<Rightarrow> join '', '' (map (\<lambda>v. if nullish v then [] else js_string v) vs)
      | v \<Rightarrow> if nullish v then [] else js_string v)"

text \<open>The text of the value field, read back as a value.\<close>

definition list_of_text :: "string \<Rightarrow> string list" where
  "list_of_text s = nonempty_strings (map js_trim (split_on CHR '','' s))"

definition value_of_input :: "string option \<Rightarrow> string \<Rightarrow> val" where
  "value_of_input op s = (if is_list_operator op then VArr (map VStr (list_of_text s)) else VStr s)"

subsection \<open>The operations of one group\<close>

definition rules_of :: "segment_node \<Rightarrow> segment_node list" where
  "rules_of n = (case rules n of None \<Rightarrow> [] | Some rs \<Rightarrow> rs)"

fun with_rules :: "segment_node list \<Rightarrow> segment_node \<Rightarrow> segment_node" where
  "with_rules rs (Node c _ f p v) = Node c (Some rs) f p v"

definition updateRule :: "nat \<Rightarrow> segment_node \<Rightarrow> segment_node \<Rightarrow> segment_node" where
  "updateRule index next n = with_rules ((rules_of n)[index := next]) n"

definition deleteRule :: "nat \<Rightarrow> segment_node \<Rightarrow> segment_node" where
  "deleteRule index n = with_rules (take index (rules_of n) @ drop (Suc index) (rules_of n)) n"

fun set_combinator :: "string \<Rightarrow> segment_node \<Rightarrow> segment_node" where
  "set_combinator c (Node _ rs f p v) = Node (Some c) rs f p v"

fun set_field :: "string \<Rightarrow> segment_node \<Rightarrow> segment_node" where
  "set_field f (Node c rs _ p v) = Node c rs (Some f) p v"

fun set_operator :: "string \<Rightarrow> segment_node \<Rightarrow> segment_node" where
  "set_operator p (Node c rs f _ v) = Node c rs f (Some p) v"

fun type_value :: "string \<Rightarrow> segment_node \<Rightarrow> segment_node" where
  "type_value s (Node c rs f p _) = Node c rs f p (value_of_input p s)"

definition is_group :: "segment_node \<Rightarrow> bool" where
  "is_group n \<longleftrightarrow> rules n \<noteq> None"

text \<open>What can be done in a group; the depth is the length of its path.\<close>

datatype group_action =
    SetCombinator bool                   \<comment> \<open>\<open>and\<close> or \<open>or\<close>\<close>
  | AddRule
  | AddGroup
  | DeleteItem nat
  | SetField nat string
  | SetOperator nat string
  | TypeValue nat string

fun group_edit :: "nat \<Rightarrow> group_action \<Rightarrow> segment_node \<Rightarrow> segment_node option" where
  "group_edit depth (SetCombinator every) n = Some (set_combinator (if every then ''and'' else ''or'') n)"
| "group_edit depth AddRule n = Some (with_rules (rules_of n @ [emptyRule]) n)"
| "group_edit depth AddGroup n =
     (if depth \<ge> 4 then None else Some (with_rules (rules_of n @ [emptySegment]) n))"
| "group_edit depth (DeleteItem i) n =
     (if i \<ge> length (rules_of n) then None
      else if is_group (rules_of n ! i) then Some (deleteRule i n)
      else if length (rules_of n) \<le> 1 then None else Some (deleteRule i n))"
| "group_edit depth (SetField i f) n =
     (if i \<ge> length (rules_of n) \<or> is_group (rules_of n ! i) then None
      else Some (updateRule i (set_field f (rules_of n ! i)) n))"
| "group_edit depth (SetOperator i p) n =
     (if i \<ge> length (rules_of n) \<or> is_group (rules_of n ! i) then None
      else Some (updateRule i (set_operator p (rules_of n ! i)) n))"
| "group_edit depth (TypeValue i s) n =
     (if i \<ge> length (rules_of n) \<or> is_group (rules_of n ! i)
         \<or> operator (rules_of n ! i) = Some ''exists'' \<or> operator (rules_of n ! i) = Some ''not exists''
      then None
      else Some (updateRule i (type_value s (rules_of n ! i)) n))"

text \<open>The editor of the group at a path, under editors at depth \<open>d\<close>.\<close>

fun edit_at :: "nat \<Rightarrow> nat list \<Rightarrow> group_action \<Rightarrow> segment_node \<Rightarrow> segment_node option" where
  "edit_at d [] a n = group_edit d a n"
| "edit_at d (i # path) a n =
     (if i < length (rules_of n) \<and> is_group (rules_of n ! i)
      then map_option (\<lambda>next. updateRule i next n) (edit_at (Suc d) path a (rules_of n ! i))
      else None)"

text \<open>A session of editing; an impossible action leaves the segment as it is.\<close>

definition edit :: "nat list \<times> group_action \<Rightarrow> segment_node \<Rightarrow> segment_node" where
  "edit = (\<lambda>(path, a) n. case edit_at 0 path a n of None \<Rightarrow> n | Some n' \<Rightarrow> n')"

subsection \<open>The server's checks\<close>

datatype segment_problem = TooDeep | BadCombinator | EmptyGroup | TooManyRules | LeafProblem string

definition has_rules :: "segment_node \<Rightarrow> bool" where
  "has_rules n \<longleftrightarrow> rules_of n \<noteq> [] \<or> (\<exists>c. combinator n = Some c \<and> c \<noteq> [])"

definition group_combinator :: "segment_node \<Rightarrow> string" where
  "group_combinator n = js_lower (case combinator n of None \<Rightarrow> [] | Some c \<Rightarrow> c)"

fun first_problem :: "segment_problem option list \<Rightarrow> segment_problem option" where
  "first_problem [] = None"
| "first_problem (None # ps) = first_problem ps"
| "first_problem (Some p # ps) = Some p"

lemma rules_smaller: "x \<in> set (rules_of n) \<Longrightarrow> size x < size n"
  by (cases n) (auto simp: rules_of_def split: option.splits dest: size_list_estimation' [of _ _ _ size, OF _ order_refl])

function (sequential) compile ::
  "(segment_node \<Rightarrow> segment_problem option) \<Rightarrow> nat \<Rightarrow> segment_node \<Rightarrow> segment_problem option"
where
  "compile leaf depth n =
     (if depth > 5 then Some TooDeep
      else if has_rules n then
        (if group_combinator n \<noteq> ''and'' \<and> group_combinator n \<noteq> ''or'' then Some BadCombinator
         else if rules_of n = [] then Some EmptyGroup
         else if length (rules_of n) > 50 then Some TooManyRules
         else first_problem (map (compile leaf (Suc depth)) (rules_of n)))
      else leaf n)"
  by auto
termination
  by (relation "measure (\<lambda>(leaf, depth, n). size n)") (auto simp: rules_smaller)

declare compile.simps [simp del]

text \<open>The part of a single rule's check that needs no database: a list operator needs a list.\<close>

definition list_rule_check :: "segment_node \<Rightarrow> segment_problem option" where
  "list_rule_check n =
     (if is_list_operator (operator n) then
        (case node_value n of
           VArr vs \<Rightarrow> if vs = [] \<or> length vs > 100 then Some (LeafProblem ''requires an array with 1 to 100 values'')
                      else None
         | _ \<Rightarrow> Some (LeafProblem ''requires an array with 1 to 100 values''))
      else None)"

subsection \<open>Whatever is edited, the server can read\<close>

text \<open>A tree the editors can show: groups to depth four, single conditions one below.\<close>

function well :: "nat \<Rightarrow> segment_node \<Rightarrow> bool" where
  "well d n \<longleftrightarrow>
     (if is_group n then d \<le> 4 \<and> (combinator n = Some ''and'' \<or> combinator n = Some ''or'')
      else d \<le> 5 \<and> combinator n = None)
     \<and> (\<forall>x \<in> set (rules_of n). well (Suc d) x)"
  by auto
termination by (relation "measure (\<lambda>(d, n). size n)") (auto simp: rules_smaller)

declare well.simps [simp del]

lemma group_parts [simp]:
  "rules_of (with_rules rs n) = rs" "is_group (with_rules rs n)" "combinator (with_rules rs n) = combinator n"
  by (cases n; simp add: rules_of_def is_group_def)+

lemma well_group:
  assumes "well d n" "is_group n" "\<forall>x \<in> set rs. well (Suc d) x"
  shows "well d (with_rules rs n)"
  using assms by (subst well.simps) (simp add: well.simps [of d n])

lemma well_child: "well d n \<Longrightarrow> x \<in> set (rules_of n) \<Longrightarrow> well (Suc d) x"
  by (simp add: well.simps [of d n])

lemma well_update:
  "well d n \<Longrightarrow> is_group n \<Longrightarrow> well (Suc d) x \<Longrightarrow> well d (updateRule i x n)"
  unfolding updateRule_def
  by (rule well_group) (auto dest!: set_update_subset_insert [THEN subsetD] intro: well_child)

lemma well_leaf: "\<not> is_group n \<Longrightarrow> well d n \<longleftrightarrow> d \<le> 5 \<and> combinator n = None"
  by (subst well.simps) (simp add: is_group_def rules_of_def)

lemma leaf_edits [simp]:
  "is_group (set_field f n) = is_group n" "is_group (set_operator q n) = is_group n"
  "is_group (type_value s n) = is_group n"
  "combinator (set_field f n) = combinator n" "combinator (set_operator q n) = combinator n"
  "combinator (type_value s n) = combinator n"
  by (cases n; simp add: is_group_def)+

lemma well_leaf_update:
  assumes "well d n" "is_group n" "i < length (rules_of n)" "\<not> is_group (rules_of n ! i)"
    "\<not> is_group x" "combinator x = combinator (rules_of n ! i)"
  shows "well d (updateRule i x n)"
proof (rule well_update [OF assms(1,2)])
  have "well (Suc d) (rules_of n ! i)" using assms(1,3) by (auto intro: well_child)
  then show "well (Suc d) x" using assms(4-6) by (simp add: well_leaf)
qed

lemma well_empty_rule: "well d emptyRule \<longleftrightarrow> d \<le> 5"
  by (simp add: well_leaf is_group_def emptyRule_def)

lemma well_empty_segment: "d \<le> 4 \<Longrightarrow> well d emptySegment"
  by (subst well.simps) (simp add: well_empty_rule, simp add: emptySegment_def is_group_def rules_of_def well_empty_rule)

lemma well_combinator:
  assumes "well d n" "is_group n" "c = ''and'' \<or> c = ''or''"
  shows "well d (set_combinator c n) \<and> is_group (set_combinator c n)"
proof -
  have same: "rules_of (set_combinator c n) = rules_of n" "is_group (set_combinator c n)"
    "combinator (set_combinator c n) = Some c"
    using assms(2) by (cases n; simp add: rules_of_def is_group_def)+
  then show ?thesis using assms by (auto simp: well.simps [of d n] well.simps [of d "set_combinator c n"])
qed

lemma updateRule_group [simp]: "is_group (updateRule i x n)" "is_group (deleteRule i n)"
  by (simp_all add: updateRule_def deleteRule_def)

lemma well_delete: "well d n \<Longrightarrow> is_group n \<Longrightarrow> well d (deleteRule i n)"
  unfolding deleteRule_def
  by (rule well_group) (auto dest: in_set_takeD in_set_dropD intro: well_child)

lemma group_edit_well:
  assumes "well d n" "is_group n" "group_edit d a n = Some n'"
  shows "well d n' \<and> is_group n'"
proof (cases a)
  case (SetCombinator c)
  then have "n' = set_combinator (if c then ''and'' else ''or'') n" using assms(3) by simp
  then show ?thesis using well_combinator [OF assms(1,2), of "if c then ''and'' else ''or''"] by simp
next
  case AddRule
  have "d \<le> 4" using assms(1,2) by (simp add: well.simps [of d n])
  then show ?thesis using AddRule assms
    by (auto intro!: well_group intro: well_child simp: well_empty_rule)
next
  case AddGroup
  then show ?thesis using assms
    by (auto split: if_splits intro!: well_group intro: well_child simp: well_empty_segment)
next
  case (DeleteItem i)
  then show ?thesis using assms by (auto split: if_splits intro: well_delete)
next
  case (SetField i f)
  then show ?thesis using assms by (auto split: if_splits intro: well_leaf_update)
next
  case (SetOperator i p)
  then show ?thesis using assms by (auto split: if_splits intro: well_leaf_update)
next
  case (TypeValue i s)
  then show ?thesis using assms by (auto split: if_splits intro: well_leaf_update)
qed

lemma edit_at_well:
  "edit_at d path a n = Some n' \<Longrightarrow> well d n \<Longrightarrow> is_group n \<Longrightarrow> well d n' \<and> is_group n'"
proof (induction d path a n arbitrary: n' rule: edit_at.induct)
  case (1 d a n)
  then show ?case using group_edit_well [of d n a n'] by simp
next
  case (2 d i path a n)
  then obtain m where c: "i < length (rules_of n)" "is_group (rules_of n ! i)"
    and m: "edit_at (Suc d) path a (rules_of n ! i) = Some m" "n' = updateRule i m n"
    by (auto split: if_splits)
  then have "well (Suc d) m"
    using 2(1) [OF conjI [OF c] m(1)] well_child [OF 2(3) nth_mem [OF c(1)]] c(2) by blast
  then show ?case using 2(3,4) m(2) by (simp add: well_update)
qed

lemma edits_well:
  "well 0 n \<Longrightarrow> is_group n \<Longrightarrow> well 0 (fold edit actions n) \<and> is_group (fold edit actions n)"
proof (induction actions arbitrary: n)
  case (Cons x xs)
  obtain path a where x: "x = (path, a)" by (cases x)
  have "well 0 (edit x n) \<and> is_group (edit x n)"
    using Cons.prems edit_at_well [of 0 path a n] by (auto simp: edit_def x split: option.split)
  then show ?case using Cons.IH by simp
qed simp

lemma first_problem_member: "first_problem ps = Some p \<Longrightarrow> Some p \<in> set ps"
  by (induction ps rule: first_problem.induct) auto

lemma well_within: "well d n \<Longrightarrow> d \<le> 5"
  by (auto simp: well.simps [of d n] split: if_splits)

lemma well_combinator_known:
  assumes "well d n" "has_rules n"
  shows "group_combinator n = ''and'' \<or> group_combinator n = ''or''"
proof -
  have "is_group n"
  proof (rule ccontr)
    assume "\<not> is_group n"
    then have "rules_of n = []" "combinator n = None"
      using assms(1) by (simp_all add: well_leaf) (simp add: is_group_def rules_of_def)
    then show False using assms(2) by (simp add: has_rules_def)
  qed
  then have "combinator n = Some ''and'' \<or> combinator n = Some ''or''"
    using assms(1) by (simp add: well.simps [of d n])
  moreover have "js_lower ''and'' = ''and''" "js_lower ''or'' = ''or''" by code_simp+
  ultimately show ?thesis by (auto simp: group_combinator_def)
qed

lemma well_compiles:
  assumes leaf: "\<And>m. leaf m \<noteq> Some TooDeep \<and> leaf m \<noteq> Some BadCombinator"
    and "well d n" "p = TooDeep \<or> p = BadCombinator"
  shows "compile leaf d n \<noteq> Some p"
  using assms
proof (induction leaf d n rule: compile.induct)
  case (1 leaf d n)
  show ?case
  proof
    assume bad: "compile leaf d n = Some p"
    have deep: "\<not> d > 5" using well_within [OF "1.prems"(2)] by simp
    have grp: "has_rules n" "rules_of n \<noteq> []" "\<not> length (rules_of n) > 50"
      and inner: "first_problem (map (compile leaf (Suc d)) (rules_of n)) = Some p"
      using bad deep well_combinator_known [OF "1.prems"(2)] "1.prems"(1) [of n] "1.prems"(3)
      by (auto simp: compile.simps [of leaf d n] split: if_splits)
    obtain x where x: "x \<in> set (rules_of n)" "compile leaf (Suc d) x = Some p"
      using first_problem_member [OF inner] by auto
    have "\<not> (group_combinator n \<noteq> ''and'' \<and> group_combinator n \<noteq> ''or'')"
      using well_combinator_known [OF "1.prems"(2) grp(1)] by blast
    then have "compile leaf (Suc d) x \<noteq> Some p"
      using "1.IH" [OF deep grp(1) _ grp(2,3) x(1) "1.prems"(1) _ "1.prems"(3)]
        well_child [OF "1.prems"(2) x(1)] by blast
    then show False using x(2) by blast
  qed
qed

text \<open>
  C24: Whatever sequence of edits is made in the editor, starting from a new segment, the server
  never refuses the tree for its nesting or its combinators: the button that adds a subgroup stops
  exactly at the depth the compiler accepts.
\<close>

theorem edited_segment_nesting_accepted:
  assumes "\<And>m. leaf m \<noteq> Some TooDeep \<and> leaf m \<noteq> Some BadCombinator"
  shows "compile leaf 0 (fold edit actions emptySegment) \<noteq> Some TooDeep
    \<and> compile leaf 0 (fold edit actions emptySegment) \<noteq> Some BadCombinator"
proof -
  have "is_group emptySegment" by (simp add: emptySegment_def is_group_def)
  then have "well 0 (fold edit actions emptySegment)"
    using edits_well [OF well_empty_segment] by simp
  then show ?thesis using well_compiles [of leaf, OF assms] by blast
qed

lemma edited_segment_nesting_accepted_witness:
  "compile list_rule_check 0 (fold edit [([], AddGroup), ([1], AddGroup), ([1, 1], AddRule)] emptySegment)
     \<noteq> Some TooDeep"
  by (rule edited_segment_nesting_accepted [THEN conjunct1])
    (auto simp: list_rule_check_def split: val.splits)

text \<open>
  Two edits the buttons allow end in a segment the server refuses: deleting the only item of a
  group when that item is a subgroup leaves an empty group, and choosing a list operator after the
  value was typed keeps the value as text.
\<close>

theorem edits_the_server_refuses:
  "compile list_rule_check 0 (fold edit [([], AddGroup), ([], DeleteItem 0), ([], DeleteItem 0)] emptySegment)
     = Some EmptyGroup
   \<and> compile list_rule_check 0 (fold edit [([], TypeValue 0 ''login''), ([], SetOperator 0 ''in'')] emptySegment)
     = Some (LeafProblem ''requires an array with 1 to 100 values'')"
proof -
  let ?a = "fold edit [([], AddGroup), ([], DeleteItem 0), ([], DeleteItem 0)] emptySegment"
  let ?b = "fold edit [([], TypeValue 0 ''login''), ([], SetOperator 0 ''in'')] emptySegment"
  have low: "js_lower ''and'' = ''and''" by code_simp
  have a: "?a = Node (Some ''and'') (Some []) None None VUndef"
    by (simp add: edit_def emptySegment_def emptyRule_def rules_of_def deleteRule_def is_group_def)
  have b: "?b = Node (Some ''and'') (Some [Node None None (Some ''event.name'') (Some ''in'') (VStr ''login'')])
      None None VUndef"
    by (simp add: edit_def emptySegment_def emptyRule_def rules_of_def updateRule_def is_group_def
        value_of_input_def is_list_operator_def)
  have "compile list_rule_check 1 (Node None None (Some ''event.name'') (Some ''in'') (VStr ''login''))
      = Some (LeafProblem ''requires an array with 1 to 100 values'')"
    by (subst compile.simps) (simp add: has_rules_def rules_of_def list_rule_check_def is_list_operator_def)
  then have "compile list_rule_check 0 ?b = Some (LeafProblem ''requires an array with 1 to 100 values'')"
    unfolding b by (subst compile.simps) (simp add: has_rules_def rules_of_def group_combinator_def low)
  moreover have "compile list_rule_check 0 ?a = Some EmptyGroup"
    unfolding a by (subst compile.simps) (simp add: has_rules_def rules_of_def group_combinator_def low)
  ultimately show ?thesis by blast
qed

subsection \<open>Typing a list\<close>

lemma split_on_snoc: "split_on c (s @ [c]) = split_on c s @ [[]]"
  by (induction s) (auto split: list.splits)

text \<open>
  A comma typed behind the last value is taken out again: the value of the field, and so its text,
  is the same as before, and a second value can only be pasted or inserted.
\<close>

lemma trailing_comma_swallowed: "list_of_text (s @ '','') = list_of_text s"
  by (simp add: list_of_text_def split_on_snoc nonempty_strings_def)

text \<open>A list shown as text is read back as the same list.\<close>

lemma list_text_roundtrip:
  assumes "\<forall>w \<in> set ws. w \<noteq> [] \<and> js_trim w = w \<and> CHR '','' \<notin> set w" "ws \<noteq> []"
  shows "list_of_text (join '', '' ws) = ws"
proof -
  have "join '', '' (w # ws) = join [CHR '',''] (w # map (\<lambda>v. CHR '' '' # v) ws)" for w ws
    by (induction ws arbitrary: w) (simp_all add: join_Cons)
  moreover obtain w rest where ws: "ws = w # rest" using assms(2) by (cases ws) auto
  moreover have "split_on CHR '','' (join [CHR '',''] (w # map (\<lambda>v. CHR '' '' # v) rest))
      = w # map (\<lambda>v. CHR '' '' # v) rest"
    by (rule split_on_join) (use assms(1) ws in auto)
  moreover have "js_trim (CHR '' '' # v) = js_trim v" for v
    by (simp add: js_trim_def trim_left_def is_space_def in_range_def)
  ultimately show ?thesis
    using assms(1) by (auto simp: list_of_text_def nonempty_strings_def filter_id_conv map_idI comp_def)
qed

end
