(* ===== verification/Feedback.thy ===== *)
theory Feedback
  imports ConsoleBase
begin

section \<open>Feedback: toasts, relative times, loading bars\<close>

text \<open>
  \<open>web/src/components/toast.ts\<close>, \<open>relativeTime.ts\<close> and \<open>useDelayedBusy.ts\<close>. Reading and
  formatting dates is the browser's (parameters); Korean words are constructors.
\<close>

subsection \<open>Toasts\<close>

record toast =
  toast_id :: nat
  message :: string

text \<open>The module's state: the listeners, in the order they subscribed, and the next id.\<close>

record toast_state =
  toast_listeners :: "nat list"
  nextId :: nat

definition toast_start :: toast_state where
  "toast_start = \<lparr>toast_listeners = [], nextId = 1\<rparr>"

text \<open>The new state and what each listener receives.\<close>

definition showToast :: "string \<Rightarrow> toast_state \<Rightarrow> toast_state \<times> (nat \<times> toast) list" where
  "showToast m s =
     (let text = js_trim m in
      if text = [] then (s, [])
      else (s\<lparr>nextId := nextId s + 1\<rparr>,
            map (\<lambda>l. (l, \<lparr>toast_id = nextId s, message = text\<rparr>)) (toast_listeners s)))"

definition subscribeToasts :: "nat \<Rightarrow> toast_state \<Rightarrow> toast_state" where
  "subscribeToasts l s =
     (if l \<in> set (toast_listeners s) then s else s\<lparr>toast_listeners := toast_listeners s @ [l]\<rparr>)"

definition unsubscribeToasts :: "nat \<Rightarrow> toast_state \<Rightarrow> toast_state" where
  "unsubscribeToasts l s = s\<lparr>toast_listeners := filter (\<lambda>x. x \<noteq> l) (toast_listeners s)\<rparr>"

definition successMessage :: "val \<Rightarrow> string option" where
  "successMessage meta =
     (case meta of
        VObj ps \<Rightarrow> (case getp ps ''successMessage'' of
          VStr s \<Rightarrow> if js_trim s \<noteq> [] then Some (js_trim s) else None
        | _ \<Rightarrow> None)
      | _ \<Rightarrow> None)"

text \<open>Every listener hears a message once, and no two messages share an id.\<close>

lemma toast_heard_once:
  assumes "distinct (toast_listeners s)" "js_trim m \<noteq> []"
  shows "map fst (snd (showToast m s)) = toast_listeners s \<and> distinct (map fst (snd (showToast m s)))"
  using assms by (simp add: showToast_def Let_def comp_def)

fun shown_ids :: "string list \<Rightarrow> toast_state \<Rightarrow> nat list" where
  "shown_ids [] s = []"
| "shown_ids (m # ms) s =
     map (toast_id \<circ> snd) (take 1 (snd (showToast m s))) @ shown_ids ms (fst (showToast m s))"

lemma toast_ids_increase: "sorted_wrt (<) (shown_ids ms s) \<and> (\<forall>i \<in> set (shown_ids ms s). nextId s \<le> i)"
proof (induction ms arbitrary: s)
  case (Cons m ms)
  show ?case
    using Cons.IH [of "fst (showToast m s)"]
    by (cases "js_trim m = []"; cases "toast_listeners s") (force simp: showToast_def Let_def)+
qed simp

subsection \<open>Relative times\<close>

datatype relative_time = JustNow | MinutesAgo int | HoursAgo int | DaysAgo int

text \<open>\<open>parse\<close> is \<open>new Date(text).getTime()\<close>, \<open>None\<close> for an invalid date.\<close>

definition relativeTime :: "(string \<Rightarrow> rat option) \<Rightarrow> val \<Rightarrow> rat \<Rightarrow> relative_time option" where
  "relativeTime parse v now =
     (if nullish v \<or> v = VStr [] then None
      else case parse (js_string v) of
        None \<Rightarrow> None
      | Some time \<Rightarrow>
          let seconds = js_round ((now - time) / 1000) in
          if seconds < 0 then (if seconds > - 60 then Some JustNow else None)
          else if seconds < 60 then Some JustNow
          else let minutes = seconds div 60 in
            if minutes < 60 then Some (MinutesAgo minutes)
            else let hours = minutes div 60 in
              if hours < 24 then Some (HoursAgo hours)
              else let days = hours div 24 in
                if days < 7 then Some (DaysAgo days) else None)"

datatype absolute_time = Dash | LocalTime string | RawTime string

definition absoluteTime :: "(string \<Rightarrow> rat option) \<Rightarrow> (rat \<Rightarrow> string) \<Rightarrow> val \<Rightarrow> absolute_time" where
  "absoluteTime parse localeString v =
     (if nullish v \<or> v = VStr [] then Dash
      else case parse (js_string v) of
        Some t \<Rightarrow> LocalTime (localeString t)
      | None \<Rightarrow> RawTime (js_string v))"

text \<open>The span of seconds a relative time stands for.\<close>

fun time_span :: "relative_time \<Rightarrow> int \<times> int" where
  "time_span JustNow = (- 59, 59)"
| "time_span (MinutesAgo m) = (60 * m, 60 * m + 59)"
| "time_span (HoursAgo h) = (3600 * h, 3600 * h + 3599)"
| "time_span (DaysAgo d) = (86400 * d, 86400 * d + 86399)"

lemma whole_units:
  fixes a k :: int
  assumes "0 < k"
  shows "k * (a div k) \<le> a \<and> a \<le> k * (a div k) + (k - 1)"
proof -
  have "k * (a div k) + a mod k = a" "0 \<le> a mod k" "a mod k < k" using assms by simp_all
  then show ?thesis by linarith
qed

text \<open>
  A relative time is said exactly for times from a minute ahead to a week back, and the number
  said is the whole units that have passed.
\<close>

theorem relative_time_right:
  assumes "\<not> nullish v" "v \<noteq> VStr []" "parse (js_string v) = Some time"
  shows "let seconds = js_round ((now - time) / 1000) in
    (relativeTime parse v now = None \<longleftrightarrow> seconds \<le> - 60 \<or> 604800 \<le> seconds)
    \<and> (case relativeTime parse v now of None \<Rightarrow> True
       | Some t \<Rightarrow> fst (time_span t) \<le> seconds \<and> seconds \<le> snd (time_span t))"
proof -
  define s where "s = js_round ((now - time) / 1000)"
  define m where "m = s div 60"
  define h where "h = m div 60"
  define d where "d = h div 24"
  have parts: "60 * m \<le> s" "s \<le> 60 * m + 59" "60 * h \<le> m" "m \<le> 60 * h + 59" "24 * d \<le> h" "h \<le> 24 * d + 23"
    using whole_units [of 60 s] whole_units [of 60 m] whole_units [of 24 h]
    by (simp_all add: m_def h_def d_def)
  have said: "relativeTime parse v now =
      (if s < 0 then (if s > - 60 then Some JustNow else None)
       else if s < 60 then Some JustNow
       else if m < 60 then Some (MinutesAgo m)
       else if h < 24 then Some (HoursAgo h)
       else if d < 7 then Some (DaysAgo d) else None)"
    using assms by (simp add: relativeTime_def Let_def s_def m_def h_def d_def)
  consider "s < 0" | "0 \<le> s" "s < 60" | "60 \<le> s" "m < 60" | "60 \<le> m" "h < 24" | "24 \<le> h" "d < 7" | "7 \<le> d"
    by linarith
  then have "(\<exists>t. relativeTime parse v now = Some t \<and> fst (time_span t) \<le> s \<and> s \<le> snd (time_span t)
        \<and> - 60 < s \<and> s < 604800)
      \<or> (relativeTime parse v now = None \<and> (s \<le> - 60 \<or> 604800 \<le> s))"
  proof cases
    case 1 then show ?thesis unfolding said by (cases "s > - 60") simp_all
  next
    case 2 then show ?thesis unfolding said by simp
  next
    case 3
    then have "relativeTime parse v now = Some (MinutesAgo m)" unfolding said by simp
    then show ?thesis using 3 parts by simp
  next
    case 4
    then have "\<not> s < 60" "\<not> s < 0" using parts by linarith+
    then have "relativeTime parse v now = Some (HoursAgo h)" unfolding said using 4 by simp
    moreover have "3600 * h \<le> s" "s \<le> 3600 * h + 3599" "- 60 < s" "s < 604800" using 4 parts by linarith+
    ultimately show ?thesis by simp
  next
    case 5
    then have "\<not> s < 60" "\<not> s < 0" "\<not> m < 60" using parts by linarith+
    then have "relativeTime parse v now = Some (DaysAgo d)" unfolding said using 5 by simp
    moreover have "86400 * d \<le> s" "s \<le> 86400 * d + 86399" "- 60 < s" "s < 604800" using 5 parts by linarith+
    ultimately show ?thesis by simp
  next
    case 6
    then have "\<not> s < 60" "\<not> s < 0" "\<not> m < 60" "\<not> h < 24" "604800 \<le> s" using parts by linarith+
    then show ?thesis unfolding said using 6 by simp
  qed
  then show ?thesis unfolding Let_def s_def [symmetric] by auto
qed

lemma relative_time_right_witness:
  "relativeTime (\<lambda>_. Some 0) (VStr ''1970-01-01'') 7200000 = Some (HoursAgo 2)
   \<and> (case relativeTime (\<lambda>_. Some 0) (VStr ''1970-01-01'') 7200000 of None \<Rightarrow> True
      | Some t \<Rightarrow> fst (time_span t) \<le> 7200 \<and> 7200 \<le> snd (time_span t))"
proof -
  have r: "js_round ((7200000 - 0) / 1000) = 7200" using js_round_int [of 7200] by simp
  have v: "relativeTime (\<lambda>_. Some 0) (VStr ''1970-01-01'') 7200000 = Some (HoursAgo 2)"
    unfolding relativeTime_def by (simp add: Let_def r [simplified])
  show ?thesis
    using relative_time_right [of "VStr ''1970-01-01''" "\<lambda>_. Some 0" 0 7200000] v
    by (simp add: Let_def r [simplified])
qed

subsection \<open>The delayed loading bar\<close>

text \<open>
  The hook's state: the last value of \<open>busy\<close>, whether the bar is shown, and the time at which the
  pending timer fires. The effect runs when \<open>busy\<close> changes.
\<close>

record busy_state =
  busy :: bool
  shown :: bool
  bar_timer :: "rat option"
  busy_since :: rat                  \<comment> \<open>ghost: when \<open>busy\<close> last became true\<close>

definition busy_start :: busy_state where
  "busy_start = \<lparr>busy = False, shown = False, bar_timer = None, busy_since = 0\<rparr>"

definition set_busy :: "rat \<Rightarrow> rat \<Rightarrow> bool \<Rightarrow> busy_state \<Rightarrow> busy_state" where
  "set_busy delayMs now b s =
     (if b = busy s then s
      else if \<not> b then s\<lparr>busy := False, shown := False, bar_timer := None\<rparr>
      else s\<lparr>busy := True, bar_timer := Some (now + delayMs), busy_since := now\<rparr>)"

definition bar_fires :: "rat \<Rightarrow> busy_state \<Rightarrow> busy_state" where
  "bar_fires now s =
     (case bar_timer s of
        Some t \<Rightarrow> if t \<le> now then s\<lparr>shown := True, bar_timer := None\<rparr> else s
      | None \<Rightarrow> s)"

inductive busy_step :: "rat \<Rightarrow> rat \<times> busy_state \<Rightarrow> rat \<times> busy_state \<Rightarrow> bool" for delayMs where
  Change: "now \<le> now' \<Longrightarrow> busy_step delayMs (now, s) (now', set_busy delayMs now' b s)"
| Timer: "now \<le> now' \<Longrightarrow> busy_step delayMs (now, s) (now', bar_fires now' s)"

definition bar_inv :: "rat \<Rightarrow> rat \<times> busy_state \<Rightarrow> bool" where
  "bar_inv delayMs = (\<lambda>(now, s).
     (shown s \<longrightarrow> busy s \<and> busy_since s + delayMs \<le> now)
     \<and> (bar_timer s = None \<or> (busy s \<and> \<not> shown s \<and> bar_timer s = Some (busy_since s + delayMs)))
     \<and> (busy s \<longrightarrow> shown s \<or> bar_timer s \<noteq> None))"

lemma bar_inv_step: "busy_step delayMs p q \<Longrightarrow> bar_inv delayMs p \<Longrightarrow> bar_inv delayMs q"
  by (induction rule: busy_step.induct)
    (auto simp: bar_inv_def set_busy_def bar_fires_def split: option.splits)

text \<open>
  The loading bar is never shown for work that has lasted less than the delay, never when
  nothing is loading, and work that goes on always has the bar or its timer.
\<close>

theorem bar_only_after_delay:
  assumes "(busy_step delayMs)\<^sup>*\<^sup>* (0, busy_start) (now, s)"
  shows "(shown s \<longrightarrow> busy s \<and> busy_since s + delayMs \<le> now)
    \<and> (busy s \<longrightarrow> shown s \<or> bar_timer s = Some (busy_since s + delayMs))"
proof -
  have "bar_inv delayMs (now, s)"
    using assms
  proof (induction rule: rtranclp_induct)
    case base
    show ?case by (simp add: bar_inv_def busy_start_def)
  next
    case (step y z)
    then show ?case using bar_inv_step by blast
  qed
  then show ?thesis by (auto simp: bar_inv_def)
qed

lemma bar_only_after_delay_witness:
  "\<exists>s. (busy_step 250)\<^sup>*\<^sup>* (0, busy_start) (300, s) \<and> shown s \<and> busy s \<and> busy_since s + 250 \<le> 300"
proof -
  let ?a = "set_busy 250 10 True busy_start"
  let ?b = "bar_fires 300 ?a"
  have "busy_step 250 (0, busy_start) (10, ?a)" "busy_step 250 (10, ?a) (300, ?b)"
    by (auto intro: busy_step.intros)
  then have run: "(busy_step 250)\<^sup>*\<^sup>* (0, busy_start) (300, ?b)" by (meson r_into_rtranclp rtranclp_trans)
  have "shown ?b" by (simp add: set_busy_def bar_fires_def busy_start_def)
  then show ?thesis using run bar_only_after_delay [OF run] by blast
qed

end
