(* ===== verification/SignalGuide.thy ===== *)
theory SignalGuide
  imports ConsoleBase
begin

section \<open>Explaining signals and empty reports\<close>

text \<open>
  \<open>web/src/pages/signalGuide.ts\<close>: the guide to the signals of the tracker and the hints that tell
  an empty report from a healthy one. Korean sentences are constructors; a guide entry's sentences
  are named by the signal they belong to. A count the server left out is \<open>None\<close>.
\<close>

subsection \<open>The guide\<close>

datatype signal_origin = Automatic | Manual

datatype guide_text = GuideEntry string | CustomSignal

record signal_description =
  sg_label :: string
  sg_text :: guide_text           \<comment> \<open>meaning and action\<close>
  sg_origin :: signal_origin

definition SIGNAL_GUIDE :: "(string \<times> string) list" where
  "SIGNAL_GUIDE =
     [(''rage_click'', ''Rage Click''), (''dead_click'', ''Dead Click''), (''rapid_back'', ''Rapid Back''),
      (''form_retry'', ''Form Retry''), (''repeated_search'', ''Repeated Search''),
      (''error_after_click'', ''Error After Click''), (''slow_interaction'', ''Slow Interaction''),
      (''collection_dropped'', ''Collection Dropped''), (''error'', ''JavaScript Error''),
      (''resource_error'', ''Resource Error'')]"

text \<open>
  \<open>SIGNAL_GUIDE[name] || {...}\<close>: an inherited name is found and is not a description, so reading
  its label gives \<open>undefined\<close>; that is \<open>None\<close> here.
\<close>

definition describeSignal :: "string \<Rightarrow> signal_description option" where
  "describeSignal name =
     (case map_of SIGNAL_GUIDE name of
        Some l \<Rightarrow> Some \<lparr>sg_label = l, sg_text = GuideEntry name, sg_origin = Automatic\<rparr>
      | None \<Rightarrow>
          if name \<in> set OBJECT_PROTOTYPE then None
          else Some \<lparr>sg_label = name, sg_text = CustomSignal, sg_origin = Manual\<rparr>)"

lemma describeSignal_cases:
  "describeSignal name = None \<longleftrightarrow> name \<in> set OBJECT_PROTOTYPE"
  by (auto simp: describeSignal_def SIGNAL_GUIDE_def OBJECT_PROTOTYPE_def split: option.splits if_splits)

subsection \<open>Hints under empty reports\<close>

text \<open>\<open>!n\<close> and \<open>n || 0\<close> for an optional count.\<close>

definition no_count :: "rat option \<Rightarrow> bool" where
  "no_count n \<longleftrightarrow> n = None \<or> n = Some 0"

definition count_or_0 :: "rat option \<Rightarrow> rat" where
  "count_or_0 n = (case n of None \<Rightarrow> 0 | Some k \<Rightarrow> k)"

datatype setup_hint =
    NoSessions | NoSignals
  | NoSearches | TermsNotCollected
  | NoZeroResults
  | NoCommerceEvents | RevenueMissing | ProductsMissing
  | NoEvents | NoFeatureProperty
  | NoAiEvents | LabelMissing string

definition frustrationSetupHint :: "(rat option \<times> rat option) option \<Rightarrow> setup_hint option" where
  "frustrationSetupHint summary =
     (case summary of
        None \<Rightarrow> None
      | Some (total_sessions, affected_sessions) \<Rightarrow>
          if no_count total_sessions then Some NoSessions
          else if no_count affected_sessions then Some NoSignals else None)"

text \<open>\<open>!v || v === "(not set)"\<close>.\<close>

definition not_set :: "val \<Rightarrow> bool" where
  "not_set v \<longleftrightarrow> \<not> truthy v \<or> v = VStr ''(not set)''"

definition searchSetupHint :: "rat option option \<Rightarrow> val list \<Rightarrow> setup_hint option" where
  "searchSetupHint summary queries =
     (case summary of
        None \<Rightarrow> None
      | Some searches \<Rightarrow>
          if no_count searches then Some NoSearches
          else if length queries > 0 \<and> list_all not_set queries then Some TermsNotCollected
          else None)"

definition zeroResultReadiness :: "(rat option \<times> rat option) option \<Rightarrow> setup_hint option" where
  "zeroResultReadiness summary =
     (case summary of
        None \<Rightarrow> None
      | Some (searches, zero_results) \<Rightarrow>
          if no_count searches then None
          else if \<not> no_count zero_results then None else Some NoZeroResults)"

definition ecommerceSetupHint ::
  "(rat option \<times> rat option) option \<Rightarrow> rat option list \<Rightarrow> nat \<Rightarrow> setup_hint option"
where
  "ecommerceSetupHint summary step_users products =
     (case summary of
        None \<Rightarrow> None
      | Some (transactions, revenue) \<Rightarrow>
          let anyStep = list_ex (\<lambda>u. count_or_0 u > 0) step_users in
          if \<not> anyStep \<and> no_count transactions then Some NoCommerceEvents
          else if count_or_0 transactions > 0 \<and> no_count revenue then Some RevenueMissing
          else if count_or_0 transactions > 0 \<and> products = 0 then Some ProductsMissing
          else None)"

definition featureSetupHint :: "(rat option \<times> nat) option \<Rightarrow> setup_hint option" where
  "featureSetupHint data =
     (case data of
        None \<Rightarrow> None
      | Some (population, features) \<Rightarrow>
          if no_count population then Some NoEvents
          else if features = 0 then Some NoFeatureProperty else None)"

definition aiSetupHint :: "val list \<Rightarrow> string \<Rightarrow> setup_hint option" where
  "aiSetupHint labels groupBy =
     (if length labels = 0 then Some NoAiEvents
      else if list_all not_set labels then Some (LabelMissing groupBy)
      else None)"

text \<open>A complete shop report is left alone, and money without products is never taken for one.\<close>

lemma ecommerce_report_complete:
  "count_or_0 t > 0 \<Longrightarrow>
     ecommerceSetupHint (Some (t, r)) steps products = None \<longleftrightarrow> \<not> no_count r \<and> products > 0"
  by (auto simp: ecommerceSetupHint_def Let_def no_count_def count_or_0_def)

lemma search_hint_exact:
  "searchSetupHint (Some s) queries = Some TermsNotCollected \<longleftrightarrow>
     \<not> no_count s \<and> queries \<noteq> [] \<and> list_all not_set queries"
  by (auto simp: searchSetupHint_def)

subsection \<open>What to fix first\<close>

datatype impact_verdict = Worse | Better | Similar | Insufficient

record friction_impact =
  fr_signal :: string
  fr_affected_people :: rat
  fr_gap_points :: rat
  fr_verdict :: impact_verdict
  fr_reliable :: bool
  fr_lost_conversions :: rat

datatype friction_headline =
    NotEnoughPeople
  | NothingHarmful
  | FixFirst "string option" string string string   \<comment> \<open>label, people, gap, lost conversions\<close>

definition frictionHeadline :: "friction_impact list \<Rightarrow> friction_headline option" where
  "frictionHeadline impact =
     (if impact = [] then None
      else
        let harmful = filter (\<lambda>row. fr_verdict row = Worse) impact in
        (case harmful of
           [] \<Rightarrow> if filter fr_reliable impact = [] then Some NotEnoughPeople else Some NothingHarmful
         | first # _ \<Rightarrow>
             Some (FixFirst (map_option sg_label (describeSignal (fr_signal first)))
                (ko_number (fr_affected_people first)) (to_fixed 1 \<bar>fr_gap_points first\<bar>)
                (ko_number (fr_lost_conversions first)))))"

lemma headline_names_a_harmful_row:
  assumes "frictionHeadline impact = Some (FixFirst l p g c)"
  shows "\<exists>row \<in> set impact. fr_verdict row = Worse \<and> l = map_option sg_label (describeSignal (fr_signal row))"
proof (cases "filter (\<lambda>row. fr_verdict row = Worse) impact")
  case Nil
  then show ?thesis using assms by (simp add: frictionHeadline_def split: if_splits)
next
  case (Cons row rest)
  then have "row \<in> set (filter (\<lambda>row. fr_verdict row = Worse) impact)" by simp
  moreover have "l = map_option sg_label (describeSignal (fr_signal row))"
    using assms Cons by (simp add: frictionHeadline_def split: if_splits)
  ultimately show ?thesis by auto
qed

lemma headline_silent_about_unmeasured:
  "frictionHeadline impact = Some NothingHarmful \<longleftrightarrow>
     (\<exists>row \<in> set impact. fr_reliable row) \<and> (\<forall>row \<in> set impact. fr_verdict row \<noteq> Worse)"
  by (auto simp: frictionHeadline_def Let_def filter_empty_conv split: list.splits dest: filter_eq_ConsD)

end
