(* ===== verification/DataGrid.thy ===== *)
theory DataGrid
  imports TableSort TableView Csv
begin

section \<open>The table\<close>

text \<open>
  \<open>web/src/components/DataTable.tsx\<close>: how the table puts its parts together. Rows are searched,
  then sorted, then cut into pages; columns can be hidden; what is exported is what is found, in
  the order shown. The Korean collator is a parameter, as in \<open>TableSort\<close>; how a cell is drawn is
  left out.
\<close>

record column =
  col_key :: string
  col_label :: string
  col_align :: "string option"
  col_minWidth :: "nat option"
  col_format :: bool                   \<comment> \<open>whether it has a function that draws its cells\<close>
  col_sortable :: "bool option"
  col_sortValue :: "(props \<Rightarrow> val) option"

record grid =                          \<comment> \<open>the properties of the component\<close>
  g_columns :: "column list"
  g_rows :: "props list"
  g_title :: string
  g_description :: string
  g_searchable :: "bool option"
  g_exportFilename :: string
  g_dense :: bool

record grid_state =
  g_query :: string
  g_page :: jnum
  g_pageSize :: int
  g_sort :: "sort_state option"
  g_hiddenRaw :: "string option"
  g_densityRaw :: "string option"

definition grid_start :: "int \<Rightarrow> string option \<Rightarrow> string option \<Rightarrow> grid_state" where
  "grid_start initialPageSize hidden densityStored =
     \<lparr>g_query = [], g_page = Fin 0, g_pageSize = initialPageSize, g_sort = None,
      g_hiddenRaw = hidden, g_densityRaw = densityStored\<rparr>"

subsection \<open>Columns\<close>

definition columnValue :: "column \<Rightarrow> props \<Rightarrow> val" where
  "columnValue c r = (case col_sortValue c of Some f \<Rightarrow> f r | None \<Rightarrow> getp r (col_key c))"

definition column_keys :: "grid \<Rightarrow> string list" where
  "column_keys g = map col_key (g_columns g)"

definition hidden_keys :: "grid \<Rightarrow> grid_state \<Rightarrow> string list" where
  "hidden_keys g s = parseHidden (g_hiddenRaw s) (column_keys g)"

definition visibleColumns :: "grid \<Rightarrow> grid_state \<Rightarrow> column list" where
  "visibleColumns g s = filter (\<lambda>c. col_key c \<notin> set (hidden_keys g s)) (g_columns g)"

definition density_of :: "grid \<Rightarrow> grid_state \<Rightarrow> density" where
  "density_of g s =
     (if g_densityRaw s = Some ''small'' then Small
      else if g_densityRaw s = Some ''medium'' then Medium
      else if g_dense g then Small else Medium)"

definition numericKeys :: "grid \<Rightarrow> string list" where
  "numericKeys g =
     map col_key (filter (\<lambda>c. isNumericColumn (map (\<lambda>r. getp r (col_key c)) (g_rows g))) (g_columns g))"

definition alignOf :: "grid \<Rightarrow> column \<Rightarrow> string option" where
  "alignOf g c =
     (case col_align c of
        Some a \<Rightarrow> Some a
      | None \<Rightarrow> if col_key c \<in> set (numericKeys g) then Some ''right'' else None)"

definition min_width :: "grid \<Rightarrow> grid_state \<Rightarrow> nat" where
  "min_width g s =
     sum_list (map (\<lambda>c. case col_minWidth c of Some w \<Rightarrow> if w = 0 then 132 else w | None \<Rightarrow> 132)
       (visibleColumns g s))"

subsection \<open>Search, sort, page\<close>

definition hasSearch :: "grid \<Rightarrow> bool" where
  "hasSearch g = (case g_searchable g of Some b \<Rightarrow> b | None \<Rightarrow> length (g_rows g) > 8)"

definition row_matches :: "column list \<Rightarrow> string \<Rightarrow> props \<Rightarrow> bool" where
  "row_matches columns needle r \<longleftrightarrow>
     list_ex (\<lambda>c. js_includes (js_lower (cellText (getp r (col_key c)))) needle) columns"

definition filtered_rows :: "grid \<Rightarrow> grid_state \<Rightarrow> props list" where
  "filtered_rows g s =
     (let needle = js_lower (js_trim (g_query s)) in
      if needle = [] then g_rows g else filter (row_matches (g_columns g) needle) (g_rows g))"

definition sortable_column :: "props list \<Rightarrow> column \<Rightarrow> bool" where
  "sortable_column rows c =
     (case col_sortable c of
        Some b \<Rightarrow> b
      | None \<Rightarrow> js_trim (col_label c) \<noteq> [] \<and>
          (col_sortValue c \<noteq> None \<or>
           list_ex (\<lambda>r. \<not> nullish (getp r (col_key c)) \<and> getp r (col_key c) \<noteq> VStr []) rows))"

definition sortableKeys :: "grid \<Rightarrow> string list" where
  "sortableKeys g = map col_key (filter (sortable_column (g_rows g)) (g_columns g))"

definition activeSort :: "grid \<Rightarrow> grid_state \<Rightarrow> sort_state option" where
  "activeSort g s =
     (case g_sort s of
        None \<Rightarrow> None
      | Some so \<Rightarrow> if sort_key so \<in> set (sortableKeys g) then Some so else None)"

definition sorted_rows :: "(string \<Rightarrow> string \<Rightarrow> int) \<Rightarrow> grid \<Rightarrow> grid_state \<Rightarrow> props list" where
  "sorted_rows collate g s =
     (case activeSort g s of
        None \<Rightarrow> filtered_rows g s
      | Some so \<Rightarrow>
          (case find (\<lambda>c. col_key c = sort_key so) (g_columns g) of
             None \<Rightarrow> filtered_rows g s
           | Some c \<Rightarrow> sortRows collate (filtered_rows g s) (columnValue c) (sort_direction so)))"

definition safePage :: "grid \<Rightarrow> grid_state \<Rightarrow> int" where
  "safePage g s = clampPage (g_page s) (g_pageSize s) (int (length (filtered_rows g s)))"

text \<open>\<open>xs.slice(a, b)\<close> with bounds that are not negative.\<close>

definition slice :: "int \<Rightarrow> int \<Rightarrow> 'a list \<Rightarrow> 'a list" where
  "slice a b xs = take (nat (b - a)) (drop (nat a) xs)"

definition paged_rows :: "(string \<Rightarrow> string \<Rightarrow> int) \<Rightarrow> grid \<Rightarrow> grid_state \<Rightarrow> props list" where
  "paged_rows collate g s =
     slice (safePage g s * g_pageSize s) (safePage g s * g_pageSize s + g_pageSize s) (sorted_rows collate g s)"

subsection \<open>Operations\<close>

text \<open>The effect that depends on the query and on the number of rows goes back to the first page.\<close>

definition set_query :: "string \<Rightarrow> grid_state \<Rightarrow> grid_state" where
  "set_query q s = (if q = g_query s then s else s\<lparr>g_query := q, g_page := Fin 0\<rparr>)"

definition rows_arrived :: "props list \<Rightarrow> grid \<Rightarrow> grid_state \<Rightarrow> grid \<times> grid_state" where
  "rows_arrived rows g s =
     (g\<lparr>g_rows := rows\<rparr>, if length rows = length (g_rows g) then s else s\<lparr>g_page := Fin 0\<rparr>)"

definition toggleSort :: "grid \<Rightarrow> column \<Rightarrow> grid_state \<Rightarrow> grid_state" where
  "toggleSort g c s =
     (let first = firstDirection (map (columnValue c) (g_rows g)) in
      s\<lparr>g_sort := nextSort (g_sort s) (col_key c) first, g_page := Fin 0\<rparr>)"

definition set_page :: "int \<Rightarrow> grid_state \<Rightarrow> grid_state" where
  "set_page p s = s\<lparr>g_page := Fin (of_int p)\<rparr>"

definition set_page_size :: "int \<Rightarrow> grid_state \<Rightarrow> grid_state" where
  "set_page_size n s = s\<lparr>g_pageSize := n, g_page := Fin 0\<rparr>"

definition toggle_density :: "grid \<Rightarrow> grid_state \<Rightarrow> grid_state" where
  "toggle_density g s =
     s\<lparr>g_densityRaw := Some (if density_of g s = Small then ''medium'' else ''small'')\<rparr>"

text \<open>The Escape key in the search field: it is kept from the dialogs around when there is a query.\<close>

definition press_escape :: "grid_state \<Rightarrow> grid_state" where
  "press_escape s = (if g_query s \<noteq> [] then set_query [] s else s)"

text \<open>A menu item for a column is disabled when it is the last one shown.\<close>

definition toggle_column :: "grid \<Rightarrow> string \<Rightarrow> grid_state \<Rightarrow> grid_state" where
  "toggle_column g k s =
     (if k \<notin> set (hidden_keys g s) \<and> length (visibleColumns g s) \<le> 1 then s
      else s\<lparr>g_hiddenRaw :=
        Some (json_text (VArr (map VStr (toggleHidden (hidden_keys g s) k (column_keys g)))))\<rparr>)"

definition show_all_columns :: "grid_state \<Rightarrow> grid_state" where
  "show_all_columns s = s\<lparr>g_hiddenRaw := None\<rparr>"

definition download_name :: "string \<Rightarrow> string" where
  "download_name filename = (if suffix ''.csv'' filename then filename else filename @ ''.csv'')"

text \<open>The file and its text; the button is disabled when nothing is found.\<close>

definition export_csv :: "(string \<Rightarrow> string \<Rightarrow> int) \<Rightarrow> grid \<Rightarrow> grid_state \<Rightarrow> (string \<times> string) option" where
  "export_csv collate g s =
     (if filtered_rows g s = [] then None
      else Some (download_name (exportName (g_exportFilename g) (g_title g)),
        buildCSV (map (\<lambda>c. \<lparr>column_key = col_key c, column_label = col_label c\<rparr>) (visibleColumns g s))
          (sorted_rows collate g s)))"

definition show_pagination :: "grid \<Rightarrow> grid_state \<Rightarrow> bool" where
  "show_pagination g s \<longleftrightarrow> length (filtered_rows g s) > 10"

definition row_key :: "int \<Rightarrow> props \<Rightarrow> nat \<Rightarrow> string" where
  "row_key page r i =
     (case find (\<lambda>k. truthy (getp r k)) [''id'', ''event'', ''event_name'', ''page'', ''visitor_id'', ''name''] of
        Some k \<Rightarrow> js_string (getp r k)
      | None \<Rightarrow> int_text page @ ''-'' @ nat_text i)"

definition caption_of :: "grid \<Rightarrow> grid_state \<Rightarrow> caption" where
  "caption_of g s =
     tableCaption (g_description g) (int (length (g_rows g))) (int (length (filtered_rows g s)))
       (js_trim (g_query s) \<noteq> [])"

datatype cell_shown =
    Formatted                          \<comment> \<open>by the function of the column\<close>
  | Grouped jnum                       \<comment> \<open>a number with its groups of three digits\<close>
  | Marked "(string \<times> bool) list"     \<comment> \<open>text with the matches of the search\<close>
  | Dash

definition cell_shown_as :: "column \<Rightarrow> string \<Rightarrow> props \<Rightarrow> cell_shown" where
  "cell_shown_as c query r =
     (if col_format c then Formatted
      else case getp r (col_key c) of
        VNum n \<Rightarrow> Grouped n
      | v \<Rightarrow> if nullish v then Dash else Marked (highlightParts (js_string v) query))"

datatype empty_note = NothingFound | NoData

definition empty_shown :: "grid \<Rightarrow> grid_state \<Rightarrow> empty_note option" where
  "empty_shown g s =
     (if filtered_rows g s \<noteq> [] then None
      else Some (if g_query s \<noteq> [] then NothingFound else NoData))"

subsection \<open>What a reader does\<close>

datatype grid_event =
    SearchFor string
  | PressEscape
  | RowsArrive "props list"                  \<comment> \<open>a new answer of the query\<close>
  | ClickSort nat                      \<comment> \<open>the header of a column shown\<close>
  | TurnTo nat
  | SetPageSize nat                       \<comment> \<open>one of 10, 25, 50 and 100\<close>
  | ClickDensity
  | ClickColumn string
  | ClickAllColumns

definition page_sizes :: "nat list" where
  "page_sizes = [10, 25, 50, 100]"

fun grid_step :: "grid_event \<Rightarrow> grid \<times> grid_state \<Rightarrow> grid \<times> grid_state" where
  "grid_step (SearchFor q) (g, s) = (g, if hasSearch g then set_query q s else s)"
| "grid_step PressEscape (g, s) = (g, if hasSearch g then press_escape s else s)"
| "grid_step (RowsArrive rows) (g, s) = rows_arrived rows g s"
| "grid_step (ClickSort i) (g, s) =
     (g, if i < length (visibleColumns g s) \<and> col_key (visibleColumns g s ! i) \<in> set (sortableKeys g)
         then toggleSort g (visibleColumns g s ! i) s else s)"
| "grid_step (TurnTo p) (g, s) = (g, if show_pagination g s then set_page (int p) s else s)"
| "grid_step (SetPageSize n) (g, s) =
     (g, if show_pagination g s \<and> n \<in> set page_sizes then set_page_size (int n) s else s)"
| "grid_step ClickDensity (g, s) = (g, toggle_density g s)"
| "grid_step (ClickColumn k) (g, s) =
     (g, if length (g_columns g) > 1 \<and> k \<in> set (column_keys g) then toggle_column g k s else s)"
| "grid_step ClickAllColumns (g, s) =
     (g, if length (g_columns g) > 1 \<and> hidden_keys g s \<noteq> [] then show_all_columns s else s)"

subsection \<open>Nothing is lost between the rows and the pages\<close>

lemma filtered_subset: "set (filtered_rows g s) \<subseteq> set (g_rows g)"
  by (auto simp: filtered_rows_def Let_def)

lemma sortRows_mset [simp]: "mset (sortRows c rows f d) = mset rows"
  unfolding sortRows_def by (metis mset_map mset_js_sort entries_facts(1))

lemma sorted_rows_mset [simp]:
  "mset (sorted_rows c g s) = mset (filtered_rows g s)"
  unfolding sorted_rows_def by (auto split: option.split)

lemma sorted_rows_length [simp]: "length (sorted_rows c g s) = length (filtered_rows g s)"
  by (metis sorted_rows_mset size_mset)

lemma slices_cover:
  assumes "0 < n"
  shows "concat (map (\<lambda>p. slice (int p * int n) (int p * int n + int n) xs) [0..<m]) = take (m * n) xs"
proof (induction m)
  case (Suc m)
  have "slice (int m * int n) (int m * int n + int n) xs = take n (drop (m * n) xs)"
    by (simp add: slice_def nat_mult_distrib flip: of_nat_mult)
  moreover have "take (Suc m * n) xs = take (m * n) xs @ take n (drop (m * n) xs)"
    by (simp add: take_add add.commute [of n])
  ultimately show ?case using Suc by simp
qed simp

lemma page_frame [simp]:
  "filtered_rows g (s\<lparr>g_page := x\<rparr>) = filtered_rows g s"
  "activeSort g (s\<lparr>g_page := x\<rparr>) = activeSort g s"
  by (simp_all add: filtered_rows_def activeSort_def)

lemma sorted_page_frame [simp]: "sorted_rows c g (s\<lparr>g_page := x\<rparr>) = sorted_rows c g s"
  by (simp add: sorted_rows_def split: option.split)

text \<open>The rows of the page with a number.\<close>

definition page_rows :: "(string \<Rightarrow> string \<Rightarrow> int) \<Rightarrow> grid \<Rightarrow> grid_state \<Rightarrow> nat \<Rightarrow> props list" where
  "page_rows collate g s p = paged_rows collate g (set_page (int p) s)"

lemma safe_page_exact:
  assumes "0 < g_pageSize s" "int p * g_pageSize s < int (length (filtered_rows g s))"
  shows "safePage g (set_page (int p) s) = int p"
proof -
  let ?n = "g_pageSize s" and ?t = "int (length (filtered_rows g s))"
  have same: "filtered_rows g (set_page (int p) s) = filtered_rows g s"
    by (simp add: filtered_rows_def set_page_def)
  have "of_int (int p * ?n) < (of_int ?t :: rat)" using assms(2) by (simp only: of_int_less_iff)
  then have "(of_nat p :: rat) < of_int ?t / of_int ?n"
    using assms(1) by (simp add: pos_less_divide_eq)
  then have "int p \<le> \<lceil>(of_int ?t :: rat) / of_int ?n\<rceil> - 1" by linarith
  moreover have "0 < ?t"
    using assms by (smt (verit) mult_nonneg_nonneg of_nat_0_le_iff)
  moreover have "js_trunc (of_nat p) = int p" by (simp add: js_trunc_def)
  ultimately show ?thesis
    using assms(1) same by (simp add: safePage_def set_page_def clampPage_def Let_def)
qed

definition page_count :: "grid \<Rightarrow> grid_state \<Rightarrow> nat" where
  "page_count g s = nat \<lceil>(of_nat (length (filtered_rows g s)) :: rat) / of_int (g_pageSize s)\<rceil>"

lemma page_rows_slice:
  assumes "0 < n" "g_pageSize s = int n" "p * n < length (filtered_rows g s)"
  shows "page_rows c g s p = slice (int p * int n) (int p * int n + int n) (sorted_rows c g s)"
proof -
  have "int p * g_pageSize s < int (length (filtered_rows g s))"
    using assms by (simp flip: of_nat_mult)
  then have "safePage g (set_page (int p) s) = int p"
    using safe_page_exact assms by simp
  moreover have "sorted_rows c g (set_page (int p) s) = sorted_rows c g s"
    by (simp add: set_page_def)
  ultimately show ?thesis
    using assms by (simp add: page_rows_def paged_rows_def set_page_def)
qed

lemma page_count_bounds:
  assumes "0 < n" "g_pageSize s = int n"
  shows "length (filtered_rows g s) \<le> page_count g s * n"
    and "p < page_count g s \<Longrightarrow> p * n < length (filtered_rows g s)"
proof -
  let ?l = "length (filtered_rows g s)" and ?q = "of_nat (length (filtered_rows g s)) / of_nat n :: rat"
  have count: "page_count g s = nat \<lceil>?q\<rceil>" by (simp add: page_count_def assms)
  have "?q \<le> of_nat (page_count g s)" unfolding count by linarith
  then have "(of_nat ?l :: rat) \<le> of_nat (page_count g s) * of_nat n"
    using assms(1) by (simp add: pos_divide_le_eq)
  then show "?l \<le> page_count g s * n" by (simp flip: of_nat_mult)
  assume "p < page_count g s"
  then have "int p < \<lceil>?q\<rceil>" unfolding count by linarith
  then have "(of_nat p :: rat) < ?q" by (simp add: less_ceiling_iff)
  then have "(of_nat p * of_nat n :: rat) < of_nat ?l" using assms(1) by (simp add: pos_less_divide_eq)
  then show "p * n < ?l" by (simp flip: of_nat_mult)
qed

lemma pages_concat:
  assumes "0 < g_pageSize s"
  shows "concat (map (page_rows c g s) [0..<page_count g s]) = sorted_rows c g s"
proof -
  obtain n where n: "0 < n" "g_pageSize s = int n"
    using assms by (metis zero_less_imp_eq_int)
  have "map (page_rows c g s) [0..<page_count g s] =
      map (\<lambda>p. slice (int p * int n) (int p * int n + int n) (sorted_rows c g s)) [0..<page_count g s]"
    using page_rows_slice [OF n] page_count_bounds(2) [OF n] by (intro map_cong) auto
  moreover have "concat (map (\<lambda>p. slice (int p * int n) (int p * int n + int n) (sorted_rows c g s))
      [0..<page_count g s]) = take (page_count g s * n) (sorted_rows c g s)"
    by (rule slices_cover [OF n(1)])
  ultimately have "concat (map (page_rows c g s) [0..<page_count g s]) =
      take (page_count g s * n) (sorted_rows c g s)" by (simp only:)
  then show ?thesis
    using page_count_bounds(1) [OF n, of g] by simp
qed

lemma page_is_empty:
  assumes "0 < g_pageSize s"
  shows "paged_rows c g s = [] \<longleftrightarrow> filtered_rows g s = []"
proof (cases "filtered_rows g s = []")
  case True
  then show ?thesis
    using sorted_rows_length [of c g s] by (simp add: paged_rows_def slice_def)
next
  case False
  then have "0 \<le> safePage g s \<and> safePage g s * g_pageSize s < int (length (filtered_rows g s))"
    unfolding safePage_def by (intro clamp_page_rows) (use assms in auto)
  then have "nat (safePage g s * g_pageSize s) < length (filtered_rows g s)"
    using False by (cases "safePage g s * g_pageSize s") auto
  then show ?thesis
    using False assms by (simp add: paged_rows_def slice_def)
qed

subsection \<open>What a reader can do to the table\<close>

lemma toggle_column_hidden:
  assumes "k \<in> set (column_keys g)"
  shows "hidden_keys g (toggle_column g k s) =
      (if k \<notin> set (hidden_keys g s) \<and> length (visibleColumns g s) \<le> 1 then hidden_keys g s
       else toggleHidden (hidden_keys g s) k (column_keys g))"
proof -
  have "set (hidden_keys g s) \<subseteq> set (column_keys g)"
    unfolding hidden_keys_def parseHidden_def by (rule stored_strings_known)
  then have "set (toggleHidden (hidden_keys g s) k (column_keys g)) \<subseteq> set (column_keys g)"
    using assms by (auto simp: toggleHidden_def Let_def)
  then have read: "parseHidden (Some (json_text (VArr (map VStr
      (toggleHidden (hidden_keys g s) k (column_keys g)))))) (column_keys g)
      = toggleHidden (hidden_keys g s) k (column_keys g)"
    by (rule hidden_roundtrip)
  show ?thesis
    by (simp add: toggle_column_def hidden_keys_def read [unfolded hidden_keys_def])
qed

lemma visible_iff: "visibleColumns g s \<noteq> [] \<longleftrightarrow> (\<exists>k \<in> set (column_keys g). k \<notin> set (hidden_keys g s))"
  by (auto simp: visibleColumns_def filter_empty_conv column_keys_def)

text \<open>The page size stays positive and a column stays visible.\<close>

definition grid_ok :: "grid \<times> grid_state \<Rightarrow> bool" where
  "grid_ok gs \<longleftrightarrow> 0 < g_pageSize (snd gs) \<and> distinct (column_keys (fst gs))
     \<and> visibleColumns (fst gs) (snd gs) \<noteq> []"

lemma toggle_column_visible:
  assumes "visibleColumns g s \<noteq> []" "distinct (column_keys g)" "k \<in> set (column_keys g)"
  shows "visibleColumns g (toggle_column g k s) \<noteq> []"
  using assms toggle_keeps_one [of "column_keys g" "hidden_keys g s" k]
  by (auto simp: visible_iff toggle_column_hidden)

lemma other_steps_frame:
  assumes "\<And>k. e \<noteq> ClickColumn k" "e \<noteq> ClickAllColumns" "0 < g_pageSize s"
  shows "g_columns (fst (grid_step e (g, s))) = g_columns g"
    "g_hiddenRaw (snd (grid_step e (g, s))) = g_hiddenRaw s"
    "0 < g_pageSize (snd (grid_step e (g, s)))"
  using assms
  by (cases e; auto simp: set_query_def press_escape_def rows_arrived_def toggleSort_def set_page_def
      set_page_size_def toggle_density_def Let_def page_sizes_def; fail)+

lemma columns_frame:
  assumes "g_columns h = g_columns g" "g_hiddenRaw u = g_hiddenRaw s"
  shows "column_keys h = column_keys g" "visibleColumns h u = visibleColumns g s"
  using assms by (simp_all add: visibleColumns_def hidden_keys_def column_keys_def)

lemma grid_step_ok:
  assumes "grid_ok gs"
  shows "grid_ok (grid_step e gs)"
proof -
  obtain g s where gs: "gs = (g, s)" by (cases gs)
  have ok: "0 < g_pageSize s" "distinct (column_keys g)" "visibleColumns g s \<noteq> []"
    using assms by (simp_all add: grid_ok_def gs)
  consider (column) k where "e = ClickColumn k" | (all) "e = ClickAllColumns"
    | (other) "\<And>k. e \<noteq> ClickColumn k" "e \<noteq> ClickAllColumns" by blast
  then show ?thesis
  proof cases
    case column
    have "g_pageSize (toggle_column g k s) = g_pageSize s" by (simp add: toggle_column_def)
    then show ?thesis
      using ok toggle_column_visible [OF ok(3,2)] by (simp add: grid_ok_def gs column)
  next
    case all
    have "visibleColumns g (show_all_columns s) = g_columns g"
      by (simp add: visibleColumns_def hidden_keys_def show_all_columns_def parseHidden_def
          stored_strings_def)
    moreover have "g_columns g \<noteq> []" using ok(3) by (auto simp: visibleColumns_def)
    ultimately show ?thesis using ok by (simp add: grid_ok_def gs all show_all_columns_def)
  next
    case other
    note frame = other_steps_frame [OF other ok(1), of g]
    show ?thesis
      using ok frame(3) columns_frame [OF frame(1,2)] by (simp add: grid_ok_def gs)
  qed
qed

lemma grid_run_ok: "grid_ok gs \<Longrightarrow> grid_ok (fold grid_step es gs)"
  by (induction es arbitrary: gs) (simp_all add: grid_step_ok)

text \<open>
  C12: Whatever a reader does to a table that starts with a visible column, and whatever rows arrive,
  a column stays visible, the page shown is empty only when nothing matches the search, and the
  pages one after another are the matching rows in the order of the sorted column, each exactly
  once. A page number that is out of range after a new answer does not leave the table empty.
\<close>

theorem table_shows_every_match:
  assumes "0 < n" "distinct (column_keys g)" "visibleColumns g (grid_start n hidden dens) \<noteq> []"
    and "(h, s) = fold grid_step events (g, grid_start n hidden dens)"
  shows "visibleColumns h s \<noteq> []
    \<and> (paged_rows c h s = [] \<longleftrightarrow> filtered_rows h s = [])
    \<and> concat (map (page_rows c h s) [0..<page_count h s]) = sorted_rows c h s
    \<and> mset (sorted_rows c h s) = mset (filtered_rows h s)"
proof -
  have "grid_ok (g, grid_start n hidden dens)"
    using assms(1-3) by (simp add: grid_ok_def) (simp add: grid_start_def)
  then have "grid_ok (h, s)" unfolding assms(4) by (rule grid_run_ok)
  then show ?thesis by (simp add: grid_ok_def page_is_empty pages_concat)
qed

definition example_grid :: grid where
  "example_grid = \<lparr>
     g_columns = map (\<lambda>k. \<lparr>col_key = k, col_label = k, col_align = None, col_minWidth = None,
       col_format = False, col_sortable = None, col_sortValue = None\<rparr>) [''page'', ''users''],
     g_rows = map (\<lambda>i. [(''page'', VStr (''/'' @ nat_text i)), (''users'', vint (int i))]) [0..<12],
     g_title = ''Pages'', g_description = [], g_searchable = None, g_exportFilename = [],
     g_dense = True\<rparr>"

lemma table_shows_every_match_witness:
  "let (h, s) = fold grid_step [SetPageSize 10, TurnTo 1, ClickColumn ''users'', ClickColumn ''page'']
       (example_grid, grid_start 25 None None)
   in map col_key (visibleColumns h s) = [''page''] \<and> page_count h s = 2
    \<and> length (paged_rows by_length h s) = 2
    \<and> mset (sorted_rows by_length h s) = mset (filtered_rows h s)"
proof -
  let ?h = "fold grid_step [SetPageSize 10, TurnTo 1, ClickColumn ''users'', ClickColumn ''page'']
       (example_grid, grid_start 25 None None)"
  have "distinct (column_keys example_grid)" by code_simp
  moreover have "map col_key (visibleColumns example_grid (grid_start 25 None None)) = [''page'', ''users'']"
    by code_simp
  then have "visibleColumns example_grid (grid_start 25 None None) \<noteq> []" by auto
  ultimately have "mset (sorted_rows by_length (fst ?h) (snd ?h)) = mset (filtered_rows (fst ?h) (snd ?h))"
    using table_shows_every_match [of 25 example_grid None None "fst ?h" "snd ?h" _ by_length]
    by (simp del: fold.simps)
  moreover have "map col_key (visibleColumns (fst ?h) (snd ?h)) = [''page'']" by code_simp
  moreover have "page_count (fst ?h) (snd ?h) = 2" by code_simp
  moreover have "length (paged_rows by_length (fst ?h) (snd ?h)) = 2" by code_simp
  ultimately show ?thesis by (simp add: case_prod_beta Let_def del: fold.simps)
qed

text \<open>
  The columns a reader hides are stored under the name of the export file. Where two tables share
  that name, or the columns of a table depend on its report, the stored choice can hide every
  column, although hiding the last one is refused; with a single column there is no menu to bring
  it back.
\<close>

lemma stored_choice_hides_every_column:
  "let g = example_grid\<lparr>g_columns := take 1 (g_columns example_grid)\<rparr>;
       s = grid_start 25 (Some (json_text (VArr [VStr ''page'']))) None
   in map col_key (visibleColumns g s) = [] \<and> length (filtered_rows g s) = 12
    \<and> map col_key (visibleColumns g (snd (grid_step ClickAllColumns (g, s)))) = []"
  by code_simp

end
