(* ===== verification/Shell.thy ===== *)
theory Shell
  imports Navigation QueryError Client
begin

section \<open>The shell of the console\<close>

text \<open>
  \<open>web/src/components/AppShell.tsx\<close> and \<open>web/src/App.tsx\<close>: the menu, the command palette, the
  keyboard, what is remembered of the screens visited, and the routes of the application. The
  Korean labels and descriptions of the menu are the argument \<open>w\<close> of what reads them. Handlers
  are steps on the record \<open>shell\<close>; an effect runs at the end of the step that changes what it
  depends on. The router is a library: an address is served by the route with its path.
\<close>

subsection \<open>Routes\<close>

datatype screen =
    OverviewPage | RealtimePage | VisitorInsightsPage | UsagePage
  | ReportPage string | UserExplorerPage | EcommercePage | ExplorerPage | SegmentsPage
  | FunnelPage string | PlatformAnalyticsPage string | EnterpriseAnalyticsPage string
  | PlatformAdminPage string | EnterpriseAdminPage string | AdminPage | ProfilePage

definition APP_ROUTES :: "(string \<times> screen) list" where
  "APP_ROUTES =
     [(''/'', OverviewPage), (''/realtime'', RealtimePage),
      (''/visitor-insights'', VisitorInsightsPage), (''/usage'', UsagePage),
      (''/acquisition'', ReportPage ''acquisition''), (''/pages'', ReportPage ''pages''),
      (''/events'', ReportPage ''events''), (''/visitors'', ReportPage ''visitors''),
      (''/sessions'', ReportPage ''sessions''), (''/user-explorer'', UserExplorerPage),
      (''/ecommerce'', EcommercePage), (''/explorer'', ExplorerPage),
      (''/segments'', SegmentsPage), (''/funnel'', FunnelPage ''funnel''),
      (''/path'', FunnelPage ''path''), (''/adoption'', PlatformAnalyticsPage ''adoption''),
      (''/cohort'', PlatformAnalyticsPage ''cohort''),
      (''/journey'', PlatformAnalyticsPage ''journey''),
      (''/experience'', PlatformAnalyticsPage ''experience''),
      (''/insights'', PlatformAnalyticsPage ''insights''),
      (''/ai-analytics'', PlatformAnalyticsPage ''ai''),
      (''/data-quality'', PlatformAnalyticsPage ''quality''),
      (''/workspace'', EnterpriseAnalyticsPage ''workspace''),
      (''/features'', EnterpriseAnalyticsPage ''features''),
      (''/search-analytics'', EnterpriseAnalyticsPage ''search''),
      (''/frustration'', EnterpriseAnalyticsPage ''frustration''),
      (''/experiments'', EnterpriseAnalyticsPage ''experiments''),
      (''/goals'', EnterpriseAnalyticsPage ''goals''),
      (''/change-calendar'', EnterpriseAnalyticsPage ''calendar''),
      (''/admin/governance'', PlatformAdminPage ''governance''),
      (''/admin/automation'', PlatformAdminPage ''automation''),
      (''/admin/analytics-engineering'', EnterpriseAdminPage ''engineering''),
      (''/admin/privacy-requests'', EnterpriseAdminPage ''privacy''),
      (''/admin/product-lab'', EnterpriseAdminPage ''product''),
      (''/admin'', AdminPage), (''/profile'', ProfilePage)]"

text \<open>The path and the query of a destination.\<close>

definition path_of :: "string \<Rightarrow> string" where
  "path_of to = takeWhile (\<lambda>c. c \<noteq> CHR ''?'') to"

definition search_of :: "string \<Rightarrow> string" where
  "search_of to = dropWhile (\<lambda>c. c \<noteq> CHR ''?'') to"

definition served :: "string \<Rightarrow> bool" where
  "served path \<longleftrightarrow> map_of APP_ROUTES path \<noteq> None"

text \<open>What the application shows: the spinner, the problem with the session, the login form.\<close>

datatype ('e, 'v) app_view = Spinner | SessionProblem 'e | LoginForm | Screen 'v screen | GoHome

definition app_view ::
  "bool \<Rightarrow> 'v option \<Rightarrow> 'e option \<Rightarrow> string \<Rightarrow> ('e, 'v) app_view"
where
  "app_view is_loading user_in session_error path =
     (if is_loading then Spinner
      else case user_in of
        None \<Rightarrow> (case session_error of Some e \<Rightarrow> SessionProblem e | None \<Rightarrow> LoginForm)
      | Some u \<Rightarrow> (case map_of APP_ROUTES path of Some s \<Rightarrow> Screen u s | None \<Rightarrow> GoHome))"

subsection \<open>The menu\<close>

datatype nav_section =
    Monitoring | WebAnalysis | ProductAnalysis | ExploreAndTest | ExperienceAndAI | Administration

definition NAV_GROUPS :: "(nav_section \<times> string list) list" where
  "NAV_GROUPS =
     [(Monitoring, [''/'', ''/realtime'', ''/visitor-insights'', ''/workspace'', ''/change-calendar'',
        ''/data-quality'']),
      (WebAnalysis, [''/acquisition'', ''/pages'', ''/events'', ''/visitors'', ''/sessions'',
        ''/user-explorer'', ''/ecommerce'']),
      (ProductAnalysis, [''/usage'', ''/adoption'', ''/features'', ''/cohort'', ''/journey'', ''/goals'']),
      (ExploreAndTest, [''/explorer'', ''/segments'', ''/funnel'', ''/path'', ''/experiments'']),
      (ExperienceAndAI, [''/experience'', ''/search-analytics'', ''/frustration'', ''/insights'',
        ''/ai-analytics''])]"

definition ADMIN_COMMANDS :: "string list" where
  "ADMIN_COMMANDS =
     [''/admin'', ''/admin?section=sites'', ''/admin?section=settings'', ''/admin?section=privacy'',
      ''/admin?section=networks'', ''/admin?section=users'', ''/admin/governance'',
      ''/admin/analytics-engineering'', ''/admin/product-lab'', ''/admin/privacy-requests'',
      ''/admin/automation'']"

text \<open>The addresses that have a title.\<close>

definition TITLES :: "string list" where
  "TITLES =
     [''/'', ''/realtime'', ''/usage'', ''/acquisition'', ''/pages'', ''/events'', ''/visitors'',
      ''/user-explorer'', ''/ecommerce'', ''/explorer'', ''/segments'', ''/funnel'', ''/path'',
      ''/adoption'', ''/cohort'', ''/journey'', ''/experience'', ''/insights'', ''/ai-analytics'',
      ''/data-quality'', ''/workspace'', ''/features'', ''/search-analytics'', ''/frustration'',
      ''/experiments'', ''/goals'', ''/change-calendar'', ''/admin/governance'', ''/admin/automation'',
      ''/admin/analytics-engineering'', ''/admin/product-lab'', ''/admin/privacy-requests'', ''/admin'',
      ''/profile'']"

definition menu_routes :: "string list" where
  "menu_routes = concat (map snd NAV_GROUPS)"

definition matchesPath :: "string \<Rightarrow> string \<Rightarrow> bool" where
  "matchesPath here to = (here = path_of to)"

definition group_of :: "string \<Rightarrow> nav_section option" where
  "group_of here =
     map_option fst (find (\<lambda>(g, items). list_ex (matchesPath here) items) NAV_GROUPS)"

text \<open>The crumb over a screen: its group, the administration, or the name of the product.\<close>

definition activeGroup :: "string \<Rightarrow> nav_section option" where
  "activeGroup here =
     (case group_of here of
        Some g \<Rightarrow> Some g
      | None \<Rightarrow> if prefix ''/admin'' here then Some Administration else None)"

text \<open>The title of the tab: that of the screen (by its address) if it has one, the site, the product.\<close>

datatype title_part = ScreenTitle string | SiteTitle string | ProductTitle

definition document_title :: "string \<Rightarrow> string option \<Rightarrow> title_part list" where
  "document_title here site_name =
     (if here \<in> set TITLES then [ScreenTitle here] else [])
     @ (case site_name of Some n \<Rightarrow> if n = [] then [] else [SiteTitle n] | None \<Rightarrow> [])
     @ [ProductTitle]"

definition is_admin :: "string option \<Rightarrow> bool" where
  "is_admin role = (case role of None \<Rightarrow> False | Some r \<Rightarrow> r \<notin> {''analyst'', ''viewer''})"

subsection \<open>The command palette\<close>

record wording =
  w_label :: "string \<Rightarrow> string"         \<comment> \<open>of a destination\<close>
  w_description :: "string \<Rightarrow> string"
  w_keywords :: "string \<Rightarrow> string"
  w_section :: "nav_section \<Rightarrow> string"

definition paletteRoutes :: "bool \<Rightarrow> (string \<times> nav_section) list" where
  "paletteRoutes admin =
     concat (map (\<lambda>(g, items). map (\<lambda>to. (to, g)) items) NAV_GROUPS)
     @ (if admin then map (\<lambda>to. (to, Administration)) ADMIN_COMMANDS else [])"

definition haystack :: "wording \<Rightarrow> string \<times> nav_section \<Rightarrow> string" where
  "haystack w r =
     js_lower (w_label w (fst r) @ '' '' @ w_description w (fst r) @ '' '' @ w_keywords w (fst r)
       @ '' '' @ w_section w (snd r))"

definition palette_entries ::
  "wording \<Rightarrow> bool \<Rightarrow> string list \<Rightarrow> string \<Rightarrow> ((string \<times> nav_section) \<times> bool) list"
where
  "palette_entries w admin recent query =
     (let needle = js_lower (js_trim query) in
      if needle = [] then orderWithRecent (paletteRoutes admin) recent 10
      else map (\<lambda>r. (r, False))
        (take 12 (filter (\<lambda>r. js_includes (haystack w r) needle) (paletteRoutes admin))))"

subsection \<open>State\<close>

record shell =
  sh_path :: string
  sh_search :: string
  sh_role :: "string option"
  sh_recent :: "string list"
  sh_stored_recent :: "string option"
  sh_command :: bool                   \<comment> \<open>the palette is open\<close>
  sh_query :: string
  sh_active :: int
  sh_help :: bool
  sh_mobile :: bool
  sh_pending :: "rat option"
  sh_expanded :: props
  sh_prefs :: pref_state
  sh_focused :: bool                   \<comment> \<open>the page's own search field got the focus\<close>
  sh_visited :: "string list"          \<comment> \<open>where the shell itself has led\<close>

definition RECENT_STORAGE_KEY :: string where
  "RECENT_STORAGE_KEY = ''momento:recent-routes''"

definition NAV_EXPANDED_KEY :: string where "NAV_EXPANDED_KEY = ''momento:nav-expanded''"
definition NAV_FAVORITES_KEY :: string where "NAV_FAVORITES_KEY = ''momento:nav-favorites''"
definition NAV_COLLAPSED_KEY :: string where "NAV_COLLAPSED_KEY = ''momento:nav-collapsed''"

definition shell_entries :: "wording \<Rightarrow> shell \<Rightarrow> ((string \<times> nav_section) \<times> bool) list" where
  "shell_entries w s = palette_entries w (is_admin (sh_role s)) (sh_recent s) (sh_query s)"

definition activeIndex :: "wording \<Rightarrow> shell \<Rightarrow> int" where
  "activeIndex w s = min (sh_active s) (max (int (length (shell_entries w s)) - 1) 0)"

subsection \<open>Visiting a screen\<close>

text \<open>The screen is remembered when the menu knows it.\<close>

definition remember_visit :: "shell \<Rightarrow> shell" where
  "remember_visit s =
     (case routeFor (sh_path s) (sh_search s) (map fst (paletteRoutes (is_admin (sh_role s)))) of
        None \<Rightarrow> s
      | Some to \<Rightarrow>
          if sh_recent s \<noteq> [] \<and> hd (sh_recent s) = to then s
          else let next_recent = rememberRoute (sh_recent s) to RECENT_LIMIT in
            s\<lparr>sh_recent := next_recent,
              sh_stored_recent :=
                (if writable (sh_prefs s) then Some (json_text (VArr (map VStr next_recent)))
                 else sh_stored_recent s)\<rparr>)"

definition open_active_group :: "wording \<Rightarrow> shell \<Rightarrow> shell" where
  "open_active_group w s =
     (case group_of (sh_path s) of
        None \<Rightarrow> s
      | Some g \<Rightarrow> s\<lparr>sh_expanded := setp (w_section w g) (VBool True) (sh_expanded s)\<rparr>)"

definition enter :: "wording \<Rightarrow> string \<Rightarrow> string \<Rightarrow> shell \<Rightarrow> shell" where
  "enter w path query_part s =
     (let t = remember_visit (s\<lparr>sh_path := path, sh_search := query_part\<rparr>)
      in if path = sh_path s then t else open_active_group w t)"

text \<open>An address that no route serves is replaced by the first screen.\<close>

definition visit :: "wording \<Rightarrow> string \<Rightarrow> string \<Rightarrow> shell \<Rightarrow> shell" where
  "visit w path query_part s =
     (let t = enter w path query_part s in if served path then t else enter w ''/'' [] t)"

definition navigate :: "wording \<Rightarrow> string \<Rightarrow> shell \<Rightarrow> shell" where
  "navigate w to s = visit w (path_of to) (search_of to) (s\<lparr>sh_visited := sh_visited s @ [to]\<rparr>)"

subsection \<open>Handlers\<close>

definition set_command :: "bool \<Rightarrow> shell \<Rightarrow> shell" where
  "set_command b s =
     (if b = sh_command s then s
      else s\<lparr>sh_command := b, sh_active := 0, sh_query := (if b then sh_query s else [])\<rparr>)"

definition select :: "wording \<Rightarrow> string \<Rightarrow> shell \<Rightarrow> shell" where
  "select w to s = set_command False (navigate w to s)"

definition type_query :: "string \<Rightarrow> shell \<Rightarrow> shell" where
  "type_query q s = (if q = sh_query s then s else s\<lparr>sh_query := q, sh_active := 0\<rparr>)"

definition move_selection :: "wording \<Rightarrow> int \<Rightarrow> shell \<Rightarrow> shell" where
  "move_selection w d s =
     s\<lparr>sh_active := moveActive (activeIndex w s) d (int (length (shell_entries w s)))\<rparr>"

definition press_enter :: "wording \<Rightarrow> shell \<Rightarrow> shell" where
  "press_enter w s =
     (let i = nat (activeIndex w s); es = shell_entries w s in
      if i < length es then select w (fst (fst (es ! i))) s else s)"

record key_press =
  k_key :: string
  k_meta :: bool
  k_ctrl :: bool
  k_alt :: bool
  k_prevented :: bool
  k_target :: "typing_target option"
  k_overlay :: bool                    \<comment> \<open>a dialog, a menu or a list box is in the document\<close>
  k_page_search :: bool                \<comment> \<open>a search field of the page is visible\<close>
  k_time :: rat

definition command_key :: "key_press \<Rightarrow> shell \<Rightarrow> shell" where
  "command_key k s =
     (if (k_meta k \<or> k_ctrl k) \<and> js_lower (k_key k) = ''k'' then set_command (\<not> sh_command s) s else s)"

definition shortcut_key :: "wording \<Rightarrow> key_press \<Rightarrow> shell \<Rightarrow> shell" where
  "shortcut_key w k s =
     (if k_prevented k \<or> k_meta k \<or> k_ctrl k \<or> k_alt k then s
      else if isTypingTarget (k_target k) then s
      else if k_overlay k then s
      else case readShortcut (sh_pending s) (k_key k) (k_time k) (is_admin (sh_role s)) of
        (pending, action) \<Rightarrow>
          let t = s\<lparr>sh_pending := pending\<rparr> in
          (case action of
             Go to \<Rightarrow> navigate w to t
           | SearchAction \<Rightarrow> if k_page_search k then t\<lparr>sh_focused := True\<rparr> else set_command True t
           | HelpAction \<Rightarrow> t\<lparr>sh_help := True\<rparr>
           | NoAction \<Rightarrow> t))"

definition set_group :: "wording \<Rightarrow> nav_section \<Rightarrow> shell \<Rightarrow> shell" where
  "set_group w g s =
     (let is_open = truthy (getp (sh_expanded s) (w_section w g));
          expanded = setp (w_section w g) (VBool (\<not> is_open)) (sh_expanded s)
      in s\<lparr>sh_expanded := expanded,
           sh_prefs := writePreference NAV_EXPANDED_KEY (Some (json_text (VObj expanded))) (sh_prefs s)\<rparr>)"

definition favorites :: "shell \<Rightarrow> string list" where
  "favorites s = parseFavorites (fst (readPreference NAV_FAVORITES_KEY (sh_prefs s))) menu_routes"

definition toggle_favorite :: "string \<Rightarrow> shell \<Rightarrow> shell" where
  "toggle_favorite to s =
     s\<lparr>sh_prefs := writePreference NAV_FAVORITES_KEY
        (Some (json_text (VArr (map VStr (toggleFavorite (favorites s) to))))) (sh_prefs s)\<rparr>"

definition collapsed :: "bool \<Rightarrow> shell \<Rightarrow> bool" where
  "collapsed desktop s \<longleftrightarrow> desktop \<and> fst (readPreference NAV_COLLAPSED_KEY (sh_prefs s)) = Some ''1''"

definition toggle_collapsed :: "shell \<Rightarrow> shell" where
  "toggle_collapsed s =
     s\<lparr>sh_prefs := writePreference NAV_COLLAPSED_KEY (if collapsed True s then None else Some ''1'')
        (sh_prefs s)\<rparr>"

definition role_arrived :: "string option \<Rightarrow> shell \<Rightarrow> shell" where
  "role_arrived r s =
     (let t = s\<lparr>sh_role := r\<rparr> in
      if is_admin r = is_admin (sh_role s) then t else remember_visit t)"

text \<open>The links of the drawer, its favourites among them, and those of the profile menu.\<close>

definition drawer_links :: "bool \<Rightarrow> string list" where
  "drawer_links admin = menu_routes @ (if admin then [''/admin''] else [])"

definition profile_links :: "bool \<Rightarrow> string list" where
  "profile_links admin = [''/profile'', ''/profile?tab=keys''] @ (if admin then [''/admin''] else [])"

subsection \<open>Steps\<close>

datatype shell_event =
    Address string string              \<comment> \<open>the address bar, or a link of a page\<close>
  | RoleArrived "string option"
  | DrawerLink string
  | ProfileLink string
  | Key key_press
  | OpenPalette
  | ClosePalette
  | TypeQuery string
  | Arrow bool                         \<comment> \<open>down or up\<close>
  | PressEnter
  | HoverEntry nat
  | ClickEntry nat
  | ToggleGroup nav_section
  | ToggleFavorite string
  | ToggleSidebar
  | CloseHelp
  | OpenDrawer

fun shell_step :: "wording \<Rightarrow> shell_event \<Rightarrow> shell \<Rightarrow> shell" where
  "shell_step w (Address path query_part) s = visit w path query_part s"
| "shell_step w (RoleArrived r) s = role_arrived r s"
| "shell_step w (DrawerLink to) s =
     (if to \<in> set (drawer_links (is_admin (sh_role s))) then navigate w to (s\<lparr>sh_mobile := False\<rparr>) else s)"
| "shell_step w (ProfileLink to) s =
     (if to \<in> set (profile_links (is_admin (sh_role s))) then navigate w to s else s)"
| "shell_step w (Key k) s = shortcut_key w k (command_key k s)"
| "shell_step w OpenPalette s = set_command True s"
| "shell_step w ClosePalette s = set_command False s"
| "shell_step w (TypeQuery q) s = (if sh_command s then type_query q s else s)"
| "shell_step w (Arrow down) s =
     (if sh_command s then move_selection w (if down then 1 else - 1) s else s)"
| "shell_step w PressEnter s = (if sh_command s then press_enter w s else s)"
| "shell_step w (HoverEntry i) s =
     (if sh_command s \<and> i < length (shell_entries w s) then s\<lparr>sh_active := int i\<rparr> else s)"
| "shell_step w (ClickEntry i) s =
     (if sh_command s \<and> i < length (shell_entries w s)
      then select w (fst (fst (shell_entries w s ! i))) s else s)"
| "shell_step w (ToggleGroup g) s = set_group w g s"
| "shell_step w (ToggleFavorite to) s =
     (if to \<in> set menu_routes then toggle_favorite to s else s)"
| "shell_step w ToggleSidebar s = toggle_collapsed s"
| "shell_step w CloseHelp s = s\<lparr>sh_help := False\<rparr>"
| "shell_step w OpenDrawer s = s\<lparr>sh_mobile := True\<rparr>"

definition shell_start ::
  "wording \<Rightarrow> string \<Rightarrow> string \<Rightarrow> string option \<Rightarrow> string option \<Rightarrow> pref_state \<Rightarrow> shell"
where
  "shell_start w path query_part role stored prefs =
     (let first = \<lparr>sh_path = path, sh_search = query_part, sh_role = role,
            sh_recent = parseRecent stored, sh_stored_recent = stored, sh_command = False,
            sh_query = [], sh_active = 0, sh_help = False, sh_mobile = False, sh_pending = None,
            sh_expanded =
              spread
                (fold (\<lambda>(g, items). setp (w_section w g)
                   (VBool (g = Monitoring \<or> list_ex (matchesPath path) items))) NAV_GROUPS [])
                (parseExpanded (fst (readPreference NAV_EXPANDED_KEY prefs))),
            sh_prefs = snd (readPreference NAV_EXPANDED_KEY prefs), sh_focused = False,
            sh_visited = []\<rparr>;
          t = open_active_group w (remember_visit first)
      in if served path then t else enter w ''/'' [] t)"

subsection \<open>Where the shell leads\<close>

text \<open>Everything the shell may lead to: the menu, the palette, the shortcuts, the profile menu.\<close>

definition destinations :: "bool \<Rightarrow> string list" where
  "destinations admin =
     drawer_links admin @ profile_links admin @ map fst (paletteRoutes admin)
     @ map go_to (filter (\<lambda>t. \<not> adminOnly t \<or> admin) GO_TARGETS)"

lemma destinations_served: "list_all (\<lambda>to. served (path_of to)) (destinations True)"
  by code_simp

lemma destinations_mono: "set (destinations a) \<subseteq> set (destinations True)"
proof -
  have "list_all (\<lambda>to. to \<in> set (destinations True)) (destinations False)" by code_simp
  then show ?thesis by (cases a) (auto simp: list_all_iff)
qed

lemma destinations_of_readers: "list_all (\<lambda>to. \<not> prefix ''/admin'' to) (destinations False)"
  by code_simp

lemma entries_in_routes:
  "x \<in> set (palette_entries w adm recent q) \<Longrightarrow> fst x \<in> set (paletteRoutes adm)"
  by (cases x) (auto simp: palette_entries_def Let_def dest: palette_shows_menu in_set_takeD
    split: if_splits)

lemma entry_destination:
  "i < length (shell_entries w s) \<Longrightarrow>
   fst (fst (shell_entries w s ! i)) \<in> set (destinations (is_admin (sh_role s)))"
  using entries_in_routes [OF nth_mem, of i w "is_admin (sh_role s)" "sh_recent s" "sh_query s"]
  unfolding shell_entries_def destinations_def by (auto intro: image_eqI)

lemma shortcut_destination:
  "readShortcut st key t adm = (p, Go to) \<Longrightarrow> to \<in> set (destinations adm)"
  by (auto simp: readShortcut_def destinations_def dest!: find_member split: if_splits option.splits)

lemma enter_visited [simp]:
  "sh_visited (enter w p q s) = sh_visited s" "sh_role (enter w p q s) = sh_role s"
  by (auto simp: enter_def remember_visit_def open_active_group_def Let_def split: option.split)

lemma remember_visit_frame [simp]:
  "sh_visited (remember_visit s) = sh_visited s" "sh_role (remember_visit s) = sh_role s"
  by (auto simp: remember_visit_def Let_def split: option.split)

lemma visit_visited [simp]:
  "sh_visited (visit w p q s) = sh_visited s" "sh_role (visit w p q s) = sh_role s"
  by (auto simp: visit_def Let_def)

lemma set_command_frame [simp]:
  "sh_visited (set_command b s) = sh_visited s" "sh_role (set_command b s) = sh_role s"
  by (simp_all add: set_command_def)

lemma navigate_visited [simp]:
  "sh_visited (navigate w to s) = sh_visited s @ [to]" "sh_role (navigate w to s) = sh_role s"
  by (simp_all add: navigate_def)

lemmas handler_defs = set_group_def toggle_favorite_def toggle_collapsed_def type_query_def
  move_selection_def role_arrived_def command_key_def

lemma shortcut_key_visited:
  "sh_role (shortcut_key w k s) = sh_role s
   \<and> (sh_visited (shortcut_key w k s) = sh_visited s
      \<or> (\<exists>to \<in> set (destinations (is_admin (sh_role s))). sh_visited (shortcut_key w k s) = sh_visited s @ [to]))"
  by (auto simp: shortcut_key_def Let_def dest: shortcut_destination split: prod.split shortcut_action.split)

lemma step_visited:
  "sh_visited (shell_step w e s) = sh_visited s
   \<or> (\<exists>to \<in> set (destinations (is_admin (sh_role s))). sh_visited (shell_step w e s) = sh_visited s @ [to])"
proof (cases e)
  case (Key k)
  have "sh_role (command_key k s) = sh_role s" "sh_visited (command_key k s) = sh_visited s"
    by (simp_all add: command_key_def)
  then show ?thesis using Key shortcut_key_visited [of w k "command_key k s"] by simp
qed (auto simp: handler_defs press_enter_def select_def Let_def destinations_def
  dest: entry_destination)

lemma step_role:
  "sh_role (shell_step w e s) = (case e of RoleArrived r \<Rightarrow> r | _ \<Rightarrow> sh_role s)"
proof (cases e)
  case (Key k)
  have "sh_role (command_key k s) = sh_role s" by (simp add: command_key_def)
  then show ?thesis using Key shortcut_key_visited [of w k "command_key k s"] by simp
qed (auto simp: handler_defs press_enter_def select_def Let_def)

text \<open>The role never becomes an administrator's.\<close>

definition stays_reader :: "shell_event \<Rightarrow> bool" where
  "stays_reader e = (case e of RoleArrived r \<Rightarrow> \<not> is_admin r | _ \<Rightarrow> True)"

lemma run_visited_reader:
  "list_all stays_reader es \<Longrightarrow> \<not> is_admin (sh_role s) \<Longrightarrow>
   set (sh_visited (fold (shell_step w) es s)) \<subseteq> set (sh_visited s) \<union> set (destinations False)"
proof (induction es arbitrary: s)
  case (Cons e es)
  have "\<not> is_admin (sh_role (shell_step w e s))"
    using Cons.prems by (simp add: step_role stays_reader_def split: shell_event.splits)
  then have "set (sh_visited (fold (shell_step w) es (shell_step w e s)))
      \<subseteq> set (sh_visited (shell_step w e s)) \<union> set (destinations False)"
    using Cons by simp
  then show ?case using step_visited [of w e s] Cons.prems(2) by auto
qed simp

lemma run_visited:
  "set (sh_visited (fold (shell_step w) es s)) \<subseteq> set (sh_visited s) \<union> set (destinations True)"
proof (induction es arbitrary: s)
  case (Cons e es)
  then show ?case
    using step_visited [of w e s] destinations_mono [of "is_admin (sh_role s)"] by fastforce
qed simp

lemma start_visited [simp]:
  "sh_visited (shell_start w p q r st pr) = []" "sh_role (shell_start w p q r st pr) = r"
  by (simp_all add: shell_start_def Let_def open_active_group_def split: option.split)

text \<open>
  C31: Whatever a reader clicks, types or presses, the shell leads only to addresses that a route of
  the application serves, and while nobody is an administrator never to the administration.
\<close>

theorem shell_leads_to_screens:
  assumes "s = fold (shell_step w) es (shell_start w path query_part role stored prefs)"
  shows "(\<forall>to \<in> set (sh_visited s). served (path_of to))
    \<and> (\<not> is_admin role \<and> list_all stays_reader es \<longrightarrow>
        (\<forall>to \<in> set (sh_visited s). \<not> prefix ''/admin'' to))"
  using run_visited [of w es "shell_start w path query_part role stored prefs"]
    run_visited_reader [of es "shell_start w path query_part role stored prefs" w]
    destinations_served destinations_of_readers
  unfolding assms by (fastforce simp: list_all_iff)

definition no_words :: wording where
  "no_words = \<lparr>w_label = (\<lambda>to. to), w_description = (\<lambda>_. []), w_keywords = (\<lambda>_. []),
     w_section = (\<lambda>g. case g of Monitoring \<Rightarrow> ''m'' | WebAnalysis \<Rightarrow> ''w'' | ProductAnalysis \<Rightarrow> ''p''
       | ExploreAndTest \<Rightarrow> ''e'' | ExperienceAndAI \<Rightarrow> ''x'' | Administration \<Rightarrow> ''a'')\<rparr>"

definition no_prefs :: pref_state where
  "no_prefs = \<lparr>memory = (\<lambda>_. None), disk = (\<lambda>_. None), readable = False, writable = False,
     notified = []\<rparr>"

definition plain_key :: "string \<Rightarrow> rat \<Rightarrow> key_press" where
  "plain_key k t = \<lparr>k_key = k, k_meta = False, k_ctrl = False, k_alt = False, k_prevented = False,
     k_target = None, k_overlay = False, k_page_search = False, k_time = t\<rparr>"

definition example_run :: "shell_event list" where
  "example_run =
     [Key (plain_key ''g'' 0), Key (plain_key ''s'' 500), Key (plain_key ''g'' 900),
      Key (plain_key ''a'' 1000), OpenPalette, TypeQuery ''coh'', PressEnter, DrawerLink ''/funnel'']"

lemma shell_leads_to_screens_witness:
  "let s = fold (shell_step no_words) example_run
         (shell_start no_words ''/nowhere'' [] (Some ''viewer'') None no_prefs)
   in sh_visited s = [''/sessions'', ''/cohort'', ''/funnel'']
    \<and> sh_recent s = [''/funnel'', ''/cohort'', ''/sessions'', ''/'']
    \<and> (\<forall>to \<in> set (sh_visited s). served (path_of to) \<and> \<not> prefix ''/admin'' to)"
proof -
  let ?s = "fold (shell_step no_words) example_run
         (shell_start no_words ''/nowhere'' [] (Some ''viewer'') None no_prefs)"
  have "sh_visited ?s = [''/sessions'', ''/cohort'', ''/funnel'']" by code_simp
  moreover have "sh_recent ?s = [''/funnel'', ''/cohort'', ''/sessions'', ''/'']" by code_simp
  moreover have "\<not> is_admin (Some ''viewer'')" "list_all stays_reader example_run" by code_simp+
  then have "\<forall>to \<in> set (sh_visited ?s). served (path_of to) \<and> \<not> prefix ''/admin'' to"
    using shell_leads_to_screens [OF refl, of no_words example_run "''/nowhere''" "[]" "Some ''viewer''"
        None no_prefs] by blast
  ultimately show ?thesis unfolding Let_def by blast
qed

subsection \<open>The palette and what is remembered\<close>

lemma move_active_nonneg: "0 \<le> moveActive i d n"
proof (cases "n \<le> 0")
  case False
  then have "moveActive i d n = (i + d) mod n" by (intro move_wraps) simp
  then show ?thesis using False by simp
qed (simp add: moveActive_def)

lemma active_frame [simp]:
  "sh_active (remember_visit s) = sh_active s"
  "sh_active (open_active_group w s) = sh_active s"
  by (simp_all add: remember_visit_def open_active_group_def Let_def split: option.split)

lemma enter_active [simp]: "sh_active (enter w p q s) = sh_active s"
  by (simp add: enter_def Let_def)

lemma visit_active [simp]: "sh_active (visit w p q s) = sh_active s"
  by (simp add: visit_def Let_def)

lemma navigate_active [simp]: "sh_active (navigate w to s) = sh_active s"
  by (simp add: navigate_def)

lemma step_active: "0 \<le> sh_active s \<Longrightarrow> 0 \<le> sh_active (shell_step w e s)"
proof (cases e)
  case (Key k)
  assume "0 \<le> sh_active s"
  then have "0 \<le> sh_active (command_key k s)" by (simp add: command_key_def set_command_def)
  then show ?thesis using Key
    by (simp add: shortcut_key_def Let_def set_command_def split: prod.split shortcut_action.split)
qed (auto simp: handler_defs set_command_def press_enter_def select_def Let_def move_active_nonneg)

text \<open>As long as something is found, one entry of the palette is marked and Enter opens it.\<close>

lemma marked_entry:
  assumes "0 \<le> sh_active s" "shell_entries w s \<noteq> []"
  shows "nat (activeIndex w s) < length (shell_entries w s)"
proof -
  have "0 < length (shell_entries w s)" using assms(2) by simp
  then show ?thesis unfolding activeIndex_def using assms(1) by linarith
qed

lemma palette_opens_marked:
  assumes "s = fold (shell_step w) es (shell_start w path query_part role stored prefs)"
    and "sh_command s" "shell_entries w s \<noteq> []"
  shows "\<exists>i < length (shell_entries w s).
    sh_visited (shell_step w PressEnter s) = sh_visited s @ [fst (fst (shell_entries w s ! i))]"
proof -
  have start: "0 \<le> sh_active (shell_start w path query_part role stored prefs)"
    by (simp add: shell_start_def Let_def)
  have "0 \<le> sh_active (fold (shell_step w) es t)" if "0 \<le> sh_active t" for t
    using that by (induction es arbitrary: t) (simp_all add: step_active)
  then have "0 \<le> sh_active s" using start assms(1) by simp
  then show ?thesis
    using marked_entry [of s w] assms(2,3) by (auto simp: press_enter_def Let_def select_def)
qed

lemma remember_visit_capped:
  "length (sh_recent s) \<le> RECENT_LIMIT \<Longrightarrow> length (sh_recent (remember_visit s)) \<le> RECENT_LIMIT"
  by (auto simp: remember_visit_def Let_def remember_facts(2) split: option.split)

text \<open>A screen that was entered is the first one the palette offers, when the menu has it.\<close>

lemma entered_is_recent:
  assumes "routeFor p q (map fst (paletteRoutes (is_admin (sh_role s)))) = Some to"
  shows "hd (sh_recent (enter w p q s)) = to"
proof -
  have "hd (sh_recent (remember_visit (s\<lparr>sh_path := p, sh_search := q\<rparr>))) = to"
    using assms by (auto simp: remember_visit_def Let_def remember_facts(3) RECENT_LIMIT_def)
  then show ?thesis
    by (auto simp: enter_def open_active_group_def Let_def split: option.split)
qed

lemma favourites_in_menu: "set (favorites s) \<subseteq> set menu_routes"
  using stored_strings_known [of menu_routes]
  by (auto simp: favorites_def parseFavorites_def dest: in_set_takeD)

text \<open>The ways out of a failed query lead to screens too.\<close>

lemma recovery_links_served:
  "Link l to \<in> set (actions (describeQueryError e opts)) \<Longrightarrow> served (path_of to)"
proof -
  have "list_all (\<lambda>to. served (path_of to)) [explorer, automation, segments, sites, privacy, queryPolicy]"
    by code_simp
  then show "Link l to \<in> set (actions (describeQueryError e opts)) \<Longrightarrow> served (path_of to)"
    by (auto simp: describeQueryError_def recover_def Let_def split: if_splits)
qed

text \<open>Two screens of the menu have no title: their tab and their heading name the product only.\<close>

lemma screens_without_title:
  "filter (\<lambda>to. to \<notin> set TITLES) menu_routes = [''/visitor-insights'', ''/sessions'']"
  "document_title ''/sessions'' None = [ProductTitle]"
  by code_simp+

end
