(* ===== verification/Explore.thy ===== *)
theory Explore
  imports Trace
begin

section \<open>Following a visitor\<close>

text \<open>
  \<open>web/src/pages/UserExplorerPage.tsx\<close>: the search for a visitor and the trace that is loaded page
  by page. The address holds the visitor, the search handed over and the scope; the pages loaded
  are merged into one list of sessions. A query answers for its key: an answer that arrives for
  another key than the current one is not shown (React Query, documented); an answer that is
  already cached is an answer that arrives at once.
\<close>

subsection \<open>Merging the pages\<close>

definition session_key :: "trace_session \<Rightarrow> string" where
  "session_key s = ts_visitor_id s @ ''|'' @ ts_session_id s"

definition later_event :: "(string \<Rightarrow> string \<Rightarrow> int) \<Rightarrow> trace_event \<Rightarrow> trace_event \<Rightarrow> bool" where
  "later_event collate a b \<longleftrightarrow> collate (te_timestamp a) (te_timestamp b) > 0"

definition earlier_session :: "(string \<Rightarrow> string \<Rightarrow> int) \<Rightarrow> trace_session \<Rightarrow> trace_session \<Rightarrow> bool" where
  "earlier_session collate a b \<longleftrightarrow> collate (ts_started_at b) (ts_started_at a) > 0"

definition join_events ::
  "(string \<Rightarrow> string \<Rightarrow> int) \<Rightarrow> trace_session \<Rightarrow> trace_session \<Rightarrow> trace_session"
where
  "join_events collate existing s =
     (let ids = map te_event_id (ts_events existing) in
      existing\<lparr>ts_events :=
        js_sort (later_event collate)
          (filter (\<lambda>e. te_event_id e \<notin> set ids) (ts_events s) @ ts_events existing)\<rparr>)"

text \<open>A \<open>Map\<close> keeps the place of its first insertion.\<close>

fun merge_session ::
  "(string \<Rightarrow> string \<Rightarrow> int) \<Rightarrow> trace_session \<Rightarrow> trace_session list \<Rightarrow> trace_session list"
where
  "merge_session collate s [] = [s]"
| "merge_session collate s (x # xs) =
     (if session_key x = session_key s then join_events collate x s # xs
      else x # merge_session collate s xs)"

definition merged_sessions ::
  "(string \<Rightarrow> string \<Rightarrow> int) \<Rightarrow> visitor_trace list \<Rightarrow> trace_session list"
where
  "merged_sessions collate pages =
     js_sort (earlier_session collate)
       (fold (merge_session collate) (concat (map vt_sessions pages)) [])"

subsection \<open>State\<close>

type_synonym trace_query = "string \<times> string \<times> string \<times> bool \<times> string"
  \<comment> \<open>site, environment, subject, scope, cursor\<close>

record explorer =
  ux_site :: string
  ux_environment :: string
  ux_subject :: string
  ux_requested :: string
  ux_person :: bool
  ux_input :: string
  ux_query :: string
  ux_pages :: "visitor_trace list"
  ux_cursor :: string
  ux_data :: "visitor_trace option"
  ux_answers :: "(trace_query \<times> visitor_trace) list"   \<comment> \<open>everything the server has answered\<close>

definition trace_query_of :: "explorer \<Rightarrow> trace_query" where
  "trace_query_of s = (ux_site s, ux_environment s, ux_subject s, ux_person s, ux_cursor s)"

definition search_enabled :: "explorer \<Rightarrow> bool" where
  "search_enabled s \<longleftrightarrow> ux_site s \<noteq> [] \<and> length (ux_query s) \<ge> 2"

definition trace_enabled :: "explorer \<Rightarrow> bool" where
  "trace_enabled s \<longleftrightarrow> ux_site s \<noteq> [] \<and> ux_subject s \<noteq> []"

text \<open>A key that changes leaves the data of the previous one behind.\<close>

definition rekeyed :: "explorer \<Rightarrow> explorer \<Rightarrow> explorer" where
  "rekeyed old s = (if trace_query_of s = trace_query_of old then s else s\<lparr>ux_data := None\<rparr>)"

subsection \<open>Handlers and effects\<close>

definition add_page :: "visitor_trace \<Rightarrow> visitor_trace list \<Rightarrow> visitor_trace list" where
  "add_page d previous =
     (let seen = concat (map (\<lambda>p. map (\<lambda>s. ts_session_id s @ traceCursor (vt_paging p)) (vt_sessions p)) previous) in
      if seen \<noteq> [] \<and> list_ex (\<lambda>p. traceCursor (vt_paging p) = traceCursor (vt_paging d)) previous
      then previous else previous @ [d])"

text \<open>The parameters of the address; absent and empty are the same, and so are all other scopes.\<close>

definition params_arrived :: "string \<Rightarrow> string \<Rightarrow> bool \<Rightarrow> explorer \<Rightarrow> explorer" where
  "params_arrived visitor q person s =
     (let t = s\<lparr>ux_subject := visitor, ux_requested := q, ux_person := person\<rparr>;
          t = (if visitor = ux_subject s \<and> person = ux_person s \<and> q = ux_requested s then t
               else t\<lparr>ux_input := or_str visitor q, ux_pages := [], ux_cursor := []\<rparr>);
          t = (if q \<noteq> ux_requested s \<and> q \<noteq> [] then t\<lparr>ux_query := q\<rparr> else t)
      in rekeyed s t)"

definition open_visitor :: "string \<Rightarrow> bool \<Rightarrow> explorer \<Rightarrow> explorer" where
  "open_visitor value person s = params_arrived value [] person s"

definition read_params :: "params \<Rightarrow> string \<times> string \<times> bool" where
  "read_params ps =
     (case param_get ps ''visitor'' of Some v \<Rightarrow> v | None \<Rightarrow> [],
      case param_get ps ''q'' of Some q \<Rightarrow> q | None \<Rightarrow> [],
      param_get ps ''scope'' \<noteq> Some ''device'')"

definition answer_arrived :: "trace_query \<Rightarrow> visitor_trace \<Rightarrow> explorer \<Rightarrow> explorer" where
  "answer_arrived key d s =
     (let t = s\<lparr>ux_answers := (key, d) # ux_answers s\<rparr> in
      if key \<noteq> trace_query_of s \<or> \<not> trace_enabled s \<or> ux_data s = Some d then t
      else t\<lparr>ux_data := Some d, ux_pages := add_page d (ux_pages s)\<rparr>)"

definition press_search :: "explorer \<Rightarrow> explorer" where
  "press_search s = (if length (js_trim (ux_input s)) < 2 then s else s\<lparr>ux_query := js_trim (ux_input s)\<rparr>)"

definition press_search_enter :: "explorer \<Rightarrow> explorer" where
  "press_search_enter s = (if js_trim (ux_input s) = [] then s else s\<lparr>ux_query := js_trim (ux_input s)\<rparr>)"

definition press_follow :: "explorer \<Rightarrow> explorer" where
  "press_follow s = (if js_trim (ux_input s) = [] then s else open_visitor (js_trim (ux_input s)) True s)"

definition latest_trace :: "explorer \<Rightarrow> visitor_trace option" where
  "latest_trace s = (if ux_pages s \<noteq> [] then Some (last (ux_pages s)) else ux_data s)"

definition shown_trace :: "(string \<Rightarrow> string \<Rightarrow> int) \<Rightarrow> explorer \<Rightarrow> visitor_trace option" where
  "shown_trace collate s =
     map_option (\<lambda>t. t\<lparr>vt_sessions := merged_sessions collate (ux_pages s)\<rparr>) (latest_trace s)"

text \<open>
  The button is off while the next page is being fetched; its cursor would be the one asked for.
  Pressing the scope that is shown gives no value, and a visitor without a user has no person.
\<close>

definition load_more :: "explorer \<Rightarrow> explorer" where
  "load_more s =
     (case latest_trace s of
        None \<Rightarrow> s
      | Some t \<Rightarrow>
          if tp_has_more (vt_paging t) then rekeyed s (s\<lparr>ux_cursor := traceCursor (vt_paging t)\<rparr>) else s)"

definition scope_chosen :: "bool \<Rightarrow> explorer \<Rightarrow> explorer" where
  "scope_chosen person s =
     (case latest_trace s of
        None \<Rightarrow> s
      | Some t \<Rightarrow>
          if vt_person t = person \<or> person \<and> vt_user_id t \<in> {None, Some []} then s
          else open_visitor (ux_subject s) person s)"

definition site_chosen :: "string \<Rightarrow> string \<Rightarrow> explorer \<Rightarrow> explorer" where
  "site_chosen site environment s =
     rekeyed s (s\<lparr>ux_site := site, ux_environment := environment\<rparr>)"

datatype explorer_event =
    Params string string bool
  | TypeInput string
  | SearchEnter
  | SearchClick
  | FollowClick
  | OpenRow string                     \<comment> \<open>a visitor of the search result\<close>
  | OpenDevice string                  \<comment> \<open>one of the visitor's devices\<close>
  | ScopeClick bool
  | MoreClick
  | Answer trace_query visitor_trace
  | Site string string

fun explorer_step :: "explorer_event \<Rightarrow> explorer \<Rightarrow> explorer" where
  "explorer_step (Params v q person) s = params_arrived v q person s"
| "explorer_step (TypeInput i) s = s\<lparr>ux_input := i\<rparr>"
| "explorer_step SearchEnter s = press_search_enter s"
| "explorer_step SearchClick s = press_search s"
| "explorer_step FollowClick s = press_follow s"
| "explorer_step (OpenRow v) s = open_visitor v True s"
| "explorer_step (OpenDevice v) s = open_visitor v False s"
| "explorer_step (ScopeClick person) s = scope_chosen person s"
| "explorer_step MoreClick s = load_more s"
| "explorer_step (Answer key d) s = answer_arrived key d s"
| "explorer_step (Site a b) s = site_chosen a b s"

definition explorer_start :: "string \<Rightarrow> string \<Rightarrow> string \<Rightarrow> string \<Rightarrow> bool \<Rightarrow> explorer" where
  "explorer_start site environment visitor q person =
     \<lparr>ux_site = site, ux_environment = environment, ux_subject = visitor, ux_requested = q,
      ux_person = person, ux_input = or_str visitor q, ux_query = q, ux_pages = [], ux_cursor = [],
      ux_data = None, ux_answers = []\<rparr>"

subsection \<open>What merging keeps\<close>

definition event_ids :: "trace_session \<Rightarrow> string set" where
  "event_ids s = set (map te_event_id (ts_events s))"

definition proper :: "trace_session \<Rightarrow> bool" where
  "proper s = distinct (map te_event_id (ts_events s))"

lemma mset_map_sort: "mset (map f (js_sort gt xs)) = mset (map f xs)"
  by simp

lemma join_events_facts:
  "session_key (join_events c x s) = session_key x"
  "ts_started_at (join_events c x s) = ts_started_at x"
  "event_ids (join_events c x s) = event_ids x \<union> event_ids s"
  "proper x \<Longrightarrow> proper s \<Longrightarrow> proper (join_events c x s)"
proof -
  show "session_key (join_events c x s) = session_key x"
    "ts_started_at (join_events c x s) = ts_started_at x"
    by (simp_all add: join_events_def session_key_def)
  show "event_ids (join_events c x s) = event_ids x \<union> event_ids s"
    by (auto simp: join_events_def event_ids_def)
  assume d: "proper x" "proper s"
  let ?new = "filter (\<lambda>e. te_event_id e \<notin> set (map te_event_id (ts_events x))) (ts_events s)"
  have "distinct (map te_event_id (?new @ ts_events x))"
    using d by (auto simp: proper_def distinct_map inj_on_def)
  moreover have "mset (map te_event_id (js_sort (later_event c) (?new @ ts_events x)))
      = mset (map te_event_id (?new @ ts_events x))" by (rule mset_map_sort)
  ultimately have "distinct (map te_event_id (js_sort (later_event c) (?new @ ts_events x)))"
    using mset_eq_imp_distinct_iff by blast
  then show "proper (join_events c x s)" by (simp add: proper_def join_events_def)
qed

text \<open>The ids of the events of all sessions with a key.\<close>

definition ids_of :: "string \<Rightarrow> trace_session list \<Rightarrow> string set" where
  "ids_of k xs = (\<Union>x \<in> {x \<in> set xs. session_key x = k}. event_ids x)"

lemma ids_of_simps [simp]:
  "ids_of k [] = {}"
  "ids_of k (x # xs) = (if session_key x = k then event_ids x else {}) \<union> ids_of k xs"
  by (auto simp: ids_of_def)

lemma merge_session_facts:
  "set (map session_key (merge_session c s xs)) = insert (session_key s) (set (map session_key xs))"
  "distinct (map session_key xs) \<Longrightarrow> distinct (map session_key (merge_session c s xs))"
  "ids_of k (merge_session c s xs) = ids_of k xs \<union> (if session_key s = k then event_ids s else {})"
  "list_all proper xs \<Longrightarrow> proper s \<Longrightarrow> list_all proper (merge_session c s xs)"
proof -
  show keys: "set (map session_key (merge_session c s xs)) = insert (session_key s) (set (map session_key xs))"
    for xs by (induction xs) (auto simp: join_events_facts)
  show "distinct (map session_key xs) \<Longrightarrow> distinct (map session_key (merge_session c s xs))"
    using keys by (induction xs) (auto simp: join_events_facts)
  show "ids_of k (merge_session c s xs) = ids_of k xs \<union> (if session_key s = k then event_ids s else {})"
    by (induction xs) (auto simp: join_events_facts)
  show "list_all proper xs \<Longrightarrow> proper s \<Longrightarrow> list_all proper (merge_session c s xs)"
    by (induction xs) (auto simp: join_events_facts)
qed

lemma merge_all_facts:
  "set (map session_key (fold (merge_session c) ss xs)) = set (map session_key xs) \<union> set (map session_key ss)"
  "distinct (map session_key xs) \<Longrightarrow> distinct (map session_key (fold (merge_session c) ss xs))"
  "ids_of k (fold (merge_session c) ss xs) = ids_of k xs \<union> ids_of k ss"
  "list_all proper xs \<Longrightarrow> list_all proper ss \<Longrightarrow> list_all proper (fold (merge_session c) ss xs)"
proof -
  show "set (map session_key (fold (merge_session c) ss xs)) = set (map session_key xs) \<union> set (map session_key ss)"
    by (induction ss arbitrary: xs) (simp_all only: fold_simps merge_session_facts(1), auto)
  show "distinct (map session_key xs) \<Longrightarrow> distinct (map session_key (fold (merge_session c) ss xs))"
    by (induction ss arbitrary: xs) (simp_all add: merge_session_facts(2))
  show "ids_of k (fold (merge_session c) ss xs) = ids_of k xs \<union> ids_of k ss"
    by (induction ss arbitrary: xs) (auto simp: merge_session_facts(3))
  show "list_all proper xs \<Longrightarrow> list_all proper ss \<Longrightarrow> list_all proper (fold (merge_session c) ss xs)"
    by (induction ss arbitrary: xs) (simp_all add: merge_session_facts(4))
qed

lemma session_order: "collation c \<Longrightarrow> sort_order (earlier_session c)"
proof
  fix a b d
  assume "collation c"
  note flip = collation_flip [OF this] and trans = collation_trans [OF this]
  show "earlier_session c a b \<Longrightarrow> \<not> earlier_session c b a"
    using flip [of "ts_started_at a" "ts_started_at b"] by (auto simp: earlier_session_def sgn_if split: if_splits)
  show "\<not> earlier_session c a b \<Longrightarrow> \<not> earlier_session c b d \<Longrightarrow> \<not> earlier_session c a d"
    using trans [of "ts_started_at b" "ts_started_at a" "ts_started_at d"]
      trans [of "ts_started_at d" "ts_started_at b" "ts_started_at a"] by (auto simp: earlier_session_def)
qed

text \<open>
  C14: The sessions shown are those of all pages loaded, each once and the latest first; the events of
  a session are those that any page had of it, each once, so a session cut by a page boundary is
  complete when its pages are loaded.
\<close>

theorem trace_pages_merge:
  assumes "collation c" "\<forall>p \<in> set pages. list_all proper (vt_sessions p)"
  shows "let shown = merged_sessions c pages; all = concat (map vt_sessions pages) in
    distinct (map session_key shown)
    \<and> set (map session_key shown) = set (map session_key all)
    \<and> (\<forall>s \<in> set shown. proper s \<and> event_ids s = ids_of (session_key s) all)
    \<and> sorted_wrt (\<lambda>a b. \<not> earlier_session c a b) shown"
proof -
  define all where "all = concat (map vt_sessions pages)"
  define joined where "joined = fold (merge_session c) all []"
  have shown: "merged_sessions c pages = js_sort (earlier_session c) joined"
    by (simp add: merged_sessions_def joined_def all_def)
  have "mset (map session_key (merged_sessions c pages)) = mset (map session_key joined)"
    unfolding shown by (rule mset_map_sort)
  moreover have dist: "distinct (map session_key joined)"
    unfolding joined_def by (rule merge_all_facts(2)) simp
  ultimately have "distinct (map session_key (merged_sessions c pages))"
    using mset_eq_imp_distinct_iff by blast
  moreover have "set (map session_key (merged_sessions c pages)) = set (map session_key all)"
    using merge_all_facts(1) [of c all "[]"] unfolding shown joined_def by simp
  moreover have "list_all proper all"
    using assms(2) by (auto simp: all_def list_all_iff)
  then have "list_all proper joined" unfolding joined_def by (intro merge_all_facts(4)) simp_all
  then have "\<forall>s \<in> set (merged_sessions c pages). proper s" by (simp add: shown list_all_iff)
  moreover have "event_ids s = ids_of (session_key s) all" if "s \<in> set (merged_sessions c pages)" for s
  proof -
    have s: "s \<in> set joined" using that by (simp add: shown)
    then have "{x \<in> set joined. session_key x = session_key s} = {s}"
      using dist by (auto simp: distinct_map inj_on_def)
    then have "ids_of (session_key s) joined = event_ids s" by (simp add: ids_of_def)
    then show ?thesis using merge_all_facts(3) [of "session_key s" c all "[]"] by (simp add: joined_def)
  qed
  moreover have "sorted_wrt (\<lambda>a b. \<not> earlier_session c a b) (merged_sessions c pages)"
    unfolding shown by (rule sort_order.sorted [OF session_order [OF assms(1)]])
  ultimately show ?thesis unfolding Let_def all_def by blast
qed

subsection \<open>Whose pages are shown\<close>

text \<open>The server gave the page for what the console shows: site, environment, visitor and scope.\<close>

definition answered :: "explorer \<Rightarrow> visitor_trace \<Rightarrow> bool" where
  "answered s p \<longleftrightarrow>
     (\<exists>cursor. ((ux_site s, ux_environment s, ux_subject s, ux_person s, cursor), p) \<in> set (ux_answers s))"

definition pages_answered :: "explorer \<Rightarrow> bool" where
  "pages_answered s \<longleftrightarrow> (\<forall>p \<in> set (ux_pages s). answered s p)
     \<and> (\<forall>d. ux_data s = Some d \<longrightarrow> answered s d)"

lemma set_add_page: "set (add_page d ps) \<subseteq> insert d (set ps)"
  by (auto simp: add_page_def Let_def)

lemma params_answered:
  assumes "pages_answered s"
  shows "pages_answered (params_arrived v q person s)"
proof (cases "v = ux_subject s \<and> person = ux_person s")
  case True
  then show ?thesis using assms
    by (auto simp: pages_answered_def params_arrived_def rekeyed_def answered_def trace_query_of_def Let_def)
next
  case False
  then have "ux_pages (params_arrived v q person s) = []" "ux_data (params_arrived v q person s) = None"
    by (auto simp: params_arrived_def rekeyed_def trace_query_of_def Let_def)
  then show ?thesis by (simp add: pages_answered_def)
qed

lemma answer_answered:
  assumes "pages_answered s"
  shows "pages_answered (answer_arrived key d s)"
proof -
  define t where "t = s\<lparr>ux_answers := (key, d) # ux_answers s\<rparr>"
  have t: "pages_answered t"
    using assms by (auto simp: t_def pages_answered_def answered_def)
  show ?thesis
  proof (cases "key \<noteq> trace_query_of s \<or> \<not> trace_enabled s \<or> ux_data s = Some d")
    case True
    then show ?thesis using t by (simp add: answer_arrived_def t_def)
  next
    case False
    then have "answered t d" by (auto simp: answered_def t_def trace_query_of_def)
    then have "pages_answered (t\<lparr>ux_data := Some d, ux_pages := add_page d (ux_pages s)\<rparr>)"
      using t set_add_page [of d "ux_pages s"] unfolding pages_answered_def answered_def t_def by auto
    then show ?thesis using False by (simp add: answer_arrived_def t_def)
  qed
qed

lemma input_answered [simp]:
  "pages_answered (s\<lparr>ux_input := i\<rparr>) = pages_answered s"
  "pages_answered (s\<lparr>ux_query := i\<rparr>) = pages_answered s"
  by (simp_all add: pages_answered_def answered_def)

lemma cursor_answered: "pages_answered s \<Longrightarrow> pages_answered (rekeyed s (s\<lparr>ux_cursor := c\<rparr>))"
  by (simp add: pages_answered_def answered_def rekeyed_def)

definition keeps_site :: "explorer_event \<Rightarrow> bool" where
  "keeps_site e = (case e of Site a b \<Rightarrow> False | _ \<Rightarrow> True)"

lemma step_answered: "keeps_site e \<Longrightarrow> pages_answered s \<Longrightarrow> pages_answered (explorer_step e s)"
  by (cases e) (simp_all add: keeps_site_def params_answered answer_answered cursor_answered
    press_search_enter_def press_search_def press_follow_def open_visitor_def scope_chosen_def
    load_more_def split: option.split)

lemma run_answered:
  "list_all keeps_site es \<Longrightarrow> pages_answered s \<Longrightarrow> pages_answered (fold explorer_step es s)"
  by (induction es arbitrary: s) (simp_all add: step_answered)

text \<open>
  While the site and the environment stay, every page behind the trace that is shown was the
  server's answer for the visitor and the scope in the address, however visitors, scopes and
  searches were changed in between and in whatever order the answers arrived.
\<close>

theorem trace_is_of_its_visitor:
  assumes "list_all keeps_site es" "s = fold explorer_step es (explorer_start site environment v q person)"
    and "p \<in> set (ux_pages s) \<or> ux_data s = Some p"
  shows "\<exists>cursor.
    ((ux_site s, ux_environment s, ux_subject s, ux_person s, cursor), p) \<in> set (ux_answers s)"
proof -
  have "pages_answered (explorer_start site environment v q person)"
    by (simp add: pages_answered_def explorer_start_def)
  then have "pages_answered s" unfolding assms(2) by (rule run_answered [OF assms(1)])
  then show ?thesis using assms(3) by (auto simp: pages_answered_def answered_def)
qed

subsection \<open>Concrete traces\<close>

definition plain_event :: "string \<Rightarrow> string \<Rightarrow> trace_event" where
  "plain_event i t = \<lparr>te_name = ''page_view'', te_timestamp = t, te_page_url = [],
     te_is_conversion = False, te_properties = None, te_seconds_since_previous = 0,
     te_identified = False, te_event_id = i, te_visitor_id = ''v'', te_session_id = [],
     te_user_id = None, te_page_title = None, te_referrer = None, te_environment = ''prd'',
     te_contract_version = 1, te_traffic_class = []\<rparr>"

definition plain_session :: "string \<Rightarrow> string \<Rightarrow> trace_event list \<Rightarrow> trace_session" where
  "plain_session i t es = \<lparr>ts_started_at = t, ts_duration_seconds = 0, ts_events = es,
     ts_event_count = length es, ts_page_views = length es, ts_conversions = 0, ts_engaged = True,
     ts_partial = False, ts_device_type = [], ts_browser = [], ts_source = [], ts_medium = [],
     ts_network = [], ts_landing_page = [], ts_exit_page = [], ts_session_id = i,
     ts_visitor_id = ''v'', ts_ended_at = t, ts_os = [], ts_campaign = [],
     ts_interaction_count = 0, ts_active_engagement_ms = 0\<rparr>"

definition plain_trace :: "trace_session list \<Rightarrow> string \<Rightarrow> visitor_trace" where
  "plain_trace ss before = \<lparr>vt_visitor_id = ''v'', vt_user_id = None, vt_person = True,
     vt_visitor_ids = [''v''], vt_user_properties = None,
     vt_summary = \<lparr>tm_first_seen = None, tm_last_seen = None, tm_events = 0, tm_sessions = 0,
       tm_conversions = 0, tm_page_views = 0, tm_active_days = 0, tm_top_pages = [],
       tm_top_features = [], tm_devices = [], tm_networks = []\<rparr>,
     vt_other_sites = [], vt_identity_links = [], vt_sessions = ss,
     vt_paging = \<lparr>tp_window = ([], [], ''prd''), tp_limit = 200, tp_has_more = before \<noteq> [],
       tp_next_before = before, tp_next_before_id = None\<rparr>\<rparr>"

text \<open>A collator that compares texts character by character.\<close>

fun by_chars :: "string \<Rightarrow> string \<Rightarrow> int" where
  "by_chars [] [] = 0"
| "by_chars [] (d # ds) = - 1"
| "by_chars (c # cs) [] = 1"
| "by_chars (c # cs) (d # ds) =
     (if code_of c < code_of d then - 1 else if code_of d < code_of c then 1 else by_chars cs ds)"

lemma by_chars_flip: "by_chars t s = - by_chars s t"
proof (induction s t rule: by_chars.induct)
  case (4 c cs d ds)
  then show ?case by (cases "code_of c < code_of d"; cases "code_of d < code_of c") simp_all
qed simp_all

lemma by_chars_trans: "by_chars s t \<le> 0 \<Longrightarrow> by_chars t u \<le> 0 \<Longrightarrow> by_chars s u \<le> 0"
proof (induction s t arbitrary: u rule: by_chars.induct)
  case (4 c cs d ds)
  show ?case
  proof (cases u)
    case (Cons e es)
    show ?thesis
    proof (cases "code_of c = code_of d \<and> code_of d = code_of e")
      case True
      then show ?thesis using 4 Cons by simp
    next
      case False
      then have "code_of c < code_of e" using 4(2,3) Cons by (auto split: if_splits)
      then show ?thesis using Cons by simp
    qed
  qed (use 4(3) in simp)
next
  case (1 u)
  then show ?case by simp
next
  case (2 d ds u)
  then show ?case by (cases u) auto
qed auto

lemma by_chars_collation: "collation by_chars"
proof -
  have "sgn (by_chars t s) = - sgn (by_chars s t)" for s t
    by (subst by_chars_flip) (simp add: sgn_if)
  then show ?thesis unfolding collation_def using by_chars_trans by blast
qed

definition two_pages :: "visitor_trace list" where
  "two_pages =
     [plain_trace [plain_session ''s2'' ''09:00'' [plain_event ''e3'' ''09:00''],
                   plain_session ''s1'' ''08:00'' [plain_event ''e2'' ''08:20'']] ''08:20'',
      plain_trace [plain_session ''s1'' ''08:00'' [plain_event ''e1'' ''08:10'', plain_event ''e2'' ''08:20'']] []]"

lemma trace_pages_merge_witness:
  "map (\<lambda>s. (ts_session_id s, map te_event_id (ts_events s))) (merged_sessions by_chars two_pages) =
     [(''s2'', [''e3'']), (''s1'', [''e1'', ''e2''])]
   \<and> distinct (map session_key (merged_sessions by_chars two_pages))"
proof -
  have "\<forall>p \<in> set two_pages. list_all proper (vt_sessions p)" by code_simp
  from trace_pages_merge [OF by_chars_collation this]
  have "distinct (map session_key (merged_sessions by_chars two_pages))" by (simp add: Let_def)
  moreover have "map (\<lambda>s. (ts_session_id s, map te_event_id (ts_events s)))
      (merged_sessions by_chars two_pages) = [(''s2'', [''e3'']), (''s1'', [''e1'', ''e2''])]"
    by code_simp
  ultimately show ?thesis by blast
qed

definition late_answers :: "explorer_event list" where
  "late_answers =
     [OpenRow ''w'', Answer (''a'', ''prd'', ''v'', True, []) (hd two_pages),
      Answer (''a'', ''prd'', ''w'', True, []) (last two_pages)]"

lemma trace_is_of_its_visitor_witness:
  "ux_pages (fold explorer_step late_answers (explorer_start ''a'' ''prd'' ''v'' [] True)) = [last two_pages]
   \<and> (\<exists>cursor. ((''a'', ''prd'', ''w'', True, cursor), last two_pages) \<in> set (ux_answers
        (fold explorer_step late_answers (explorer_start ''a'' ''prd'' ''v'' [] True))))"
proof -
  let ?s = "fold explorer_step late_answers (explorer_start ''a'' ''prd'' ''v'' [] True)"
  have pages: "ux_pages ?s = [last two_pages]"
    and now_shown: "(ux_site ?s, ux_environment ?s, ux_subject ?s, ux_person ?s) = (''a'', ''prd'', ''w'', True)"
    by code_simp+
  have "list_all keeps_site late_answers" by code_simp
  from trace_is_of_its_visitor [OF this refl, of "last two_pages" "''a''" "''prd''" "''v''" "[]" True]
  show ?thesis using pages now_shown by simp
qed

text \<open>
  Choosing another site does not clear the pages: the answer of the new site is dropped when both
  traces end on this page, and the trace of the old site stays; otherwise both are mixed.
\<close>

lemma other_site_keeps_trace:
  "let old = plain_trace [plain_session ''s1'' ''08:00'' [plain_event ''e1'' ''08:10'']] [];
       new = plain_trace [plain_session ''s7'' ''10:00'' [plain_event ''e7'' ''10:00'']] [];
       s = fold explorer_step
         [Answer (''a'', ''prd'', ''v'', True, []) old, Site ''b'' ''prd'',
          Answer (''b'', ''prd'', ''v'', True, []) new]
         (explorer_start ''a'' ''prd'' ''v'' [] True)
   in ux_site s = ''b'' \<and> map ts_session_id (merged_sessions by_chars (ux_pages s)) = [''s1'']"
  by code_simp

end
