(* ===== verification/Asking.thy ===== *)
theory Asking
  imports Period QueryError
begin

section \<open>Asking the reader: confirmations and the period field\<close>

text \<open>
  \<open>ConfirmDialog.tsx\<close>, \<open>PeriodField.tsx\<close>, \<open>RangeSelect.tsx\<close> and \<open>AnalysisToolbar.tsx\<close> of
  \<open>web/src/components\<close>. A confirmation is a promise that one dialog at the root of the console
  settles; promises are numbered in the order in which they are made. The period field writes the
  period of a screen into the address, whose parameters are its state.
\<close>

subsection \<open>Confirmations\<close>

record confirm_options =
  co_title :: string
  co_description :: "string option"
  co_confirmLabel :: "string option"
  co_destructive :: "bool option"

record confirm_state =
  cf_options :: "confirm_options option"
  cf_resolver :: "nat option"          \<comment> \<open>the promise that waits for an answer\<close>
  cf_next :: nat
  cf_settled :: "(nat \<times> bool) list"   \<comment> \<open>the promises settled, and with what\<close>

definition confirm_start :: confirm_state where
  "confirm_start = \<lparr>cf_options = None, cf_resolver = None, cf_next = 0, cf_settled = []\<rparr>"

definition resolve :: "bool \<Rightarrow> confirm_state \<Rightarrow> confirm_state" where
  "resolve v s =
     (case cf_resolver s of None \<Rightarrow> s | Some n \<Rightarrow> s\<lparr>cf_settled := cf_settled s @ [(n, v)]\<rparr>)"

definition confirm :: "confirm_options \<Rightarrow> confirm_state \<Rightarrow> confirm_state" where
  "confirm next_options s =
     (resolve False s)\<lparr>cf_options := Some next_options, cf_resolver := Some (cf_next s),
        cf_next := Suc (cf_next s)\<rparr>"

definition close_dialog :: "bool \<Rightarrow> confirm_state \<Rightarrow> confirm_state" where
  "close_dialog v s = (resolve v s)\<lparr>cf_resolver := None, cf_options := None\<rparr>"

definition is_destructive :: "confirm_options \<Rightarrow> bool" where
  "is_destructive q = (case co_destructive q of Some b \<Rightarrow> b | None \<Rightarrow> True)"

datatype confirm_event = Ask confirm_options | Close bool

fun confirm_step :: "confirm_event \<Rightarrow> confirm_state \<Rightarrow> confirm_state" where
  "confirm_step (Ask q) s = confirm q s"
| "confirm_step (Close v) s = close_dialog v s"

text \<open>
  What the questions are answered with, read off the events: the answer is the one given to the
  dialog while the question is shown, and no when another question takes its place.
\<close>

fun reply :: "confirm_event list \<Rightarrow> bool option" where
  "reply [] = None"
| "reply (Ask q # es) = Some False"
| "reply (Close v # es) = Some v"

fun replies :: "confirm_event list \<Rightarrow> bool option list" where
  "replies [] = []"
| "replies (Ask q # es) = reply es # replies es"
| "replies (Close v # es) = replies es"

text \<open>The answers a state gives, from the question with number \<open>k\<close> on.\<close>

definition answer_of :: "confirm_state \<Rightarrow> nat \<Rightarrow> bool option" where
  "answer_of s n = map_of (cf_settled s) n"

definition confirm_ok :: "confirm_state \<Rightarrow> bool" where
  "confirm_ok s \<longleftrightarrow>
     distinct (map fst (cf_settled s)) \<and> (\<forall>p \<in> set (cf_settled s). fst p < cf_next s)
     \<and> (\<forall>n. cf_resolver s = Some n \<longrightarrow> n < cf_next s \<and> n \<notin> fst ` set (cf_settled s))
     \<and> (cf_options s = None \<longleftrightarrow> cf_resolver s = None)"

lemma confirm_step_ok: "confirm_ok s \<Longrightarrow> confirm_ok (confirm_step e s)"
  by (cases e) (auto simp: confirm_ok_def confirm_def close_dialog_def resolve_def split: option.split)

lemma confirm_run_ok: "confirm_ok s \<Longrightarrow> confirm_ok (fold confirm_step es s)"
  by (induction es arbitrary: s) (simp_all add: confirm_step_ok)

lemma settled_stays:
  "confirm_ok s \<Longrightarrow> answer_of s n = Some v \<Longrightarrow> answer_of (fold confirm_step es s) n = Some v"
proof (induction es arbitrary: s)
  case (Cons e es)
  have "answer_of (confirm_step e s) n = Some v"
    using Cons.prems
    by (cases e) (auto simp: answer_of_def confirm_def close_dialog_def resolve_def map_add_def
      split: option.split)
  then show ?case using Cons by (simp add: confirm_step_ok)
qed simp

lemma resolved_answer:
  "confirm_ok s \<Longrightarrow> cf_resolver s = Some n \<Longrightarrow> answer_of (resolve v s) n = Some v"
  by (simp add: answer_of_def resolve_def confirm_ok_def map_add_def map_of_eq_None_iff [THEN iffD2])

lemma open_unanswered: "confirm_ok s \<Longrightarrow> cf_resolver s = Some n \<Longrightarrow> answer_of s n = None"
  by (simp add: answer_of_def confirm_ok_def map_of_eq_None_iff)

lemma run_replies:
  assumes "confirm_ok s"
  shows "cf_next (fold confirm_step es s) = cf_next s + length (replies es)
    \<and> (\<forall>i < length (replies es). answer_of (fold confirm_step es s) (cf_next s + i) = replies es ! i)
    \<and> (\<forall>n. cf_resolver s = Some n \<longrightarrow> answer_of (fold confirm_step es s) n = reply es)"
  using assms
proof (induction es arbitrary: s)
  case Nil
  then show ?case by (simp add: open_unanswered)
next
  case (Cons e es)
  let ?t = "confirm_step e s" and ?u = "fold confirm_step es (confirm_step e s)"
  have ok: "confirm_ok ?t" by (rule confirm_step_ok [OF Cons.prems])
  note IH = Cons.IH [OF ok]
  show ?case
  proof (cases e)
    case (Ask q)
    have next_q: "cf_next ?t = Suc (cf_next s)" and res: "cf_resolver ?t = Some (cf_next s)"
      by (simp_all add: Ask confirm_def)
    have "answer_of ?u (cf_next s + i) = replies (e # es) ! i" if "i < length (replies (e # es))" for i
      using that IH next_q res by (cases i) (auto simp: Ask)
    moreover have "answer_of ?u n = Some False" if "cf_resolver s = Some n" for n
    proof -
      have "answer_of ?t n = answer_of (resolve False s) n" by (simp add: Ask confirm_def answer_of_def)
      then show ?thesis using settled_stays [OF ok] resolved_answer [OF Cons.prems that] by simp
    qed
    ultimately show ?thesis using IH next_q by (simp add: Ask)
  next
    case (Close v)
    have next_q: "cf_next ?t = cf_next s"
      by (simp add: Close close_dialog_def resolve_def split: option.split)
    moreover have "answer_of ?u n = Some v" if "cf_resolver s = Some n" for n
    proof -
      have "answer_of ?t n = answer_of (resolve v s) n" by (simp add: Close close_dialog_def answer_of_def)
      then show ?thesis using settled_stays [OF ok] resolved_answer [OF Cons.prems that] by simp
    qed
    ultimately show ?thesis using IH by (simp add: Close)
  qed
qed

text \<open>
  C13: Every question is answered at most once, and with what the reader chose while it was shown: yes
  only by the button of its own dialog, no when the dialog was closed or another question took its
  place; only the last question can be without an answer, so no caller waits for ever behind a
  question that is no longer shown.
\<close>

theorem questions_get_their_answer:
  assumes "s = fold confirm_step es confirm_start"
  shows "distinct (map fst (cf_settled s)) \<and> cf_next s = length (replies es)
    \<and> (\<forall>i < length (replies es). answer_of s i = replies es ! i)
    \<and> (\<forall>i. Suc i < length (replies es) \<longrightarrow> answer_of s i \<noteq> None)"
proof -
  have start: "confirm_ok confirm_start" by (simp add: confirm_ok_def confirm_start_def)
  have "Suc i < length (replies es) \<Longrightarrow> replies es ! i \<noteq> None" for i
  proof (induction es arbitrary: i rule: replies.induct)
    case (2 q es)
    have "reply es \<noteq> None" if "replies es \<noteq> []" for es
      using that by (cases es rule: reply.cases) auto
    then show ?case using 2 by (cases i) auto
  qed simp_all
  then show ?thesis
    using run_replies [OF start, of es] confirm_run_ok [OF start, of es]
    by (simp add: assms confirm_ok_def confirm_start_def)
qed

definition plain_question :: confirm_options where
  "plain_question = \<lparr>co_title = ''?'', co_description = None, co_confirmLabel = None, co_destructive = None\<rparr>"

lemma questions_get_their_answer_witness:
  "let s = fold confirm_step [Ask plain_question, Ask plain_question, Close True, Close False, Ask plain_question]
       confirm_start
   in map (answer_of s) [0, 1, 2] = [Some False, Some True, None]"
proof -
  let ?es = "[Ask plain_question, Ask plain_question, Close True, Close False, Ask plain_question]"
  have r: "replies ?es = [Some False, Some True, None]" by simp
  have "answer_of (fold confirm_step ?es confirm_start) i = [Some False, Some True, None] ! i" if "i < 3" for i
    using questions_get_their_answer [OF refl, of ?es] that unfolding r by simp
  from this [of 0] this [of 1] this [of 2] show ?thesis unfolding Let_def by (simp del: fold.simps)
qed

subsection \<open>The period field\<close>

text \<open>
  The address holds the period; the field has the dialog for a direct range. \<open>options\<close> are the
  periods of the screen (\<open>[7, 30, 90]\<close> for the toolbar), of which those over the site's policy are
  left out.
\<close>

definition CUSTOM :: string where
  "CUSTOM = ''custom''"

record period_field =
  pf_params :: params
  pf_open :: bool
  pf_draft :: date_range

record field_context =
  fc_fallback :: nat
  fc_options :: "nat list"             \<comment> \<open>what the screen accepts from the address\<close>
  fc_max :: "int option"               \<comment> \<open>the policy of the site\<close>
  fc_today :: "int \<times> int \<times> int"

definition field_period :: "field_context \<Rightarrow> period_field \<Rightarrow> period" where
  "field_period c s = usePeriodParam (pf_params s) (fc_fallback c) (fc_options c)"

definition offered_periods :: "field_context \<Rightarrow> int list" where
  "offered_periods c = allowedRanges (map int (fc_options c)) (fc_max c)"

definition field_today :: "field_context \<Rightarrow> string" where
  "field_today c = to_day (dateRangeValues 1 (fc_today c))"

definition field_value :: "field_context \<Rightarrow> period_field \<Rightarrow> string" where
  "field_value c s = (if custom (field_period c s) \<noteq> None then CUSTOM else int_text (days (field_period c s)))"

definition draft_problem :: "field_context \<Rightarrow> period_field \<Rightarrow> range_problem option" where
  "draft_problem c s = rangeProblem (pf_draft s) (field_today c) (fc_max c)"

definition choose_days :: "field_context \<Rightarrow> nat \<Rightarrow> period_field \<Rightarrow> period_field" where
  "choose_days c n s = s\<lparr>pf_params := withPeriod (pf_params s) n (fc_fallback c)\<rparr>"

definition open_picker :: "field_context \<Rightarrow> period_field \<Rightarrow> period_field" where
  "open_picker c s =
     s\<lparr>pf_draft := (case custom (field_period c s) of
          Some r \<Rightarrow> r | None \<Rightarrow> dateRangeValues (days (field_period c s)) (fc_today c)),
       pf_open := True\<rparr>"

definition apply_range :: "field_context \<Rightarrow> period_field \<Rightarrow> period_field" where
  "apply_range c s =
     (if draft_problem c s \<noteq> None then s
      else s\<lparr>pf_params := withRange (pf_params s) (Some (pf_draft s)), pf_open := False\<rparr>)"

definition clear_range :: "period_field \<Rightarrow> period_field" where
  "clear_range s = s\<lparr>pf_params := withRange (pf_params s) None, pf_open := False\<rparr>"

datatype field_event =
    ChooseDays nat
  | OpenPicker
  | TypeFrom string
  | TypeTo string
  | ApplyRange
  | ClearRange
  | CancelPicker

fun field_step :: "field_context \<Rightarrow> field_event \<Rightarrow> period_field \<Rightarrow> period_field" where
  "field_step c (ChooseDays n) s = (if int n \<in> set (offered_periods c) then choose_days c n s else s)"
| "field_step c OpenPicker s = open_picker c s"
| "field_step c (TypeFrom d) s = (if pf_open s then s\<lparr>pf_draft := (pf_draft s)\<lparr>from_day := d\<rparr>\<rparr> else s)"
| "field_step c (TypeTo d) s = (if pf_open s then s\<lparr>pf_draft := (pf_draft s)\<lparr>to_day := d\<rparr>\<rparr> else s)"
| "field_step c ApplyRange s = (if pf_open s then apply_range c s else s)"
| "field_step c ClearRange s =
     (if pf_open s \<and> custom (field_period c s) \<noteq> None then clear_range s else s)"
| "field_step c CancelPicker s = s\<lparr>pf_open := False\<rparr>"

lemma unproblematic_range:
  assumes "rangeProblem r today m = None"
  shows "good_range r \<and> 1 \<le> rangeLength r \<and> (\<forall>k. m = Some k \<longrightarrow> 0 < k \<longrightarrow> rangeLength r \<le> k)"
proof -
  obtain a b where ab: "dayNumber (from_day r) = Some a" "dayNumber (to_day r) = Some b"
    using assms by (auto simp: rangeProblem_def split: option.splits)
  have "a \<le> b" "b - a + 1 \<le> MAX_RANGE_DAYS" "\<forall>k. m = Some k \<longrightarrow> 0 < k \<longrightarrow> b - a + 1 \<le> k"
    using assms ab by (auto simp: rangeProblem_def Let_def split: option.splits if_splits)
  then show ?thesis
    using ab digits_trim [OF ab(1)] digits_trim [OF ab(2)] date_nonempty [OF ab(1)] date_nonempty [OF ab(2)]
    by (simp add: good_range_def parseRange_def rangeLength_def or_zero_def)
qed

lemma period_of_range:
  "good_range r \<Longrightarrow> days (usePeriodParam (withRange ps (Some r)) fb opts) = rangeLength r
     \<and> custom (usePeriodParam (withRange ps (Some r)) fb opts) = Some r"
  using parseRange_nonempty [of _ _ r]
  by (simp add: usePeriodParam_def withRange_def good_range_def periodKey_def)

lemma period_of_days:
  assumes "n \<in> set opts" "n \<le> 9999"
  shows "days (usePeriodParam (withPeriod ps n fb) fb opts) = int n"
proof -
  have "parsePeriod (param_get (withPeriod ps n fb) PERIOD_PARAM) fb opts = n"
    using parsePeriod_text [OF assms, of fb]
    by (auto simp: withPeriod_def Let_def) (simp add: parsePeriod_def)
  moreover have "param_get (withPeriod ps n fb) ''from'' = None"
    by (simp add: withPeriod_def Let_def PERIOD_PARAM_def)
  ultimately show ?thesis by (simp add: usePeriodParam_def parseRange_def Let_def)
qed

lemma period_cleared:
  "days (usePeriodParam (withRange ps None) fb opts) = int fb"
  by (simp add: usePeriodParam_def withRange_def parseRange_def parsePeriod_def PERIOD_PARAM_def Let_def)

lemma offered_within_policy:
  assumes "fc_max c = Some k" "0 < k" "\<exists>n \<in> set (fc_options c). int n \<le> k"
  shows "set (offered_periods c) = {int n | n. n \<in> set (fc_options c) \<and> int n \<le> k}"
proof -
  have "filter (\<lambda>n. n \<le> k) (map int (fc_options c)) \<noteq> []"
    using assms(3) by (auto simp: filter_empty_conv)
  then have "offered_periods c = filter (\<lambda>n. n \<le> k) (map int (fc_options c))"
    using assms(1,2) by (simp add: offered_periods_def allowedRanges_def limited_def Let_def)
  then show ?thesis by auto
qed

lemma field_step_within:
  assumes "fc_max c = Some k" "0 < k" "\<forall>n \<in> set (fc_options c). n \<le> 9999"
    and "\<exists>n \<in> set (fc_options c). int n \<le> k" "int (fc_fallback c) \<le> k"
    and "days (field_period c s) \<le> k"
  shows "days (field_period c (field_step c e s)) \<le> k"
proof (cases e)
  case (ChooseDays n)
  have offered: "int n \<in> set (offered_periods c) \<longleftrightarrow> n \<in> set (fc_options c) \<and> int n \<le> k"
    unfolding offered_within_policy [OF assms(1,2,4)] by auto
  show ?thesis
    using ChooseDays assms(3,6) period_of_days [of n "fc_options c" "pf_params s" "fc_fallback c"]
    by (auto simp: offered field_period_def choose_days_def)
next
  case ApplyRange
  show ?thesis
  proof (cases "pf_open s \<and> draft_problem c s = None")
    case True
    then have "good_range (pf_draft s)" "rangeLength (pf_draft s) \<le> k"
      using unproblematic_range [of "pf_draft s" "field_today c" "fc_max c"] assms(1,2)
      by (auto simp: draft_problem_def)
    then show ?thesis using True ApplyRange
      by (simp add: field_period_def apply_range_def period_of_range)
  next
    case False
    then show ?thesis using ApplyRange assms(6) by (auto simp: apply_range_def)
  qed
next
  case ClearRange
  then show ?thesis using assms(5,6) by (simp add: field_period_def clear_range_def period_cleared)
qed (use assms(6) in \<open>simp_all add: field_period_def open_picker_def\<close>)

text \<open>
  On a site whose policy limits exact queries to \<open>k\<close> days, no sequence of choices, typed dates,
  resets and cancelled dialogs leads to a longer period, when the screen starts within the policy
  and its own default is within it.
\<close>

theorem period_stays_in_policy:
  assumes "fc_max c = Some k" "0 < k" "\<forall>n \<in> set (fc_options c). n \<le> 9999"
    and "\<exists>n \<in> set (fc_options c). int n \<le> k" "int (fc_fallback c) \<le> k"
    and "days (field_period c s) \<le> k"
  shows "days (field_period c (fold (field_step c) es s)) \<le> k"
  using assms(6)
proof (induction es arbitrary: s)
  case (Cons e es)
  then show ?case using field_step_within [OF assms(1-5) Cons.prems, of e] by simp
qed simp

definition example_context :: "nat \<Rightarrow> field_context" where
  "example_context fb = \<lparr>fc_fallback = fb, fc_options = TOOLBAR_PERIODS, fc_max = Some 14,
     fc_today = (2024, 3, 1)\<rparr>"

definition empty_field :: period_field where
  "empty_field = \<lparr>pf_params = [], pf_open = False, pf_draft = \<lparr>from_day = [], to_day = []\<rparr>\<rparr>"

lemma period_stays_in_policy_witness:
  "days (field_period (example_context 7)
     (fold (field_step (example_context 7))
       [ChooseDays 90, OpenPicker, TypeFrom ''2024-01-01'', ApplyRange, ChooseDays 7] empty_field)) \<le> 14"
proof -
  have "days (field_period (example_context 7) empty_field) = 7"
    by (simp add: field_period_def empty_field_def example_context_def usePeriodParam_def
        parseRange_def parsePeriod_def param_get_def Let_def)
  then show ?thesis
    by (intro period_stays_in_policy [where k = 14])
      (simp_all add: example_context_def TOOLBAR_PERIODS_def)
qed

text \<open>
  The default of a screen is not limited: on a site whose policy allows 14 days, the screens with
  the toolbar start with 30 days, which the server refuses, and go back to them when a direct
  range is given up.
\<close>

lemma default_period_over_policy:
  "days (field_period (example_context 30) empty_field) = 30"
  "int 30 \<notin> set (offered_periods (example_context 30))"
  "days (field_period (example_context 30) (clear_range s)) = 30"
proof -
  show "days (field_period (example_context 30) empty_field) = 30"
    by (simp add: field_period_def empty_field_def example_context_def usePeriodParam_def
        parseRange_def parsePeriod_def param_get_def Let_def)
  show "int 30 \<notin> set (offered_periods (example_context 30))" by code_simp
  show "days (field_period (example_context 30) (clear_range s)) = 30"
    by (simp add: field_period_def clear_range_def period_cleared example_context_def)
qed

end
