(* ===== verification/Workbench.thy ===== *)
theory Workbench
  imports SegmentEdit
begin

section \<open>The pages where questions are put together\<close>

text \<open>
  \<open>SegmentsPage.tsx\<close>, \<open>FunnelPage.tsx\<close> (the funnel) and \<open>ExplorerPage.tsx\<close> of \<open>web/src/pages\<close>: forms
  that are edited, saved and run against the site that is selected. A request is written down when
  it leaves; its answer is an event. A list of saved things is read for the current site only
  (its query is keyed by the site), so it is empty after the site changed until its answer is there.
  The dates of the last thirty days are those of \<open>Period\<close> and left out of the requests.
\<close>

subsection \<open>Saved segments\<close>

record segment_form =
  sg_name :: string
  sg_description :: string
  sg_shared :: bool
  sg_definition :: segment_node

record saved_segment =
  ss_id :: string
  ss_form :: segment_form
  ss_owner :: "string option"
  ss_updated_at :: string

definition initialForm :: segment_form where
  "initialForm = \<lparr>sg_name = [], sg_description = [], sg_shared = False, sg_definition = emptySegment\<rparr>"

text \<open>Every request says which site it is for; a deletion names only the segment.\<close>

datatype segment_request =
    PutSegment string string segment_form    \<comment> \<open>id, site, form\<close>
  | PostSegment string segment_form
  | DeleteSegment string
  | PreviewSegment string segment_node

record segments_page =
  sp_site :: string
  sp_list :: "saved_segment list"
  sp_selected :: "string option"
  sp_form :: segment_form
  sp_baseline :: segment_form
  sp_asked :: "string option"          \<comment> \<open>the segment the open question is about\<close>
  sp_requests :: "segment_request list"
  sp_saving :: bool
  sp_listed :: "(string \<times> string) list" \<comment> \<open>site and id of every segment a site has listed\<close>

definition segments_start :: "string \<Rightarrow> segments_page" where
  "segments_start site =
     \<lparr>sp_site = site, sp_list = [], sp_selected = None, sp_form = initialForm,
      sp_baseline = initialForm, sp_asked = None, sp_requests = [], sp_saving = False, sp_listed = []\<rparr>"

text \<open>The two texts that are compared in the source are those of the forms.\<close>

definition unsaved :: "segments_page \<Rightarrow> bool" where
  "unsaved s \<longleftrightarrow> sp_form s \<noteq> sp_baseline s"

definition resetForm :: "segment_form \<Rightarrow> segments_page \<Rightarrow> segments_page" where
  "resetForm next_form s = s\<lparr>sp_form := next_form, sp_baseline := next_form\<rparr>"

definition openSegment :: "saved_segment \<Rightarrow> segments_page \<Rightarrow> segments_page" where
  "openSegment g s = resetForm (ss_form g) (s\<lparr>sp_selected := Some (ss_id g)\<rparr>)"

definition new_segment :: "segments_page \<Rightarrow> segments_page" where
  "new_segment s = resetForm initialForm (s\<lparr>sp_selected := None\<rparr>)"

definition segment_site_changed :: "string \<Rightarrow> segments_page \<Rightarrow> segments_page" where
  "segment_site_changed site s =
     (if site = sp_site s then s else new_segment (s\<lparr>sp_site := site, sp_list := []\<rparr>))"

definition segment_list_arrived :: "string \<Rightarrow> saved_segment list \<Rightarrow> segments_page \<Rightarrow> segments_page" where
  "segment_list_arrived site gs s =
     (if site = sp_site s
      then s\<lparr>sp_list := gs, sp_listed := map (\<lambda>g. (site, ss_id g)) gs @ sp_listed s\<rparr> else s)"

definition save_segment :: "segments_page \<Rightarrow> segments_page" where
  "save_segment s =
     (if js_trim (sg_name (sp_form s)) = [] \<or> sp_saving s then s
      else s\<lparr>sp_saving := True, sp_requests := sp_requests s @
        [case sp_selected s of
           Some i \<Rightarrow> PutSegment i (sp_site s) (sp_form s)
         | None \<Rightarrow> PostSegment (sp_site s) (sp_form s)]\<rparr>)"

definition segment_saved :: "bool \<Rightarrow> segments_page \<Rightarrow> segments_page" where
  "segment_saved ok s =
     (if \<not> sp_saving s then s
      else let t = s\<lparr>sp_saving := False\<rparr> in if ok then new_segment t else t)"

definition ask_delete :: "segments_page \<Rightarrow> segments_page" where
  "ask_delete s = s\<lparr>sp_asked := sp_selected s\<rparr>"

definition answer_delete :: "bool \<Rightarrow> segments_page \<Rightarrow> segments_page" where
  "answer_delete yes s =
     (case sp_asked s of
        None \<Rightarrow> s
      | Some i \<Rightarrow>
          let t = s\<lparr>sp_asked := None\<rparr> in
          if yes then t\<lparr>sp_requests := sp_requests t @ [DeleteSegment i]\<rparr> else t)"

definition canShare :: "string option \<Rightarrow> bool" where
  "canShare role = (case role of None \<Rightarrow> True | Some r \<Rightarrow> r \<notin> {''analyst'', ''viewer''})"

datatype segments_event =
    SegmentSite string
  | SegmentList string "saved_segment list"
  | OpenRow nat
  | NewSegment
  | SetName string
  | SetDescription string
  | SetShared bool
  | EditDefinition "nat list \<times> group_action"
  | SaveSegment
  | SegmentSaved bool
  | PreviewDefinition
  | AskDelete
  | AnswerDelete bool
  | SegmentDeleted

fun segments_step :: "string option \<Rightarrow> segments_event \<Rightarrow> segments_page \<Rightarrow> segments_page" where
  "segments_step role (SegmentSite site) s = segment_site_changed site s"
| "segments_step role (SegmentList site gs) s = segment_list_arrived site gs s"
| "segments_step role (OpenRow i) s = (if i < length (sp_list s) then openSegment (sp_list s ! i) s else s)"
| "segments_step role NewSegment s = new_segment s"
| "segments_step role (SetName n) s = s\<lparr>sp_form := (sp_form s)\<lparr>sg_name := n\<rparr>\<rparr>"
| "segments_step role (SetDescription d) s = s\<lparr>sp_form := (sp_form s)\<lparr>sg_description := d\<rparr>\<rparr>"
| "segments_step role (SetShared b) s =
     (if canShare role then s\<lparr>sp_form := (sp_form s)\<lparr>sg_shared := b\<rparr>\<rparr> else s)"
| "segments_step role (EditDefinition a) s =
     s\<lparr>sp_form := (sp_form s)\<lparr>sg_definition := edit a (sg_definition (sp_form s))\<rparr>\<rparr>"
| "segments_step role SaveSegment s = save_segment s"
| "segments_step role (SegmentSaved ok) s = segment_saved ok s"
| "segments_step role PreviewDefinition s =
     s\<lparr>sp_requests := sp_requests s @ [PreviewSegment (sp_site s) (sg_definition (sp_form s))]\<rparr>"
| "segments_step role AskDelete s = (if sp_selected s \<noteq> None then ask_delete s else s)"
| "segments_step role (AnswerDelete yes) s = answer_delete yes s"
| "segments_step role SegmentDeleted s = new_segment s"

text \<open>What a request writes was listed by the site it is for, and what it deletes by some site.\<close>

fun request_ok :: "(string \<times> string) list \<Rightarrow> segment_request \<Rightarrow> bool" where
  "request_ok listed (PutSegment i site f) = ((site, i) \<in> set listed \<and> js_trim (sg_name f) \<noteq> [])"
| "request_ok listed (PostSegment site f) = (js_trim (sg_name f) \<noteq> [])"
| "request_ok listed (DeleteSegment i) = (i \<in> snd ` set listed)"
| "request_ok listed (PreviewSegment site n) = True"

definition segments_ok :: "segments_page \<Rightarrow> bool" where
  "segments_ok s \<longleftrightarrow>
     (\<forall>g \<in> set (sp_list s). (sp_site s, ss_id g) \<in> set (sp_listed s))
     \<and> (\<forall>i. sp_selected s = Some i \<longrightarrow> (sp_site s, i) \<in> set (sp_listed s))
     \<and> (\<forall>i. sp_asked s = Some i \<longrightarrow> i \<in> snd ` set (sp_listed s))
     \<and> (\<forall>r \<in> set (sp_requests s). request_ok (sp_listed s) r)"

lemma request_ok_mono: "request_ok listed r \<Longrightarrow> request_ok (extra @ listed) r"
  by (cases r) auto

lemma segments_step_ok:
  assumes "segments_ok s"
  shows "segments_ok (segments_step role e s)"
proof (cases e)
  case (SegmentList site gs)
  then show ?thesis using assms request_ok_mono
    by (auto simp: segments_ok_def segment_list_arrived_def)
next
  case (OpenRow i)
  then show ?thesis using assms by (auto simp: segments_ok_def openSegment_def resetForm_def)
next
  case SaveSegment
  then show ?thesis using assms
    by (auto simp: segments_ok_def save_segment_def split: option.split)
next
  case (AnswerDelete yes)
  then show ?thesis using assms
    by (auto simp: segments_ok_def answer_delete_def Let_def split: option.split)
next
  case AskDelete
  have "i \<in> snd ` set (sp_listed s)" if "sp_selected s = Some i" for i
    using that assms unfolding segments_ok_def by (metis image_eqI snd_conv)
  then show ?thesis using AskDelete assms by (simp add: segments_ok_def ask_delete_def)
qed (use assms in \<open>auto simp: segments_ok_def segment_site_changed_def new_segment_def resetForm_def
  segment_saved_def Let_def\<close>)

lemma segments_run_ok: "segments_ok s \<Longrightarrow> segments_ok (fold (segments_step role) es s)"
  by (induction es arbitrary: s) (simp_all add: segments_step_ok)

text \<open>
  C7: Whatever is opened, edited, saved and asked, while sites change and lists arrive: a segment is
  overwritten only in the site that listed it and never with a blank name, and what is deleted was
  listed to the reader.
\<close>

theorem segment_writes_are_of_their_site:
  assumes "s = fold (segments_step role) es (segments_start site)" "r \<in> set (sp_requests s)"
  shows "request_ok (sp_listed s) r"
proof -
  have "segments_ok (segments_start site)" by (simp add: segments_ok_def segments_start_def)
  then have "segments_ok s" unfolding assms(1) by (rule segments_run_ok)
  then show ?thesis using assms(2) by (simp add: segments_ok_def)
qed

definition plain_segment :: "string \<Rightarrow> saved_segment" where
  "plain_segment i = \<lparr>ss_id = i, ss_form = initialForm\<lparr>sg_name := i\<rparr>, ss_owner = None, ss_updated_at = []\<rparr>"

lemma segment_writes_are_of_their_site_witness:
  "let s = fold (segments_step None)
       [SegmentList ''a'' [plain_segment ''s1''], OpenRow 0, SegmentSite ''b'', OpenRow 0, SetName ''n'',
        SaveSegment, SegmentSaved True, SegmentSite ''a'', SegmentList ''a'' [plain_segment ''s1''],
        OpenRow 0, SaveSegment]
       (segments_start ''a'')
   in sp_requests s = [PostSegment ''b'' (initialForm\<lparr>sg_name := ''n''\<rparr>),
       PutSegment ''s1'' ''a'' (initialForm\<lparr>sg_name := ''s1''\<rparr>)]
    \<and> request_ok (sp_listed s) (PutSegment ''s1'' ''a'' (initialForm\<lparr>sg_name := ''s1''\<rparr>))"
proof -
  let ?es = "[SegmentList ''a'' [plain_segment ''s1''], OpenRow 0, SegmentSite ''b'', OpenRow 0, SetName ''n'',
        SaveSegment, SegmentSaved True, SegmentSite ''a'', SegmentList ''a'' [plain_segment ''s1''],
        OpenRow 0, SaveSegment]"
  have trimmed: "js_trim ''n'' = ''n''" "js_trim ''s1'' = ''s1''" by code_simp+
  have r: "sp_requests (fold (segments_step None) ?es (segments_start ''a'')) =
     [PostSegment ''b'' (initialForm\<lparr>sg_name := ''n''\<rparr>),
      PutSegment ''s1'' ''a'' (initialForm\<lparr>sg_name := ''s1''\<rparr>)]"
    by (simp add: segments_start_def segment_list_arrived_def openSegment_def resetForm_def
        segment_site_changed_def new_segment_def save_segment_def segment_saved_def plain_segment_def
        trimmed)
  then show ?thesis
    using segment_writes_are_of_their_site [OF refl, of _ None ?es "''a''"]
    unfolding Let_def by (simp del: fold.simps request_ok.simps)
qed

text \<open>Who may share a segment on the screen is who the server lets share one.\<close>

definition RoleAtLeast_workspace_admin :: "string \<Rightarrow> bool" where
  "RoleAtLeast_workspace_admin r \<longleftrightarrow> r \<in> {''workspace_admin'', ''organization_admin'', ''super_admin''}"

lemma share_offered_to_those_allowed:
  "r \<in> {''viewer'', ''analyst'', ''workspace_admin'', ''organization_admin'', ''super_admin''} \<Longrightarrow>
   canShare (Some r) = RoleAtLeast_workspace_admin r"
  by (auto simp: canShare_def RoleAtLeast_workspace_admin_def)

text \<open>
  When the answer of a save comes back, the form is emptied whatever it holds by then: a segment
  opened and edited in the meantime is gone, and as form and baseline are equal again nothing says
  so.
\<close>

lemma later_edits_lost:
  "let before = fold (segments_step None)
         [SegmentList ''a'' [plain_segment ''s1'', plain_segment ''s2''], OpenRow 0, SaveSegment, OpenRow 1,
          SetDescription ''edited''] (segments_start ''a'');
       after = segments_step None (SegmentSaved True) before
   in unsaved before \<and> sg_description (sp_form before) = ''edited''
    \<and> \<not> unsaved after \<and> sp_selected after = None \<and> sp_form after = initialForm"
proof -
  have "js_trim ''s1'' = ''s1''" by code_simp
  then show ?thesis
    by (simp add: segments_start_def segment_list_arrived_def openSegment_def resetForm_def
        new_segment_def save_segment_def segment_saved_def plain_segment_def unsaved_def Let_def
        initialForm_def)
qed

subsection \<open>The funnel\<close>

record step_form =
  fs_name :: string
  fs_event :: string
  fs_filterField :: string
  fs_filterOperator :: string
  fs_filterValue :: string

definition plain_step :: "string \<Rightarrow> string \<Rightarrow> step_form" where
  "plain_step n e = \<lparr>fs_name = n, fs_event = e, fs_filterField = [], fs_filterOperator = ''='',
     fs_filterValue = []\<rparr>"

text \<open>A filter of a request is a condition of a segment.\<close>

record funnel_request =
  fr_site :: string
  fr_environment :: string
  fr_mode :: string
  fr_within :: jnum
  fr_segment :: "string option"
  fr_compare :: "string list option"
  fr_steps :: "(string \<times> string \<times> segment_node list) list"

record funnel_page =
  fn_site :: string
  fn_environment :: string
  fn_steps :: "step_form list"
  fn_mode :: string
  fn_within :: jnum
  fn_segment :: string
  fn_compare :: "string list"
  fn_running :: "funnel_request option"
  fn_result :: "funnel_request option"   \<comment> \<open>the request whose answer is shown\<close>

definition step_filters :: "step_form \<Rightarrow> segment_node list" where
  "step_filters st =
     (if fs_filterField st = [] then []
      else [Node None None (Some (fs_filterField st)) (Some (fs_filterOperator st))
              (VStr (fs_filterValue st))])"

definition funnel_request_of :: "funnel_page \<Rightarrow> funnel_request" where
  "funnel_request_of s =
     \<lparr>fr_site = fn_site s, fr_environment = fn_environment s, fr_mode = fn_mode s,
      fr_within = fn_within s,
      fr_segment = (if fn_segment s = [] then None else Some (fn_segment s)),
      fr_compare = (if fn_compare s = [] then None else Some (fn_compare s)),
      fr_steps = map (\<lambda>st. (fs_name st, fs_event st, step_filters st)) (fn_steps s)\<rparr>"

definition run_funnel :: "funnel_page \<Rightarrow> funnel_page" where
  "run_funnel s = s\<lparr>fn_running := Some (funnel_request_of s), fn_result := None\<rparr>"

text \<open>The three steps the page starts with (their Korean names are the argument), and its first run.\<close>

definition funnel_start :: "string \<times> string \<times> string \<Rightarrow> string \<Rightarrow> string \<Rightarrow> funnel_page" where
  "funnel_start names site environment =
     (case names of (a, b, c) \<Rightarrow>
        run_funnel \<lparr>fn_site = site, fn_environment = environment,
          fn_steps = [plain_step a ''page_view'', plain_step b ''click'', plain_step c ''conversion''],
          fn_mode = ''closed'', fn_within = Fin 0, fn_segment = [], fn_compare = [],
          fn_running = None, fn_result = None\<rparr>)"

definition edit_step :: "nat \<Rightarrow> (step_form \<Rightarrow> step_form) \<Rightarrow> funnel_page \<Rightarrow> funnel_page" where
  "edit_step i f s =
     (if i < length (fn_steps s) then s\<lparr>fn_steps := (fn_steps s)[i := f (fn_steps s ! i)]\<rparr> else s)"

datatype funnel_event =
    StepName nat string
  | StepEvent nat string
  | StepField nat string
  | StepOperator nat string
  | StepValue nat string
  | DeleteStep nat
  | AddStep string                     \<comment> \<open>with the name of a new step\<close>
  | SetMode bool                       \<comment> \<open>closed or open\<close>
  | SetWithin string
  | SetSegment string
  | SetCompare "string list"
  | RunFunnel
  | FunnelAnswered bool
  | FunnelSite string
  | FunnelEnvironment string

definition FUNNEL_OPERATORS :: "string list" where
  "FUNNEL_OPERATORS = [''='', ''!='', ''contains'', ''>'', ''>='', ''<'', ''<='', ''exists'']"

fun funnel_step :: "funnel_event \<Rightarrow> funnel_page \<Rightarrow> funnel_page" where
  "funnel_step (StepName i n) s = edit_step i (\<lambda>st. st\<lparr>fs_name := n\<rparr>) s"
| "funnel_step (StepEvent i n) s = edit_step i (\<lambda>st. st\<lparr>fs_event := n\<rparr>) s"
| "funnel_step (StepField i n) s = edit_step i (\<lambda>st. st\<lparr>fs_filterField := n\<rparr>) s"
| "funnel_step (StepOperator i n) s =
     edit_step i (\<lambda>st. if fs_filterField st \<noteq> [] \<and> n \<in> set FUNNEL_OPERATORS
                       then st\<lparr>fs_filterOperator := n\<rparr> else st) s"
| "funnel_step (StepValue i n) s =
     edit_step i (\<lambda>st. if fs_filterField st \<noteq> [] \<and> fs_filterOperator st \<noteq> ''exists''
                       then st\<lparr>fs_filterValue := n\<rparr> else st) s"
| "funnel_step (DeleteStep i) s =
     (if length (fn_steps s) \<le> 2 \<or> i \<ge> length (fn_steps s) then s
      else s\<lparr>fn_steps := take i (fn_steps s) @ drop (Suc i) (fn_steps s)\<rparr>)"
| "funnel_step (AddStep n) s =
     (if length (fn_steps s) \<ge> 10 then s else s\<lparr>fn_steps := fn_steps s @ [plain_step n []]\<rparr>)"
| "funnel_step (SetMode b) s = s\<lparr>fn_mode := (if b then ''closed'' else ''open'')\<rparr>"
| "funnel_step (SetWithin t) s = s\<lparr>fn_within := js_number t\<rparr>"
| "funnel_step (SetSegment i) s = s\<lparr>fn_segment := i\<rparr>"
| "funnel_step (SetCompare ids) s = s\<lparr>fn_compare := take 3 ids\<rparr>"
| "funnel_step RunFunnel s = (if fn_running s \<noteq> None then s else run_funnel s)"
| "funnel_step (FunnelAnswered ok) s =
     (case fn_running s of
        None \<Rightarrow> s | Some r \<Rightarrow> s\<lparr>fn_running := None, fn_result := (if ok then Some r else None)\<rparr>)"
| "funnel_step (FunnelSite site) s =
     (if site = fn_site s then s else run_funnel (s\<lparr>fn_site := site\<rparr>))"
| "funnel_step (FunnelEnvironment e) s = s\<lparr>fn_environment := e\<rparr>"

text \<open>
  What the server checks before it looks at anything stored: the guards of \<open>funnel\<close>. The minutes
  are decoded as an integer; a number that JSON cannot carry is sent as null, which leaves them zero.
\<close>

datatype funnel_refusal =
    NotAnInteger | InvalidSteps | InvalidMode | InvalidWindow | TooManyCompared | EventMissing

definition decoded_minutes :: "jnum \<Rightarrow> int option" where
  "decoded_minutes n = (case n of Fin q \<Rightarrow> if q = of_int \<lfloor>q\<rfloor> then Some \<lfloor>q\<rfloor> else None | _ \<Rightarrow> Some 0)"

definition funnel_guards :: "funnel_request \<Rightarrow> funnel_refusal option" where
  "funnel_guards r =
     (case decoded_minutes (fr_within r) of
        None \<Rightarrow> Some NotAnInteger
      | Some minutes \<Rightarrow>
          if length (fr_steps r) < 2 \<or> length (fr_steps r) > 10 then Some InvalidSteps
          else if fr_mode r \<notin> {[], ''closed'', ''open''} then Some InvalidMode
          else if minutes < 0 \<or> minutes > 525600 then Some InvalidWindow
          else if length (case fr_compare r of Some ids \<Rightarrow> ids | None \<Rightarrow> []) > 3 then Some TooManyCompared
          else if list_ex (\<lambda>(n, e, fs). js_trim e = []) (fr_steps r) then Some EventMissing
          else None)"

definition funnel_ok :: "funnel_page \<Rightarrow> bool" where
  "funnel_ok s \<longleftrightarrow>
     2 \<le> length (fn_steps s) \<and> length (fn_steps s) \<le> 10
     \<and> (fn_mode s = ''closed'' \<or> fn_mode s = ''open'') \<and> length (fn_compare s) \<le> 3
     \<and> (\<forall>st \<in> set (fn_steps s). fs_filterOperator st \<in> set FUNNEL_OPERATORS)"

lemma run_funnel_ok [simp]: "funnel_ok (run_funnel s) = funnel_ok s"
  by (simp add: funnel_ok_def run_funnel_def)

lemma edit_step_ok:
  assumes "funnel_ok s"
    and "\<And>st. fs_filterOperator st \<in> set FUNNEL_OPERATORS \<Longrightarrow> fs_filterOperator (f st) \<in> set FUNNEL_OPERATORS"
  shows "funnel_ok (edit_step i f s)"
  using assms set_update_subset_insert [of "fn_steps s" i "f (fn_steps s ! i)"]
  by (fastforce simp: funnel_ok_def edit_step_def)

lemma plain_step_operator [simp]: "fs_filterOperator (plain_step n e) \<in> set FUNNEL_OPERATORS"
  by (simp add: plain_step_def FUNNEL_OPERATORS_def)

lemma funnel_step_ok:
  assumes "funnel_ok s"
  shows "funnel_ok (funnel_step e s)"
proof (cases e)
  case (DeleteStep i)
  then show ?thesis using assms by (auto simp: funnel_ok_def dest: in_set_takeD in_set_dropD)
next
  case (AddStep n)
  then show ?thesis using assms by (auto simp: funnel_ok_def)
next
  case (FunnelAnswered ok)
  then show ?thesis using assms by (auto simp: funnel_ok_def split: option.split)
next
  case (FunnelSite site)
  have "funnel_ok (s\<lparr>fn_site := site\<rparr>)" using assms by (simp add: funnel_ok_def)
  then show ?thesis using FunnelSite assms by simp
qed (use assms in \<open>auto intro!: edit_step_ok split: if_splits simp del: set_simps\<close>,
  use assms in \<open>auto simp: funnel_ok_def\<close>)

lemma funnel_run_ok: "funnel_ok s \<Longrightarrow> funnel_ok (fold funnel_step es s)"
  by (induction es arbitrary: s) (simp_all add: funnel_step_ok)

lemma funnel_start_ok: "funnel_ok (funnel_start names site environment)"
  by (cases names) (simp add: funnel_start_def, simp add: funnel_ok_def)



text \<open>
  The funnel runs again when the site changes but not when the environment does: the figures of
  the old environment stay under the name of the new one.
\<close>

lemma result_of_other_environment:
  "let s = fold funnel_step [FunnelAnswered True, FunnelEnvironment ''stg'']
         (funnel_start (''a'', ''b'', ''c'') ''site'' ''prd'')
   in fn_environment s = ''stg'' \<and> fn_running s = None
    \<and> map_option fr_environment (fn_result s) = Some ''prd''"
  by (simp add: funnel_start_def run_funnel_def funnel_request_of_def)

text \<open>The segment of one site is sent with the first request for another.\<close>

lemma segment_of_other_site:
  "let s = fold funnel_step [SetSegment ''g1'', FunnelSite ''b''] (funnel_start (''x'', ''y'', ''z'') ''a'' ''prd'')
   in map_option (\<lambda>r. (fr_site r, fr_segment r)) (fn_running s) = Some (''b'', Some ''g1'')"
  by (simp add: funnel_start_def run_funnel_def funnel_request_of_def)

subsection \<open>The explorer\<close>

record exploration =
  ex_dimensions :: "string list option"
  ex_metrics :: "string list option"
  ex_segment :: "string option"

record saved_exploration =
  sx_id :: string
  sx_name :: string
  sx_definition :: exploration

datatype query_mode = Exact | Fast | Preview

datatype explorer_request =
    RunQuery string string exploration query_mode          \<comment> \<open>site, environment\<close>
  | PutReport string string string exploration             \<comment> \<open>id, site, name\<close>
  | PostReport string string exploration
  | DeleteReport string

record explorer_page =
  ep_site :: string
  ep_environment :: string
  ep_dims :: "string list"
  ep_mets :: "string list"
  ep_segment :: string
  ep_mode :: query_mode
  ep_report :: string
  ep_name :: string
  ep_reports :: "saved_exploration list"
  ep_asked :: bool
  ep_requests :: "explorer_request list"

definition explorer_page_start :: "string \<Rightarrow> string \<Rightarrow> explorer_page" where
  "explorer_page_start site environment =
     \<lparr>ep_site = site, ep_environment = environment, ep_dims = [''event.name''],
      ep_mets = [''events'', ''users''], ep_segment = [], ep_mode = Exact, ep_report = [], ep_name = [],
      ep_reports = [], ep_asked = False, ep_requests = []\<rparr>"

definition exploration_of :: "explorer_page \<Rightarrow> exploration" where
  "exploration_of s =
     \<lparr>ex_dimensions = Some (ep_dims s), ex_metrics = Some (ep_mets s),
      ex_segment = (if ep_segment s = [] then None else Some (ep_segment s))\<rparr>"

definition choose_report :: "string \<Rightarrow> explorer_page \<Rightarrow> explorer_page" where
  "choose_report i s =
     (let t = s\<lparr>ep_report := i\<rparr> in
      case find (\<lambda>r. sx_id r = i) (ep_reports s) of
        None \<Rightarrow> t
      | Some r \<Rightarrow>
          t\<lparr>ep_name := sx_name r,
            ep_dims := (case ex_dimensions (sx_definition r) of Some d \<Rightarrow> d | None \<Rightarrow> [''event.name'']),
            ep_mets := (case ex_metrics (sx_definition r) of Some m \<Rightarrow> m | None \<Rightarrow> [''events'']),
            ep_segment := (case ex_segment (sx_definition r) of Some g \<Rightarrow> g | None \<Rightarrow> [])\<rparr>)"

definition save_report :: "explorer_page \<Rightarrow> explorer_page" where
  "save_report s =
     (if js_trim (ep_name s) = [] then s
      else s\<lparr>ep_requests := ep_requests s @
        [if ep_report s \<noteq> [] then PutReport (ep_report s) (ep_site s) (ep_name s) (exploration_of s)
         else PostReport (ep_site s) (ep_name s) (exploration_of s)]\<rparr>)"

datatype explorer_page_event =
    ChooseReport string
  | ReportsArrived string "saved_exploration list"
  | SetReportName string
  | SetDims "string list"
  | SetMets "string list"
  | SetExplorerSegment string
  | SetQueryMode query_mode
  | RunExploration
  | SaveReport
  | ReportSaved
  | AskDeleteReport
  | AnswerDeleteReport bool
  | ReportDeleted
  | ExplorerSite string
  | ExplorerEnvironment string

fun explorer_page_step :: "explorer_page_event \<Rightarrow> explorer_page \<Rightarrow> explorer_page" where
  "explorer_page_step (ChooseReport i) s =
     (if i = [] \<or> list_ex (\<lambda>r. sx_id r = i) (ep_reports s) then choose_report i s else s)"
| "explorer_page_step (ReportsArrived site rs) s = (if site = ep_site s then s\<lparr>ep_reports := rs\<rparr> else s)"
| "explorer_page_step (SetReportName n) s = s\<lparr>ep_name := n\<rparr>"
| "explorer_page_step (SetDims d) s = s\<lparr>ep_dims := d\<rparr>"
| "explorer_page_step (SetMets m) s = s\<lparr>ep_mets := m\<rparr>"
| "explorer_page_step (SetExplorerSegment g) s = s\<lparr>ep_segment := g\<rparr>"
| "explorer_page_step (SetQueryMode m) s = s\<lparr>ep_mode := m\<rparr>"
| "explorer_page_step RunExploration s =
     (if ep_mets s = [] then s
      else s\<lparr>ep_requests := ep_requests s @
        [RunQuery (ep_site s) (ep_environment s) (exploration_of s) (ep_mode s)]\<rparr>)"
| "explorer_page_step SaveReport s = save_report s"
| "explorer_page_step ReportSaved s = s\<lparr>ep_name := [], ep_report := []\<rparr>"
| "explorer_page_step AskDeleteReport s = (if ep_report s = [] then s else s\<lparr>ep_asked := True\<rparr>)"
| "explorer_page_step (AnswerDeleteReport yes) s =
     (if \<not> ep_asked s then s
      else let t = s\<lparr>ep_asked := False\<rparr> in
        if yes then t\<lparr>ep_requests := ep_requests t @ [DeleteReport (ep_report t)]\<rparr> else t)"
| "explorer_page_step ReportDeleted s = s\<lparr>ep_report := []\<rparr>"
| "explorer_page_step (ExplorerSite site) s =
     (if site = ep_site s then s else s\<lparr>ep_site := site, ep_reports := []\<rparr>)"
| "explorer_page_step (ExplorerEnvironment e) s = s\<lparr>ep_environment := e\<rparr>"

text \<open>A saved exploration that is chosen again puts the builder back as it was saved.\<close>

lemma exploration_roundtrip:
  assumes "find (\<lambda>r. sx_id r = i) (ep_reports t) = Some \<lparr>sx_id = i, sx_name = ep_name s, sx_definition = exploration_of s\<rparr>"
  shows "exploration_of (choose_report i t) = exploration_of s \<and> ep_name (choose_report i t) = ep_name s
    \<and> ep_segment (choose_report i t) = ep_segment s"
  using assms by (simp add: choose_report_def exploration_of_def Let_def)

text \<open>
  Unlike the segments, the choice of a saved exploration survives a change of the site: the button
  to delete then deletes the exploration of the site that was left, and the request names no site
  by which the server could tell.
\<close>

lemma deletes_report_of_other_site:
  "let r = \<lparr>sx_id = ''r1'', sx_name = ''n'',
            sx_definition = \<lparr>ex_dimensions = None, ex_metrics = None, ex_segment = None\<rparr>\<rparr>;
       s = fold explorer_page_step
         [ReportsArrived ''a'' [r], ChooseReport ''r1'', ExplorerSite ''b'', ReportsArrived ''b'' [],
          AskDeleteReport, AnswerDeleteReport True] (explorer_page_start ''a'' ''prd'')
   in ep_site s = ''b'' \<and> ep_requests s = [DeleteReport ''r1'']"
  by (simp add: explorer_page_start_def choose_report_def Let_def)

end
