(* ===== verification/Accounts.thy ===== *)
theory Accounts
  imports Users
begin

section \<open>The page of user accounts\<close>

text \<open>
  \<open>UsersAdmin\<close> of \<open>web/src/pages/AdminPage.tsx\<close>: the list of accounts, the dialog for a new one and
  the dialog that edits one. What is on offer follows the rules of \<open>Users\<close>; a request is written
  down when it leaves, its answer is an event. The signed-in account (its id and role) is an
  argument: it does not change while the page is open. The two dialogs are modal. Passwords are lists of code points.
\<close>

record admin_user =
  au_id :: string
  au_email :: string
  au_display_name :: string
  au_department :: string
  au_organization :: string
  au_role :: string
  au_active :: bool
  au_oidc :: bool

record new_account =
  na_email :: string
  na_display_name :: string
  na_department :: string
  na_organization :: string
  na_role :: string
  na_password :: "nat list"

text \<open>An update carries the row of the dialog (its address and kind are not sent) and a password.\<close>

datatype account_request =
    CreateAccount new_account
  | UpdateAccount admin_user "nat list"

record accounts_page =
  ap_list :: "admin_user list"
  ap_open :: bool
  ap_edit :: "admin_user option"
  ap_reset :: "nat list"
  ap_form :: new_account
  ap_updating :: bool
  ap_requests :: "account_request list"

definition accounts_start :: accounts_page where
  "accounts_start =
     \<lparr>ap_list = [], ap_open = False, ap_edit = None, ap_reset = [],
      ap_form = \<lparr>na_email = [], na_display_name = [], na_department = [], na_organization = [],
        na_role = ''viewer'', na_password = []\<rparr>,
      ap_updating = False, ap_requests = []\<rparr>"

definition edit_limits :: "string \<Rightarrow> accounts_page \<Rightarrow> self_limits" where
  "edit_limits me s =
     selfAccountLimits (Some me) (case ap_edit s of Some u \<Rightarrow> au_id u | None \<Rightarrow> [])"

definition open_edit :: "string \<Rightarrow> nat \<Rightarrow> accounts_page \<Rightarrow> accounts_page" where
  "open_edit role i s =
     (if ap_edit s = None \<and> \<not> ap_open s \<and> i < length (ap_list s)
         \<and> canAdministerRole role (au_role (ap_list s ! i))
      then s\<lparr>ap_edit := Some (ap_list s ! i)\<rparr> else s)"

definition close_edit :: "accounts_page \<Rightarrow> accounts_page" where
  "close_edit s = s\<lparr>ap_edit := None, ap_reset := []\<rparr>"

definition edit_row :: "(admin_user \<Rightarrow> admin_user) \<Rightarrow> accounts_page \<Rightarrow> accounts_page" where
  "edit_row f s = s\<lparr>ap_edit := map_option f (ap_edit s)\<rparr>"

definition choose_role :: "string \<Rightarrow> string \<Rightarrow> string \<Rightarrow> accounts_page \<Rightarrow> accounts_page" where
  "choose_role me role r s =
     (if canChangeRole (edit_limits me s) \<and> r \<in> set (assignableRoles role)
      then edit_row (\<lambda>u. u\<lparr>au_role := r\<rparr>) s else s)"

definition tick_active :: "string \<Rightarrow> bool \<Rightarrow> accounts_page \<Rightarrow> accounts_page" where
  "tick_active me b s =
     (case ap_edit s of
        None \<Rightarrow> s
      | Some u \<Rightarrow>
          if au_active u \<and> \<not> canDeactivate (edit_limits me s) then s
          else edit_row (\<lambda>u. u\<lparr>au_active := b\<rparr>) s)"

definition type_reset :: "string \<Rightarrow> nat list \<Rightarrow> accounts_page \<Rightarrow> accounts_page" where
  "type_reset me p s =
     (case ap_edit s of
        None \<Rightarrow> s
      | Some u \<Rightarrow>
          if \<not> au_oidc u \<and> canResetPassword (edit_limits me s) then s\<lparr>ap_reset := p\<rparr> else s)"

definition save_edit :: "accounts_page \<Rightarrow> accounts_page" where
  "save_edit s =
     (case ap_edit s of
        None \<Rightarrow> s
      | Some u \<Rightarrow>
          if ap_updating s \<or> ap_reset s \<noteq> [] \<and> \<not> passwordWithinBounds (ap_reset s) then s
          else s\<lparr>ap_updating := True, ap_requests := ap_requests s @ [UpdateAccount u (ap_reset s)]\<rparr>)"

definition edit_saved :: "bool \<Rightarrow> accounts_page \<Rightarrow> accounts_page" where
  "edit_saved ok s =
     (if \<not> ap_updating s then s
      else let t = s\<lparr>ap_updating := False\<rparr> in if ok then close_edit t else t)"

definition create_account :: "accounts_page \<Rightarrow> accounts_page" where
  "create_account s =
     (if \<not> ap_open s \<or> na_email (ap_form s) = [] \<or> \<not> passwordWithinBounds (na_password (ap_form s)) then s
      else s\<lparr>ap_requests := ap_requests s @ [CreateAccount (ap_form s)]\<rparr>)"

datatype accounts_event =
    Accounts "admin_user list"
  | OpenNew
  | CloseNew
  | FillNew "new_account \<Rightarrow> new_account"    \<comment> \<open>the text fields of the dialog\<close>
  | NewRole string
  | CreatePressed
  | Created bool
  | OpenEdit nat
  | CloseEdit
  | SetDisplayName string
  | SetDepartment string
  | SetOrganization string
  | ChooseRole string
  | TickActive bool
  | TypeReset "nat list"
  | SavePressed
  | Saved bool

fun accounts_step :: "string \<Rightarrow> string \<Rightarrow> accounts_event \<Rightarrow> accounts_page \<Rightarrow> accounts_page" where
  "accounts_step me role (Accounts us) s = s\<lparr>ap_list := us\<rparr>"
| "accounts_step me role OpenNew s = (if ap_edit s = None then s\<lparr>ap_open := True\<rparr> else s)"
| "accounts_step me role CloseNew s = s\<lparr>ap_open := False\<rparr>"
| "accounts_step me role (FillNew f) s =
     s\<lparr>ap_form := (f (ap_form s))\<lparr>na_role := na_role (ap_form s)\<rparr>\<rparr>"
| "accounts_step me role (NewRole r) s =
     (if r \<in> set (assignableRoles role) then s\<lparr>ap_form := (ap_form s)\<lparr>na_role := r\<rparr>\<rparr> else s)"
| "accounts_step me role CreatePressed s = create_account s"
| "accounts_step me role (Created ok) s = (if ok then s\<lparr>ap_open := False\<rparr> else s)"
| "accounts_step me role (OpenEdit i) s = open_edit role i s"
| "accounts_step me role CloseEdit s = close_edit s"
| "accounts_step me role (SetDisplayName n) s = edit_row (\<lambda>u. u\<lparr>au_display_name := n\<rparr>) s"
| "accounts_step me role (SetDepartment n) s = edit_row (\<lambda>u. u\<lparr>au_department := n\<rparr>) s"
| "accounts_step me role (SetOrganization n) s = edit_row (\<lambda>u. u\<lparr>au_organization := n\<rparr>) s"
| "accounts_step me role (ChooseRole r) s = choose_role me role r s"
| "accounts_step me role (TickActive b) s = tick_active me b s"
| "accounts_step me role (TypeReset p) s = type_reset me p s"
| "accounts_step me role SavePressed s = save_edit s"
| "accounts_step me role (Saved ok) s = edit_saved ok s"

subsection \<open>What the page sends passes the guards\<close>

text \<open>
  The rows that arrive are those the server holds: \<open>db\<close> gives the role of an account, which is a
  known one, and the own account is active (its session would have ended otherwise).
\<close>

definition row_of_server :: "string \<Rightarrow> (string \<Rightarrow> role_lookup) \<Rightarrow> admin_user \<Rightarrow> bool" where
  "row_of_server me db u \<longleftrightarrow> db (au_id u) = Role (au_role u) \<and> validRole (au_role u)
     \<and> (au_id u = me \<longrightarrow> au_active u)"

definition rows_of_server :: "string \<Rightarrow> (string \<Rightarrow> role_lookup) \<Rightarrow> accounts_event \<Rightarrow> bool" where
  "rows_of_server me db e = (case e of Accounts us \<Rightarrow> list_all (row_of_server me db) us | _ \<Rightarrow> True)"

definition update_body :: "admin_user \<Rightarrow> nat list \<Rightarrow> update_request" where
  "update_body u p = \<lparr>req_role = au_role u, req_active = Some (au_active u), req_password = p\<rparr>"

fun answer_to ::
  "string \<Rightarrow> string \<Rightarrow> (string \<Rightarrow> role_lookup) \<Rightarrow> account_request \<Rightarrow> refusal option"
where
  "answer_to me role db (CreateAccount a) = createUser_guards role (Some (na_role a, na_password a))"
| "answer_to me role db (UpdateAccount u p) =
     updateUser_guards me role (Some (au_id u)) (Some (update_body u p)) db True"

text \<open>The row in the dialog may be saved as it is, and its typed password as well.\<close>

definition editable :: "string \<Rightarrow> string \<Rightarrow> (string \<Rightarrow> role_lookup) \<Rightarrow> admin_user \<Rightarrow> bool" where
  "editable me role db u \<longleftrightarrow> (\<exists>current. db (au_id u) = Role current \<and> canAdministerRole role current
       \<and> (au_id u = me \<longrightarrow> au_role u = current \<and> au_active u))
     \<and> au_role u \<in> set (assignableRoles role)"

definition resettable :: "string \<Rightarrow> admin_user \<Rightarrow> bool" where
  "resettable me u \<longleftrightarrow> \<not> au_oidc u \<and> au_id u \<noteq> me"

fun request_fine :: "string \<Rightarrow> string \<Rightarrow> (string \<Rightarrow> role_lookup) \<Rightarrow> account_request \<Rightarrow> bool" where
  "request_fine me role db (CreateAccount a) = (answer_to me role db (CreateAccount a) = None)"
| "request_fine me role db (UpdateAccount u p) =
     (answer_to me role db (UpdateAccount u p) = None \<and> (p \<noteq> [] \<longrightarrow> resettable me u))"

definition accounts_ok :: "string \<Rightarrow> string \<Rightarrow> (string \<Rightarrow> role_lookup) \<Rightarrow> accounts_page \<Rightarrow> bool" where
  "accounts_ok me role db s \<longleftrightarrow>
     list_all (row_of_server me db) (ap_list s)
     \<and> na_role (ap_form s) \<in> set (assignableRoles role)
     \<and> (\<forall>u. ap_edit s = Some u \<longrightarrow> editable me role db u)
     \<and> (ap_reset s \<noteq> [] \<longrightarrow> (\<exists>u. ap_edit s = Some u \<and> resettable me u))
     \<and> (\<forall>r \<in> set (ap_requests s). request_fine me role db r)"

lemma saved_row_passes:
  assumes "roleRank role \<noteq> 0" "editable me role db u" "p \<noteq> [] \<longrightarrow> resettable me u \<and> passwordWithinBounds p"
  shows "answer_to me role db (UpdateAccount u p) = None"
proof -
  obtain current where c: "db (au_id u) = Role current" "canAdministerRole role current"
      "au_id u = me \<longrightarrow> au_role u = current \<and> au_active u" "au_role u \<in> set (assignableRoles role)"
    using assms(2) by (auto simp: editable_def)
  then show ?thesis using assms(1,3)
    by (auto simp: updateUser_guards_def update_body_def canAdminister_iff assignable_iff resettable_def
        password_iff)
qed

lemma open_row_editable:
  assumes "roleRank role \<noteq> 0" "row_of_server me db u" "canAdministerRole role (au_role u)"
  shows "editable me role db u"
  using assms by (auto simp: editable_def row_of_server_def canAdminister_iff assignable_iff)

lemma limits_of_edit:
  "ap_edit s = Some u \<Longrightarrow> edit_limits me s = selfAccountLimits (Some me) (au_id u)"
  by (simp add: edit_limits_def)

lemma accounts_step_ok:
  assumes rank: "roleRank role \<noteq> 0" and ok: "accounts_ok me role db s" and rows: "rows_of_server me db e"
  shows "accounts_ok me role db (accounts_step me role e s)"
proof (cases e)
  case (OpenEdit i)
  show ?thesis
  proof (cases "ap_edit s = None \<and> \<not> ap_open s \<and> i < length (ap_list s)
      \<and> canAdministerRole role (au_role (ap_list s ! i))")
    case True
    then have "row_of_server me db (ap_list s ! i)" using ok by (simp add: accounts_ok_def list_all_length)
    then have "editable me role db (ap_list s ! i)" using True open_row_editable [OF rank] by blast
    then show ?thesis using True ok OpenEdit by (auto simp: accounts_ok_def open_edit_def)
  next
    case False
    then show ?thesis using ok OpenEdit by (auto simp: open_edit_def)
  qed
next
  case (ChooseRole r)
  show ?thesis using ok ChooseRole
    by (cases "ap_edit s") (auto simp: accounts_ok_def choose_role_def edit_row_def editable_def
      limits_of_edit selfAccountLimits_def resettable_def)
next
  case (TickActive b)
  show ?thesis using ok TickActive
    by (cases "ap_edit s") (auto simp: accounts_ok_def tick_active_def edit_row_def editable_def
      limits_of_edit selfAccountLimits_def resettable_def)
next
  case (TypeReset p)
  show ?thesis using ok TypeReset
    by (cases "ap_edit s") (auto simp: accounts_ok_def type_reset_def
      limits_of_edit selfAccountLimits_def resettable_def)
next
  case SavePressed
  show ?thesis
  proof (cases "ap_edit s")
    case (Some u)
    then have "editable me role db u" "ap_reset s \<noteq> [] \<longrightarrow> resettable me u"
      using ok by (auto simp: accounts_ok_def)
    then have "request_fine me role db (UpdateAccount u (ap_reset s))"
      if "ap_reset s \<noteq> [] \<longrightarrow> passwordWithinBounds (ap_reset s)"
      using saved_row_passes [OF rank, of me db u "ap_reset s"] that by (simp del: answer_to.simps)
    then show ?thesis using ok Some SavePressed
      by (auto simp: accounts_ok_def save_edit_def simp del: request_fine.simps)
  qed (use ok SavePressed in \<open>simp add: save_edit_def\<close>)
next
  case CreatePressed
  have "request_fine me role db (CreateAccount (ap_form s))"
    if "passwordWithinBounds (na_password (ap_form s))"
    using ok that by (simp add: create_mirrors_server [OF rank] accounts_ok_def)
  then show ?thesis using ok CreatePressed
    by (auto simp: accounts_ok_def create_account_def simp del: request_fine.simps)
next
  case (Accounts us)
  then show ?thesis using ok rows by (simp add: accounts_ok_def rows_of_server_def)
qed (use ok in \<open>auto simp: accounts_ok_def close_edit_def edit_saved_def edit_row_def editable_def
  resettable_def Let_def\<close>)

lemma accounts_run_ok:
  "roleRank role \<noteq> 0 \<Longrightarrow> accounts_ok me role db s \<Longrightarrow> list_all (rows_of_server me db) es
   \<Longrightarrow> accounts_ok me role db (fold (accounts_step me role) es s)"
  by (induction es arbitrary: s) (simp_all add: accounts_step_ok)


definition account_row :: "string \<Rightarrow> string \<Rightarrow> bool \<Rightarrow> admin_user" where
  "account_row i role oidc = \<lparr>au_id = i, au_email = i, au_display_name = i, au_department = [],
     au_organization = [], au_role = role, au_active = True, au_oidc = oidc\<rparr>"

text \<open>
  A workspace administrator \<open>u1\<close> cannot open the super administrator of the second row, promotes
  and resets the analyst of the third, and can neither demote nor lock out the own account.
\<close>

definition example_rows :: "admin_user list" where
  "example_rows = [account_row ''u1'' ''workspace_admin'' False, account_row ''u2'' ''super_admin'' False,
     account_row ''u3'' ''analyst'' False]"

definition example_db :: "string \<Rightarrow> role_lookup" where
  "example_db i = (if i = ''u1'' then Role ''workspace_admin'' else if i = ''u2'' then Role ''super_admin''
     else if i = ''u3'' then Role ''analyst'' else NoSuchUser)"

definition example_password :: "nat list" where
  "example_password = replicate 12 97"

definition example_edits :: "accounts_event list" where
  "example_edits = [Accounts example_rows, OpenEdit 1, OpenEdit 2, ChooseRole ''workspace_admin'',
     TypeReset example_password, SavePressed, Saved True, OpenEdit 0, ChooseRole ''viewer'',
     TickActive False, TypeReset example_password, SetDisplayName ''me'', SavePressed]"


text \<open>
  The answer of a save closes whatever dialog is open by then: an edit of another account, begun
  while the first one was on its way, is lost.
\<close>

lemma other_edit_closed:
  "let busy = fold (accounts_step ''u1'' ''workspace_admin'')
         [Accounts example_rows, OpenEdit 2, SavePressed, CloseEdit, OpenEdit 0, SetDisplayName ''me''] accounts_start
   in map_option au_display_name (ap_edit busy) = Some ''me''
    \<and> ap_edit (accounts_step ''u1'' ''workspace_admin'' (Saved True) busy) = None"
  by code_simp

text \<open>After an account was created its address and its password are still in the dialog for the next one.\<close>

lemma created_password_stays:
  "ap_form (accounts_step me role (Created True) s) = ap_form s"
  by simp

end
