(* ===== verification/Policies.thy ===== *)
theory Policies
  imports Settings Retention SegmentEdit Period "HOL-Library.AList"
begin

section \<open>The pages of instance settings, privacy, deletion and retention\<close>

text \<open>
  \<open>SettingsAdmin\<close>, \<open>PrivacyAdmin\<close>, \<open>DataDeletion\<close> and \<open>RetentionAdmin\<close> of
  \<open>web/src/pages/AdminPage.tsx\<close>, beside what the server does with their requests
  (\<open>internal/httpapi/admin.go\<close>). A request is written down when it leaves; its answer is an event.
\<close>

subsection \<open>Settings on the server\<close>

type_synonym groups = "(string \<times> props) list"

definition group_of :: "groups \<Rightarrow> string \<Rightarrow> props" where
  "group_of gs g = (case map_of gs g of Some ps \<Rightarrow> ps | None \<Rightarrow> [])"

definition MASK :: string where
  "MASK = ''********''"

text \<open>The list of settings shows a secret only as present.\<close>

definition mask_secret :: "props \<Rightarrow> props" where
  "mask_secret ps =
     (case getp ps ''client_secret'' of
        VStr c \<Rightarrow> if c \<noteq> [] then setp ''client_secret'' (VStr MASK) ps else ps
      | _ \<Rightarrow> ps)"

definition list_settings :: "groups \<Rightarrow> groups" where
  "list_settings db = map (\<lambda>(g, ps). (g, if g = ''oidc'' then mask_secret ps else ps)) db"

text \<open>
  What a write stores once it passed the checks: the secret is kept when its mask comes back and
  sealed when it is new (\<open>seal\<close> is the identity without an encryption key and on a sealed value),
  and the fields are merged into the stored group.
\<close>

definition keep_secret :: "(string \<Rightarrow> string) \<Rightarrow> props option \<Rightarrow> props \<Rightarrow> props" where
  "keep_secret seal stored body =
     (if getp body ''client_secret'' = VStr MASK then
        (case stored of
           None \<Rightarrow> body
         | Some old \<Rightarrow> setp ''client_secret''
             (case getp old ''client_secret'' of VUndef \<Rightarrow> VNull | v \<Rightarrow> v) body)
      else case getp body ''client_secret'' of
        VStr p \<Rightarrow> if p \<noteq> [] then setp ''client_secret'' (VStr (seal p)) body else body
      | _ \<Rightarrow> body)"

definition stored_setting :: "(string \<Rightarrow> string) \<Rightarrow> string \<Rightarrow> props option \<Rightarrow> props \<Rightarrow> props" where
  "stored_setting seal g stored body =
     spread (case stored of Some ps \<Rightarrow> ps | None \<Rightarrow> [])
       (if g = ''oidc'' then keep_secret seal stored body else body)"

definition put_setting :: "(string \<Rightarrow> string) \<Rightarrow> string \<times> props \<Rightarrow> groups \<Rightarrow> groups" where
  "put_setting seal w db =
     (case w of (g, body) \<Rightarrow> AList.update g (stored_setting seal g (map_of db g) body) db)"

subsection \<open>The settings form\<close>

text \<open>
  The edits are compared by identity: every change makes a new object, and they are numbered. The
  save writes the groups one after the other and stops at the first refusal; \<open>st_writing\<close> holds
  what is left of the loop, its first entry being on its way. Whether the callback of a save sees
  the edits of the moment it was pressed or the latest ones is left to the event.
\<close>

record settings_page =
  st_data :: groups
  st_edits :: groups
  st_edit_no :: nat
  st_saved_no :: nat
  st_pressed_no :: nat
  st_writing :: groups
  st_requests :: groups

definition SETTING_GROUPS :: "string list" where
  "SETTING_GROUPS = [''general'', ''oidc'', ''mcp.oauth'', ''storage'', ''security'']"

definition settings_start :: "groups \<Rightarrow> settings_page" where
  "settings_start data =
     \<lparr>st_data = data, st_edits = [], st_edit_no = 0, st_saved_no = 0, st_pressed_no = 0,
      st_writing = [], st_requests = []\<rparr>"

definition unsaved_settings :: "settings_page \<Rightarrow> bool" where
  "unsaved_settings s \<longleftrightarrow> st_edit_no s \<noteq> st_saved_no s \<and> st_edits s \<noteq> []"

definition group_value :: "settings_page \<Rightarrow> string \<Rightarrow> props" where
  "group_value s g =
     (case map_of (st_edits s) g of Some ps \<Rightarrow> ps | None \<Rightarrow> group_of (st_data s) g)"

definition change_setting :: "string \<Rightarrow> string \<Rightarrow> val \<Rightarrow> settings_page \<Rightarrow> settings_page" where
  "change_setting g k v s =
     s\<lparr>st_edits := AList.update g (setp k v (group_value s g)) (st_edits s),
       st_edit_no := Suc (st_edit_no s)\<rparr>"

definition edited_groups :: "settings_page \<Rightarrow> groups" where
  "edited_groups s =
     concat (map (\<lambda>g. case map_of (st_edits s) g of Some ps \<Rightarrow> [(g, ps)] | None \<Rightarrow> []) SETTING_GROUPS)"

definition save_settings :: "settings_page \<Rightarrow> settings_page" where
  "save_settings s =
     (if st_edits s = [] \<or> st_writing s \<noteq> [] then s
      else s\<lparr>st_writing := edited_groups s, st_pressed_no := st_edit_no s,
             st_requests := st_requests s @ take 1 (edited_groups s)\<rparr>)"

definition setting_written :: "bool \<Rightarrow> bool \<Rightarrow> settings_page \<Rightarrow> settings_page" where
  "setting_written ok latest s =
     (case st_writing s of
        [] \<Rightarrow> s
      | w # rest \<Rightarrow>
          if \<not> ok then s\<lparr>st_writing := []\<rparr>
          else if rest = [] then
            s\<lparr>st_writing := [], st_saved_no := (if latest then st_edit_no s else st_pressed_no s)\<rparr>
          else s\<lparr>st_writing := rest, st_requests := st_requests s @ take 1 rest\<rparr>)"

text \<open>Number and list fields of the form: what is shown for a value, and what typing stores.\<close>

definition shown_number :: "int \<Rightarrow> val \<Rightarrow> jnum" where
  "shown_number d v = (if truthy v then to_number v else Fin (of_int d))"

definition typed_number :: "string \<Rightarrow> val" where
  "typed_number t = VNum (js_number t)"

definition shown_list :: "val \<Rightarrow> string" where
  "shown_list v = (case v of VArr vs \<Rightarrow> join '', '' (map js_string vs) | _ \<Rightarrow> [])"

definition typed_list :: "string \<Rightarrow> val" where
  "typed_list t = VArr (map VStr (list_of_text t))"

subsection \<open>A save reaches the server\<close>

text \<open>The value a list of changes leaves in a field, if it changes it.\<close>

fun last_change :: "(string \<times> string \<times> val) list \<Rightarrow> string \<Rightarrow> string \<Rightarrow> val option" where
  "last_change [] g k = None"
| "last_change ((g', k', v) # cs) g k =
     (case last_change cs g k of
        Some w \<Rightarrow> Some w
      | None \<Rightarrow> if g' = g \<and> k' = k then Some v else None)"

definition changed :: "(string \<times> string \<times> val) list \<Rightarrow> settings_page \<Rightarrow> settings_page" where
  "changed cs s = fold (\<lambda>(g, k, v). change_setting g k v) cs s"

lemma changed_Nil [simp]: "changed [] s = s"
  by (simp add: changed_def)

lemma changed_Cons [simp]: "changed ((g, k, v) # cs) s = changed cs (change_setting g k v s)"
  by (simp add: changed_def)

lemma change_group_value:
  "group_value (change_setting g k v s) g' =
     (if g' = g then setp k v (group_value s g) else group_value s g')"
  by (auto simp: group_value_def change_setting_def update_conv' split: option.split)

lemma change_value:
  "getp (group_value (change_setting g k v s) g') k' =
     (if g' = g \<and> k' = k then v else getp (group_value s g') k')"
  by (simp add: change_group_value getp_setp)

lemma change_fields [simp]:
  "st_data (change_setting g k v s) = st_data s" "st_writing (change_setting g k v s) = st_writing s"
  by (simp_all add: change_setting_def)

lemma changed_value:
  "getp (group_value (changed cs s) g) k =
     (case last_change cs g k of Some v \<Rightarrow> v | None \<Rightarrow> getp (group_value s g) k)"
proof (induction cs arbitrary: s)
  case (Cons c cs)
  then show ?case by (cases c) (auto simp: change_value split: option.split)
qed simp

lemma changed_edits:
  "fst ` set (st_edits (changed cs s)) = fst ` set (st_edits s) \<union> fst ` set cs"
proof (induction cs arbitrary: s)
  case (Cons c cs)
  have "fst ` set (st_edits (change_setting g k v s)) = insert g (fst ` set (st_edits s))" for g k v
    using dom_update [of g "setp k v (group_value s g)" "st_edits s"]
    by (simp add: change_setting_def dom_map_of_conv_image_fst)
  then show ?case using Cons by (cases c) auto
qed simp

lemma changed_data [simp]: "st_data (changed cs s) = st_data s"
  by (induction cs arbitrary: s) (auto simp: split_paired_all)

lemma changed_requests: "st_requests (changed cs s) = st_requests s"
  by (induction cs arbitrary: s) (auto simp: split_paired_all change_setting_def)

lemma changed_writing [simp]: "st_writing (changed cs s) = st_writing s"
  by (induction cs arbitrary: s) (auto simp: split_paired_all)

lemma edited_groups_facts:
  "map_of (edited_groups s) g = (if g \<in> set SETTING_GROUPS then map_of (st_edits s) g else None)"
  "distinct (map fst (edited_groups s))"
  by (auto simp: edited_groups_def SETTING_GROUPS_def split: option.split)

lemma edited_value:
  "g \<in> fst ` set (st_edits s) \<Longrightarrow> map_of (st_edits s) g = Some (group_value s g)"
  by (auto simp: group_value_def map_of_eq_None_iff split: option.split)

lemma puts_stored:
  "distinct (map fst ws) \<Longrightarrow>
   map_of (fold (put_setting seal) ws db) g =
     (case map_of ws g of
        None \<Rightarrow> map_of db g
      | Some v \<Rightarrow> Some (stored_setting seal g (map_of db g) v))"
proof (induction ws arbitrary: db)
  case (Cons w ws)
  obtain h v where w: "w = (h, v)" by (cases w)
  have "map_of ws h = None" using Cons.prems by (simp add: w map_of_eq_None_iff)
  then show ?case using Cons by (auto simp: w put_setting_def update_conv' split: option.split)
qed simp

definition all_written :: "nat \<Rightarrow> bool \<Rightarrow> settings_page \<Rightarrow> settings_page" where
  "all_written n latest s = fold (\<lambda>ok. setting_written ok latest) (replicate n True) s"

lemma all_written_Suc [simp]:
  "all_written 0 latest s = s"
  "all_written (Suc n) latest s = all_written n latest (setting_written True latest s)"
  by (simp_all add: all_written_def)

lemma all_written_idle: "st_writing s = [] \<Longrightarrow> all_written n latest s = s"
  by (induction n) (simp_all add: setting_written_def)

lemma writes_done:
  "st_writing s = w # ws \<Longrightarrow> length ws < n \<Longrightarrow>
   all_written n latest s =
     s\<lparr>st_writing := [], st_saved_no := (if latest then st_edit_no s else st_pressed_no s),
       st_requests := st_requests s @ ws\<rparr>"
proof (induction ws arbitrary: s w n)
  case Nil
  then show ?case by (cases n) (simp_all add: setting_written_def all_written_idle)
next
  case (Cons v ws)
  define t where "t = s\<lparr>st_writing := v # ws, st_requests := st_requests s @ [v]\<rparr>"
  obtain m where n: "n = Suc m" using Cons.prems by (cases n) auto
  have "setting_written True latest s = t" using Cons.prems by (simp add: setting_written_def t_def)
  then show ?case using Cons.IH [of t v m] Cons.prems(2) by (simp add: n t_def)
qed

text \<open>The value a changed field has on the server: a new secret is sealed.\<close>

definition sealed :: "(string \<Rightarrow> string) \<Rightarrow> string \<Rightarrow> string \<Rightarrow> val \<Rightarrow> val" where
  "sealed seal g k v =
     (if g = ''oidc'' \<and> k = ''client_secret''
      then case v of VStr p \<Rightarrow> if p = [] then v else VStr (seal p) | _ \<Rightarrow> v
      else v)"

lemma getp_mask:
  "getp (mask_secret ps) k =
     (if k = ''client_secret'' \<and> (\<exists>c. getp ps k = VStr c \<and> c \<noteq> []) then VStr MASK else getp ps k)"
  by (auto simp: mask_secret_def getp_setp split: val.split)

lemma keys_mask: "set (keys (mask_secret ps)) = set (keys ps)"
proof -
  have "''client_secret'' \<in> set (keys ps)" if "getp ps ''client_secret'' = VStr c" for c
    using that getp_absent by fastforce
  then show ?thesis by (auto simp: mask_secret_def simp del: set_map split: val.split)
qed

lemma group_of_listed:
  "group_of (list_settings db) g = (if g = ''oidc'' then mask_secret (group_of db g) else group_of db g)"
proof -
  have "map_of (list_settings db) g =
      map_option (\<lambda>ps. if g = ''oidc'' then mask_secret ps else ps) (map_of db g)"
    by (induction db) (auto simp: list_settings_def)
  then show ?thesis by (auto simp: group_of_def mask_secret_def split: option.split)
qed

lemma keep_secret_facts:
  "k \<noteq> ''client_secret'' \<Longrightarrow> getp (keep_secret seal stored body) k = getp body k"
  "k \<noteq> ''client_secret'' \<Longrightarrow> k \<in> set (keys (keep_secret seal stored body)) \<longleftrightarrow> k \<in> set (keys body)"
  "wf_obj body \<Longrightarrow> wf_obj (keep_secret seal stored body)"
  by (auto simp: keep_secret_def getp_setp simp del: set_map split: option.split val.split)

lemma stored_value:
  assumes "wf_obj body"
    and v: "\<And>k. getp body k = (case ch k of Some v \<Rightarrow> v
        | None \<Rightarrow> getp (if g = ''oidc'' then mask_secret (group_of db g) else group_of db g) k)"
    and typed: "\<And>k v. ch k = Some v \<Longrightarrow> v \<noteq> VUndef \<and> v \<noteq> VStr MASK"
  shows "getp (stored_setting seal g (map_of db g) body) k =
    (case ch k of Some v \<Rightarrow> sealed seal g k v | None \<Rightarrow> getp (group_of db g) k)"
proof -
  let ?old = "group_of db g"
  let ?new = "if g = ''oidc'' then keep_secret seal (map_of db g) body else body"
  have stored: "stored_setting seal g (map_of db g) body = spread ?old ?new"
    by (simp add: stored_setting_def group_of_def)
  have wf: "wf_obj ?new" using assms(1) keep_secret_facts(3) by simp
  have absent: "k \<notin> set (keys body) \<Longrightarrow> ch k = None"
    using getp_absent [of k body] v [of k] typed [of k] by (auto split: option.splits)
  show ?thesis
  proof (cases "g = ''oidc'' \<and> k = ''client_secret''")
    case False
    then have "getp ?new k = getp body k" "k \<in> set (keys ?new) \<longleftrightarrow> k \<in> set (keys body)"
      using keep_secret_facts(1,2) by auto
    moreover have "getp body k = (case ch k of Some v \<Rightarrow> v | None \<Rightarrow> getp ?old k)"
      using v [of k] False by (auto simp: getp_mask split: option.split)
    ultimately show ?thesis using absent False unfolding stored getp_spread [OF wf]
      by (auto simp: sealed_def split: option.split)
  next
    case True
    then have g: "g = ''oidc''" and k: "k = ''client_secret''" by simp_all
    have secret: "getp ?new k = (case ch k of Some w \<Rightarrow> sealed seal g k w | None \<Rightarrow> getp ?old k)
        \<and> (k \<in> set (keys ?new) \<or> k \<notin> set (keys body))"
    proof (cases "ch k")
      case (Some w)
      then have "getp body ''client_secret'' = w" "w \<noteq> VStr MASK" using v [of k] typed k by auto
      then show ?thesis using Some g k
        by (auto simp: keep_secret_def sealed_def getp_setp simp del: set_map split: val.split)
    next
      case None
      show ?thesis
      proof (cases "\<exists>c. getp ?old k = VStr c \<and> c \<noteq> []")
        case True
        then obtain old where "map_of db g = Some old" by (auto simp: group_of_def split: option.splits)
        moreover have "getp body ''client_secret'' = VStr MASK"
          using v [of k] None True g k by (simp add: getp_mask)
        ultimately show ?thesis using None True g k
          by (auto simp: keep_secret_def getp_setp group_of_def simp del: set_map split: val.splits)
      next
        case False
        then have "getp body ''client_secret'' = getp ?old k"
          using v [of k] None g k by (auto simp: getp_mask)
        moreover have "getp ?old k \<noteq> VStr MASK" using False by (auto simp: MASK_def)
        ultimately show ?thesis using None False g k
          by (auto simp: keep_secret_def simp del: set_map split: val.splits)
      qed
    qed
    then show ?thesis using absent unfolding stored getp_spread [OF wf]
      by (auto simp: g simp del: set_map split: option.split)
  qed
qed

lemma changed_wf:
  "\<forall>g. wf_obj (group_value s g) \<Longrightarrow> wf_obj (group_value (changed cs s) g)"
proof (induction cs arbitrary: s)
  case (Cons c cs)
  obtain h k v where c: "c = (h, k, v)" by (cases c)
  have "wf_obj (group_value (change_setting h k v s) g)" for g
    using Cons.prems by (simp add: change_group_value)
  then show ?case using Cons.IH by (simp add: c)
qed simp

lemma last_change_known:
  "last_change cs g k = Some v \<Longrightarrow> (g, k, v) \<in> set cs"
  by (induction cs) (auto split: option.splits if_splits)

lemma group_value_start:
  "group_value (settings_start (list_settings db)) g =
     (if g = ''oidc'' then mask_secret (group_of db g) else group_of db g)"
  by (simp add: group_value_def settings_start_def group_of_listed)

lemma edited_after_changes:
  assumes "\<forall>(g, k, v) \<in> set cs. g \<in> set SETTING_GROUPS" "st_edits s = []"
  shows "map_of (edited_groups (changed cs s)) g =
     (if g \<in> fst ` set cs then Some (group_value (changed cs s) g) else None)"
proof -
  have edits: "fst ` set (st_edits (changed cs s)) = fst ` set cs"
    using assms(2) by (simp add: changed_edits)
  have "fst ` set cs \<subseteq> set SETTING_GROUPS" using assms(1) by auto
  then show ?thesis
    using edited_groups_facts(1) [of "changed cs s" g] edited_value [of g "changed cs s"] edits
    by (auto simp: map_of_eq_None_iff)
qed

lemma changes_stored:
  assumes db: "\<forall>(g, ps) \<in> set db. wf_obj ps"
    and cs: "\<forall>(g, k, v) \<in> set cs. g \<in> set SETTING_GROUPS \<and> v \<noteq> VUndef \<and> v \<noteq> VStr MASK"
  shows "getp (group_of (fold (put_setting seal)
        (edited_groups (changed cs (settings_start (list_settings db)))) db) g) k =
      (case last_change cs g k of Some v \<Rightarrow> sealed seal g k v | None \<Rightarrow> getp (group_of db g) k)"
proof -
  define t where "t = changed cs (settings_start (list_settings db))"
  have ws: "map_of (edited_groups t) g = (if g \<in> fst ` set cs then Some (group_value t g) else None)"
    unfolding t_def by (rule edited_after_changes) (use cs in \<open>auto simp: settings_start_def\<close>)
  note puts = puts_stored [OF edited_groups_facts(2) [of t], of seal db g, unfolded ws]
  show ?thesis
  proof (cases "g \<in> fst ` set cs")
    case True
    have "wf_obj (group_of db g)" for g
      using db by (auto simp: group_of_def wf_obj_def dest: map_of_SomeD split: option.split)
    then have wf: "wf_obj (group_value t g)"
      unfolding t_def by (intro changed_wf) (auto simp: group_value_start mask_secret_def split: val.split)
    have "getp (stored_setting seal g (map_of db g) (group_value t g)) k =
        (case last_change cs g k of Some v \<Rightarrow> sealed seal g k v | None \<Rightarrow> getp (group_of db g) k)"
      by (rule stored_value [OF wf])
        (use cs in \<open>auto simp: t_def changed_value group_value_start dest: last_change_known split: option.split\<close>)
    then show ?thesis using True puts by (simp add: group_of_def flip: t_def)
  next
    case False
    then have "last_change cs g k = None"
      using last_change_known [of cs g k] by (cases "last_change cs g k") force+
    then show ?thesis using False puts by (simp add: group_of_def flip: t_def)
  qed
qed

text \<open>
  C17: On a page that shows what the server listed, any changes followed by a save whose writes are
  accepted leave on the server exactly those changes: every changed field has its last value (a new
  secret sealed), every other field the value it had, the masked secret included; and nothing is
  unsaved.
\<close>

theorem settings_saved_as_shown:
  assumes db: "\<forall>(g, ps) \<in> set db. wf_obj ps"
    and cs: "\<forall>(g, k, v) \<in> set cs. g \<in> set SETTING_GROUPS \<and> v \<noteq> VUndef \<and> v \<noteq> VStr MASK" "cs \<noteq> []"
    and s: "s = all_written 5 latest (save_settings (changed cs (settings_start (list_settings db))))"
  shows "\<not> unsaved_settings s \<and> st_writing s = []
    \<and> (\<forall>g k. getp (group_of (fold (put_setting seal) (st_requests s) db) g) k =
          (case last_change cs g k of Some v \<Rightarrow> sealed seal g k v | None \<Rightarrow> getp (group_of db g) k))"
proof -
  define t where "t = changed cs (settings_start (list_settings db))"
  define ws where "ws = edited_groups t"
  have groups: "fst ` set cs \<subseteq> set SETTING_GROUPS" using cs(1) by auto
  have ws_of: "map_of ws g = (if g \<in> fst ` set cs then Some (group_value t g) else None)" for g
    unfolding ws_def t_def by (rule edited_after_changes) (use cs(1) in \<open>auto simp: settings_start_def\<close>)
  have edits: "fst ` set (st_edits t) = fst ` set cs"
    unfolding t_def changed_edits by (simp add: settings_start_def)
  obtain g where "g \<in> fst ` set cs" using cs(2) by (cases cs) auto
  then obtain w rest where ws: "ws = w # rest" using ws_of [of g] by (cases ws) auto
  have idle: "st_writing t = []" "st_requests t = []" "st_edits t \<noteq> []"
    using edits cs(2) by (auto simp: t_def settings_start_def changed_requests)
  let ?pressed = "t\<lparr>st_writing := ws, st_pressed_no := st_edit_no t, st_requests := [w]\<rparr>"
  have "length (map fst ws) = card (set (map fst ws))"
    using distinct_card [of "map fst ws"] edited_groups_facts(2) [of t] by (simp add: ws_def)
  also have "\<dots> \<le> card (set SETTING_GROUPS)"
    using groups ws_of by (intro card_mono) (force simp flip: dom_map_of_conv_image_fst split: if_splits)+
  finally have "length ws \<le> length SETTING_GROUPS" by (simp add: SETTING_GROUPS_def)
  then have "s = ?pressed\<lparr>st_writing := [], st_saved_no := st_edit_no t, st_requests := ws\<rparr>"
    using writes_done [of ?pressed w rest 5 latest] idle ws
    by (simp add: s save_settings_def SETTING_GROUPS_def flip: t_def ws_def)
  moreover have "getp (group_of (fold (put_setting seal) ws db) g) k =
      (case last_change cs g k of Some v \<Rightarrow> sealed seal g k v | None \<Rightarrow> getp (group_of db g) k)" for g k
    unfolding ws_def t_def by (rule changes_stored [OF db cs(1)])
  ultimately show ?thesis by (simp add: unsaved_settings_def)
qed

definition example_settings :: groups where
  "example_settings = [(''general'', [(''timezone'', VStr ''UTC''), (''public_url'', VStr ''https://a'')]),
     (''oidc'', [(''client_id'', VStr ''c''), (''client_secret'', VStr ''sealed'')])]"

definition example_changes :: "(string \<times> string \<times> val) list" where
  "example_changes = [(''oidc'', ''client_id'', VStr ''d''), (''general'', ''timezone'', VStr ''Asia/Seoul'')]"

lemma settings_saved_as_shown_witness:
  "let s = all_written 5 True
         (save_settings (changed example_changes (settings_start (list_settings example_settings))));
       after = fold (put_setting (\<lambda>p. ''sealed '' @ p)) (st_requests s) example_settings
   in map fst (st_requests s) = [''general'', ''oidc'']
    \<and> getp (group_of after ''oidc'') ''client_secret'' = VStr ''sealed''
    \<and> getp (group_of after ''oidc'') ''client_id'' = VStr ''d''"
proof -
  let ?s = "all_written 5 True
    (save_settings (changed example_changes (settings_start (list_settings example_settings))))"
  have "\<forall>(g, ps) \<in> set example_settings. wf_obj ps"
    "\<forall>(g, k, v) \<in> set example_changes. g \<in> set SETTING_GROUPS \<and> v \<noteq> VUndef \<and> v \<noteq> VStr MASK"
    "example_changes \<noteq> []"
    by (simp_all add: example_settings_def example_changes_def wf_obj_def SETTING_GROUPS_def MASK_def)
  note run = settings_saved_as_shown [OF this refl, of True "\<lambda>p. ''sealed '' @ p"]
  then have "getp (group_of (fold (put_setting (\<lambda>p. ''sealed '' @ p)) (st_requests ?s) example_settings) g) k =
      (case last_change example_changes g k of
         Some v \<Rightarrow> sealed (\<lambda>p. ''sealed '' @ p) g k v
       | None \<Rightarrow> getp (group_of example_settings g) k)" for g k by blast
  from this [of "''oidc''" "''client_secret''"] this [of "''oidc''" "''client_id''"]
  have "getp (group_of (fold (put_setting (\<lambda>p. ''sealed '' @ p)) (st_requests ?s) example_settings) ''oidc'')
      ''client_secret'' = VStr ''sealed''
    \<and> getp (group_of (fold (put_setting (\<lambda>p. ''sealed '' @ p)) (st_requests ?s) example_settings) ''oidc'')
      ''client_id'' = VStr ''d''"
    by (simp add: example_changes_def example_settings_def group_of_def sealed_def)
  moreover have "map fst (st_requests ?s) = [''general'', ''oidc'']" by code_simp
  ultimately show ?thesis unfolding Let_def by blast
qed

text \<open>
  A group that was saved once is written again by every later save, with the values it was saved
  with, and always whole: what another administrator changed in it in the meantime is undone.
\<close>

lemma later_save_undoes_others:
  "let s = all_written 5 True (save_settings
         (change_setting ''general'' ''timezone'' (VStr ''Asia/Seoul'') (settings_start (list_settings example_settings))));
       db = fold (put_setting id) (st_requests s) example_settings;
       db' = put_setting id (''general'', [(''public_url'', VStr ''https://b'')]) db;
       s' = all_written 5 True (save_settings
         (change_setting ''security'' ''max_payload_bytes'' (vint 2048) (s\<lparr>st_requests := [], st_data := list_settings db'\<rparr>)));
       db'' = fold (put_setting id) (st_requests s') db'
   in map fst (st_requests s') = [''general'', ''security'']
    \<and> getp (group_of db' ''general'') ''public_url'' = VStr ''https://b''
    \<and> getp (group_of db'' ''general'') ''public_url'' = VStr ''https://a''"
  by code_simp

text \<open>
  A number field that is emptied holds zero and shows its default, which the server then refuses
  although the field shows an allowed value; and the comma behind an item of a list field
  disappears, so that a second item cannot be typed.
\<close>

lemma cleared_number_shows_default:
  "typed_number [] = vint 0" "shown_number d (typed_number []) = Fin (of_int d)"
  by (simp_all add: typed_number_def shown_number_def) (simp_all add: js_number_def)

lemma second_item_cannot_be_typed:
  "shown_list (typed_list (t @ '','')) = shown_list (typed_list t)"
  by (simp add: typed_list_def trailing_comma_swallowed)

subsection \<open>The privacy form\<close>

text \<open>
  \<open>pv_data\<close> is the privacy group as the server last answered it, absent while it is being read or
  when the read failed or held no such group: then there is no form. \<open>pv_answered\<close> remembers every
  answer, \<open>pv_edited\<close> the fields the reader touched.
\<close>

record privacy_page =
  pv_data :: "props option"
  pv_local :: "props option"
  pv_requests :: "props list"
  pv_saving :: bool
  pv_answered :: "props list"
  pv_edited :: "string list"

definition privacy_start :: privacy_page where
  "privacy_start = \<lparr>pv_data = None, pv_local = None, pv_requests = [], pv_saving = False,
     pv_answered = [], pv_edited = []\<rparr>"

definition privacy_value :: "props \<Rightarrow> privacy_page \<Rightarrow> props" where
  "privacy_value data s = (case pv_local s of Some l \<Rightarrow> l | None \<Rightarrow> data)"

definition privacy_set :: "string \<Rightarrow> val \<Rightarrow> privacy_page \<Rightarrow> privacy_page" where
  "privacy_set k v s =
     (case pv_data s of
        None \<Rightarrow> s
      | Some data \<Rightarrow>
          s\<lparr>pv_local := Some (setp k v (privacy_value data s)), pv_edited := k # pv_edited s\<rparr>)"

definition privacy_save :: "privacy_page \<Rightarrow> privacy_page" where
  "privacy_save s =
     (case (pv_data s, pv_local s) of
        (Some _, Some l) \<Rightarrow>
          if pv_saving s then s else s\<lparr>pv_saving := True, pv_requests := pv_requests s @ [l]\<rparr>
      | _ \<Rightarrow> s)"

definition privacy_arrived :: "groups option \<Rightarrow> privacy_page \<Rightarrow> privacy_page" where
  "privacy_arrived answer s =
     (case answer of
        None \<Rightarrow> s\<lparr>pv_data := None\<rparr>
      | Some gs \<Rightarrow>
          (case map_of gs ''privacy'' of
             None \<Rightarrow> s\<lparr>pv_data := None\<rparr>
           | Some ps \<Rightarrow> s\<lparr>pv_data := Some ps, pv_answered := ps # pv_answered s\<rparr>))"

datatype privacy_event =
    PrivacyArrived "groups option"
  | PrivacySet string val
  | PrivacySave
  | PrivacySaved bool

fun privacy_step :: "privacy_event \<Rightarrow> privacy_page \<Rightarrow> privacy_page" where
  "privacy_step (PrivacyArrived a) s = privacy_arrived a s"
| "privacy_step (PrivacySet k v) s = privacy_set k v s"
| "privacy_step PrivacySave s = privacy_save s"
| "privacy_step (PrivacySaved ok) s = s\<lparr>pv_saving := False\<rparr>"

text \<open>Every field is one that the reader touched or has the value some answer had for it.\<close>

definition from_answer :: "privacy_page \<Rightarrow> props \<Rightarrow> bool" where
  "from_answer s ps \<longleftrightarrow>
     (\<exists>a \<in> set (pv_answered s). \<forall>k. k \<notin> set (pv_edited s) \<longrightarrow> getp ps k = getp a k)"

definition privacy_ok :: "privacy_page \<Rightarrow> bool" where
  "privacy_ok s \<longleftrightarrow> (\<forall>d. pv_data s = Some d \<longrightarrow> d \<in> set (pv_answered s))
     \<and> (\<forall>l. pv_local s = Some l \<longrightarrow> from_answer s l) \<and> (\<forall>r \<in> set (pv_requests s). from_answer s r)"

lemma from_answer_more:
  "from_answer s ps \<Longrightarrow> set (pv_answered s) \<subseteq> set (pv_answered t) \<Longrightarrow> set (pv_edited s) \<subseteq> set (pv_edited t)
   \<Longrightarrow> from_answer t ps"
  unfolding from_answer_def by blast

lemma privacy_set_ok:
  assumes "privacy_ok s"
  shows "privacy_ok (privacy_set k v s)"
proof (cases "pv_data s")
  case (Some d)
  let ?t = "privacy_set k v s"
  have more: "set (pv_answered s) \<subseteq> set (pv_answered ?t)" "set (pv_edited s) \<subseteq> set (pv_edited ?t)"
    using Some by (auto simp: privacy_set_def)
  have "from_answer s (privacy_value d s)"
    using assms Some by (auto simp: privacy_value_def privacy_ok_def from_answer_def split: option.split)
  then have "from_answer ?t (setp k v (privacy_value d s))"
    using Some by (auto simp: from_answer_def privacy_set_def getp_setp)
  then show ?thesis
    using assms Some from_answer_more [OF _ more] by (auto simp: privacy_ok_def privacy_set_def)
qed (use assms in \<open>simp add: privacy_set_def\<close>)

lemma privacy_step_ok:
  assumes "privacy_ok s"
  shows "privacy_ok (privacy_step e s)"
proof (cases e)
  case (PrivacyArrived a)
  have more: "set (pv_answered s) \<subseteq> set (pv_answered (privacy_arrived a s))"
    "set (pv_edited s) \<subseteq> set (pv_edited (privacy_arrived a s))"
    by (auto simp: privacy_arrived_def split: option.split)
  show ?thesis using assms from_answer_more [OF _ more] PrivacyArrived
    by (auto simp: privacy_ok_def privacy_arrived_def split: option.splits)
next
  case (PrivacySet k v)
  then show ?thesis using privacy_set_ok [OF assms] by simp
qed (use assms in \<open>auto simp: privacy_ok_def privacy_save_def from_answer_def split: option.split\<close>)

lemma privacy_run_ok: "privacy_ok s \<Longrightarrow> privacy_ok (fold privacy_step es s)"
  by (induction es arbitrary: s) (simp_all add: privacy_step_ok)

text \<open>
  C21: However the answers come, fail or come empty: a policy that is saved has, for every protection the
  reader did not touch, a value that the server had answered; a protection is never switched off
  because it could not be read.
\<close>

theorem protections_are_not_invented:
  assumes "s = fold privacy_step es privacy_start" "ps \<in> set (pv_requests s)"
  shows "\<exists>a \<in> set (pv_answered s). \<forall>k. k \<notin> set (pv_edited s) \<longrightarrow> getp ps k = getp a k"
proof -
  have "privacy_ok s"
    unfolding assms(1) by (rule privacy_run_ok) (simp add: privacy_ok_def privacy_start_def)
  then show ?thesis using assms(2) by (auto simp: privacy_ok_def from_answer_def)
qed

lemma protections_are_not_invented_witness:
  "let s = fold privacy_step
         [PrivacySet ''do_not_track'' (VBool True), PrivacySave, PrivacyArrived None,
          PrivacyArrived (Some [(''privacy'', [(''ip_anonymization'', VBool True)])]),
          PrivacySet ''do_not_track'' (VBool True), PrivacySave] privacy_start;
       body = [(''ip_anonymization'', VBool True), (''do_not_track'', VBool True)]
   in pv_requests s = [body]
    \<and> (\<exists>a \<in> set (pv_answered s). \<forall>k. k \<notin> set (pv_edited s) \<longrightarrow> getp body k = getp a k)"
proof -
  let ?es = "[PrivacySet ''do_not_track'' (VBool True), PrivacySave, PrivacyArrived None,
          PrivacyArrived (Some [(''privacy'', [(''ip_anonymization'', VBool True)])]),
          PrivacySet ''do_not_track'' (VBool True), PrivacySave]"
  have "pv_requests (fold privacy_step ?es privacy_start) =
      [[(''ip_anonymization'', VBool True), (''do_not_track'', VBool True)]]" by code_simp
  then show ?thesis
    using protections_are_not_invented [OF refl, of _ ?es] unfolding Let_def by (simp del: fold.simps)
qed

subsection \<open>Deleting collected data\<close>

record deletion_request =
  dr_site :: string
  dr_mode :: string
  dr_value :: string
  dr_from :: string
  dr_to :: string
  dr_confirm :: string

record deletion_form =
  dl_site :: "string option"
  dl_mode :: string
  dl_value :: string
  dl_from :: string
  dl_to :: string
  dl_confirm :: string
  dl_pending :: bool
  dl_requests :: "deletion_request list"

definition DELETION_MODES :: "string list" where
  "DELETION_MODES = [''visitor'', ''user_id'', ''property'', ''period'', ''site'']"

definition deletion_start :: "string option \<Rightarrow> deletion_form" where
  "deletion_start site =
     \<lparr>dl_site = site, dl_mode = ''visitor'', dl_value = [], dl_from = [], dl_to = [], dl_confirm = [],
      dl_pending = False, dl_requests = []\<rparr>"

definition deletion_disabled :: "deletion_form \<Rightarrow> bool" where
  "deletion_disabled s \<longleftrightarrow>
     dl_site s = None \<or> dl_confirm s \<noteq> ''DELETE''
     \<or> dl_mode s \<noteq> ''site'' \<and> dl_mode s \<noteq> ''period'' \<and> dl_value s = []
     \<or> dl_mode s = ''period'' \<and> (dl_from s = [] \<or> dl_to s = []) \<or> dl_pending s"

definition press_delete :: "deletion_form \<Rightarrow> deletion_form" where
  "press_delete s =
     (case dl_site s of
        None \<Rightarrow> s
      | Some site \<Rightarrow>
          if deletion_disabled s then s
          else s\<lparr>dl_pending := True, dl_requests := dl_requests s @
            [\<lparr>dr_site = site, dr_mode = dl_mode s, dr_value = dl_value s, dr_from = dl_from s,
              dr_to = dl_to s, dr_confirm = dl_confirm s\<rparr>]\<rparr>)"

datatype deletion_event =
    DeletionSite "string option"
  | DeletionMode string
  | DeletionValue string
  | DeletionFrom string
  | DeletionTo string
  | DeletionConfirm string
  | PressDelete
  | Deleted bool

fun deletion_step :: "deletion_event \<Rightarrow> deletion_form \<Rightarrow> deletion_form" where
  "deletion_step (DeletionSite site) s = s\<lparr>dl_site := site\<rparr>"
| "deletion_step (DeletionMode m) s = (if m \<in> set DELETION_MODES then s\<lparr>dl_mode := m\<rparr> else s)"
| "deletion_step (DeletionValue v) s =
     (if dl_mode s = ''period'' \<or> dl_mode s = ''site'' then s else s\<lparr>dl_value := v\<rparr>)"
| "deletion_step (DeletionFrom d) s = (if dl_mode s = ''period'' then s\<lparr>dl_from := d\<rparr> else s)"
| "deletion_step (DeletionTo d) s = (if dl_mode s = ''period'' then s\<lparr>dl_to := d\<rparr> else s)"
| "deletion_step (DeletionConfirm c) s = s\<lparr>dl_confirm := c\<rparr>"
| "deletion_step PressDelete s = press_delete s"
| "deletion_step (Deleted ok) s = s\<lparr>dl_pending := False\<rparr>"

text \<open>
  The guards of \<open>deleteAnalyticsData\<close>, up to the first statement that touches an event: \<open>known\<close>
  says which sites the database holds. The hours that a change of the clock adds to or takes from
  the longest range are not counted.
\<close>

datatype deletion_refusal =
    CONFIRMATION_REQUIRED | UNKNOWN_SITE | RANGE_REFUSED | INVALID_MODE | INVALID_PROPERTY

definition go_date :: "string \<Rightarrow> int option" where
  "go_date t = (if length t = 10 then dayNumber t else None)"

definition parseDateRange :: "string \<Rightarrow> string \<Rightarrow> (int \<times> int) option" where
  "parseDateRange from until =
     (case (go_date from, go_date until) of
        (Some a, Some b) \<Rightarrow>
          let b' = b + 1 in if \<not> a < b' \<or> b' - a > 3660 then None else Some (a, b')
      | _ \<Rightarrow> None)"

definition deletion_guards :: "(string \<Rightarrow> bool) \<Rightarrow> deletion_request \<Rightarrow> deletion_refusal option" where
  "deletion_guards known r =
     (if dr_confirm r \<noteq> ''DELETE'' then Some CONFIRMATION_REQUIRED
      else if \<not> known (dr_site r) then Some UNKNOWN_SITE
      else if dr_mode r = ''period'' \<and> parseDateRange (dr_from r) (dr_to r) = None then Some RANGE_REFUSED
      else if dr_mode r \<notin> {''site'', ''visitor'', ''user_id'', ''property'', ''period''} then Some INVALID_MODE
      else if dr_mode r = ''property'' \<and> \<not> property_name (dr_value r) then Some INVALID_PROPERTY
      else None)"

text \<open>A request that names what is to be deleted.\<close>

definition well_aimed :: "deletion_request \<Rightarrow> bool" where
  "well_aimed r \<longleftrightarrow> dr_confirm r = ''DELETE'' \<and> dr_mode r \<in> set DELETION_MODES
     \<and> (dr_mode r = ''site'' \<or> (if dr_mode r = ''period'' then dr_from r \<noteq> [] \<and> dr_to r \<noteq> [] else dr_value r \<noteq> []))"

definition deletion_ok :: "deletion_form \<Rightarrow> bool" where
  "deletion_ok s \<longleftrightarrow> dl_mode s \<in> set DELETION_MODES \<and> (\<forall>r \<in> set (dl_requests s). well_aimed r)"

lemma press_delete_ok: "deletion_ok s \<Longrightarrow> deletion_ok (press_delete s)"
  by (auto simp: deletion_ok_def press_delete_def deletion_disabled_def well_aimed_def split: option.split)

lemma deletion_step_ok: "deletion_ok s \<Longrightarrow> deletion_ok (deletion_step e s)"
  by (cases e) (auto simp: press_delete_ok, auto simp: deletion_ok_def)

lemma deletion_run_ok: "deletion_ok s \<Longrightarrow> deletion_ok (fold deletion_step es s)"
  by (induction es arbitrary: s) (simp_all add: deletion_step_ok)

text \<open>
  C19: Nothing is deleted without the typed confirmation and a target: whatever is typed and chosen, a
  request names a visitor, a user, a property, a period or explicitly the whole site, and the server
  refuses it only for its site, its dates or the name of the property.
\<close>

theorem deletion_is_aimed:
  assumes "s = fold deletion_step es (deletion_start site)" "r \<in> set (dl_requests s)"
  shows "well_aimed r
    \<and> deletion_guards known r \<in> {None, Some UNKNOWN_SITE}
        \<union> (if dr_mode r = ''period'' then {Some RANGE_REFUSED} else {})
        \<union> (if dr_mode r = ''property'' then {Some INVALID_PROPERTY} else {})"
proof -
  have "deletion_ok (deletion_start site)" by (simp add: deletion_ok_def deletion_start_def DELETION_MODES_def)
  then have "deletion_ok s" unfolding assms(1) by (rule deletion_run_ok)
  then have "well_aimed r" using assms(2) by (simp add: deletion_ok_def)
  then show ?thesis by (auto simp: deletion_guards_def well_aimed_def DELETION_MODES_def)
qed

lemma deletion_is_aimed_witness:
  "let s = fold deletion_step
         [PressDelete, DeletionConfirm ''DELETE'', PressDelete, DeletionMode ''period'', DeletionFrom ''2024-02-01'',
          PressDelete, DeletionTo ''2024-02-29'', PressDelete] (deletion_start (Some ''a''));
       r = \<lparr>dr_site = ''a'', dr_mode = ''period'', dr_value = [], dr_from = ''2024-02-01'', dr_to = ''2024-02-29'',
             dr_confirm = ''DELETE''\<rparr>
   in dl_requests s = [r] \<and> well_aimed r \<and> deletion_guards (\<lambda>i. i = ''a'') r = None"
proof -
  let ?es = "[PressDelete, DeletionConfirm ''DELETE'', PressDelete, DeletionMode ''period'', DeletionFrom ''2024-02-01'',
          PressDelete, DeletionTo ''2024-02-29'', PressDelete]"
  let ?r = "\<lparr>dr_site = ''a'', dr_mode = ''period'', dr_value = [], dr_from = ''2024-02-01'', dr_to = ''2024-02-29'',
             dr_confirm = ''DELETE''\<rparr>"
  have "dl_requests (fold deletion_step ?es (deletion_start (Some ''a''))) = [?r]"
    "deletion_guards (\<lambda>i. i = ''a'') ?r = None" by code_simp+
  then show ?thesis
    using deletion_is_aimed [OF refl, of ?r ?es "Some ''a''"] unfolding Let_def by (simp del: fold.simps)
qed

text \<open>
  The confirmation stays after a deletion and when another site is selected: the next press deletes
  there, without anything typed for it.
\<close>

lemma deletion_stays_armed:
  "let s = fold deletion_step
         [DeletionMode ''site'', DeletionConfirm ''DELETE'', PressDelete, Deleted True, DeletionSite (Some ''b''),
          PressDelete] (deletion_start (Some ''a''))
   in map dr_site (dl_requests s) = [''a'', ''b'']"
  by code_simp

subsection \<open>The retention form\<close>

text \<open>
  The policy of the selected site is read by a query whose key is the site, so it is absent after
  the site changed until its answer is there. \<open>rt_local\<close> is the policy being edited, with the columns
  in the order of \<open>Retention.form_values\<close>.
\<close>

type_synonym retention_form = "(string \<times> jnum option) list"

record retention_page =
  rt_site :: string
  rt_policy :: "retention_policy option"
  rt_local :: "retention_form option"
  rt_saving :: bool
  rt_requests :: "(string \<times> retention_form) list"

definition retention_start :: "string \<Rightarrow> retention_page" where
  "retention_start site =
     \<lparr>rt_site = site, rt_policy = None, rt_local = None, rt_saving = False, rt_requests = []\<rparr>"

definition retention_current :: "retention_page \<Rightarrow> retention_form option" where
  "retention_current s =
     (case rt_local s of Some l \<Rightarrow> Some l | None \<Rightarrow> map_option form_values (rt_policy s))"

text \<open>\<open>{...policy, ...local, [key]: value}\<close>: both have the five columns.\<close>

definition retention_set :: "string \<Rightarrow> jnum option \<Rightarrow> retention_page \<Rightarrow> retention_page" where
  "retention_set c v s =
     (case (rt_policy s, retention_current s) of
        (Some _, Some l) \<Rightarrow> s\<lparr>rt_local := Some (map (\<lambda>(d, w). (d, if d = c then v else w)) l)\<rparr>
      | _ \<Rightarrow> s)"

text \<open>What typing stores: a number, and no limit where the column allows it and nothing is typed.\<close>

definition typed_limit :: "string \<Rightarrow> string \<Rightarrow> jnum option" where
  "typed_limit c t = (if c = ''aggregation_months'' \<and> t = [] then None else Some (js_number t))"

definition retention_save :: "retention_page \<Rightarrow> retention_page" where
  "retention_save s =
     (case (rt_policy s, rt_local s) of
        (Some _, Some l) \<Rightarrow>
          if rt_saving s then s
          else s\<lparr>rt_saving := True, rt_requests := rt_requests s @ [(rt_site s, l)]\<rparr>
      | _ \<Rightarrow> s)"

definition retention_saved :: "bool \<Rightarrow> retention_page \<Rightarrow> retention_page" where
  "retention_saved ok s =
     (let t = s\<lparr>rt_saving := False\<rparr> in if ok then t\<lparr>rt_local := None\<rparr> else t)"

datatype retention_event =
    PolicyArrived string retention_policy
  | TypeLimit string string
  | SaveRetention
  | RetentionSaved bool
  | RetentionSite string

fun retention_step :: "retention_event \<Rightarrow> retention_page \<Rightarrow> retention_page" where
  "retention_step (PolicyArrived site p) s =
     (if site = rt_site s then s\<lparr>rt_policy := Some p\<rparr> else s)"
| "retention_step (TypeLimit c t) s = retention_set c (typed_limit c t) s"
| "retention_step SaveRetention s = retention_save s"
| "retention_step (RetentionSaved ok) s = retention_saved ok s"
| "retention_step (RetentionSite site) s =
     (if site = rt_site s then s else s\<lparr>rt_site := site, rt_policy := None\<rparr>)"

text \<open>The columns that are marked as wrong, and what the server decodes.\<close>

definition marked :: "retention_form \<Rightarrow> string list" where
  "marked l = map fst (filter (\<lambda>(c, v). case retentionFieldProps c v of Some f \<Rightarrow> field_error f | None \<Rightarrow> False) l)"

definition whole :: "jnum option \<Rightarrow> int option" where
  "whole v = (case v of None \<Rightarrow> None | Some n \<Rightarrow> int_of_num n)"

definition decoded_policy :: "retention_form \<Rightarrow> retention_policy option" where
  "decoded_policy l =
     (let col = (\<lambda>c. case map_of l c of Some v \<Rightarrow> v | None \<Rightarrow> None) in
      case (whole (col ''raw_event_months''), whole (col ''session_months''),
            whole (col ''realtime_hours''), whole (col ''debug_days'')) of
        (Some raw, Some sessions, Some hours, Some debug) \<Rightarrow>
          (case col ''aggregation_months'' of
             None \<Rightarrow> Some \<lparr>RawEventMonths = raw, SessionMonths = sessions, AggregationMonths = None,
                       RealtimeHours = hours, DebugDays = debug\<rparr>
           | Some n \<Rightarrow>
               map_option (\<lambda>k. \<lparr>RawEventMonths = raw, SessionMonths = sessions,
                   AggregationMonths = Some k, RealtimeHours = hours, DebugDays = debug\<rparr>) (int_of_num n))
      | _ \<Rightarrow> None)"

definition five_columns :: "retention_form \<Rightarrow> bool" where
  "five_columns l \<longleftrightarrow> map fst l = map column RETENTION_LIMITS"

lemma five_columns_form [simp]: "five_columns (form_values p)"
  by (simp add: five_columns_def form_values_def RETENTION_LIMITS_def)

definition retention_ok :: "retention_page \<Rightarrow> bool" where
  "retention_ok s \<longleftrightarrow> (\<forall>l. rt_local s = Some l \<longrightarrow> five_columns l)
     \<and> (\<forall>(site, l) \<in> set (rt_requests s). five_columns l)"

lemma retention_step_ok: "retention_ok s \<Longrightarrow> retention_ok (retention_step e s)"
proof (cases e)
  case (TypeLimit c t)
  assume ok: "retention_ok s"
  have "five_columns l" if "retention_current s = Some l" for l
    using that ok by (auto simp: retention_current_def retention_ok_def split: option.splits)
  then show ?thesis using ok TypeLimit
    by (auto simp: retention_ok_def retention_set_def five_columns_def case_prod_unfold comp_def split: option.split)
qed (auto simp: retention_ok_def retention_save_def retention_saved_def Let_def split: option.split)

lemma retention_run_ok: "retention_ok s \<Longrightarrow> retention_ok (fold retention_step es s)"
  by (induction es arbitrary: s) (simp_all add: retention_step_ok)

lemma marked_iff_refused:
  assumes "five_columns l"
  shows "marked l = [] \<longleftrightarrow> first_refused l = None"
proof -
  have "(case retentionFieldProps c v of Some f \<Rightarrow> field_error f | None \<Rightarrow> False) \<longleftrightarrow>
      (case judgeRetention c v of None \<Rightarrow> False | Some j \<Rightarrow> blocking j \<noteq> None)" if "(c, v) \<in> set l" for c v
  proof -
    have "c \<in> set (map column RETENTION_LIMITS)"
      using that assms unfolding five_columns_def by (metis fst_conv image_eqI list.set_map)
    then obtain lim where lim: "retentionLimit c = Some lim" using known_columns by blast
    then have "retentionFieldProps c v \<noteq> None"
      by (simp add: retentionFieldProps_def judgeRetention_def retentionHelperText_def retentionRangeText_def)
    then obtain f where f: "retentionFieldProps c v = Some f" by blast
    show ?thesis using field_props_error(1) [OF lim f] by (simp add: f lim judgeRetention_def)
  qed
  then show ?thesis
    by (auto simp: marked_def first_refused_def filter_empty_conv find_None_iff split: prod.splits)
qed

lemma whole_value: "int_of_num x = Some k \<Longrightarrow> x = Fin (of_int k)"
  by (cases x) (auto split: if_splits)

lemma always_needed:
  "\<not> nullable (RETENTION_LIMITS ! 0)" "\<not> nullable (RETENTION_LIMITS ! 1)"
  "\<not> nullable (RETENTION_LIMITS ! 3)" "\<not> nullable (RETENTION_LIMITS ! 4)"
  by (simp_all add: limit_entries)

lemma unblocked_value:
  "blocking (judge_value l v) = None \<Longrightarrow> \<exists>k. v = map_option (\<lambda>n. Fin (of_int n)) k"
  "blocking (judge_value l v) = None \<Longrightarrow> \<not> nullable l \<Longrightarrow> \<exists>k. v = Some (Fin (of_int k))"
proof -
  assume b: "blocking (judge_value l v) = None"
  have "\<exists>k. v = Some (Fin (of_int k))" if "v \<noteq> None"
    using b that whole_value unfolding judge_value_blocking by (auto split: option.splits)
  moreover from this have "\<exists>k. v = map_option (\<lambda>n. Fin (of_int n)) (Some k)" if "v \<noteq> None"
    using that by simp
  ultimately show "\<exists>k. v = map_option (\<lambda>n. Fin (of_int n)) k" "\<not> nullable l \<Longrightarrow> \<exists>k. v = Some (Fin (of_int k))"
    using b by (cases v; fastforce simp: judge_value_blocking)+
qed

lemma accepted_form:
  assumes "five_columns l" "first_refused l = None"
  shows "\<exists>p. l = form_values p"
proof -
  obtain a b c d e where l: "l = [(''raw_event_months'', a), (''session_months'', b),
      (''aggregation_months'', c), (''realtime_hours'', d), (''debug_days'', e)]"
    using assms(1) by (auto simp: five_columns_def RETENTION_LIMITS_def Cons_eq_map_conv map_eq_Cons_conv)
  have "blocking (judge_value (RETENTION_LIMITS ! 0) a) = None" "blocking (judge_value (RETENTION_LIMITS ! 1) b) = None"
    "blocking (judge_value (RETENTION_LIMITS ! 2) c) = None" "blocking (judge_value (RETENTION_LIMITS ! 3) d) = None"
    "blocking (judge_value (RETENTION_LIMITS ! 4) e) = None"
    using assms(2) by (simp_all add: l first_refused_def judgeRetention_def split: if_splits)
  then have numbers: "\<exists>k. a = Some (Fin (of_int k))" "\<exists>k. b = Some (Fin (of_int k))"
      "\<exists>k. c = map_option (\<lambda>n. Fin (of_int n)) k" "\<exists>k. d = Some (Fin (of_int k))"
      "\<exists>k. e = Some (Fin (of_int k))"
    by (blast intro: unblocked_value(1) unblocked_value(2) [OF _ always_needed(1)]
        unblocked_value(2) [OF _ always_needed(2)] unblocked_value(2) [OF _ always_needed(3)]
        unblocked_value(2) [OF _ always_needed(4)])+
  then obtain ka kb kc kd ke where "a = Some (Fin (of_int ka))" "b = Some (Fin (of_int kb))"
      "c = map_option (\<lambda>n. Fin (of_int n)) kc" "d = Some (Fin (of_int kd))" "e = Some (Fin (of_int ke))"
    by blast
  then have "l = form_values \<lparr>RawEventMonths = ka, SessionMonths = kb, AggregationMonths = kc,
      RealtimeHours = kd, DebugDays = ke\<rparr>" by (simp add: l form_values_def)
  then show ?thesis by blast
qed

lemma decoded_form: "decoded_policy (form_values p) = Some p"
  by (cases p; cases "AggregationMonths p") (simp_all add: decoded_policy_def form_values_def whole_def)


definition example_policy :: retention_policy where
  "example_policy = \<lparr>RawEventMonths = 13, SessionMonths = 25, AggregationMonths = None, RealtimeHours = 24,
     DebugDays = 7\<rparr>"


text \<open>
  The edited policy is not dropped when another site is selected: saved then, the figures of the
  site that was left become the policy of the new one.
\<close>

lemma policy_saved_to_other_site:
  "let s = fold retention_step
         [PolicyArrived ''a'' example_policy, TypeLimit ''raw_event_months'' ''1'', RetentionSite ''b'',
          PolicyArrived ''b'' (example_policy\<lparr>RawEventMonths := 60, SessionMonths := 60\<rparr>), SaveRetention]
         (retention_start ''a'')
   in rt_requests s = [(''b'', form_values (example_policy\<lparr>RawEventMonths := 1\<rparr>))]"
  by code_simp

end
