(* ===== verification/AdminCenter.thy ===== *)
theory AdminCenter
  imports Shell Users
begin

section \<open>The administration page: its sections and its home\<close>

text \<open>
  \<open>AdminPage\<close> and \<open>AdminOverview\<close> of \<open>web/src/pages/AdminPage.tsx\<close>, beside the gates of the routes
  that its sections call (\<open>internal/httpapi/server.go\<close>). The role is absent while nobody is known to
  be signed in.
\<close>

subsection \<open>Which section is shown\<close>

text \<open>Each section with whether it is for administrators of the organization only.\<close>

definition adminSections :: "(string \<times> bool) list" where
  "adminSections =
     [(''overview'', False), (''sites'', False), (''settings'', True), (''privacy'', True),
      (''retention'', False), (''networks'', True), (''users'', True), (''schemas'', False),
      (''dimensions'', False), (''debugger'', False), (''audit'', False)]"

datatype admin_view = AdministratorsOnly | OrganizationOnly | SectionShown string

definition organization_role :: "string option \<Rightarrow> bool" where
  "organization_role role \<longleftrightarrow> role = Some ''organization_admin'' \<or> role = Some ''super_admin''"

definition visibleSections :: "string option \<Rightarrow> string list" where
  "visibleSections role = map fst (filter (\<lambda>(i, org). organization_role role \<or> \<not> org) adminSections)"

definition shown_section :: "string option \<Rightarrow> string \<Rightarrow> string" where
  "shown_section role requested =
     (if requested \<in> set (visibleSections role) then requested else ''overview'')"

definition admin_page :: "string option \<Rightarrow> string \<Rightarrow> admin_view" where
  "admin_page role requested =
     (if role = Some ''analyst'' \<or> role = Some ''viewer'' then AdministratorsOnly
      else if requested \<noteq> shown_section role requested \<and> requested \<in> set (map fst adminSections)
      then OrganizationOnly
      else SectionShown (shown_section role requested))"

text \<open>The address holds the section, and none for the home.\<close>

definition requested_section :: "params \<Rightarrow> string" where
  "requested_section ps = (case param_get ps ''section'' of Some i \<Rightarrow> or_str i ''overview'' | None \<Rightarrow> ''overview'')"

definition selectSection :: "string \<Rightarrow> params" where
  "selectSection i = (if i = ''overview'' then [] else [(''section'', i)])"

text \<open>The gates of the server for a person who is signed in at the console.\<close>

datatype gate = Anyone | AdminGate | OrgAdminGate

definition RoleAtLeast :: "string \<Rightarrow> string \<Rightarrow> bool" where
  "RoleAtLeast actual required \<longleftrightarrow> server_rank actual \<ge> server_rank required"

fun lets_through :: "gate \<Rightarrow> string \<Rightarrow> bool" where
  "lets_through Anyone r = True"
| "lets_through AdminGate r = RoleAtLeast r ''workspace_admin''"
| "lets_through OrgAdminGate r = RoleAtLeast r ''organization_admin''"

text \<open>The routes that the components of a section call, each with its gate.\<close>

definition section_routes :: "string \<Rightarrow> (string \<times> gate) list" where
  "section_routes i =
     (case map_of
        [(''overview'', [(''GET settings'', AdminGate), (''GET users'', AdminGate), (''GET audit'', AdminGate),
            (''GET tracking-debugger'', AdminGate), (''GET data-quality'', Anyone),
            (''GET privacy-requests'', AdminGate), (''GET aggregate-jobs'', AdminGate),
            (''GET encryption'', AdminGate)]),
         (''sites'', [(''GET sites'', Anyone), (''POST sites'', AdminGate), (''PATCH sites'', AdminGate),
            (''POST rotate-key'', AdminGate), (''POST rotate-server-key'', AdminGate),
            (''POST reveal-keys'', AdminGate), (''GET tracking-code'', Anyone),
            (''GET install-diagnostics'', Anyone)]),
         (''settings'', [(''GET settings'', AdminGate), (''PUT settings'', OrgAdminGate),
            (''GET encryption'', AdminGate), (''POST rekey'', AdminGate)]),
         (''privacy'', [(''GET settings'', AdminGate), (''PUT settings'', OrgAdminGate),
            (''POST privacy/delete'', AdminGate)]),
         (''retention'', [(''GET retention'', AdminGate), (''PUT retention'', AdminGate)]),
         (''networks'', [(''GET networks'', AdminGate), (''POST networks'', OrgAdminGate),
            (''DELETE networks'', OrgAdminGate)]),
         (''users'', [(''GET users'', AdminGate), (''POST users'', OrgAdminGate),
            (''PATCH users'', OrgAdminGate)]),
         (''schemas'', [(''GET event-definitions'', Anyone), (''POST event-definitions'', AdminGate)]),
         (''dimensions'', [(''GET dimensions'', Anyone), (''POST dimensions'', AdminGate),
            (''DELETE dimensions'', AdminGate)]),
         (''debugger'', [(''GET tracking-debugger'', AdminGate)]),
         (''audit'', [(''GET audit'', AdminGate)])] i of
        Some routes \<Rightarrow> routes | None \<Rightarrow> [])"

lemma known_roles:
  "validRole r \<Longrightarrow> r \<in> {''super_admin'', ''organization_admin'', ''workspace_admin'', ''analyst'', ''viewer''}"
  by (simp add: validRole_def)

text \<open>
  C18: A section is shown to a person exactly when the server lets that person through every route the
  section calls, so no control on the page is one whose request is refused for the role.
\<close>

theorem section_shown_iff_allowed:
  assumes "validRole r" "(i, org) \<in> set adminSections"
  shows "admin_page (Some r) i = SectionShown i \<longleftrightarrow> (\<forall>(route, g) \<in> set (section_routes i). lets_through g r)"
proof -
  have "\<forall>r \<in> {''super_admin'', ''organization_admin'', ''workspace_admin'', ''analyst'', ''viewer''}.
      \<forall>i \<in> set (map fst adminSections).
      admin_page (Some r) i = SectionShown i \<longleftrightarrow> list_all (\<lambda>(route, g). lets_through g r) (section_routes i)"
    by code_simp
  moreover have "i \<in> set (map fst adminSections)" using assms(2) by force
  ultimately show ?thesis using known_roles [OF assms(1)] by (auto simp: list_all_iff)
qed

lemma section_shown_iff_allowed_witness:
  "admin_page (Some ''workspace_admin'') ''retention'' = SectionShown ''retention''
   \<and> admin_page (Some ''workspace_admin'') ''users'' = OrganizationOnly
   \<and> \<not> (\<forall>(route, g) \<in> set (section_routes ''users''). lets_through g ''workspace_admin'')"
proof -
  have role: "validRole ''workspace_admin''" and sec: "(''users'', True) \<in> set adminSections"
    by (simp_all add: validRole_def adminSections_def)
  have "admin_page (Some ''workspace_admin'') ''retention'' = SectionShown ''retention''"
    "admin_page (Some ''workspace_admin'') ''users'' = OrganizationOnly" by code_simp+
  then show ?thesis using section_shown_iff_allowed [OF role sec] by simp
qed

text \<open>A section that is selected is the one shown, and an unknown one leads home.\<close>

lemma selected_section_shown: "i \<noteq> [] \<Longrightarrow> requested_section (selectSection i) = i"
  by (simp add: requested_section_def selectSection_def or_str_def param_get_def)

lemma unknown_section_is_home:
  assumes "i \<notin> set (map fst adminSections)" "role \<noteq> Some ''analyst''" "role \<noteq> Some ''viewer''"
  shows "admin_page role i = SectionShown ''overview''"
proof -
  have "i \<notin> set (visibleSections role)" using assms(1) by (auto simp: visibleSections_def)
  then show ?thesis using assms by (simp add: admin_page_def shown_section_def)
qed

text \<open>
  The command palette offers sections to a workspace administrator that the page then refuses,
  although the refusal is meant for links and bookmarks only.
\<close>

lemma palette_offers_refused_sections:
  "(''/admin?section=users'', Administration) \<in> set (paletteRoutes (is_admin (Some ''workspace_admin'')))"
  "admin_page (Some ''workspace_admin'') (requested_section [(''section'', ''users'')]) = OrganizationOnly"
  by code_simp+

subsection \<open>The home of the administration\<close>

text \<open>
  What the queries of the page have answered; a query without an answer is \<open>None\<close>. A site is its
  name, whether it is active and how many domains it allows; a job its environment, status and the
  time it was created.
\<close>

record home_data =
  hd_settings :: "(props \<times> props) option"        \<comment> \<open>the groups \<open>privacy\<close> and \<open>oidc\<close>\<close>
  hd_users :: "(string \<times> bool) list option"      \<comment> \<open>role and whether active\<close>
  hd_sites :: "(string \<times> bool \<times> nat) list"
  hd_debugger_errors :: nat
  hd_quality :: "(rat \<times> nat \<times> nat) option"       \<comment> \<open>score, received, dead letters\<close>
  hd_privacy_status :: "string list"
  hd_jobs :: "(string \<times> string \<times> rat) list"
  hd_encryption :: "bool option"
  hd_environment :: string
  hd_now :: rat

definition group_or_empty :: "(props \<times> props) option \<Rightarrow> props \<times> props" where
  "group_or_empty d = (case d of Some p \<Rightarrow> p | None \<Rightarrow> ([], []))"

definition ends_with :: "string \<Rightarrow> string \<Rightarrow> bool" where
  "ends_with t s \<longleftrightarrow> length t \<le> length s \<and> drop (length s - length t) s = t"

definition active_sites :: "home_data \<Rightarrow> (string \<times> bool \<times> nat) list" where
  "active_sites d = filter (\<lambda>(n, active, k). active) (hd_sites d)"

definition unrestricted_sites :: "home_data \<Rightarrow> string list" where
  "unrestricted_sites d = map fst (filter (\<lambda>(n, active, k). k = 0) (active_sites d))"

definition administrator_count :: "home_data \<Rightarrow> nat" where
  "administrator_count d =
     length (filter (\<lambda>(role, active). active \<and> ends_with ''_admin'' role)
       (case hd_users d of Some us \<Rightarrow> us | None \<Rightarrow> []))"

definition pii_protected :: "props \<Rightarrow> bool" where
  "pii_protected pv \<longleftrightarrow> js_string (getp pv ''pii_detection_mode'') \<in> {''mask'', ''reject''}"

datatype readiness_item =
    CollectingSites | OriginsRestricted | QueryStringsStripped | PiiDetected | SecondAdministrator
  | KeysStored | SingleSignOn

definition readiness :: "home_data \<Rightarrow> (readiness_item \<times> bool) list" where
  "readiness d =
     (let (pv, sso) = group_or_empty (hd_settings d) in
      [(CollectingSites, active_sites d \<noteq> []),
       (OriginsRestricted, active_sites d \<noteq> [] \<and> unrestricted_sites d = []),
       (QueryStringsStripped, getp pv ''strip_query_string'' = VBool True),
       (PiiDetected, pii_protected pv),
       (SecondAdministrator, administrator_count d \<ge> 2),
       (KeysStored, hd_encryption d = Some True),
       (SingleSignOn, getp sso ''enabled'' = VBool True)])"

definition readinessScore :: "home_data \<Rightarrow> int" where
  "readinessScore d =
     js_round (of_nat (length (filter snd (readiness d))) / of_nat (length (readiness d)) * 100)"

datatype home_severity = Critical | Warn | Info

datatype home_action =
    CollectorErrors nat nat | FailedJobs nat | PrivacyPending nat | QualityLow rat
  | OriginsOpen "string list" | FewAdministrators | NoSingleSignOn | NothingReceived string

definition dead_letters :: "home_data \<Rightarrow> nat" where
  "dead_letters d = (case hd_quality d of Some (score, received, dead) \<Rightarrow> dead | None \<Rightarrow> 0)"

definition pending_privacy :: "home_data \<Rightarrow> nat" where
  "pending_privacy d = length (filter (\<lambda>st. st = ''pending'') (hd_privacy_status d))"

definition recent_failed_jobs :: "home_data \<Rightarrow> nat" where
  "recent_failed_jobs d =
     length (filter (\<lambda>(env, status, created). env = hd_environment d \<and> status = ''failed''
         \<and> created > hd_now d - 7 * 86400000) (hd_jobs d))"

definition active_jobs :: "home_data \<Rightarrow> nat" where
  "active_jobs d =
     length (filter (\<lambda>(env, status, created). env = hd_environment d \<and> status \<in> {''pending'', ''running''})
       (hd_jobs d))"

definition home_actions :: "home_data \<Rightarrow> (home_severity \<times> home_action) list" where
  "home_actions d =
     (if hd_debugger_errors d \<noteq> 0 \<or> dead_letters d \<noteq> 0
      then [(Critical, CollectorErrors (hd_debugger_errors d) (dead_letters d))] else [])
     @ (if recent_failed_jobs d \<noteq> 0 then [(Critical, FailedJobs (recent_failed_jobs d))] else [])
     @ (if pending_privacy d \<noteq> 0 then [(Warn, PrivacyPending (pending_privacy d))] else [])
     @ (case hd_quality d of
          Some (score, received, dead) \<Rightarrow> if score < 95 then [(Warn, QualityLow score)] else []
        | None \<Rightarrow> [])
     @ (if unrestricted_sites d \<noteq> [] then [(Warn, OriginsOpen (unrestricted_sites d))] else [])
     @ (if hd_users d \<noteq> None \<and> administrator_count d < 2 then [(Warn, FewAdministrators)] else [])
     @ (case hd_settings d of
          Some (pv, sso) \<Rightarrow> if truthy (getp sso ''enabled'') then [] else [(Info, NoSingleSignOn)]
        | None \<Rightarrow> [])
     @ (case hd_quality d of
          Some (score, received, dead) \<Rightarrow> if received = 0 then [(Info, NothingReceived (hd_environment d))] else []
        | None \<Rightarrow> [])"

fun severity_rank :: "home_severity \<Rightarrow> nat" where
  "severity_rank Critical = 0"
| "severity_rank Warn = 1"
| "severity_rank Info = 2"

datatype tone = Plain | Good | Caution | Bad

text \<open>The tones of the six figures on top: quality, received, waiting, errors, requests, jobs.\<close>

definition summary_tones :: "nat \<Rightarrow> home_data \<Rightarrow> tone list" where
  "summary_tones waiting d =
     [case hd_quality d of Some (score, received, dead) \<Rightarrow> if score < 95 then Caution else Good | None \<Rightarrow> Good,
      Plain,
      if hd_quality d \<noteq> None \<and> waiting \<noteq> 0 then Caution else Good,
      if hd_debugger_errors d \<noteq> 0 \<or> dead_letters d \<noteq> 0 then Bad else Good,
      if pending_privacy d \<noteq> 0 then Caution else Good,
      if recent_failed_jobs d \<noteq> 0 then Bad else if active_jobs d \<noteq> 0 then Caution else Good]"

lemma length_readiness [simp]: "length (readiness d) = 7"
  by (simp add: readiness_def case_prod_unfold Let_def)

lemma score_full: "readinessScore d = 100 \<longleftrightarrow> list_all snd (readiness d)"
proof -
  have "js_round (of_nat n / 7 * 100) = 100 \<longleftrightarrow> n = 7" if "n \<le> 7" for n :: nat
  proof -
    have "n \<in> {0, 1, 2, 3, 4, 5, 6, 7}" using that by auto
    then show ?thesis by (auto simp: js_round_def floor_eq_iff)
  qed
  then have "readinessScore d = 100 \<longleftrightarrow> length (filter snd (readiness d)) = length (readiness d)"
    using length_filter_le [of snd "readiness d"] by (simp add: readinessScore_def)
  also have "\<dots> \<longleftrightarrow> list_all snd (readiness d)"
    by (metis filter_id_conv length_filter_less less_irrefl list_all_iff)
  finally show ?thesis .
qed

text \<open>The list in parts, by severity.\<close>

lemma home_actions_parts:
  "\<exists>C W I. home_actions d = C @ W @ I
    \<and> (\<forall>a \<in> set C. fst a = Critical) \<and> (\<forall>a \<in> set W. fst a = Warn) \<and> (\<forall>a \<in> set I. fst a = Info)
    \<and> (C \<noteq> [] \<longleftrightarrow> hd_debugger_errors d \<noteq> 0 \<or> dead_letters d \<noteq> 0 \<or> recent_failed_jobs d \<noteq> 0)"
proof -
  let ?C = "(if hd_debugger_errors d \<noteq> 0 \<or> dead_letters d \<noteq> 0
      then [(Critical, CollectorErrors (hd_debugger_errors d) (dead_letters d))] else [])
     @ (if recent_failed_jobs d \<noteq> 0 then [(Critical, FailedJobs (recent_failed_jobs d))] else [])"
  let ?W = "(if pending_privacy d \<noteq> 0 then [(Warn, PrivacyPending (pending_privacy d))] else [])
     @ (case hd_quality d of
          Some (score, received, dead) \<Rightarrow> if score < 95 then [(Warn, QualityLow score)] else []
        | None \<Rightarrow> [])
     @ (if unrestricted_sites d \<noteq> [] then [(Warn, OriginsOpen (unrestricted_sites d))] else [])
     @ (if hd_users d \<noteq> None \<and> administrator_count d < 2 then [(Warn, FewAdministrators)] else [])"
  let ?I = "(case hd_settings d of
          Some (pv, sso) \<Rightarrow> if truthy (getp sso ''enabled'') then [] else [(Info, NoSingleSignOn)]
        | None \<Rightarrow> [])
     @ (case hd_quality d of
          Some (score, received, dead) \<Rightarrow> if received = 0 then [(Info, NothingReceived (hd_environment d))] else []
        | None \<Rightarrow> [])"
  have "home_actions d = ?C @ ?W @ ?I" by (simp only: home_actions_def append_assoc)
  moreover have "\<forall>a \<in> set ?C. fst a = Critical" by auto
  moreover have "\<forall>a \<in> set ?W. fst a = Warn" by (auto split: option.split)
  moreover have "\<forall>a \<in> set ?I. fst a = Info" by (auto split: option.split)
  moreover have "?C \<noteq> [] \<longleftrightarrow> hd_debugger_errors d \<noteq> 0 \<or> dead_letters d \<noteq> 0 \<or> recent_failed_jobs d \<noteq> 0"
    by simp
  ultimately show ?thesis by blast
qed

lemma same_severity_sorted:
  "\<forall>a \<in> set xs. fst a = c \<Longrightarrow> sorted_wrt (\<lambda>a b. severity_rank (fst a) \<le> severity_rank (fst b)) xs"
  by (induction xs) auto

lemma ready_without_action:
  assumes "list_all snd (readiness d)" "(sev, a) \<in> set (home_actions d)"
  shows "a \<noteq> FewAdministrators \<and> a \<noteq> NoSingleSignOn \<and> (\<forall>ns. a \<noteq> OriginsOpen ns)"
proof -
  have "unrestricted_sites d = []" "\<not> administrator_count d < 2"
    "\<And>pv sso. hd_settings d = Some (pv, sso) \<Longrightarrow> truthy (getp sso ''enabled'')"
    using assms(1) by (auto simp: readiness_def group_or_empty_def Let_def split: option.splits)
  then show ?thesis using assms(2)
    by (cases "hd_settings d") (auto simp: home_actions_def split: option.splits if_splits)
qed

text \<open>
  The list of what to do is ordered by severity; it opens with something critical exactly when a
  figure is red; and a score of one hundred means that every item is ready, and then nothing of the
  list is about sites, administrators or sign-on.
\<close>

theorem home_is_consistent:
  "sorted_wrt (\<lambda>a b. severity_rank (fst a) \<le> severity_rank (fst b)) (home_actions d)
   \<and> (Bad \<in> set (summary_tones waiting d) \<longleftrightarrow> home_actions d \<noteq> [] \<and> fst (hd (home_actions d)) = Critical)
   \<and> (readinessScore d = 100 \<longleftrightarrow> list_all snd (readiness d))
   \<and> (readinessScore d = 100 \<longrightarrow>
       (\<forall>(sev, a) \<in> set (home_actions d). a \<noteq> FewAdministrators \<and> a \<noteq> NoSingleSignOn \<and> (\<forall>ns. a \<noteq> OriginsOpen ns)))"
proof -
  obtain C W I where parts: "home_actions d = C @ W @ I" "\<forall>a \<in> set C. fst a = Critical"
      "\<forall>a \<in> set W. fst a = Warn" "\<forall>a \<in> set I. fst a = Info"
      "C \<noteq> [] \<longleftrightarrow> hd_debugger_errors d \<noteq> 0 \<or> dead_letters d \<noteq> 0 \<or> recent_failed_jobs d \<noteq> 0"
    using home_actions_parts [of d] by blast
  have "sorted_wrt (\<lambda>a b. severity_rank (fst a) \<le> severity_rank (fst b)) (home_actions d)"
    unfolding parts(1) sorted_wrt_append using parts(2-4) same_severity_sorted by auto
  moreover have "Bad \<in> set (summary_tones waiting d) \<longleftrightarrow> C \<noteq> []"
    unfolding parts(5) by (auto simp: summary_tones_def split: option.splits)
  moreover have "C \<noteq> [] \<longleftrightarrow> home_actions d \<noteq> [] \<and> fst (hd (home_actions d)) = Critical"
    unfolding parts(1) using parts(2-4) by (cases C; cases W; cases I) auto
  ultimately show ?thesis using score_full [of d] ready_without_action [of d] by auto
qed

text \<open>
  When the state of the encryption key could not be read the home says that there is no key: the
  query's failure is not among the errors it reports, and no answer counts as not stored.
\<close>

lemma unread_key_counts_as_missing: "(KeysStored, False) \<in> set (readiness (d\<lparr>hd_encryption := None\<rparr>))"
  by (simp add: readiness_def case_prod_unfold Let_def)

end
