(* ===== verification/Registry.thy ===== *)
theory Registry
  imports Settings AdminErrors Cidr
begin

section \<open>The forms of the administration: sites, dimensions, networks, schemas, audit\<close>

text \<open>
  \<open>SitesAdmin\<close> with \<open>SiteSettingsDialog\<close>, \<open>DimensionsAdmin\<close>, \<open>NetworksAdmin\<close>, \<open>SchemasAdmin\<close> and
  \<open>AuditAdmin\<close> of \<open>web/src/pages/AdminPage.tsx\<close>, beside \<open>createSite\<close>, \<open>updateSite\<close> and
  \<open>normalizeDomains\<close> (\<open>internal/httpapi/admin.go\<close>) and \<open>saveDimension\<close>
  (\<open>internal/httpapi/segments.go\<close>).
\<close>

subsection \<open>The domains of a site\<close>

definition text_of_domains :: "string list \<Rightarrow> string" where
  "text_of_domains ds = join [char_of (10 :: nat)] ds"

definition domains_of_text :: "string \<Rightarrow> string list" where
  "domains_of_text t =
     nonempty_strings (map js_trim
       (split_on (char_of (10 :: nat)) (map (\<lambda>c. if c = CHR '','' then char_of (10 :: nat) else c) t)))"

definition strip_prefix :: "string \<Rightarrow> string \<Rightarrow> string" where
  "strip_prefix p s = (if prefix p s then drop (length p) s else s)"

definition clean_domain :: "string \<Rightarrow> string" where
  "clean_domain v =
     hd (split_on CHR ''/'' (strip_prefix ''http://'' (strip_prefix ''https://'' (js_lower (js_trim v)))))"

fun keep_new :: "string list \<Rightarrow> string list \<Rightarrow> string list" where
  "keep_new seen [] = []"
| "keep_new seen (v # vs) =
     (let d = clean_domain v in
      if d \<noteq> [] \<and> d \<notin> set seen then d # keep_new (d # seen) vs else keep_new seen vs)"

definition normalizeDomains :: "string list \<Rightarrow> string list" where
  "normalizeDomains vs = keep_new [] vs"

text \<open>A plain host name: what the normalisation leaves of what people type.\<close>

definition host_name :: "string \<Rightarrow> bool" where
  "host_name d \<longleftrightarrow> d \<noteq> [] \<and>
     list_all (\<lambda>c. \<not> is_space c \<and> lower_char c = c \<and> c \<noteq> CHR '','' \<and> c \<noteq> CHR ''/'' \<and> c \<noteq> char_of (10 :: nat)) d"

lemma host_name_facts:
  assumes "host_name d"
  shows "js_trim d = d" "clean_domain d = d" "d \<noteq> []" "char_of (10 :: nat) \<notin> set d" "CHR '','' \<notin> set d"
proof -
  have c: "\<forall>c \<in> set d. \<not> is_space c \<and> lower_char c = c \<and> c \<noteq> CHR '','' \<and> c \<noteq> CHR ''/'' \<and> c \<noteq> char_of (10 :: nat)"
    using assms by (simp add: host_name_def list_all_iff)
  then show trim: "js_trim d = d" by (intro js_trim_id) blast
  have lower: "js_lower d = d" using c by (simp add: js_lower_def map_idI)
  have "strip_prefix p d = d" if "CHR ''/'' \<in> set p" for p
  proof -
    have "\<not> prefix p d" using that c set_mono_prefix [of p d] by blast
    then show ?thesis by (simp add: strip_prefix_def)
  qed
  moreover have "split_on CHR ''/'' d = [d]" using c by (induction d) auto
  ultimately show "clean_domain d = d" by (simp add: clean_domain_def trim lower)
  show "d \<noteq> []" using assms by (simp add: host_name_def)
  show "char_of (10 :: nat) \<notin> set d" "CHR '','' \<notin> set d" using c by blast+
qed

lemma keep_new_hosts:
  "list_all host_name ds \<Longrightarrow> distinct ds \<Longrightarrow> set ds \<inter> set seen = {} \<Longrightarrow> keep_new seen ds = ds"
  by (induction ds arbitrary: seen) (auto simp: host_name_facts Let_def)

lemma domains_text:
  assumes "list_all host_name ds"
  shows "domains_of_text (text_of_domains ds) = ds"
proof (cases "ds = []")
  case True
  then show ?thesis by (simp add: text_of_domains_def domains_of_text_def nonempty_strings_def)
next
  case False
  let ?nl = "char_of (10 :: nat)"
  have no_comma: "map (\<lambda>c. if c = CHR '','' then ?nl else c) (join [?nl] ds) = join [?nl] ds"
    using assms
  proof (induction ds)
    case (Cons d ds)
    then have "map (\<lambda>c. if c = CHR '','' then ?nl else c) d = d"
      using host_name_facts(5) [of d] by (intro map_idI) auto
    then show ?case using Cons by (simp add: join_Cons)
  qed simp
  have "split_on ?nl (join [?nl] ds) = ds"
    by (rule split_on_join) (use assms False host_name_facts(4) in \<open>auto simp: list_all_iff\<close>)
  moreover have "map js_trim ds = ds"
    using assms host_name_facts(1) by (intro map_idI) (auto simp: list_all_iff)
  moreover have "nonempty_strings ds = ds"
    using assms host_name_facts(3) by (auto simp: nonempty_strings_def list_all_iff intro!: filter_True)
  ultimately show ?thesis by (simp add: domains_of_text_def text_of_domains_def no_comma)
qed

subsection \<open>Sites\<close>

record site_row =
  sr_id :: string
  sr_site_id :: string
  sr_name :: string
  sr_service :: string
  sr_domains :: "string list"
  sr_timeout :: int
  sr_timezone :: string
  sr_engagement :: int
  sr_active :: bool

record site_edit =
  se_name :: string
  se_service :: string
  se_domains :: string
  se_timeout :: jnum
  se_timezone :: string
  se_engagement :: jnum

record site_body =
  sb_name :: string
  sb_service :: string
  sb_domains :: "string list"
  sb_timeout :: jnum
  sb_timezone :: string
  sb_engagement :: jnum
  sb_active :: "bool option"

definition edit_of_site :: "site_row \<Rightarrow> site_edit" where
  "edit_of_site r =
     \<lparr>se_name = sr_name r, se_service = sr_service r, se_domains = text_of_domains (sr_domains r),
      se_timeout = Fin (of_int (sr_timeout r)), se_timezone = sr_timezone r,
      se_engagement = Fin (of_int (sr_engagement r))\<rparr>"

definition settings_body :: "site_row \<Rightarrow> site_edit \<Rightarrow> site_body" where
  "settings_body r e =
     \<lparr>sb_name = se_name e, sb_service = se_service e, sb_domains = domains_of_text (se_domains e),
      sb_timeout = se_timeout e, sb_timezone = se_timezone e, sb_engagement = se_engagement e,
      sb_active = Some (sr_active r)\<rparr>"

definition settings_disabled :: "site_edit \<Rightarrow> bool \<Rightarrow> bool" where
  "settings_disabled e pending \<longleftrightarrow> se_name e = [] \<or> se_timezone e = [] \<or> pending"

text \<open>A new site has thirty minutes, and its dialog starts with ten seconds and the time of Seoul.\<close>

definition new_site :: site_edit where
  "new_site = \<lparr>se_name = [], se_service = [], se_domains = [], se_timeout = Fin 30,
     se_timezone = ''Asia/Seoul'', se_engagement = Fin 10\<rparr>"

definition creation_body :: "site_edit \<Rightarrow> site_body" where
  "creation_body e =
     \<lparr>sb_name = se_name e, sb_service = se_service e, sb_domains = domains_of_text (se_domains e),
      sb_timeout = Fin 30, sb_timezone = se_timezone e, sb_engagement = se_engagement e, sb_active = None\<rparr>"

definition created_form :: "site_edit \<Rightarrow> site_edit" where
  "created_form e = e\<lparr>se_name := [], se_service := [], se_domains := []\<rparr>"

datatype site_refusal = BadPayload | NameMissing | BadTimezone | BadEngagement | BadTimeout

definition updateSite :: "(string \<Rightarrow> bool) \<Rightarrow> site_row \<Rightarrow> site_body \<Rightarrow> site_refusal + site_row" where
  "updateSite zone stored body =
     (case (go_int (sb_timeout body), go_int (sb_engagement body)) of
        (Some timeout, Some engagement) \<Rightarrow>
          if timeout < 1 \<or> timeout > 1440 then Inl BadTimeout
          else if \<not> zone (sb_timezone body) then Inl BadTimezone
          else if engagement < 1 \<or> engagement > 300 then Inl BadEngagement
          else Inr (stored\<lparr>sr_name := sb_name body, sr_service := sb_service body,
                 sr_domains := normalizeDomains (sb_domains body), sr_timeout := timeout,
                 sr_timezone := sb_timezone body, sr_engagement := engagement,
                 sr_active := (case sb_active body of Some b \<Rightarrow> b | None \<Rightarrow> sr_active stored)\<rparr>)
      | _ \<Rightarrow> Inl BadPayload)"

text \<open>\<open>default_zone\<close> is the zone of the general settings; the keys of the new site are left out.\<close>

definition createSite :: "(string \<Rightarrow> bool) \<Rightarrow> string \<Rightarrow> string \<Rightarrow> string \<Rightarrow> site_body \<Rightarrow> site_refusal + site_row" where
  "createSite zone default_zone new_id new_key body =
     (case (go_int (sb_timeout body), go_int (sb_engagement body)) of
        (Some timeout, Some engagement) \<Rightarrow>
          let timeout = (if timeout = 0 then 30 else timeout);
              timezone = or_str (sb_timezone body) (or_str default_zone ''Asia/Seoul'');
              threshold = (if engagement = 0 then 10 else engagement) in
          if js_trim (sb_name body) = [] then Inl NameMissing
          else if \<not> zone timezone then Inl BadTimezone
          else if threshold < 1 \<or> threshold > 300 then Inl BadEngagement
          else Inr \<lparr>sr_id = new_id, sr_site_id = new_key, sr_name = sb_name body,
                 sr_service = sb_service body, sr_domains = normalizeDomains (sb_domains body),
                 sr_timeout = timeout, sr_timezone = timezone, sr_engagement = threshold, sr_active = True\<rparr>
      | _ \<Rightarrow> Inl BadPayload)"

fun site_error :: "string \<Rightarrow> site_refusal \<Rightarrow> thrown" where
  "site_error e BadPayload = api_error ''INVALID_PAYLOAD'' e"
| "site_error e NameMissing = api_error ''INVALID_NAME'' ''site name is required''"
| "site_error e BadTimezone = api_error ''INVALID_TIMEZONE'' ''timezone must be a valid IANA timezone''"
| "site_error e BadEngagement =
     api_error ''INVALID_ENGAGEMENT_THRESHOLD'' ''engagement threshold must be between 1 and 300 seconds''"
| "site_error e BadTimeout = api_error ''INVALID_TIMEOUT'' ''session timeout must be between 1 and 1440 minutes''"

fun site_sentence :: "site_refusal \<Rightarrow> admin_message" where
  "site_sentence BadPayload = UnreadablePayload"
| "site_sentence NameMissing = SiteNameMissing"
| "site_sentence BadTimezone = TimezoneInvalid"
| "site_sentence BadEngagement = EngagementRange"
| "site_sentence BadTimeout = TimeoutRange"

lemma site_refusal_explained: "message (describeSiteError (site_error e r)) = site_sentence r"
  by (cases r) (simp_all add: describeSiteError_def plain_def with_clue_def)

lemma site_refusal_reason:
  "updateSite zone r (settings_body r e) = Inl why \<Longrightarrow>
      (why = BadTimeout \<longrightarrow> (\<forall>k \<in> {1..1440}. se_timeout e \<noteq> Fin (of_int k)))
      \<and> (why = BadEngagement \<longrightarrow> (\<forall>k \<in> {1..300}. se_engagement e \<noteq> Fin (of_int k)))
      \<and> (why = BadTimezone \<longrightarrow> \<not> zone (se_timezone e)) \<and> why \<noteq> NameMissing"
  by (auto simp: updateSite_def settings_body_def split: option.splits if_splits)


definition example_site :: site_row where
  "example_site = \<lparr>sr_id = ''i'', sr_site_id = ''s'', sr_name = ''Portal'', sr_service = [],
     sr_domains = [''a.example'', ''*.b.example''], sr_timeout = 30, sr_timezone = ''UTC'',
     sr_engagement = 10, sr_active = True\<rparr>"


subsection \<open>The page of sites\<close>

text \<open>
  The secret that is shown is the answer to a rotation or to a question for the stored keys; the
  guide is open for a site, with its keys when it was just created.
\<close>

datatype key_kind = TrackingKey | ServerKey

datatype site_request =
    PostSite site_body
  | PatchSite string site_body
  | RotateKey key_kind string
  | RevealKeys string

datatype secret_line = KeyLine key_kind string | NoKeyLine key_kind string

datatype secret_note = DecryptedForYou | NothingStored

datatype secret_shown =
    NewKey key_kind string bool              \<comment> \<open>and whether it can be shown again\<close>
  | StoredKeys "secret_line list" bool secret_note

record guide_shown =
  gd_id :: string
  gd_site_id :: string
  gd_name :: string
  gd_endpoint :: "string option"
  gd_tracking_key :: "string option"
  gd_server_key :: "string option"
  gd_timeout :: "int option"

record sites_page =
  sx_list :: "site_row list"
  sx_open :: bool
  sx_form :: site_edit
  sx_editing :: "(site_row \<times> site_edit) option"
  sx_secret :: "secret_shown option"
  sx_guide :: "guide_shown option"
  sx_requests :: "site_request list"

definition stored_keys :: "string option \<Rightarrow> string option \<Rightarrow> string \<Rightarrow> string \<Rightarrow> secret_shown" where
  "stored_keys tracking server why_tracking why_server =
     (let line = (\<lambda>kind k why. case k of Some v \<Rightarrow> (if v = [] then NoKeyLine kind why else KeyLine kind v)
                   | None \<Rightarrow> NoKeyLine kind why);
          some_key = (\<lambda>k. k \<noteq> None \<and> k \<noteq> Some []) in
      StoredKeys [line TrackingKey tracking why_tracking, line ServerKey server why_server]
        (some_key tracking \<or> some_key server)
        (if some_key tracking \<or> some_key server then DecryptedForYou else NothingStored))"

text \<open>The server's answer to a creation: id, site id, name, endpoint and the two keys.\<close>

datatype created_site = Created string string string string string string

datatype sites_event =
    SitesArrived "site_row list"
  | OpenCreate
  | CloseCreate
  | EditNew "site_edit \<Rightarrow> site_edit"
  | PressCreate bool                          \<comment> \<open>whether a creation is on its way\<close>
  | SiteCreated created_site
  | OpenSettings nat
  | EditSettings "site_edit \<Rightarrow> site_edit"
  | PressSettings bool
  | SettingsSaved
  | CloseSettings
  | OpenGuide nat
  | CloseGuide
  | ConfirmedRotation key_kind nat
  | Rotated key_kind string bool
  | PressReveal nat
  | Revealed "string option" "string option" string string
  | CloseSecret

fun sites_step :: "sites_event \<Rightarrow> sites_page \<Rightarrow> sites_page" where
  "sites_step (SitesArrived rs) s = s\<lparr>sx_list := rs\<rparr>"
| "sites_step OpenCreate s = s\<lparr>sx_open := True\<rparr>"
| "sites_step CloseCreate s = s\<lparr>sx_open := False\<rparr>"
| "sites_step (EditNew f) s = s\<lparr>sx_form := f (sx_form s)\<rparr>"
| "sites_step (PressCreate pending) s =
     (if se_name (sx_form s) = [] \<or> pending \<or> \<not> sx_open s then s
      else s\<lparr>sx_requests := sx_requests s @ [PostSite (creation_body (sx_form s))]\<rparr>)"
| "sites_step (SiteCreated (Created i key name endpoint tracking server)) s =
     s\<lparr>sx_guide := Some \<lparr>gd_id = i, gd_site_id = key, gd_name = name, gd_endpoint = Some endpoint,
         gd_tracking_key = Some tracking, gd_server_key = Some server, gd_timeout = None\<rparr>,
       sx_open := False, sx_form := created_form (sx_form s)\<rparr>"
| "sites_step (OpenSettings n) s =
     (if n < length (sx_list s) then s\<lparr>sx_editing := Some (sx_list s ! n, edit_of_site (sx_list s ! n))\<rparr> else s)"
| "sites_step (EditSettings f) s = s\<lparr>sx_editing := map_option (\<lambda>(r, e). (r, f e)) (sx_editing s)\<rparr>"
| "sites_step (PressSettings pending) s =
     (case sx_editing s of
        None \<Rightarrow> s
      | Some (r, e) \<Rightarrow>
          if settings_disabled e pending then s
          else s\<lparr>sx_requests := sx_requests s @ [PatchSite (sr_id r) (settings_body r e)]\<rparr>)"
| "sites_step SettingsSaved s = s\<lparr>sx_editing := None\<rparr>"
| "sites_step CloseSettings s = s\<lparr>sx_editing := None\<rparr>"
| "sites_step (OpenGuide n) s =
     (if n < length (sx_list s) then
        let r = sx_list s ! n in
        s\<lparr>sx_guide := Some \<lparr>gd_id = sr_id r, gd_site_id = sr_site_id r, gd_name = sr_name r, gd_endpoint = None,
           gd_tracking_key = None, gd_server_key = None, gd_timeout = Some (sr_timeout r)\<rparr>\<rparr>
      else s)"
| "sites_step CloseGuide s = s\<lparr>sx_guide := None\<rparr>"
| "sites_step (ConfirmedRotation kind n) s =
     (if n < length (sx_list s) then s\<lparr>sx_requests := sx_requests s @ [RotateKey kind (sr_id (sx_list s ! n))]\<rparr>
      else s)"
| "sites_step (Rotated kind k recoverable) s = s\<lparr>sx_secret := Some (NewKey kind k recoverable)\<rparr>"
| "sites_step (PressReveal n) s =
     (if n < length (sx_list s) then s\<lparr>sx_requests := sx_requests s @ [RevealKeys (sr_id (sx_list s ! n))]\<rparr> else s)"
| "sites_step (Revealed t k why_t why_k) s = s\<lparr>sx_secret := Some (stored_keys t k why_t why_k)\<rparr>"
| "sites_step CloseSecret s = s\<lparr>sx_secret := None\<rparr>"

subsection \<open>Custom dimensions\<close>

record dimension_form =
  dm_name :: string
  dm_property :: string
  dm_scope :: string
  dm_type :: string
  dm_description :: string
  dm_active :: bool

definition empty_dimension :: dimension_form where
  "empty_dimension = \<lparr>dm_name = [], dm_property = [], dm_scope = ''event'', dm_type = ''string'',
     dm_description = [], dm_active = True\<rparr>"

definition DIMENSION_SCOPES :: "string list" where
  "DIMENSION_SCOPES = [''user'', ''session'', ''event'', ''item'']"

definition DIMENSION_TYPES :: "string list" where
  "DIMENSION_TYPES = [''string'', ''number'', ''boolean'', ''date'']"

record dimensions_page =
  dp_site :: string
  dp_list :: "(string \<times> dimension_form) list"      \<comment> \<open>id and row\<close>
  dp_form :: dimension_form
  dp_saving :: bool
  dp_posts :: "(string \<times> dimension_form) list"     \<comment> \<open>site and body\<close>
  dp_deletes :: "string list"

datatype dimension_event =
    DimensionsArrived string "(string \<times> dimension_form) list"
  | DimensionName string
  | DimensionProperty string
  | DimensionScope string
  | DimensionType string
  | DimensionDescription string
  | DimensionActive bool
  | EditDimension nat
  | SaveDimension
  | DimensionSaved bool
  | ConfirmedDeletion nat
  | DimensionSite string

fun dimensions_step :: "dimension_event \<Rightarrow> dimensions_page \<Rightarrow> dimensions_page" where
  "dimensions_step (DimensionsArrived site ds) s = (if site = dp_site s then s\<lparr>dp_list := ds\<rparr> else s)"
| "dimensions_step (DimensionName n) s = s\<lparr>dp_form := (dp_form s)\<lparr>dm_name := js_lower n\<rparr>\<rparr>"
| "dimensions_step (DimensionProperty n) s = s\<lparr>dp_form := (dp_form s)\<lparr>dm_property := n\<rparr>\<rparr>"
| "dimensions_step (DimensionScope n) s =
     (if n \<in> set DIMENSION_SCOPES then s\<lparr>dp_form := (dp_form s)\<lparr>dm_scope := n\<rparr>\<rparr> else s)"
| "dimensions_step (DimensionType n) s =
     (if n \<in> set DIMENSION_TYPES then s\<lparr>dp_form := (dp_form s)\<lparr>dm_type := n\<rparr>\<rparr> else s)"
| "dimensions_step (DimensionDescription n) s = s\<lparr>dp_form := (dp_form s)\<lparr>dm_description := n\<rparr>\<rparr>"
| "dimensions_step (DimensionActive b) s = s\<lparr>dp_form := (dp_form s)\<lparr>dm_active := b\<rparr>\<rparr>"
| "dimensions_step (EditDimension n) s =
     (if n < length (dp_list s) then s\<lparr>dp_form := snd (dp_list s ! n)\<rparr> else s)"
| "dimensions_step SaveDimension s =
     (if dm_name (dp_form s) = [] \<or> dm_property (dp_form s) = [] \<or> dp_saving s then s
      else s\<lparr>dp_saving := True, dp_posts := dp_posts s @ [(dp_site s, dp_form s)]\<rparr>)"
| "dimensions_step (DimensionSaved ok) s =
     (let t = s\<lparr>dp_saving := False\<rparr> in if ok then t\<lparr>dp_form := empty_dimension\<rparr> else t)"
| "dimensions_step (ConfirmedDeletion n) s =
     (if n < length (dp_list s) then s\<lparr>dp_deletes := dp_deletes s @ [fst (dp_list s ! n)]\<rparr> else s)"
| "dimensions_step (DimensionSite site) s =
     (if site = dp_site s then s else s\<lparr>dp_site := site, dp_list := []\<rparr>)"

definition dimensions_start :: "string \<Rightarrow> dimensions_page" where
  "dimensions_start site = \<lparr>dp_site = site, dp_list = [], dp_form = empty_dimension, dp_saving = False,
     dp_posts = [], dp_deletes = []\<rparr>"

text \<open>The server: the guards and the row it stores for a name.\<close>

datatype dimension_refusal = InvalidDimension | InvalidScope | InvalidDataType

definition saveDimension :: "dimension_form \<Rightarrow> dimension_refusal + dimension_form" where
  "saveDimension d =
     (let name = js_lower (js_trim (dm_name d)); kind = or_str (dm_type d) ''string'' in
      if \<not> property_name name \<or> \<not> property_name (dm_property d) then Inl InvalidDimension
      else if dm_scope d \<notin> {''user'', ''session'', ''event'', ''item''} then Inl InvalidScope
      else if kind \<notin> {''string'', ''number'', ''boolean'', ''date''} then Inl InvalidDataType
      else Inr (d\<lparr>dm_name := name, dm_type := kind\<rparr>))"

definition stored_row :: "dimension_form \<Rightarrow> bool" where
  "stored_row d \<longleftrightarrow> saveDimension d = Inr d"

definition dimension_rows :: "dimension_event \<Rightarrow> bool" where
  "dimension_rows e = (case e of DimensionsArrived site ds \<Rightarrow> list_all (\<lambda>(i, d). stored_row d) ds | _ \<Rightarrow> True)"

definition choices_ok :: "dimension_form \<Rightarrow> bool" where
  "choices_ok d \<longleftrightarrow> dm_scope d \<in> set DIMENSION_SCOPES \<and> dm_type d \<in> set DIMENSION_TYPES"

definition dimensions_ok :: "dimensions_page \<Rightarrow> bool" where
  "dimensions_ok s \<longleftrightarrow> list_all (\<lambda>(i, d). stored_row d) (dp_list s) \<and> choices_ok (dp_form s)
     \<and> (\<forall>(site, d) \<in> set (dp_posts s). choices_ok d)"

lemma stored_row_choices:
  assumes "stored_row d"
  shows "choices_ok d"
proof -
  obtain r where r: "saveDimension d = Inr r" "r = d" using assms by (simp add: stored_row_def)
  then have "dm_type d = or_str (dm_type d) ''string''"
    by (auto simp: saveDimension_def Let_def split: if_splits dest: arg_cong [of _ _ dm_type])
  with r show ?thesis
    by (auto simp: saveDimension_def choices_ok_def DIMENSION_SCOPES_def DIMENSION_TYPES_def
        Let_def split: if_splits)
qed

lemma choices_ok_update [simp]:
  "choices_ok (d\<lparr>dm_name := n\<rparr>) = choices_ok d"
  "choices_ok (d\<lparr>dm_property := n\<rparr>) = choices_ok d"
  "choices_ok (d\<lparr>dm_description := n\<rparr>) = choices_ok d"
  "choices_ok (d\<lparr>dm_active := b\<rparr>) = choices_ok d"
  "choices_ok (d\<lparr>dm_scope := n\<rparr>) \<longleftrightarrow> n \<in> set DIMENSION_SCOPES \<and> dm_type d \<in> set DIMENSION_TYPES"
  "choices_ok (d\<lparr>dm_type := n\<rparr>) \<longleftrightarrow> dm_scope d \<in> set DIMENSION_SCOPES \<and> n \<in> set DIMENSION_TYPES"
  by (simp_all add: choices_ok_def)

lemma choices_ok_parts:
  "choices_ok d \<Longrightarrow> dm_scope d \<in> set DIMENSION_SCOPES"
  "choices_ok d \<Longrightarrow> dm_type d \<in> set DIMENSION_TYPES"
  by (simp_all add: choices_ok_def)

lemma empty_choices [simp]: "choices_ok empty_dimension"
  by (simp add: choices_ok_def empty_dimension_def DIMENSION_SCOPES_def DIMENSION_TYPES_def)

lemma dimensions_step_ok:
  assumes "dimensions_ok s" "dimension_rows e"
  shows "dimensions_ok (dimensions_step e s)"
proof (cases e)
  case (EditDimension n)
  then show ?thesis using assms stored_row_choices
    by (auto simp: dimensions_ok_def list_all_length case_prod_unfold)
qed (use assms in \<open>auto simp: dimensions_ok_def dimension_rows_def Let_def choices_ok_parts\<close>)

lemma dimensions_run_ok:
  "dimensions_ok s \<Longrightarrow> list_all dimension_rows es \<Longrightarrow> dimensions_ok (fold dimensions_step es s)"
  by (induction es arbitrary: s) (simp_all add: dimensions_step_ok)

text \<open>
  What the dimension form posts is refused only for one of its two names; and a row that was
  listed and is saved unchanged is stored as it was.
\<close>

theorem dimension_posts_sound:
  assumes "list_all dimension_rows es" "s = fold dimensions_step es (dimensions_start site)"
    and "(i, d) \<in> set (dp_posts s)"
  shows "(case saveDimension d of Inl why \<Rightarrow> why = InvalidDimension | Inr row \<Rightarrow> stored_row d \<longrightarrow> row = d)"
proof -
  have "dimensions_ok s"
    unfolding assms(2) by (rule dimensions_run_ok [OF _ assms(1)]) (simp add: dimensions_ok_def dimensions_start_def)
  then have "choices_ok d" using assms(3) by (auto simp: dimensions_ok_def)
  then show ?thesis
    by (auto simp: saveDimension_def choices_ok_def DIMENSION_SCOPES_def DIMENSION_TYPES_def Let_def
        or_str_def stored_row_def split: sum.split)
qed

lemma dimension_posts_sound_witness:
  "(case saveDimension (empty_dimension\<lparr>dm_name := ''plan'', dm_property := ''tier''\<rparr>) of
      Inl why \<Rightarrow> why = InvalidDimension
    | Inr row \<Rightarrow> stored_row (empty_dimension\<lparr>dm_name := ''plan'', dm_property := ''tier''\<rparr>) \<longrightarrow>
        row = empty_dimension\<lparr>dm_name := ''plan'', dm_property := ''tier''\<rparr>)"
proof -
  let ?es = "[DimensionName ''plan'', DimensionProperty ''tier'', SaveDimension]"
  have rows: "list_all dimension_rows ?es" by (simp add: dimension_rows_def)
  have lower: "js_lower ''plan'' = ''plan''" by code_simp
  have "(''shop'', empty_dimension\<lparr>dm_name := ''plan'', dm_property := ''tier''\<rparr>)
      \<in> set (dp_posts (fold dimensions_step ?es (dimensions_start ''shop'')))"
    by (simp add: dimensions_start_def empty_dimension_def lower)
  from dimension_posts_sound [OF rows refl this] show ?thesis .
qed

subsection \<open>Networks and event schemas\<close>

record network_form =
  nw_name :: string
  nw_cidr :: string
  nw_description :: string

definition network_disabled :: "network_form \<Rightarrow> bool" where
  "network_disabled n \<longleftrightarrow> nw_name n = [] \<or> nw_cidr n = [] \<or> Cidr.cidr_judgement.blocking (judgeCIDR (nw_cidr n)) \<noteq> None"

definition empty_network :: network_form where
  "empty_network = \<lparr>nw_name = [], nw_cidr = [], nw_description = []\<rparr>"

definition press_network :: "network_form \<Rightarrow> network_form option" where
  "press_network n = (if network_disabled n then None else Some n)"

record schema_form =
  sc_name :: string
  sc_description :: string
  sc_mode :: string
  sc_conversion :: bool
  sc_text :: string

definition empty_schema :: schema_form where
  "empty_schema = \<lparr>sc_name = [], sc_description = [], sc_mode = ''warn'', sc_conversion = False,
     sc_text = ''{'' @ [CHR 0x22] @ ''properties'' @ [CHR 0x22] @ '': {}}''\<rparr>"

definition schema_disabled :: "(string \<Rightarrow> string) \<Rightarrow> string option \<Rightarrow> schema_form \<Rightarrow> bool" where
  "schema_disabled engineText site f \<longleftrightarrow>
     site = None \<or> sc_name f = [] \<or> schema_blocking (judgeSchemaText engineText (sc_text f)) \<noteq> None"

text \<open>A press sends the parsed schema, or throws before anything is sent.\<close>

definition press_schema ::
  "(string \<Rightarrow> string) \<Rightarrow> string option \<Rightarrow> schema_form \<Rightarrow> (thrown + (string option \<times> schema_form \<times> val)) option"
where
  "press_schema engineText site f =
     (if schema_disabled engineText site f then None
      else Some (case save_schema engineText (sc_text f) of Inl e \<Rightarrow> Inl e | Inr v \<Rightarrow> Inr (site, f, v)))"

definition schema_saved :: "schema_form \<Rightarrow> schema_form" where
  "schema_saved f = f\<lparr>sc_name := [], sc_description := []\<rparr>"

text \<open>The button is on only for a text that parses, so no press throws.\<close>

lemma schema_press_sends:
  "press_schema eng site f = Some r \<Longrightarrow> \<exists>v. r = Inr (site, f, v) \<and> json_parse (sc_text f) = Some v"
  by (auto simp: press_schema_def schema_disabled_def judgeSchemaText_def save_schema_def
      split: if_splits option.splits)

subsection \<open>The audit page\<close>

text \<open>
  The filters that are typed and the ones that were asked for; the pages are those of the query of
  the latter, each with the cursor it was asked with.
\<close>

record audit_view =
  av_draft :: audit_filters
  av_filters :: audit_filters
  av_pages :: "val list list"

definition audit_start :: audit_view where
  "audit_start = \<lparr>av_draft = emptyAuditFilters, av_filters = emptyAuditFilters, av_pages = []\<rparr>"

definition is_blank :: "audit_filters \<Rightarrow> bool" where
  "is_blank f \<longleftrightarrow> js_trim (f_action f) = [] \<and> js_trim (f_actor f) = [] \<and> js_trim (f_resource f) = []"

definition filtering :: "audit_view \<Rightarrow> bool" where
  "filtering s \<longleftrightarrow> \<not> is_blank (av_filters s)"

definition audit_rows :: "audit_view \<Rightarrow> val list" where
  "audit_rows s = concat (av_pages s)"

text \<open>The cursor of the next page: absent at the end; the first page has none either.\<close>

definition next_page :: "audit_view \<Rightarrow> rat option option" where
  "next_page s =
     (if av_pages s = [] then Some None
      else case nextAuditCursor (last (av_pages s)) AUDIT_PAGE_SIZE of None \<Rightarrow> None | Some c \<Rightarrow> Some (Some c))"

definition set_filters :: "audit_filters \<Rightarrow> audit_view \<Rightarrow> audit_view" where
  "set_filters f s = (if f = av_filters s then s else s\<lparr>av_filters := f, av_pages := []\<rparr>)"

datatype audit_event =
    TypeAction string
  | TypeActor string
  | TypeResource string
  | ApplyFilters
  | ResetFilters
  | PageArrived audit_filters "rat option" "val list"

fun audit_step :: "audit_event \<Rightarrow> audit_view \<Rightarrow> audit_view" where
  "audit_step (TypeAction t) s = s\<lparr>av_draft := (av_draft s)\<lparr>f_action := t\<rparr>\<rparr>"
| "audit_step (TypeActor t) s = s\<lparr>av_draft := (av_draft s)\<lparr>f_actor := t\<rparr>\<rparr>"
| "audit_step (TypeResource t) s = s\<lparr>av_draft := (av_draft s)\<lparr>f_resource := t\<rparr>\<rparr>"
| "audit_step ApplyFilters s = set_filters (av_draft s) s"
| "audit_step ResetFilters s =
     (if \<not> filtering s \<and> is_blank (av_draft s) then s
      else set_filters emptyAuditFilters (s\<lparr>av_draft := emptyAuditFilters\<rparr>))"
| "audit_step (PageArrived f cursor page) s =
     (if f = av_filters s \<and> next_page s = Some cursor then s\<lparr>av_pages := av_pages s @ [page]\<rparr> else s)"

text \<open>
  The server's log for given filters, by the ids that pass them; every answer is its page.
\<close>

definition answers_from :: "(audit_filters \<Rightarrow> int list) \<Rightarrow> audit_event \<Rightarrow> bool" where
  "answers_from trail e =
     (case e of PageArrived f cursor page \<Rightarrow> page = audit_page (trail f) cursor AUDIT_PAGE_SIZE | _ \<Rightarrow> True)"

definition entries :: "int list \<Rightarrow> val list" where
  "entries ids = map (\<lambda>i. VObj [(''id'', vint i)]) ids"

text \<open>
  What is shown is the newest part of the log of the filters, and the last page loaded is short
  only when that part is all of it.
\<close>

definition newest_shown :: "(audit_filters \<Rightarrow> int list) \<Rightarrow> audit_view \<Rightarrow> bool" where
  "newest_shown trail s \<longleftrightarrow>
     (\<exists>done_ids rest. trail (av_filters s) = done_ids @ rest \<and> audit_rows s = entries done_ids
       \<and> (av_pages s \<noteq> [] \<longrightarrow> (\<exists>before page. done_ids = before @ page \<and> last (av_pages s) = entries page
            \<and> (length page < AUDIT_PAGE_SIZE \<longrightarrow> rest = []))))"

definition a_log :: "int list \<Rightarrow> bool" where
  "a_log ids \<longleftrightarrow> sorted_wrt (>) ids \<and> list_all (\<lambda>i. 0 < i) ids"

lemma a_log_append: "a_log (xs @ ys) \<Longrightarrow> a_log xs \<and> a_log ys"
  by (auto simp: a_log_def sorted_wrt_append)

lemma entries_append [simp]: "entries (xs @ ys) = entries xs @ entries ys"
  by (simp add: entries_def)

lemma cursor_of_entries:
  "a_log ids \<Longrightarrow> nextAuditCursor (entries ids) AUDIT_PAGE_SIZE =
     (if length ids < AUDIT_PAGE_SIZE then None else Some (of_int (last ids)))"
  unfolding entries_def
  by (rule cursor_of_page) (auto simp: a_log_def list_all_iff AUDIT_PAGE_SIZE_def)

lemma first_audit_page: "audit_page trail None n = entries (take n trail)"
  by (simp add: audit_page_def entries_def)

lemma later_audit_page:
  "a_log (ids @ rest) \<Longrightarrow> ids \<noteq> [] \<Longrightarrow>
     audit_page (ids @ rest) (Some (of_int (last ids))) n = entries (take n rest)"
  using filter_older [of ids rest]
  by (simp add: audit_page_def entries_def a_log_def del: of_int_less_iff filter_append)

lemma newest_shownI:
  assumes "trail (av_filters s) = ids @ page @ rest" "audit_rows s = entries (ids @ page)"
    "last (av_pages s) = entries page" "length page < AUDIT_PAGE_SIZE \<Longrightarrow> rest = []"
  shows "newest_shown trail s"
  unfolding newest_shown_def using assms
  by (intro exI [of _ "ids @ page"] exI [of _ rest]) auto

lemma newest_after_page:
  assumes ok: "newest_shown trail s" "a_log (trail (av_filters s))" and cur: "next_page s = Some cursor"
  shows "newest_shown trail (s\<lparr>av_pages := av_pages s @
           [audit_page (trail (av_filters s)) cursor AUDIT_PAGE_SIZE]\<rparr>)"
proof (cases "av_pages s = []")
  case True
  then have "cursor = None" using cur by (simp add: next_page_def)
  with True show ?thesis
    by (intro newest_shownI [where ids = "[]" and page = "take AUDIT_PAGE_SIZE (trail (av_filters s))"
          and rest = "drop AUDIT_PAGE_SIZE (trail (av_filters s))"])
      (auto simp: audit_rows_def first_audit_page)
next
  case False
  then obtain ids page rest where t: "trail (av_filters s) = (ids @ page) @ rest"
    and rows: "audit_rows s = entries (ids @ page)" and l: "last (av_pages s) = entries page"
    using ok(1) unfolding newest_shown_def by blast
  have "a_log page" using ok(2) t by (metis a_log_append)
  then have full: "\<not> length page < AUDIT_PAGE_SIZE" and cursor: "cursor = Some (of_int (last page))"
    using cur False by (auto simp: next_page_def l cursor_of_entries split: if_splits)
  then have ne: "page \<noteq> []" by (auto simp: AUDIT_PAGE_SIZE_def)
  have "audit_page (trail (av_filters s)) cursor AUDIT_PAGE_SIZE = entries (take AUDIT_PAGE_SIZE rest)"
    using later_audit_page [of "ids @ page" rest AUDIT_PAGE_SIZE] ok(2) t ne by (simp add: cursor)
  with t rows show ?thesis
    by (intro newest_shownI [where ids = "ids @ page" and page = "take AUDIT_PAGE_SIZE rest"
          and rest = "drop AUDIT_PAGE_SIZE rest"])
      (auto simp: audit_rows_def)
qed

lemma newest_shown_empty [simp]: "av_pages s = [] \<Longrightarrow> newest_shown trail s"
  by (auto simp: newest_shown_def audit_rows_def entries_def)

lemma newest_shown_draft [simp]: "newest_shown trail (s\<lparr>av_draft := d\<rparr>) = newest_shown trail s"
  by (simp add: newest_shown_def audit_rows_def)

lemma newest_shown_filters: "newest_shown trail s \<Longrightarrow> newest_shown trail (set_filters f s)"
  by (simp add: set_filters_def)

lemma audit_step_newest:
  assumes "newest_shown trail s" "\<forall>f. a_log (trail f)" "answers_from trail e"
  shows "newest_shown trail (audit_step e s)"
  using assms
  by (cases e) (auto simp: answers_from_def newest_shown_filters intro: newest_after_page)

lemma audit_run_newest:
  "newest_shown trail s \<Longrightarrow> \<forall>f. a_log (trail f) \<Longrightarrow> list_all (answers_from trail) es \<Longrightarrow>
     newest_shown trail (fold audit_step es s)"
  by (induction es arbitrary: s) (simp_all add: audit_step_newest)

theorem audit_shows_newest:
  assumes "\<forall>f. a_log (trail f)" "list_all (answers_from trail) es"
    and "s = fold audit_step es audit_start"
  shows "audit_rows s = entries (take (length (audit_rows s)) (trail (av_filters s)))
     \<and> (next_page s = None \<longrightarrow> audit_rows s = entries (trail (av_filters s)))"
proof -
  have "newest_shown trail s"
    unfolding assms(3) by (rule audit_run_newest [OF _ assms(1,2)]) (simp add: audit_start_def)
  then obtain ids rest where t: "trail (av_filters s) = ids @ rest" "audit_rows s = entries ids"
    and more: "av_pages s \<noteq> [] \<Longrightarrow> \<exists>before page. ids = before @ page \<and> last (av_pages s) = entries page
            \<and> (length page < AUDIT_PAGE_SIZE \<longrightarrow> rest = [])"
    unfolding newest_shown_def by blast
  have "rest = []" if n: "next_page s = None"
  proof -
    have "av_pages s \<noteq> []" using n by (auto simp: next_page_def)
    then obtain before page where p: "ids = before @ page" "last (av_pages s) = entries page"
      "length page < AUDIT_PAGE_SIZE \<longrightarrow> rest = []" using more by blast
    have "a_log page" using assms(1) t(1) p(1) by (metis a_log_append)
    with n p \<open>av_pages s \<noteq> []\<close> show ?thesis
      by (auto simp: next_page_def cursor_of_entries split: if_splits option.splits)
  qed
  with t show ?thesis by (simp add: entries_def)
qed

text \<open>Two entries of one action, found by a filter, and the whole log after the reset.\<close>

theorem audit_shows_newest_witness:
  "(let trail = (\<lambda>f. if f = emptyAuditFilters then [9, 4, 2] else [4, 2]);
        es = [PageArrived emptyAuditFilters None (entries [9, 4, 2]), TypeAction ''x'', ApplyFilters]
    in audit_rows (fold audit_step es audit_start) =
         entries (take (length (audit_rows (fold audit_step es audit_start)))
           (trail (av_filters (fold audit_step es audit_start)))))"
proof -
  let ?trail = "\<lambda>f. if f = emptyAuditFilters then [9, 4, 2] else [4, 2 :: int]"
  let ?es = "[PageArrived emptyAuditFilters None (entries [9, 4, 2]), TypeAction ''x'', ApplyFilters]"
  have logs: "\<forall>f. a_log (?trail f)" by (simp add: a_log_def)
  have answers: "list_all (answers_from ?trail) ?es"
    by (simp add: answers_from_def first_audit_page AUDIT_PAGE_SIZE_def)
  show ?thesis
    using audit_shows_newest [OF logs answers refl] by (simp add: Let_def)
qed

end
