(* ===== verification/Automation.thy ===== *)
theory Automation
  imports Channels Policies
begin

section \<open>The automation page\<close>

text \<open>
  \<open>Automation\<close> of \<open>web/src/pages/PlatformAdminPage.tsx\<close>, beside the guards of \<open>saveDeliveryChannel\<close> and
  \<open>saveScheduledReport\<close> (\<open>internal/httpapi/automation.go\<close>). A request is written down when it leaves;
  its answer is an event. What a query has not answered is \<open>None\<close>, and while one of the lists that the
  page needs is absent the page shows a placeholder and keeps what was typed. A confirmed deletion is
  one event; that the buttons of a running deletion or run rest is left out.
\<close>

subsection \<open>The forms\<close>

record channel_form =
  ch_name :: string
  ch_type :: string
  ch_endpoint :: string

record schedule_entry =
  sd_name :: string
  sd_channel :: string
  sd_kind :: string
  sd_interval :: rat

datatype automation_request =
    PutAutomation props
  | PostChannel string channel_form "(string \<times> string) list"
  | PostSchedule string schedule_entry val
  | DeleteChannel string string
  | DeleteSchedule string string
  | RunSchedule string string

record automation_page =
  am_site :: string
  am_environment :: string
  am_settings :: "(string \<times> props) list option"
  am_channels :: "string list option"
  am_schedules :: "string list option"
  am_segments :: "string list"
  am_config :: "props option"
  am_channel :: channel_form
  am_rows :: "header_row list"
  am_schedule :: schedule_entry
  am_form :: schedule_form
  am_raw :: string
  am_config_saving :: bool
  am_channel_saving :: bool
  am_schedule_saving :: bool
  am_schedule_error :: bool
  am_requests :: "automation_request list"

definition CHANNEL_TYPES :: "string list" where
  "CHANNEL_TYPES = [''webhook'', ''confluence'', ''mail'', ''internal_message'', ''ai_agent'']"

definition empty_channel :: channel_form where
  "empty_channel = \<lparr>ch_name = [], ch_type = ''webhook'', ch_endpoint = []\<rparr>"

text \<open>The page opens with what a link asks for.\<close>

definition automation_start :: "string \<Rightarrow> string \<Rightarrow> string option \<Rightarrow> string option \<Rightarrow> automation_page" where
  "automation_start site env name kind =
     (let linked = parseScheduleKind kind in
      \<lparr>am_site = site, am_environment = env, am_settings = None, am_channels = None, am_schedules = None,
       am_segments = [], am_config = None, am_channel = empty_channel, am_rows = [emptyHeaderRow],
       am_schedule = \<lparr>sd_name = (case name of Some n \<Rightarrow> n | None \<Rightarrow> []), sd_channel = [],
         sd_kind = (case linked of Some k \<Rightarrow> k | None \<Rightarrow> ''overview''),
         sd_interval = (if linked = Some ''anomaly'' then 60 else 1440)\<rparr>,
       am_form = defaultScheduleForm\<lparr>sf_environment := env\<rparr>, am_raw = [],
       am_config_saving = False, am_channel_saving = False, am_schedule_saving = False,
       am_schedule_error = False, am_requests = []\<rparr>)"

definition automation_shown :: "automation_page \<Rightarrow> bool" where
  "automation_shown s \<longleftrightarrow> am_settings s \<noteq> None \<and> am_channels s \<noteq> None \<and> am_schedules s \<noteq> None"

definition default_automation :: props where
  "default_automation =
     [(''enabled'', VBool False), (''allowed_webhook_hosts'', VArr []),
      (''delivery_timeout_seconds'', vint 10), (''max_entity_ids'', vint 0)]"

definition current_config :: "automation_page \<Rightarrow> props" where
  "current_config s =
     (case am_config s of
        Some c \<Rightarrow> c
      | None \<Rightarrow>
          (case Option.bind (am_settings s) (\<lambda>gs. map_of gs ''automation'') of
             Some ps \<Rightarrow> ps | None \<Rightarrow> default_automation))"

definition set_config :: "string \<Rightarrow> val \<Rightarrow> automation_page \<Rightarrow> automation_page" where
  "set_config k v s = s\<lparr>am_config := Some (setp k v (current_config s))\<rparr>"

text \<open>The fields of the security card and what is typed into them.\<close>

datatype config_edit = Scheduler bool | AllowedHosts string | DeliveryTimeout string | EntityIds string

fun config_field :: "config_edit \<Rightarrow> automation_page \<Rightarrow> automation_page" where
  "config_field (Scheduler b) s = set_config ''enabled'' (VBool b) s"
| "config_field (AllowedHosts t) s = set_config ''allowed_webhook_hosts'' (typed_list t) s"
| "config_field (DeliveryTimeout t) s = set_config ''delivery_timeout_seconds'' (typed_number t) s"
| "config_field (EntityIds t) s = set_config ''max_entity_ids'' (typed_number t) s"

definition shown_hosts :: "automation_page \<Rightarrow> string" where
  "shown_hosts s = shown_list (getp (current_config s) ''allowed_webhook_hosts'')"

definition save_config :: "automation_page \<Rightarrow> automation_page" where
  "save_config s =
     (case am_config s of
        None \<Rightarrow> s
      | Some c \<Rightarrow>
          if am_config_saving s then s
          else s\<lparr>am_config_saving := True, am_requests := am_requests s @ [PutAutomation c]\<rparr>)"

definition edit_row_at :: "nat \<Rightarrow> (header_row \<Rightarrow> header_row) \<Rightarrow> header_row list \<Rightarrow> header_row list" where
  "edit_row_at i f rows = (if i < length rows then rows[i := f (rows ! i)] else rows)"

definition remove_row_at :: "nat \<Rightarrow> header_row list \<Rightarrow> header_row list" where
  "remove_row_at i rows = (if length rows = 1 then rows else take i rows @ drop (Suc i) rows)"

definition channel_disabled :: "automation_page \<Rightarrow> bool" where
  "channel_disabled s \<longleftrightarrow> ch_name (am_channel s) = [] \<or> ch_endpoint (am_channel s) = []
     \<or> headerIssues (am_rows s) \<noteq> [] \<or> am_channel_saving s"

definition save_channel :: "automation_page \<Rightarrow> automation_page" where
  "save_channel s =
     (if channel_disabled s then s
      else s\<lparr>am_channel_saving := True, am_requests := am_requests s @
        [PostChannel (am_site s) (am_channel s) (buildHeaders (am_rows s))]\<rparr>)"

definition channel_saved :: "bool \<Rightarrow> automation_page \<Rightarrow> automation_page" where
  "channel_saved ok s =
     (let t = s\<lparr>am_channel_saving := False\<rparr> in
      if ok then t\<lparr>am_channel := empty_channel, am_rows := [emptyHeaderRow]\<rparr> else t)"

text \<open>
  The definition of a schedule: the advanced field when it is filled, else what the form means; a
  text that is no JSON throws before anything is sent.
\<close>

definition schedule_definition :: "automation_page \<Rightarrow> val option" where
  "schedule_definition s =
     (if js_trim (am_raw s) \<noteq> [] then json_parse (am_raw s)
      else Some (VObj (buildScheduleDefinition (sd_kind (am_schedule s)) (am_form s))))"

definition save_schedule :: "automation_page \<Rightarrow> automation_page" where
  "save_schedule s =
     (if sd_name (am_schedule s) = [] \<or> sd_channel (am_schedule s) = [] \<or> am_schedule_saving s then s
      else case schedule_definition s of
        None \<Rightarrow> s\<lparr>am_schedule_error := True\<rparr>
      | Some d \<Rightarrow>
          s\<lparr>am_schedule_saving := True, am_schedule_error := False,
            am_requests := am_requests s @ [PostSchedule (am_site s) (am_schedule s) d]\<rparr>)"

definition schedule_saved :: "bool \<Rightarrow> automation_page \<Rightarrow> automation_page" where
  "schedule_saved ok s =
     (let t = s\<lparr>am_schedule_saving := False, am_schedule_error := \<not> ok\<rparr> in
      if ok then t\<lparr>am_schedule := (am_schedule t)\<lparr>sd_name := []\<rparr>, am_raw := []\<rparr> else t)"

definition SCHEDULE_DAYS :: "rat list" where
  "SCHEDULE_DAYS = [1, 7, 30, 90]"

datatype schedule_edit =
    ScheduleName string
  | ScheduleChannel string
  | ScheduleKind string
  | ScheduleInterval rat
  | ScheduleEnvironment string
  | ScheduleDays rat
  | ScheduleStates "string list"
  | ScheduleAlways bool
  | ScheduleSegment string
  | ScheduleEvent string
  | ScheduleFeature string
  | ScheduleDepartment string
  | ScheduleText string

definition edit_schedule :: "(schedule_entry \<Rightarrow> schedule_entry) \<Rightarrow> automation_page \<Rightarrow> automation_page" where
  "edit_schedule f s = s\<lparr>am_schedule := f (am_schedule s)\<rparr>"

definition edit_form :: "(schedule_form \<Rightarrow> schedule_form) \<Rightarrow> automation_page \<Rightarrow> automation_page" where
  "edit_form f s = s\<lparr>am_form := f (am_form s)\<rparr>"

definition offered_channels :: "automation_page \<Rightarrow> string list" where
  "offered_channels s = (case am_channels s of Some cs \<Rightarrow> cs | None \<Rightarrow> [])"

text \<open>A select offers its items only, and some fields are there for some kinds only.\<close>

fun schedule_field :: "schedule_edit \<Rightarrow> automation_page \<Rightarrow> automation_page" where
  "schedule_field (ScheduleName n) s = edit_schedule (\<lambda>e. e\<lparr>sd_name := n\<rparr>) s"
| "schedule_field (ScheduleChannel c) s =
     (if c \<in> set (offered_channels s) then edit_schedule (\<lambda>e. e\<lparr>sd_channel := c\<rparr>) s else s)"
| "schedule_field (ScheduleKind k) s =
     (if k \<in> set SCHEDULE_KINDS then edit_schedule (\<lambda>e. e\<lparr>sd_kind := k\<rparr>) s else s)"
| "schedule_field (ScheduleInterval m) s =
     (if m \<in> set intervalPresets then edit_schedule (\<lambda>e. e\<lparr>sd_interval := m\<rparr>) s else s)"
| "schedule_field (ScheduleEnvironment env) s =
     (if env \<in> {''dev'', ''stg'', ''prd''} then edit_form (\<lambda>f. f\<lparr>sf_environment := env\<rparr>) s else s)"
| "schedule_field (ScheduleDays d) s =
     (if kindUsesRange (sd_kind (am_schedule s)) \<and> d \<in> set SCHEDULE_DAYS
      then edit_form (\<lambda>f. f\<lparr>sf_days := d\<rparr>) s else s)"
| "schedule_field (ScheduleStates ns) s =
     (if kindUsesAlertState (sd_kind (am_schedule s)) \<and> set ns \<subseteq> {''new'', ''ongoing'', ''recovered''}
      then edit_form (\<lambda>f. f\<lparr>sf_notifyOn := ns\<rparr>) s else s)"
| "schedule_field (ScheduleAlways b) s =
     (if kindUsesAlertState (sd_kind (am_schedule s)) then edit_form (\<lambda>f. f\<lparr>sf_alwaysSend := b\<rparr>) s else s)"
| "schedule_field (ScheduleSegment i) s =
     (if kindUsesSegmentFilters (sd_kind (am_schedule s)) \<and> (i = [] \<or> i \<in> set (am_segments s))
      then edit_form (\<lambda>f. f\<lparr>sf_segmentId := i\<rparr>) s else s)"
| "schedule_field (ScheduleEvent t) s =
     (if kindUsesSegmentFilters (sd_kind (am_schedule s)) then edit_form (\<lambda>f. f\<lparr>sf_eventName := t\<rparr>) s else s)"
| "schedule_field (ScheduleFeature t) s =
     (if kindUsesSegmentFilters (sd_kind (am_schedule s)) then edit_form (\<lambda>f. f\<lparr>sf_feature := t\<rparr>) s else s)"
| "schedule_field (ScheduleDepartment t) s =
     (if kindUsesSegmentFilters (sd_kind (am_schedule s)) then edit_form (\<lambda>f. f\<lparr>sf_department := t\<rparr>) s else s)"
| "schedule_field (ScheduleText t) s = s\<lparr>am_raw := t\<rparr>"

datatype automation_event =
    SettingsArrived "(string \<times> props) list"
  | ChannelsArrived string "string list"
  | SchedulesArrived string "string list"
  | SegmentsArrived string "string list"
  | SiteChanged string
  | EnvironmentChanged string
  | SetConfig config_edit
  | SaveConfig
  | ConfigSaved bool
  | ChannelName string
  | ChannelType string
  | ChannelEndpoint string
  | RowName nat string
  | RowValue nat string
  | RemoveRow nat
  | AddRow
  | SaveChannel
  | ChannelSaved bool
  | EditSchedule schedule_edit
  | SaveSchedule
  | ScheduleSaved bool
  | ConfirmedChannelDeletion string
  | ConfirmedScheduleDeletion string
  | RunNow string

text \<open>What a reader does on the page, possible while it is shown.\<close>

fun automation_input :: "automation_event \<Rightarrow> automation_page \<Rightarrow> automation_page" where
  "automation_input (SetConfig e) s = config_field e s"
| "automation_input SaveConfig s = save_config s"
| "automation_input (ChannelName n) s = s\<lparr>am_channel := (am_channel s)\<lparr>ch_name := n\<rparr>\<rparr>"
| "automation_input (ChannelType k) s =
     (if k \<in> set CHANNEL_TYPES then s\<lparr>am_channel := (am_channel s)\<lparr>ch_type := k\<rparr>\<rparr> else s)"
| "automation_input (ChannelEndpoint u) s = s\<lparr>am_channel := (am_channel s)\<lparr>ch_endpoint := u\<rparr>\<rparr>"
| "automation_input (RowName i n) s = s\<lparr>am_rows := edit_row_at i (\<lambda>r. r\<lparr>row_name := n\<rparr>) (am_rows s)\<rparr>"
| "automation_input (RowValue i v) s = s\<lparr>am_rows := edit_row_at i (\<lambda>r. r\<lparr>row_value := v\<rparr>) (am_rows s)\<rparr>"
| "automation_input (RemoveRow i) s = s\<lparr>am_rows := remove_row_at i (am_rows s)\<rparr>"
| "automation_input AddRow s = s\<lparr>am_rows := am_rows s @ [emptyHeaderRow]\<rparr>"
| "automation_input SaveChannel s = save_channel s"
| "automation_input (EditSchedule e) s = schedule_field e s"
| "automation_input SaveSchedule s = save_schedule s"
| "automation_input (ConfirmedChannelDeletion i) s =
     s\<lparr>am_requests := am_requests s @ [DeleteChannel (am_site s) i]\<rparr>"
| "automation_input (ConfirmedScheduleDeletion i) s =
     s\<lparr>am_requests := am_requests s @ [DeleteSchedule (am_site s) i]\<rparr>"
| "automation_input (RunNow i) s = s\<lparr>am_requests := am_requests s @ [RunSchedule (am_site s) i]\<rparr>"
| "automation_input _ s = s"

fun automation_step :: "automation_event \<Rightarrow> automation_page \<Rightarrow> automation_page" where
  "automation_step (SettingsArrived gs) s = s\<lparr>am_settings := Some gs\<rparr>"
| "automation_step (ChannelsArrived site cs) s = (if site = am_site s then s\<lparr>am_channels := Some cs\<rparr> else s)"
| "automation_step (SchedulesArrived site rs) s = (if site = am_site s then s\<lparr>am_schedules := Some rs\<rparr> else s)"
| "automation_step (SegmentsArrived site gs) s = (if site = am_site s then s\<lparr>am_segments := gs\<rparr> else s)"
| "automation_step (SiteChanged site) s =
     (if site = am_site s then s
      else s\<lparr>am_site := site, am_channels := None, am_schedules := None, am_segments := []\<rparr>)"
| "automation_step (EnvironmentChanged env) s =
     (if env = am_environment s then s
      else edit_form (\<lambda>f. f\<lparr>sf_environment := env\<rparr>) (s\<lparr>am_environment := env\<rparr>))"
| "automation_step (ConfigSaved ok) s =
     (let t = s\<lparr>am_config_saving := False\<rparr> in if ok then t\<lparr>am_config := None\<rparr> else t)"
| "automation_step (ChannelSaved ok) s = channel_saved ok s"
| "automation_step (ScheduleSaved ok) s = schedule_saved ok s"
| "automation_step e s = (if automation_shown s then automation_input e s else s)"

subsection \<open>What the server makes of it\<close>

text \<open>
  \<open>uuid\<close> is the parser of ids, \<open>url_ok\<close> the rule for endpoints (\<open>net/url\<close>), \<open>active\<close> the pairs of a
  site and one of its active channels.
\<close>

datatype automation_refusal =
    INVALID_PAYLOAD | INVALID_SCHEDULE | INVALID_CHANNEL | INVALID_HEADERS | INVALID_ENVIRONMENT

definition channel_guards :: "(string \<Rightarrow> bool) \<Rightarrow> channel_form \<Rightarrow> (string \<times> string) list \<Rightarrow> automation_refusal option" where
  "channel_guards url_ok c headers =
     (if js_trim (ch_name c) = [] \<or> ch_type c \<notin> set CHANNEL_TYPES \<or> \<not> url_ok (ch_endpoint c)
      then Some INVALID_CHANNEL
      else if \<not> headers_accepted headers then Some INVALID_HEADERS else None)"

text \<open>A definition that decodes: an object, or null, which leaves the fields away.\<close>

definition definition_props :: "val \<Rightarrow> props option" where
  "definition_props d = (case d of VObj ps \<Rightarrow> Some ps | VNull \<Rightarrow> Some [] | _ \<Rightarrow> None)"

definition schedule_guards ::
  "(string \<Rightarrow> bool) \<Rightarrow> (string \<times> string) set \<Rightarrow> string \<Rightarrow> schedule_entry \<Rightarrow> val \<Rightarrow> automation_refusal option"
where
  "schedule_guards uuid active site e d =
     (case definition_props d of
        None \<Rightarrow> Some INVALID_PAYLOAD
      | Some ps \<Rightarrow>
          if sd_interval e \<noteq> of_int \<lfloor>sd_interval e\<rfloor> then Some INVALID_PAYLOAD
          else if \<not> uuid (sd_channel e) \<or> js_trim (sd_name e) = [] \<or> \<not> validReportKind (sd_kind e)
            \<or> sd_interval e < 5 \<or> sd_interval e > 525600 then Some INVALID_SCHEDULE
          else if (site, sd_channel e) \<notin> active then Some INVALID_CHANNEL
          else (case getp ps ''environment'' of
                  VStr env \<Rightarrow> if env \<noteq> [] \<and> \<not> environment_pattern env then Some INVALID_ENVIRONMENT else None
                | _ \<Rightarrow> None))"

subsection \<open>What the forms send\<close>

text \<open>The ids of channels and the names of environments are those of the server.\<close>

definition automation_answers :: "(string \<Rightarrow> bool) \<Rightarrow> automation_event \<Rightarrow> bool" where
  "automation_answers uuid e =
     (case e of
        ChannelsArrived site cs \<Rightarrow> list_all uuid cs
      | EnvironmentChanged env \<Rightarrow> environment_pattern env
      | _ \<Rightarrow> True)"

definition schedule_ok :: "(string \<Rightarrow> bool) \<Rightarrow> schedule_entry \<Rightarrow> schedule_form \<Rightarrow> bool" where
  "schedule_ok uuid e f \<longleftrightarrow> sd_kind e \<in> set SCHEDULE_KINDS \<and> sd_interval e \<in> set intervalPresets
     \<and> (sd_channel e = [] \<or> uuid (sd_channel e))
     \<and> environment_pattern (sf_environment f) \<and> sf_days f \<in> set SCHEDULE_DAYS"

fun channel_request_ok :: "automation_request \<Rightarrow> bool" where
  "channel_request_ok (PostChannel site c hs) \<longleftrightarrow>
     ch_type c \<in> set CHANNEL_TYPES \<and> headers_accepted hs \<and> (\<forall>kv \<in> set hs. snd kv \<noteq> [])"
| "channel_request_ok _ \<longleftrightarrow> True"

definition automation_ok :: "(string \<Rightarrow> bool) \<Rightarrow> automation_page \<Rightarrow> bool" where
  "automation_ok uuid s \<longleftrightarrow> schedule_ok uuid (am_schedule s) (am_form s)
     \<and> (\<forall>cs. am_channels s = Some cs \<longrightarrow> list_all uuid cs)
     \<and> am_rows s \<noteq> [] \<and> ch_type (am_channel s) \<in> set CHANNEL_TYPES
     \<and> list_all channel_request_ok (am_requests s)"

lemma automation_okI:
  assumes "automation_ok uuid s" "schedule_ok uuid (am_schedule t) (am_form t)"
    "am_channels t = am_channels s" "am_rows t \<noteq> []" "ch_type (am_channel t) \<in> set CHANNEL_TYPES"
    "list_all channel_request_ok (am_requests t)"
  shows "automation_ok uuid t"
  using assms by (simp add: automation_ok_def)

lemma automation_okD:
  assumes "automation_ok uuid s"
  shows "schedule_ok uuid (am_schedule s) (am_form s)" "am_rows s \<noteq> []"
    "ch_type (am_channel s) \<in> set CHANNEL_TYPES" "list_all channel_request_ok (am_requests s)"
  using assms by (simp_all add: automation_ok_def)

lemma preset_environments: "env \<in> {''dev'', ''stg'', ''prd''} \<Longrightarrow> environment_pattern env"
proof -
  have "list_all environment_pattern [''dev'', ''stg'', ''prd'']" by code_simp
  then show "env \<in> {''dev'', ''stg'', ''prd''} \<Longrightarrow> environment_pattern env" by auto
qed

lemma schedule_field_ok:
  assumes "automation_ok uuid s"
  shows "automation_ok uuid (schedule_field e s)"
proof (cases e)
  case (ScheduleEnvironment env)
  then show ?thesis using assms preset_environments [of env]
    by (auto simp: automation_ok_def schedule_ok_def edit_form_def)
next
  case (ScheduleChannel c)
  then show ?thesis using assms
    by (cases "am_channels s")
      (auto simp: automation_ok_def schedule_ok_def edit_schedule_def offered_channels_def list_all_iff)
qed (use assms in \<open>auto simp: automation_ok_def schedule_ok_def edit_form_def edit_schedule_def\<close>)

lemma save_channel_ok:
  assumes "automation_ok uuid s"
  shows "automation_ok uuid (save_channel s)"
proof (cases "channel_disabled s")
  case False
  then have "headerIssues (am_rows s) = []" by (simp add: channel_disabled_def)
  then show ?thesis using assms header_form_agrees [of "am_rows s"] False
    by (simp add: automation_ok_def save_channel_def)
qed (simp add: save_channel_def assms)

lemma save_schedule_ok: "automation_ok uuid s \<Longrightarrow> automation_ok uuid (save_schedule s)"
  by (simp add: automation_ok_def save_schedule_def split: option.split)

lemma automation_input_ok:
  assumes "automation_ok uuid s"
  shows "automation_ok uuid (automation_input e s)"
proof (cases e)
  case SaveChannel
  then show ?thesis using assms save_channel_ok by simp
next
  case (EditSchedule e)
  then show ?thesis using assms schedule_field_ok by simp
next
  case SaveSchedule
  then show ?thesis using assms save_schedule_ok by simp
next
  case SaveConfig
  then show ?thesis using assms by (simp add: automation_ok_def save_config_def split: option.split)
next
  case (RemoveRow i)
  then show ?thesis using assms
    by (cases "am_rows s") (auto simp: automation_ok_def remove_row_at_def take_Cons' split: nat.splits)
next
  case (SetConfig e)
  then show ?thesis using assms by (cases e) (simp_all add: automation_ok_def set_config_def)
qed (use assms in \<open>simp_all add: automation_ok_def edit_row_at_def\<close>)

lemma automation_step_ok:
  assumes "automation_ok uuid s" "automation_answers uuid e"
  shows "automation_ok uuid (automation_step e s)"
proof (cases e)
  case (ChannelsArrived site cs)
  then show ?thesis using assms by (simp add: automation_ok_def automation_answers_def)
next
  case (EnvironmentChanged env)
  then show ?thesis using assms
    by (simp add: automation_ok_def automation_answers_def edit_form_def schedule_ok_def)
next
  case (ChannelSaved ok)
  then show ?thesis using assms(1)
    by (simp add: automation_ok_def channel_saved_def Let_def empty_channel_def CHANNEL_TYPES_def)
next
  case (ScheduleSaved ok)
  then show ?thesis using assms(1)
    by (simp add: automation_ok_def schedule_saved_def Let_def schedule_ok_def)
next
  case (ConfigSaved ok)
  then show ?thesis using assms(1) by (simp add: automation_ok_def Let_def)
next
  case (SiteChanged site)
  then show ?thesis using assms(1) by (simp add: automation_ok_def)
next
  case (SettingsArrived gs)
  then show ?thesis using assms(1) by (simp add: automation_ok_def)
next
  case (SchedulesArrived site rs)
  then show ?thesis using assms(1) by (simp add: automation_ok_def)
next
  case (SegmentsArrived site gs)
  then show ?thesis using assms(1) by (simp add: automation_ok_def)
qed (use assms(1) automation_input_ok [OF assms(1), of e] in simp_all)

lemma automation_run_ok:
  "automation_ok uuid s \<Longrightarrow> list_all (automation_answers uuid) es \<Longrightarrow>
     automation_ok uuid (fold automation_step es s)"
  by (induction es arbitrary: s) (simp_all add: automation_step_ok)

lemma automation_start_ok:
  assumes "environment_pattern env" "parseScheduleKind kind \<in> insert None (Some ` set SCHEDULE_KINDS)"
  shows "automation_ok uuid (automation_start site env name kind)"
  using assms
  by (auto simp: automation_ok_def automation_start_def schedule_ok_def Let_def empty_channel_def
      CHANNEL_TYPES_def SCHEDULE_DAYS_def defaultScheduleForm_def intervalPresets_def SCHEDULE_KINDS_def
      split: option.split)

text \<open>
  Whatever is typed and answered: the server refuses a channel that the page posts only for a blank
  name or its endpoint, never for its headers, of which none is sent empty.
\<close>

theorem channel_posts_accepted:
  assumes "environment_pattern env" "parseScheduleKind kind \<in> insert None (Some ` set SCHEDULE_KINDS)"
    and "list_all (automation_answers uuid) es"
    and "s = fold automation_step es (automation_start site env name kind)"
    and "PostChannel i c hs \<in> set (am_requests s)"
  shows "(channel_guards url_ok c hs =
      (if js_trim (ch_name c) = [] \<or> \<not> url_ok (ch_endpoint c) then Some INVALID_CHANNEL else None))
    \<and> (\<forall>kv \<in> set hs. snd kv \<noteq> [])"
proof -
  have "automation_ok uuid s"
    unfolding assms(4) by (rule automation_run_ok [OF automation_start_ok [OF assms(1,2)] assms(3)])
  then have "channel_request_ok (PostChannel i c hs)"
    using assms(5) unfolding automation_ok_def list_all_iff by blast
  then show ?thesis by (simp add: channel_guards_def)
qed


definition automation_ready :: "automation_event list" where
  "automation_ready = [SettingsArrived [], ChannelsArrived ''s1'' [''c1''], SchedulesArrived ''s1'' [],
     SegmentsArrived ''s1'' [''g1'']]"


text \<open>
  Nothing ties the chosen channel and segment to the site they were chosen for: after the site
  changed the page posts the channel of the site that was left, which the server refuses, or a
  segment of it, which the server stores.
\<close>

lemma schedule_of_other_site:
  "am_requests (fold automation_step (automation_ready @ map EditSchedule
      [ScheduleName ''daily'', ScheduleChannel ''c1'', ScheduleKind ''segment'', ScheduleSegment ''g1'']
      @ [SiteChanged ''s2'', ChannelsArrived ''s2'' [''c2''], SchedulesArrived ''s2'' [], SaveSchedule,
         ScheduleSaved False, EditSchedule (ScheduleChannel ''c2''), SaveSchedule])
      (automation_start ''s1'' ''prd'' None None)) =
   (let e = \<lparr>sd_name = ''daily'', sd_channel = ''c1'', sd_kind = ''segment'', sd_interval = 1440\<rparr>;
        d = VObj [(''environment'', VStr ''prd''), (''days'', vint 7), (''segment_id'', VStr ''g1'')]
    in [PostSchedule ''s2'' e d, PostSchedule ''s2'' (e\<lparr>sd_channel := ''c2''\<rparr>) d])"
  by code_simp

text \<open>
  Behind a host the field swallows the comma that would begin another one: what is stored and shown
  is what was there before the key was pressed.
\<close>

lemma second_host_cannot_be_typed:
  assumes "automation_shown s"
  shows "let u = automation_step (SetConfig (AllowedHosts (t @ '',''))) s
    in u = automation_step (SetConfig (AllowedHosts t)) s \<and> shown_hosts u = shown_list (typed_list t)"
  using assms
  by (simp add: Let_def typed_list_def trailing_comma_swallowed shown_hosts_def set_config_def current_config_def
      obj_simps)

end
