(* ===== verification/Governance.thy ===== *)
theory Governance
  imports Channels
begin

section \<open>The governance page and the contracts behind it\<close>

text \<open>
  \<open>Governance\<close> and \<open>EnvironmentEditor\<close> of \<open>web/src/pages/PlatformAdminPage.tsx\<close>, beside the writes of
  event contracts (\<open>internal/httpapi/platform_governance.go\<close> and \<open>upsertEventDefinition\<close> of
  \<open>internal/httpapi/admin.go\<close>), the check of \<open>validateEventContractCI\<close>
  (\<open>internal/httpapi/enterprise_governance.go\<close>) and the guards of \<open>putEnvironment\<close>.
\<close>

subsection \<open>Event contracts on the server\<close>

text \<open>
  The registry of one site: for every event its row of \<open>event_definitions\<close> and its versions, which
  refer to it. A write either happens as a whole or not at all.
\<close>

record contract_version =
  cv_version :: nat
  cv_schema :: val
  cv_mode :: string
  cv_status :: string

record event_entry =
  ee_description :: string
  ee_owner :: string
  ee_conversion :: bool
  ee_schema :: val
  ee_mode :: string
  ee_current :: nat
  ee_deprecated :: bool
  ee_versions :: "contract_version list"

type_synonym registry = "(string \<times> event_entry) list"

datatype contract_refusal = INVALID_EVENT | INVALID_VALIDATION_MODE | CONTRACT_NOT_FOUND

definition MODES :: "string list" where
  "MODES = [''allow'', ''warn'', ''reject'']"

definition next_version :: "contract_version list \<Rightarrow> nat" where
  "next_version vs = Suc (foldr max (map cv_version vs) 0)"

text \<open>\<open>UPDATE ... SET status='deprecated' WHERE status='active'\<close>\<close>

definition retire :: "contract_version list \<Rightarrow> contract_version list" where
  "retire vs = map (\<lambda>v. if cv_status v = ''active'' then v\<lparr>cv_status := ''deprecated''\<rparr> else v) vs"

definition mark_active :: "nat \<Rightarrow> contract_version list \<Rightarrow> contract_version list" where
  "mark_active n vs = map (\<lambda>v. if cv_version v = n then v\<lparr>cv_status := ''active''\<rparr> else v) vs"

definition force_version :: "nat \<Rightarrow> val \<Rightarrow> string \<Rightarrow> event_entry \<Rightarrow> event_entry" where
  "force_version n schema mode e = e\<lparr>ee_current := n, ee_schema := schema, ee_mode := mode, ee_deprecated := False\<rparr>"

text \<open>The row of an event that is not there yet.\<close>

definition new_entry :: "string \<Rightarrow> string \<Rightarrow> bool \<Rightarrow> val \<Rightarrow> string \<Rightarrow> event_entry" where
  "new_entry desc own conv schema mode =
     \<lparr>ee_description = desc, ee_owner = own, ee_conversion = conv, ee_schema = schema, ee_mode = mode,
      ee_current = 1, ee_deprecated = False, ee_versions = []\<rparr>"

definition create_contract ::
  "string \<Rightarrow> string \<Rightarrow> string \<Rightarrow> val \<Rightarrow> string \<Rightarrow> bool \<Rightarrow> registry \<Rightarrow> contract_refusal + registry"
where
  "create_contract ev desc own schema mode activate reg =
     (let mode = or_str mode ''warn'' in
      if \<not> property_name ev \<or> length ev > 64 then Inl INVALID_EVENT
      else if mode \<notin> set MODES then Inl INVALID_VALIDATION_MODE
      else
        let e = (case map_of reg ev of
                   None \<Rightarrow> new_entry desc own False schema mode
                 | Some e \<Rightarrow> e\<lparr>ee_description := desc, ee_owner := own\<rparr>);
            n = next_version (ee_versions e);
            v = \<lparr>cv_version = n, cv_schema = schema, cv_mode = mode,
                 cv_status = (if activate then ''active'' else ''draft'')\<rparr>;
            e = e\<lparr>ee_versions := (if activate then retire (ee_versions e) else ee_versions e) @ [v]\<rparr>;
            e = (if activate then force_version n schema mode e else e)
        in Inr (AList.update ev e reg))"

definition activate_contract :: "string \<Rightarrow> nat \<Rightarrow> registry \<Rightarrow> contract_refusal + registry" where
  "activate_contract ev n reg =
     (case map_of reg ev of
        None \<Rightarrow> Inl CONTRACT_NOT_FOUND
      | Some e \<Rightarrow>
          (case find (\<lambda>v. cv_version v = n) (ee_versions e) of
             None \<Rightarrow> Inl CONTRACT_NOT_FOUND
           | Some v \<Rightarrow>
               Inr (AList.update ev
                 (force_version n (cv_schema v) (cv_mode v)
                   (e\<lparr>ee_versions := mark_active n (retire (ee_versions e))\<rparr>)) reg)))"

definition save_definition ::
  "string \<Rightarrow> string \<Rightarrow> val \<Rightarrow> string \<Rightarrow> bool \<Rightarrow> registry \<Rightarrow> contract_refusal + registry"
where
  "save_definition ev desc schema mode conv reg =
     (if mode \<notin> set MODES then Inl INVALID_VALIDATION_MODE
      else
        let e = (case map_of reg ev of
                   None \<Rightarrow> new_entry desc [] conv schema mode
                 | Some e \<Rightarrow> e\<lparr>ee_description := desc, ee_conversion := conv\<rparr>);
            n = next_version (ee_versions e);
            v = \<lparr>cv_version = n, cv_schema = schema, cv_mode = mode, cv_status = ''active''\<rparr>
        in Inr (AList.update ev
             (e\<lparr>ee_versions := retire (ee_versions e) @ [v], ee_schema := schema, ee_mode := mode,
                ee_current := n\<rparr>) reg))"

datatype contract_write =
    CreateContract string string string val string bool
  | ActivateContract string nat
  | SaveDefinition string string val string bool

fun apply_write :: "contract_write \<Rightarrow> registry \<Rightarrow> contract_refusal + registry" where
  "apply_write (CreateContract ev desc own schema mode activate) reg =
     create_contract ev desc own schema mode activate reg"
| "apply_write (ActivateContract ev n) reg = activate_contract ev n reg"
| "apply_write (SaveDefinition ev desc schema mode conv) reg = save_definition ev desc schema mode conv reg"

text \<open>A refused write leaves the registry as it was.\<close>

definition written :: "contract_write \<Rightarrow> registry \<Rightarrow> registry" where
  "written w reg = (case apply_write w reg of Inl why \<Rightarrow> reg | Inr r \<Rightarrow> r)"

text \<open>The contract in force: the one active version, whose schema and policy the row of the event has.\<close>

definition in_force :: "event_entry \<Rightarrow> bool" where
  "in_force e \<longleftrightarrow> distinct (map cv_version (ee_versions e))
     \<and> (\<exists>v. filter (\<lambda>v. cv_status v = ''active'') (ee_versions e) = [v] \<and> cv_version v = ee_current e
          \<and> cv_schema v = ee_schema e \<and> cv_mode v = ee_mode e)
     \<and> (\<forall>v \<in> set (ee_versions e). cv_mode v \<in> set MODES)"

definition activating :: "contract_write \<Rightarrow> bool" where
  "activating w = (case w of CreateContract ev desc own schema mode activate \<Rightarrow> activate | _ \<Rightarrow> True)"

lemma next_version_new: "v \<in> set vs \<Longrightarrow> cv_version v < next_version vs"
proof (induction vs)
  case (Cons a vs)
  then show ?case by (fastforce simp: next_version_def)
qed simp

lemma retire_facts [simp]:
  "map cv_version (retire vs) = map cv_version vs"
  "filter (\<lambda>v. cv_status v = ''active'') (retire vs) = []"
  by (induction vs) (auto simp: retire_def)

lemma versions_mark [simp]: "map cv_version (mark_active n vs) = map cv_version vs"
  by (induction vs) (auto simp: mark_active_def)

lemma new_version_fresh: "next_version vs \<notin> cv_version ` set vs"
  using next_version_new by force

lemma retire_modes [simp]: "cv_mode ` set (retire vs) = cv_mode ` set vs"
  by (induction vs) (auto simp: retire_def)

lemma mark_modes [simp]: "cv_mode ` set (mark_active n vs) = cv_mode ` set vs"
  by (induction vs) (auto simp: mark_active_def)

definition modes_known :: "contract_version list \<Rightarrow> bool" where
  "modes_known vs \<longleftrightarrow> cv_mode ` set vs \<subseteq> set MODES"

lemma in_force_alt:
  "in_force e \<longleftrightarrow> distinct (map cv_version (ee_versions e)) \<and> modes_known (ee_versions e)
     \<and> (\<exists>v. filter (\<lambda>v. cv_status v = ''active'') (ee_versions e) = [v] \<and> cv_version v = ee_current e
          \<and> cv_schema v = ee_schema e \<and> cv_mode v = ee_mode e)"
  by (auto simp: in_force_def modes_known_def)

lemma in_force_appended:
  assumes "distinct (map cv_version vs)" "modes_known vs"
    "cv_status v = ''active''" "cv_version v = next_version vs"
    "ee_versions e = retire vs @ [v]" "ee_current e = cv_version v" "ee_schema e = cv_schema v"
    "ee_mode e = cv_mode v" "cv_mode v \<in> set MODES"
  shows "in_force e"
proof -
  have "cv_version ` set (retire vs) = cv_version ` set vs" by (metis list.set_map retire_facts(1))
  then show ?thesis using assms new_version_fresh [of vs]
    by (auto simp: in_force_alt modes_known_def)
qed

lemma active_of_marked:
  assumes "distinct (map cv_version vs)" "find (\<lambda>v. cv_version v = n) vs = Some v"
    "filter (\<lambda>v. cv_status v = ''active'') vs = []"
  shows "filter (\<lambda>v. cv_status v = ''active'') (mark_active n vs) = [v\<lparr>cv_status := ''active''\<rparr>]"
  using assms
proof (induction vs)
  case (Cons a vs)
  have none: "filter (\<lambda>v. cv_status v = ''active'') (mark_active n vs) = []"
    if "n \<notin> cv_version ` set vs" "filter (\<lambda>v. cv_status v = ''active'') vs = []" for vs
    using that by (induction vs) (auto simp: mark_active_def split: if_splits)
  show ?case
  proof (cases "cv_version a = n")
    case True
    then show ?thesis using Cons.prems none [of vs] by (auto simp: mark_active_def split: if_splits)
  next
    case False
    then show ?thesis using Cons by (auto simp: mark_active_def split: if_splits)
  qed
qed simp

lemma find_retired:
  "find (\<lambda>v. cv_version v = n) vs = Some v \<Longrightarrow>
     \<exists>w. find (\<lambda>v. cv_version v = n) (retire vs) = Some w \<and> cv_schema w = cv_schema v \<and> cv_mode w = cv_mode v
       \<and> cv_version w = n"
  by (induction vs) (auto simp: retire_def split: if_splits)

lemma in_force_activated:
  assumes "in_force e" "find (\<lambda>v. cv_version v = n) (ee_versions e) = Some v"
  shows "in_force (force_version n (cv_schema v) (cv_mode v)
           (e\<lparr>ee_versions := mark_active n (retire (ee_versions e))\<rparr>))"
proof -
  obtain w where w: "find (\<lambda>v. cv_version v = n) (retire (ee_versions e)) = Some w"
    "cv_schema w = cv_schema v" "cv_mode w = cv_mode v" "cv_version w = n"
    using find_retired [OF assms(2)] by blast
  have "distinct (map cv_version (retire (ee_versions e)))" using assms(1) by (simp add: in_force_def)
  note marked = active_of_marked [OF this w(1) retire_facts(2)]
  then show ?thesis using assms(1) w
    by (simp add: in_force_alt force_version_def modes_known_def)
qed

definition registry_ok :: "registry \<Rightarrow> bool" where
  "registry_ok reg \<longleftrightarrow> (\<forall>ev e. map_of reg ev = Some e \<longrightarrow> in_force e)"

lemma registry_ok_update: "registry_ok reg \<Longrightarrow> in_force e \<Longrightarrow> registry_ok (AList.update ev e reg)"
  by (auto simp: registry_ok_def update_conv')

lemma create_in_force:
  assumes "registry_ok reg" "create_contract ev desc own schema mode True reg = Inr r"
  shows "registry_ok r"
proof -
  define e where "e = (case map_of reg ev of
      None \<Rightarrow> new_entry desc own False schema (or_str mode ''warn'')
    | Some e \<Rightarrow> e\<lparr>ee_description := desc, ee_owner := own\<rparr>)"
  define v where "v = \<lparr>cv_version = next_version (ee_versions e), cv_schema = schema,
    cv_mode = or_str mode ''warn'', cv_status = ''active''\<rparr>"
  have e: "distinct (map cv_version (ee_versions e))" "modes_known (ee_versions e)"
    using assms(1) unfolding e_def
    by (auto simp: registry_ok_def new_entry_def modes_known_def in_force_alt split: option.splits)
  have mode: "or_str mode ''warn'' \<in> set MODES"
    and r: "r = AList.update ev (force_version (cv_version v) schema (cv_mode v)
      (e\<lparr>ee_versions := retire (ee_versions e) @ [v]\<rparr>)) reg"
    using assms(2) by (auto simp: create_contract_def Let_def e_def v_def split: if_splits)
  have "in_force (force_version (cv_version v) schema (cv_mode v)
      (e\<lparr>ee_versions := retire (ee_versions e) @ [v]\<rparr>))"
    by (rule in_force_appended [OF e, of v]) (use mode in \<open>simp_all add: force_version_def v_def\<close>)
  with assms(1) show ?thesis unfolding r by (rule registry_ok_update)
qed

lemma save_in_force:
  assumes "registry_ok reg" "save_definition ev desc schema mode conv reg = Inr r"
  shows "registry_ok r"
proof -
  define e where "e = (case map_of reg ev of
      None \<Rightarrow> new_entry desc [] conv schema mode
    | Some e \<Rightarrow> e\<lparr>ee_description := desc, ee_conversion := conv\<rparr>)"
  define v where "v = \<lparr>cv_version = next_version (ee_versions e), cv_schema = schema,
    cv_mode = mode, cv_status = ''active''\<rparr>"
  have e: "distinct (map cv_version (ee_versions e))" "modes_known (ee_versions e)"
    using assms(1) unfolding e_def
    by (auto simp: registry_ok_def new_entry_def modes_known_def in_force_alt split: option.splits)
  let ?e = "e\<lparr>ee_versions := retire (ee_versions e) @ [v], ee_schema := schema, ee_mode := mode,
    ee_current := cv_version v\<rparr>"
  have mode: "mode \<in> set MODES" and r: "r = AList.update ev ?e reg"
    using assms(2) by (auto simp: save_definition_def Let_def e_def v_def split: if_splits)
  have "in_force ?e"
    by (rule in_force_appended [OF e, of v]) (use mode in \<open>simp_all add: v_def\<close>)
  with assms(1) show ?thesis unfolding r by (rule registry_ok_update)
qed

lemma activate_in_force:
  assumes "registry_ok reg" "activate_contract ev n reg = Inr r"
  shows "registry_ok r"
proof -
  obtain e v where e: "map_of reg ev = Some e" and v: "find (\<lambda>v. cv_version v = n) (ee_versions e) = Some v"
    and r: "r = AList.update ev (force_version n (cv_schema v) (cv_mode v)
      (e\<lparr>ee_versions := mark_active n (retire (ee_versions e))\<rparr>)) reg"
    using assms(2) by (auto simp: activate_contract_def split: option.splits)
  have "in_force e" using assms(1) e by (simp add: registry_ok_def)
  then show ?thesis unfolding r using assms(1) v by (intro registry_ok_update in_force_activated)
qed

lemma write_in_force:
  assumes "registry_ok reg" "activating w"
  shows "registry_ok (written w reg)"
proof (cases "apply_write w reg")
  case (Inr r)
  then show ?thesis using assms
    by (cases w) (auto simp: written_def activating_def intro: create_in_force activate_in_force save_in_force)
qed (simp add: written_def assms)

lemma writes_in_force: "registry_ok reg \<Longrightarrow> list_all activating ws \<Longrightarrow> registry_ok (fold written ws reg)"
  by (induction ws arbitrary: reg) (simp_all add: write_in_force)

text \<open>
  C9: Whatever the two editors register and activate, refused writes included, every event keeps
  exactly one contract in force, and the schema and policy that are collected by are its own.
\<close>

theorem one_contract_in_force:
  assumes "list_all activating ws" "map_of (fold written ws []) ev = Some e"
  shows "\<exists>v. filter (\<lambda>v. cv_status v = ''active'') (ee_versions e) = [v] \<and> cv_version v = ee_current e
    \<and> cv_schema v = ee_schema e \<and> cv_mode v = ee_mode e \<and> ee_mode e \<in> set MODES"
proof -
  have "registry_ok (fold written ws [])" by (rule writes_in_force [OF _ assms(1)]) (simp add: registry_ok_def)
  then have e: "in_force e" using assms(2) by (simp add: registry_ok_def)
  then obtain v where v: "filter (\<lambda>v. cv_status v = ''active'') (ee_versions e) = [v]" "cv_version v = ee_current e"
    "cv_schema v = ee_schema e" "cv_mode v = ee_mode e" unfolding in_force_def by blast
  have "v \<in> set (filter (\<lambda>v. cv_status v = ''active'') (ee_versions e))" by (simp add: v(1))
  then have "v \<in> set (ee_versions e)" by simp
  with e v show ?thesis by (auto simp: in_force_def)
qed

lemma one_contract_in_force_witness:
  "let ws = [CreateContract ''buy'' [] ''web'' (VObj []) ''warn'' True,
             SaveDefinition ''buy'' ''A purchase'' (VObj [(''required'', VArr [])]) ''reject'' True,
             CreateContract ''1st'' [] [] VNull ''warn'' True, ActivateContract ''buy'' 1]
   in case map_of (fold written ws []) ''buy'' of
        None \<Rightarrow> False
      | Some e \<Rightarrow> ee_current e = 1 \<and> ee_mode e \<in> set MODES
          \<and> (\<exists>v. filter (\<lambda>v. cv_status v = ''active'') (ee_versions e) = [v] \<and> cv_schema v = VObj [])"
proof -
  let ?ws = "[CreateContract ''buy'' [] ''web'' (VObj []) ''warn'' True,
     SaveDefinition ''buy'' ''A purchase'' (VObj [(''required'', VArr [])]) ''reject'' True,
     CreateContract ''1st'' [] [] VNull ''warn'' True, ActivateContract ''buy'' 1]"
  have ok: "list_all activating ?ws" by (simp add: activating_def)
  obtain e where e: "map_of (fold written ?ws []) ''buy'' = Some e" "ee_current e = 1" "ee_schema e = VObj []"
  proof -
    have "map_option (\<lambda>e. (ee_current e, ee_schema e)) (map_of (fold written ?ws []) ''buy'') = Some (1, VObj [])"
      by code_simp
    then show thesis using that by (auto simp: map_option_case split: option.splits)
  qed
  show ?thesis
    using one_contract_in_force [OF ok e(1)] e unfolding Let_def by (auto simp del: fold.simps)
qed

text \<open>
  A version that the governance page registers carries no description, and the one that the event
  had is erased.
\<close>

lemma description_erased:
  "map_option ee_description (map_of (fold written
      [SaveDefinition ''buy'' ''A purchase'' (VObj []) ''warn'' True,
       CreateContract ''buy'' [] [] (VObj []) ''warn'' True] []) ''buy'') = Some []"
  by code_simp

subsection \<open>The governance page\<close>

text \<open>
  An environment as the server lists it; an editor has its own policy and limit, taken over when it
  is mounted. \<open>gv_cache\<close> are the sites whose three lists the query cache holds: the page of a site in
  it is shown at once, of another it is a placeholder until the lists are there. Of a contract that is
  posted the constant fields are left away: the policy is warn and the version is activated at once.
  That the button of a running save of an environment or of a running activation rests is left out.
\<close>

record environment_item =
  ei_name :: string
  ei_label :: string
  ei_mode :: string
  ei_limit :: jnum
  ei_active :: bool

type_synonym editors = "(string \<times> string \<times> jnum) list"

record target_form =
  tg_organization :: string
  tg_department :: string
  tg_feature :: string
  tg_eligible :: jnum

datatype governance_request =
    PutEnvironment string string string string jnum bool
  | PostContract string string string val
  | PostMetric string string val
  | PostTarget string target_form
  | PostActivation string string jnum
  | PostCheck string props
  | DeleteTarget string string

record governance_page =
  gv_site :: string
  gv_environment :: string
  gv_cache :: "(string \<times> environment_item list) list"
  gv_editors :: editors
  gv_event :: string
  gv_owner :: string
  gv_schema :: string
  gv_metric :: string
  gv_definition :: string
  gv_target :: target_form
  gv_check :: string
  gv_queried :: string
  gv_contract_saving :: bool
  gv_metric_saving :: bool
  gv_target_saving :: bool
  gv_checking :: bool
  gv_requests :: "governance_request list"

definition empty_target :: target_form where
  "empty_target = \<lparr>tg_organization = [], tg_department = [], tg_feature = [], tg_eligible = Fin 0\<rparr>"

definition mount_editor :: "environment_item \<Rightarrow> string \<times> string \<times> jnum" where
  "mount_editor i = (ei_name i, ei_mode i, ei_limit i)"

text \<open>Components are matched by their key, the name of the environment.\<close>

definition render_editors :: "environment_item list \<Rightarrow> editors \<Rightarrow> editors" where
  "render_editors items old =
     map (\<lambda>i. case map_of old (ei_name i) of Some st \<Rightarrow> (ei_name i, st) | None \<Rightarrow> mount_editor i) items"

definition governance_shown :: "governance_page \<Rightarrow> environment_item list option" where
  "governance_shown s = map_of (gv_cache s) (gv_site s)"

definition rendered :: "governance_page \<Rightarrow> governance_page" where
  "rendered s =
     s\<lparr>gv_editors := (case governance_shown s of None \<Rightarrow> [] | Some items \<Rightarrow> render_editors items (gv_editors s))\<rparr>"

definition save_environment :: "string \<Rightarrow> governance_page \<Rightarrow> governance_page" where
  "save_environment name s =
     (case (Option.bind (governance_shown s) (find (\<lambda>i. ei_name i = name)), map_of (gv_editors s) name) of
        (Some i, Some (mode, limit)) \<Rightarrow>
          s\<lparr>gv_requests := gv_requests s @
             [PutEnvironment (gv_site s) name (ei_label i) mode limit (ei_active i)]\<rparr>
      | _ \<Rightarrow> s)"

definition edit_editor :: "string \<Rightarrow> (string \<times> jnum \<Rightarrow> string \<times> jnum) \<Rightarrow> governance_page \<Rightarrow> governance_page" where
  "edit_editor name f s =
     s\<lparr>gv_editors := map (\<lambda>(n, st). if n = name then (n, f st) else (n, st)) (gv_editors s)\<rparr>"

definition save_contract :: "governance_page \<Rightarrow> governance_page" where
  "save_contract s =
     (if gv_event s = [] \<or> gv_contract_saving s then s
      else case json_parse (gv_schema s) of
        None \<Rightarrow> s
      | Some v \<Rightarrow>
          s\<lparr>gv_contract_saving := True,
            gv_requests := gv_requests s @ [PostContract (gv_site s) (gv_event s) (gv_owner s) v]\<rparr>)"

definition save_metric :: "governance_page \<Rightarrow> governance_page" where
  "save_metric s =
     (if gv_metric s = [] \<or> gv_metric_saving s then s
      else case json_parse (gv_definition s) of
        None \<Rightarrow> s
      | Some v \<Rightarrow>
          s\<lparr>gv_metric_saving := True, gv_requests := gv_requests s @ [PostMetric (gv_site s) (gv_metric s) v]\<rparr>)"

definition save_target :: "governance_page \<Rightarrow> governance_page" where
  "save_target s =
     (if tg_feature (gv_target s) = [] \<or> gv_target_saving s then s
      else s\<lparr>gv_target_saving := True, gv_requests := gv_requests s @ [PostTarget (gv_site s) (gv_target s)]\<rparr>)"

text \<open>\<open>{ environment, ...JSON.parse(ciPayload) }\<close>\<close>

definition check_body :: "string \<Rightarrow> val \<Rightarrow> props" where
  "check_body env v =
     spread [(''environment'', VStr env)] (case object_entries v of Some ps \<Rightarrow> ps | None \<Rightarrow> [])"

definition press_check :: "governance_page \<Rightarrow> governance_page" where
  "press_check s =
     (if gv_checking s then s
      else case json_parse (gv_check s) of
        None \<Rightarrow> s
      | Some v \<Rightarrow>
          s\<lparr>gv_checking := True,
            gv_requests := gv_requests s @ [PostCheck (gv_site s) (check_body (gv_environment s) v)]\<rparr>)"

datatype governance_event =
    ListsArrived string "environment_item list"
  | ListsForgotten string
  | GovernanceSite string
  | GovernanceEnvironment string
  | EditorMode string string
  | EditorLimit string string
  | SaveEnvironment string
  | EventName string
  | EventOwner string
  | EventSchema string
  | SaveContract
  | ContractSaved bool
  | PressActivate string jnum
  | CheckText string
  | PressCheck
  | CheckAnswered
  | MetricName string
  | MetricDefinition string
  | SaveMetric
  | MetricSaved bool
  | QueryMetric string
  | TargetFields target_form
  | SaveTarget
  | TargetSaved bool
  | PressDeleteTarget string

fun governance_input :: "governance_event \<Rightarrow> governance_page \<Rightarrow> governance_page" where
  "governance_input (EditorMode name m) s =
     (if m \<in> set MODES then edit_editor name (\<lambda>(_, l). (m, l)) s else s)"
| "governance_input (EditorLimit name t) s = edit_editor name (\<lambda>(m, _). (m, js_number t)) s"
| "governance_input (SaveEnvironment name) s = save_environment name s"
| "governance_input (EventName t) s = s\<lparr>gv_event := t\<rparr>"
| "governance_input (EventOwner t) s = s\<lparr>gv_owner := t\<rparr>"
| "governance_input (EventSchema t) s = s\<lparr>gv_schema := t\<rparr>"
| "governance_input SaveContract s = save_contract s"
| "governance_input (PressActivate ev n) s = s\<lparr>gv_requests := gv_requests s @ [PostActivation (gv_site s) ev n]\<rparr>"
| "governance_input (CheckText t) s = s\<lparr>gv_check := t\<rparr>"
| "governance_input PressCheck s = press_check s"
| "governance_input (MetricName t) s = s\<lparr>gv_metric := t\<rparr>"
| "governance_input (MetricDefinition t) s = s\<lparr>gv_definition := t\<rparr>"
| "governance_input SaveMetric s = save_metric s"
| "governance_input (QueryMetric t) s = s\<lparr>gv_queried := t\<rparr>"
| "governance_input (TargetFields f) s = s\<lparr>gv_target := f\<rparr>"
| "governance_input SaveTarget s = save_target s"
| "governance_input (PressDeleteTarget i) s = s\<lparr>gv_requests := gv_requests s @ [DeleteTarget (gv_site s) i]\<rparr>"
| "governance_input _ s = s"

fun governance_step :: "governance_event \<Rightarrow> governance_page \<Rightarrow> governance_page" where
  "governance_step (ListsArrived site items) s =
     rendered (s\<lparr>gv_cache := AList.update site items (gv_cache s)\<rparr>)"
| "governance_step (ListsForgotten site) s =
     (if site = gv_site s then s else s\<lparr>gv_cache := AList.delete site (gv_cache s)\<rparr>)"
| "governance_step (GovernanceSite site) s =
     (if site = gv_site s then s else rendered (s\<lparr>gv_site := site\<rparr>))"
| "governance_step (GovernanceEnvironment env) s =
     s\<lparr>gv_environment := env\<rparr>"
| "governance_step (ContractSaved ok) s =
     (let t = s\<lparr>gv_contract_saving := False\<rparr> in if ok then t\<lparr>gv_event := []\<rparr> else t)"
| "governance_step (MetricSaved ok) s =
     (let t = s\<lparr>gv_metric_saving := False\<rparr> in if ok then t\<lparr>gv_metric := []\<rparr> else t)"
| "governance_step (TargetSaved ok) s =
     (let t = s\<lparr>gv_target_saving := False\<rparr> in if ok then t\<lparr>gv_target := empty_target\<rparr> else t)"
| "governance_step CheckAnswered s = s\<lparr>gv_checking := False\<rparr>"
| "governance_step e s = (if governance_shown s = None then s else governance_input e s)"

definition quoted :: "string \<Rightarrow> string" where
  "quoted t = [CHR 0x22] @ t @ [CHR 0x22]"

definition FIRST_SCHEMA :: string where
  "FIRST_SCHEMA = ''{'' @ [CHR 0x0A] @ ''  '' @ quoted ''required'' @ '': [],'' @ [CHR 0x0A] @ ''  ''
     @ quoted ''properties'' @ '': {}'' @ [CHR 0x0A] @ ''}''"

definition FIRST_METRIC :: string where
  "FIRST_METRIC = ''{'' @ quoted ''type'' @ '':'' @ quoted ''count'' @ ''}''"

definition FIRST_CHECK :: string where
  "FIRST_CHECK = ''{'' @ [CHR 0x0A] @ ''  '' @ quoted ''events'' @ '': ['' @ [CHR 0x0A] @ ''    { '' @ quoted ''name''
     @ '': '' @ quoted ''feature_used'' @ '', '' @ quoted ''contract_version'' @ '': 1, '' @ quoted ''properties''
     @ '': { '' @ quoted ''feature'' @ '': '' @ quoted ''document_search'' @ '' } }'' @ [CHR 0x0A] @ ''  ]''
     @ [CHR 0x0A] @ ''}''"

definition governance_start :: "string \<Rightarrow> string \<Rightarrow> governance_page" where
  "governance_start site env =
     \<lparr>gv_site = site, gv_environment = env, gv_cache = [], gv_editors = [], gv_event = [], gv_owner = [],
      gv_schema = FIRST_SCHEMA, gv_metric = [], gv_definition = FIRST_METRIC, gv_target = empty_target,
      gv_check = FIRST_CHECK, gv_queried = [], gv_contract_saving = False, gv_metric_saving = False,
      gv_target_saving = False, gv_checking = False, gv_requests = []\<rparr>"

text \<open>The query of the value of a metric: its key, absent while no metric was asked for.\<close>

definition metric_query :: "governance_page \<Rightarrow> (string \<times> string \<times> string) option" where
  "metric_query s = (if gv_queried s = [] then None else Some (gv_site s, gv_queried s, gv_environment s))"

text \<open>The guards of \<open>putEnvironment\<close>.\<close>

datatype environment_refusal =
    BadName | BadBody | INVALID_CONTRACT_MODE | INVALID_CARDINALITY_LIMIT | PRODUCTION_REQUIRED

definition environment_guards :: "string \<Rightarrow> string \<Rightarrow> jnum \<Rightarrow> bool \<Rightarrow> environment_refusal option" where
  "environment_guards name mode limit active =
     (if \<not> environment_pattern name then Some BadName
      else case go_int limit of
        None \<Rightarrow> Some BadBody
      | Some n \<Rightarrow>
          if mode \<notin> set MODES then Some INVALID_CONTRACT_MODE
          else if n < 100 \<or> n > 10000000 then Some INVALID_CARDINALITY_LIMIT
          else if name = ''prd'' \<and> \<not> active then Some PRODUCTION_REQUIRED else None)"

text \<open>A row of the server: it passed the same guards.\<close>

definition item_ok :: "environment_item \<Rightarrow> bool" where
  "item_ok i \<longleftrightarrow> environment_pattern (ei_name i) \<and> ei_mode i \<in> set MODES
     \<and> (ei_name i = ''prd'' \<longrightarrow> ei_active i)"

text \<open>\<open>L\<close> holds the lists of environments that the server answered, by site.\<close>

definition listed :: "(string \<times> environment_item list) set \<Rightarrow> governance_event \<Rightarrow> bool" where
  "listed L e = (case e of ListsArrived site items \<Rightarrow> (site, items) \<in> L | _ \<Rightarrow> True)"

fun environment_request_ok :: "(string \<times> environment_item list) set \<Rightarrow> governance_request \<Rightarrow> bool" where
  "environment_request_ok L (PutEnvironment site name label mode limit active) \<longleftrightarrow>
     mode \<in> set MODES \<and> (\<exists>items i. (site, items) \<in> L \<and> i \<in> set items
       \<and> ei_name i = name \<and> ei_label i = label \<and> ei_active i = active)"
| "environment_request_ok L _ \<longleftrightarrow> True"

definition governance_ok :: "(string \<times> environment_item list) set \<Rightarrow> governance_page \<Rightarrow> bool" where
  "governance_ok L s \<longleftrightarrow> set (gv_cache s) \<subseteq> L \<and> (\<forall>(n, m, l) \<in> set (gv_editors s). m \<in> set MODES)
     \<and> list_all (environment_request_ok L) (gv_requests s)"

lemma rendered_ok:
  assumes "governance_ok L s" "\<forall>(site, items) \<in> L. list_all item_ok items"
  shows "governance_ok L (rendered s)"
proof -
  have "m \<in> set MODES" if shown: "governance_shown s = Some items" and mem: "(n, m, l) \<in> set (render_editors items (gv_editors s))"
    for items n m l
  proof -
    have items: "list_all item_ok items"
      using shown assms by (auto simp: governance_shown_def governance_ok_def dest: map_of_SomeD)
    obtain i where i: "i \<in> set items" "(n, m, l) = (case map_of (gv_editors s) (ei_name i) of
        Some st \<Rightarrow> (ei_name i, st) | None \<Rightarrow> mount_editor i)"
      using mem by (auto simp: render_editors_def)
    show ?thesis
    proof (cases "map_of (gv_editors s) (ei_name i)")
      case None
      then show ?thesis using i items by (auto simp: mount_editor_def item_ok_def list_all_iff)
    next
      case (Some st)
      then show ?thesis using i(2) assms(1) by (auto simp: governance_ok_def dest!: map_of_SomeD)
    qed
  qed
  then show ?thesis using assms(1)
    by (cases "governance_shown s") (auto simp: governance_ok_def rendered_def)
qed

lemma found_member: "find P xs = Some x \<Longrightarrow> x \<in> set xs \<and> P x"
  by (induction xs) (auto split: if_splits)

lemma save_environment_ok:
  assumes "governance_ok L s"
  shows "governance_ok L (save_environment name s)"
proof (cases "Option.bind (governance_shown s) (find (\<lambda>i. ei_name i = name))")
  case found: (Some i)
  then obtain items where "governance_shown s = Some items" "find (\<lambda>i. ei_name i = name) items = Some i"
    by (cases "governance_shown s") auto
  then have cached: "map_of (gv_cache s) (gv_site s) = Some items" and i: "i \<in> set items" "ei_name i = name"
    using found_member [of "\<lambda>i. ei_name i = name" items i] by (simp_all add: governance_shown_def)
  have L: "(gv_site s, items) \<in> L"
    using map_of_SomeD [OF cached] assms unfolding governance_ok_def by blast
  show ?thesis
  proof (cases "map_of (gv_editors s) name")
    case None
    then show ?thesis using assms found by (simp add: save_environment_def)
  next
    case (Some st)
    obtain m l where st: "st = (m, l)" by (cases st)
    have "(name, m, l) \<in> set (gv_editors s)" using Some st by (simp add: map_of_SomeD)
    then have "m \<in> set MODES" using assms by (auto simp: governance_ok_def)
    with i L have "environment_request_ok L (PutEnvironment (gv_site s) name (ei_label i) m l (ei_active i))"
      by (simp only: environment_request_ok.simps) blast
    then show ?thesis using assms Some st found
      by (simp add: governance_ok_def save_environment_def del: environment_request_ok.simps)
  qed
qed (simp add: save_environment_def assms)

lemma edited_modes:
  assumes "\<forall>(n, m, l) \<in> set es. m \<in> M" "\<And>m l. m \<in> M \<Longrightarrow> fst (f (m, l)) \<in> M"
  shows "\<forall>(n, m, l) \<in> set (map (\<lambda>(n, st). if n = name then (n, f st) else (n, st)) es). m \<in> M"
  using assms(1)
proof (induction es)
  case (Cons x es)
  obtain n m l where x: "x = (n, m, l)" by (cases x)
  then show ?case using Cons assms(2) [of m l] by (cases "f (m, l)") simp
qed simp

lemma edit_editor_ok:
  assumes "governance_ok L s" "\<And>m l. m \<in> set MODES \<Longrightarrow> fst (f (m, l)) \<in> set MODES"
  shows "governance_ok L (edit_editor name f s)"
  using assms(1) edited_modes [of "gv_editors s" "set MODES" f name] assms(2)
  by (simp add: governance_ok_def edit_editor_def del: set_map)

lemma governance_input_ok:
  assumes "governance_ok L s"
  shows "governance_ok L (governance_input e s)"
proof (cases e)
  case (SaveEnvironment name)
  then show ?thesis using assms by (simp add: save_environment_ok)
next
  case (EditorMode name m)
  then show ?thesis using assms by (simp add: edit_editor_ok)
next
  case (EditorLimit name t)
  then show ?thesis using assms by (simp add: edit_editor_ok)
qed (use assms in \<open>simp_all add: governance_ok_def save_contract_def save_metric_def save_target_def
  press_check_def split: option.split\<close>)

lemma governance_step_ok:
  assumes "governance_ok L s" "listed L e" "\<forall>(site, items) \<in> L. list_all item_ok items"
  shows "governance_ok L (governance_step e s)"
proof (cases e)
  case (ListsArrived site items)
  have "governance_ok L (s\<lparr>gv_cache := AList.update site items (gv_cache s)\<rparr>)"
    using assms(1,2) alist_update_subset [of site items "gv_cache s"] ListsArrived
    by (auto simp: governance_ok_def listed_def)
  then show ?thesis using ListsArrived assms(3) by (simp add: rendered_ok)
next
  case (ListsForgotten site)
  have "set (AList.delete site (gv_cache s)) \<subseteq> set (gv_cache s)" by (rule alist_delete_subset)
  then show ?thesis using assms(1) ListsForgotten by (auto simp: governance_ok_def)
next
  case (GovernanceSite site)
  have "governance_ok L (s\<lparr>gv_site := site\<rparr>)" using assms(1) by (simp add: governance_ok_def)
  then show ?thesis using GovernanceSite assms(1,3) by (simp add: rendered_ok)
next
  case (GovernanceEnvironment env)
  then show ?thesis using assms(1) by (simp add: governance_ok_def)
next
  case (ContractSaved ok)
  then show ?thesis using assms(1) by (simp add: governance_ok_def Let_def)
next
  case (MetricSaved ok)
  then show ?thesis using assms(1) by (simp add: governance_ok_def Let_def)
next
  case (TargetSaved ok)
  then show ?thesis using assms(1) by (simp add: governance_ok_def Let_def)
next
  case CheckAnswered
  then show ?thesis using assms(1) by (simp add: governance_ok_def)
qed (use assms(1) governance_input_ok [OF assms(1), of e] in simp_all)

lemma governance_run_ok:
  "governance_ok L s \<Longrightarrow> list_all (listed L) es \<Longrightarrow> \<forall>(site, items) \<in> L. list_all item_ok items \<Longrightarrow>
     governance_ok L (fold governance_step es s)"
  by (induction es arbitrary: s) (simp_all add: governance_step_ok)

text \<open>
  An environment is saved under a name, a label and a state that its site was listed with, and the
  server refuses the policy only for its limit.
\<close>

theorem environment_saves_accepted:
  assumes "\<forall>(site, items) \<in> L. list_all item_ok items" "list_all (listed L) es"
    and "s = fold governance_step es (governance_start site env)"
    and "PutEnvironment site' name label mode limit active \<in> set (gv_requests s)"
  shows "(\<exists>items i. (site', items) \<in> L \<and> i \<in> set items \<and> ei_name i = name \<and> ei_label i = label
        \<and> ei_active i = active)
    \<and> environment_guards name mode limit active =
        (case go_int limit of
           None \<Rightarrow> Some BadBody
         | Some n \<Rightarrow> if n < 100 \<or> n > 10000000 then Some INVALID_CARDINALITY_LIMIT else None)"
proof -
  have "governance_ok L s"
    unfolding assms(3)
    by (rule governance_run_ok [OF _ assms(2,1)]) (simp add: governance_ok_def governance_start_def)
  then have ok: "environment_request_ok L (PutEnvironment site' name label mode limit active)"
    using assms(4) unfolding governance_ok_def list_all_iff by blast
  then obtain items i where i: "(site', items) \<in> L" "i \<in> set items" "ei_name i = name" "ei_active i = active"
    by auto
  then have "item_ok i" using assms(1) by (auto simp: list_all_iff)
  with i ok show ?thesis by (auto simp: environment_guards_def item_ok_def split: option.split)
qed

definition example_item :: "string \<Rightarrow> rat \<Rightarrow> environment_item" where
  "example_item mode limit = \<lparr>ei_name = ''prd'', ei_label = ''Production'', ei_mode = mode,
     ei_limit = Fin limit, ei_active = True\<rparr>"

lemma environment_saves_accepted_witness:
  "let s = fold governance_step
         [ListsArrived ''s1'' [example_item ''warn'' 10000], EditorMode ''prd'' ''reject'',
          EditorLimit ''prd'' ''99'', SaveEnvironment ''prd''] (governance_start ''s1'' ''prd'')
   in gv_requests s = [PutEnvironment ''s1'' ''prd'' ''Production'' ''reject'' (Fin 99) True]
      \<and> environment_guards ''prd'' ''reject'' (Fin 99) True = Some INVALID_CARDINALITY_LIMIT"
proof -
  let ?es = "[ListsArrived ''s1'' [example_item ''warn'' 10000], EditorMode ''prd'' ''reject'',
     EditorLimit ''prd'' ''99'', SaveEnvironment ''prd'']"
  let ?L = "{(''s1'', [example_item ''warn'' 10000])}"
  have items: "\<forall>(site, items) \<in> ?L. list_all item_ok items"
    by (auto simp: item_ok_def example_item_def environment_pattern_def MODES_def char_simps)
  have listed: "list_all (listed ?L) ?es" by (simp add: listed_def)
  have posted: "gv_requests (fold governance_step ?es (governance_start ''s1'' ''prd'')) =
      [PutEnvironment ''s1'' ''prd'' ''Production'' ''reject'' (Fin 99) True]"
    by code_simp
  then have "PutEnvironment ''s1'' ''prd'' ''Production'' ''reject'' (Fin 99) True
      \<in> set (gv_requests (fold governance_step ?es (governance_start ''s1'' ''prd'')))" by simp
  from environment_saves_accepted [OF items listed refl this] posted show ?thesis
    by (simp add: Let_def go_int_def del: fold.simps)
qed

text \<open>
  An editor belongs to a name and not to a site: coming back to a site whose lists are still
  cached, the page shows and saves the policy of the site that was left.
\<close>

lemma environment_of_other_site_saved:
  "gv_requests (fold governance_step
      [ListsArrived ''s1'' [example_item ''warn'' 10000], GovernanceSite ''s2'',
       ListsArrived ''s2'' [example_item ''allow'' 50000], GovernanceSite ''s1'', SaveEnvironment ''prd'']
      (governance_start ''s1'' ''prd'')) =
   [PutEnvironment ''s1'' ''prd'' ''Production'' ''allow'' (Fin 50000) True]"
  by code_simp

subsection \<open>Checking events before a deployment\<close>

text \<open>
  \<open>problems\<close> is the comparison of the properties of an event with a schema; an event names the
  version it was built for, and zero for the current one.
\<close>

record checked_event =
  ck_name :: string
  ck_version :: nat
  ck_properties :: props

record check_result =
  cr_event :: string
  cr_status :: string
  cr_messages :: "string list"

definition mode_rank :: "string \<Rightarrow> nat" where
  "mode_rank m = (if m = ''reject'' then 2 else if m = ''warn'' then 1 else 0)"

definition strictestCIMode :: "string \<Rightarrow> string \<Rightarrow> string" where
  "strictestCIMode a b = (if mode_rank b > mode_rank a then b else a)"

definition check_event :: "(props \<Rightarrow> val \<Rightarrow> string list) \<Rightarrow> string \<Rightarrow> registry \<Rightarrow> checked_event \<Rightarrow> check_result" where
  "check_event problems env_mode reg ev =
     (case map_of reg (ck_name ev) of
        None \<Rightarrow> \<lparr>cr_event = ck_name ev, cr_status = ''error'', cr_messages = [''event is not registered'']\<rparr>
      | Some e \<Rightarrow>
          (let n = (if ck_version ev = 0 then ee_current e else ck_version ev) in
           case find (\<lambda>v. cv_version v = n) (ee_versions e) of
             None \<Rightarrow> \<lparr>cr_event = ck_name ev, cr_status = ''error'',
                      cr_messages = [''contract version is not registered'']\<rparr>
           | Some v \<Rightarrow>
               (let messages = problems (ck_properties ev) (cv_schema v)
                      @ (if ee_deprecated e \<or> cv_status v = ''deprecated''
                         then [''event or contract is deprecated''] else []) in
                \<lparr>cr_event = ck_name ev,
                 cr_status = (if messages = [] then ''valid''
                   else if strictestCIMode env_mode (cv_mode v) = ''reject'' then ''error'' else ''warning''),
                 cr_messages = messages\<rparr>)))"

definition check_answer ::
  "(props \<Rightarrow> val \<Rightarrow> string list) \<Rightarrow> string \<Rightarrow> registry \<Rightarrow> checked_event list \<Rightarrow> bool \<times> nat \<times> nat \<times> check_result list"
where
  "check_answer problems env_mode reg evs =
     (let rs = map (check_event problems env_mode reg) evs;
          errs = length (filter (\<lambda>r. cr_status r = ''error'') rs);
          warns = length (filter (\<lambda>r. cr_status r = ''warning'') rs)
      in (errs = 0, errs, warns, rs))"

text \<open>The colour of a result on the page.\<close>

datatype result_color = Success | Warning | Error

definition result_color :: "string \<Rightarrow> result_color" where
  "result_color v = (if v = ''ok'' then Success else if v = ''warning'' then Warning else Error)"

text \<open>
  An event that is checked against the current contract of a registry that was written by the
  editors passes when its properties fit the schema that is collected by, unless the event itself
  was retired; and it is shown like an error.
\<close>

lemma find_active:
  "distinct (map cv_version vs) \<Longrightarrow> v \<in> set vs \<Longrightarrow> find (\<lambda>w. cv_version w = cv_version v) vs = Some v"
  by (induction vs) auto

theorem current_contract_is_checked:
  assumes "list_all activating ws" "map_of (fold written ws []) (ck_name ev) = Some e"
    and "ck_version ev = 0" "\<not> ee_deprecated e"
  shows "check_event problems env_mode (fold written ws []) ev =
    (let messages = problems (ck_properties ev) (ee_schema e) in
     \<lparr>cr_event = ck_name ev,
      cr_status = (if messages = [] then ''valid''
        else if strictestCIMode env_mode (ee_mode e) = ''reject'' then ''error'' else ''warning''),
      cr_messages = messages\<rparr>)"
proof -
  have "registry_ok (fold written ws [])" by (rule writes_in_force [OF _ assms(1)]) (simp add: registry_ok_def)
  then have e: "in_force e" using assms(2) by (simp add: registry_ok_def)
  then obtain v where v: "filter (\<lambda>v. cv_status v = ''active'') (ee_versions e) = [v]" "cv_version v = ee_current e"
    "cv_schema v = ee_schema e" "cv_mode v = ee_mode e" unfolding in_force_def by blast
  have "v \<in> set (filter (\<lambda>v. cv_status v = ''active'') (ee_versions e))" by (simp add: v(1))
  then have member: "v \<in> set (ee_versions e)" "cv_status v = ''active''" by simp_all
  have "find (\<lambda>w. cv_version w = ee_current e) (ee_versions e) = Some v"
    using e find_active [OF _ member(1)] v(2) by (simp add: in_force_def)
  then show ?thesis using assms(2-4) v member(2) by (simp add: check_event_def Let_def)
qed

lemma valid_result_is_red: "result_color ''valid'' = Error"
  by (simp add: result_color_def)

text \<open>A payload that names an environment is checked against that one, whatever the button says.\<close>

lemma checked_environment_is_the_payloads:
  "getp (check_body ''prd'' (VObj [(''events'', VArr []), (''environment'', VStr ''dev'')])) ''environment'' = VStr ''dev''"
  by code_simp

end
