(* ===== verification/Engineering.thy ===== *)
theory Engineering
  imports Policies
begin

section \<open>The engineering page and its guards\<close>

text \<open>
  \<open>AnalyticsEngineering\<close> of \<open>web/src/pages/EnterpriseAdminPage.tsx\<close>, beside the guards its requests
  meet: \<open>validateSemanticDefinition\<close> and \<open>saveSemanticMetric\<close>
  (\<open>internal/httpapi/platform_governance.go\<close>), \<open>saveMetricGoal\<close>, \<open>putQueryPolicy\<close>,
  \<open>createAggregateJob\<close> and \<open>saveAnnotation\<close> (\<open>internal/httpapi/enterprise_governance.go\<close>).
\<close>

subsection \<open>Definitions of metrics\<close>

text \<open>
  A definition as the request carries it, a field that is left away being empty. The number of
  occurrences is decoded as an integer. \<open>conversion\<close> is a flag that no guard reads and is left out.
\<close>

record metric_filter =
  mf_property :: string
  mf_operator :: string
  mf_value :: val
  mf_scope :: string

datatype metric_definition =
  Metric (md_type: string) (md_metric: string) (md_event: string) (md_property: string)
    (md_fallback: string) (md_traffic: string) (md_min: jnum) (md_filters: "metric_filter list")
    (md_numerator: "metric_definition option") (md_denominator: "metric_definition option")

definition leaf :: "string \<Rightarrow> string \<Rightarrow> jnum \<Rightarrow> metric_definition" where
  "leaf type event m = Metric type [] event [] [] [] m [] None None"

definition ratio_of :: "metric_definition \<Rightarrow> metric_definition \<Rightarrow> metric_definition" where
  "ratio_of a b = Metric ''ratio'' [] [] [] [] [] (Fin 0) [] (Some a) (Some b)"

text \<open>\<open>registryNamePattern\<close>\<close>

definition registry_name :: "string \<Rightarrow> bool" where
  "registry_name t \<longleftrightarrow>
     (case t of
        [] \<Rightarrow> False
      | c # cs \<Rightarrow> is_lower c \<and> length cs \<le> 63 \<and> list_all (\<lambda>x. is_lower x \<or> is_digit x \<or> x = CHR ''_'') cs)"

definition event_name_ok :: "string \<Rightarrow> bool" where
  "event_name_ok t \<longleftrightarrow> t = [] \<or> property_name t \<and> length t \<le> 64"

definition TRAFFIC_CLASSES :: "string list" where
  "TRAFFIC_CLASSES = [''normal'', ''internal_traffic'', ''known_bot'', ''monitoring'', ''suspicious'']"

definition filter_ok :: "metric_filter \<Rightarrow> bool" where
  "filter_ok f \<longleftrightarrow> property_name (mf_property f)
     \<and> mf_operator f \<in> {''eq'', ''neq'', ''exists'', ''not_exists'', ''in''}
     \<and> mf_scope f \<in> {[], ''event'', ''user'', ''session''}
     \<and> (mf_operator f = ''in'' \<longrightarrow>
          (case mf_value f of VArr vs \<Rightarrow> vs \<noteq> [] \<and> length vs \<le> 100 | _ \<Rightarrow> False))"

text \<open>What the fields of one level have to satisfy, whatever its type; \<open>n\<close> is the decoded number.\<close>

definition level_ok :: "metric_definition \<Rightarrow> int \<Rightarrow> bool" where
  "level_ok d n \<longleftrightarrow> event_name_ok (md_event d)
     \<and> (md_property d = [] \<or> property_name (md_property d))
     \<and> (md_fallback d = [] \<or> property_name (md_fallback d))
     \<and> (md_traffic d = [] \<or> md_traffic d \<in> set TRAFFIC_CLASSES)
     \<and> 0 \<le> n \<and> n \<le> 1000000 \<and> list_all filter_ok (md_filters d)"

fun decodes :: "metric_definition \<Rightarrow> bool" where
  "decodes (Metric type metric event property fallback traffic m filters num den) \<longleftrightarrow>
     go_int m \<noteq> None
     \<and> (case num of None \<Rightarrow> True | Some a \<Rightarrow> decodes a) \<and> (case den of None \<Rightarrow> True | Some b \<Rightarrow> decodes b)"

fun validateSemanticDefinition :: "metric_definition \<Rightarrow> nat \<Rightarrow> bool" where
  "validateSemanticDefinition (Metric type metric event property fallback traffic m filters num den) depth \<longleftrightarrow>
     depth \<le> 5
     \<and> (case go_int m of
          None \<Rightarrow> False
        | Some n \<Rightarrow> level_ok (Metric type metric event property fallback traffic m filters num den) n)
     \<and> (if type \<in> {''count'', ''unique_users'', ''unique_sessions''} then True
        else if type \<in> {''sum'', ''average''} then property \<noteq> []
        else if type = ''ratio''
        then (case num of None \<Rightarrow> False | Some a \<Rightarrow> validateSemanticDefinition a (depth + 1))
          \<and> (case den of None \<Rightarrow> False | Some b \<Rightarrow> validateSemanticDefinition b (depth + 1))
        else type = ''metric_ref'' \<and> registry_name metric)"

record formula_post =
  fp_name :: string
  fp_label :: string
  fp_owner :: string
  fp_definition :: metric_definition

datatype engineering_refusal =
    PAYLOAD_REFUSED | INVALID_METRIC | INVALID_METRIC_DEFINITION | INVALID_GOAL | INVALID_POLICY
  | INVALID_JOB_RANGE | INVALID_JOB | INVALID_ANNOTATION

text \<open>
  The guards of \<open>saveSemanticMetric\<close> that a formula can fail: it refers to no other metric, and its
  format, status, scope and tag are constants that pass.
\<close>

definition metric_guards :: "formula_post \<Rightarrow> engineering_refusal option" where
  "metric_guards m =
     (if \<not> decodes (fp_definition m) then Some PAYLOAD_REFUSED
      else if \<not> registry_name (fp_name m) \<or> js_trim (fp_label m) = [] then Some INVALID_METRIC
      else if \<not> validateSemanticDefinition (fp_definition m) 1 then Some INVALID_METRIC_DEFINITION
      else None)"

subsection \<open>The formula form\<close>

record formula_form =
  fm_name :: string
  fm_label :: string
  fm_numerator_type :: string
  fm_numerator_event :: string
  fm_denominator_type :: string
  fm_denominator_event :: string
  fm_owner :: string
  fm_min :: jnum

definition FORMULA_TYPES :: "string list" where
  "FORMULA_TYPES = [''unique_users'', ''unique_sessions'', ''count'']"

definition formula_start :: formula_form where
  "formula_start =
     \<lparr>fm_name = [], fm_label = [], fm_numerator_type = ''unique_users'', fm_numerator_event = [],
      fm_denominator_type = ''unique_users'', fm_denominator_event = [], fm_owner = [], fm_min = Fin 0\<rparr>"

text \<open>\<open>formula.min_occurrences > 1\<close>\<close>

definition above_one :: "jnum \<Rightarrow> bool" where
  "above_one n = (case n of Fin q \<Rightarrow> q > 1 | PInf \<Rightarrow> True | _ \<Rightarrow> False)"

definition formula_request :: "formula_form \<Rightarrow> formula_post" where
  "formula_request f =
     \<lparr>fp_name = fm_name f, fp_label = or_str (fm_label f) (fm_name f), fp_owner = fm_owner f,
      fp_definition = ratio_of
        (leaf (fm_numerator_type f) (fm_numerator_event f) (if above_one (fm_min f) then fm_min f else Fin 0))
        (leaf (fm_denominator_type f) (fm_denominator_event f) (Fin 0))\<rparr>"

text \<open>
  What the server makes of a formula, read off the form: the label may be missing, and a number of
  occurrences up to one says nothing.
\<close>

definition formula_acceptable :: "formula_form \<Rightarrow> bool" where
  "formula_acceptable f \<longleftrightarrow> registry_name (fm_name f) \<and> (fm_label f = [] \<or> js_trim (fm_label f) \<noteq> [])
     \<and> event_name_ok (fm_numerator_event f) \<and> event_name_ok (fm_denominator_event f)
     \<and> (case fm_min f of Fin q \<Rightarrow> q \<le> 1 \<or> (q = of_int \<lfloor>q\<rfloor> \<and> q \<le> 1000000) | _ \<Rightarrow> True)"

lemma registry_name_visible: "registry_name t \<Longrightarrow> js_trim t \<noteq> []"
  by (rule js_trim_nonblank_head) (auto simp: registry_name_def char_simps split: list.splits)

lemma leaf_valid:
  assumes "type \<in> set FORMULA_TYPES" "depth \<le> 5"
  shows "validateSemanticDefinition (leaf type event m) depth \<longleftrightarrow>
    event_name_ok event \<and> (case go_int m of None \<Rightarrow> False | Some n \<Rightarrow> 0 \<le> n \<and> n \<le> 1000000)"
  using assms by (auto simp: leaf_def level_ok_def FORMULA_TYPES_def split: option.split)

lemma ratio_valid:
  "validateSemanticDefinition (ratio_of a b) 1 \<longleftrightarrow> validateSemanticDefinition a 2 \<and> validateSemanticDefinition b 2"
  by (simp add: ratio_of_def level_ok_def event_name_ok_def go_int_def numeral_2_eq_2)

lemma ratio_decodes: "decodes (ratio_of a b) \<longleftrightarrow> decodes a \<and> decodes b"
  by (simp add: ratio_of_def go_int_def)

lemma leaf_decodes: "decodes (leaf type event m) \<longleftrightarrow> go_int m \<noteq> None"
  by (simp add: leaf_def)

lemma formula_acceptance:
  assumes "fm_numerator_type f \<in> set FORMULA_TYPES" "fm_denominator_type f \<in> set FORMULA_TYPES"
  shows "metric_guards (formula_request f) = None \<longleftrightarrow> formula_acceptable f"
proof -
  let ?m = "if above_one (fm_min f) then fm_min f else Fin 0"
  have label: "registry_name (fm_name f) \<Longrightarrow>
      js_trim (or_str (fm_label f) (fm_name f)) \<noteq> [] \<longleftrightarrow> fm_label f = [] \<or> js_trim (fm_label f) \<noteq> []"
    using registry_name_visible [of "fm_name f"] by (auto simp: or_str_def)
  have number: "(case go_int ?m of None \<Rightarrow> False | Some n \<Rightarrow> 0 \<le> n \<and> n \<le> 1000000)
      \<longleftrightarrow> (case fm_min f of Fin q \<Rightarrow> q \<le> 1 \<or> (q = of_int \<lfloor>q\<rfloor> \<and> q \<le> 1000000) | _ \<Rightarrow> True)"
  proof (cases "fm_min f")
    case (Fin q)
    have "\<lfloor>q\<rfloor> \<le> 1000000 \<longleftrightarrow> q \<le> 1000000" if "q = of_int \<lfloor>q\<rfloor>"
      using that by (metis of_int_le_iff of_int_numeral)
    then show ?thesis using Fin by (auto simp: above_one_def go_int_def)
  qed (simp_all add: above_one_def go_int_def)
  have "decodes (fp_definition (formula_request f)) \<longleftrightarrow> go_int ?m \<noteq> None"
    by (simp add: formula_request_def ratio_decodes leaf_decodes go_int_def)
  moreover have "validateSemanticDefinition (fp_definition (formula_request f)) 1 \<longleftrightarrow>
      event_name_ok (fm_numerator_event f) \<and> event_name_ok (fm_denominator_event f)
      \<and> (case go_int ?m of None \<Rightarrow> False | Some n \<Rightarrow> 0 \<le> n \<and> n \<le> 1000000)"
    using assms unfolding formula_request_def formula_post.simps ratio_valid
    by (auto simp: leaf_valid go_int_def)
  ultimately show ?thesis
    unfolding metric_guards_def formula_acceptable_def using label number
    by (auto simp: formula_request_def split: option.splits)
qed

text \<open>The server accepts a formula exactly when its fields pass; no other guard can stop it.\<close>

theorem formula_accepted_iff:
  assumes "fm_numerator_type f \<in> set FORMULA_TYPES" "fm_denominator_type f \<in> set FORMULA_TYPES"
  shows "metric_guards (formula_request f) = None \<longleftrightarrow> formula_acceptable f"
  using assms by (rule formula_acceptance)

lemma formula_accepted_iff_witness:
  "let f = formula_start\<lparr>fm_name := ''ai_share'', fm_numerator_event := ''ai_prompt'', fm_min := Fin (5 / 2)\<rparr>
   in metric_guards (formula_request f) \<noteq> None
      \<and> metric_guards (formula_request (f\<lparr>fm_min := Fin 3\<rparr>)) = None"
proof -
  let ?f = "formula_start\<lparr>fm_name := ''ai_share'', fm_numerator_event := ''ai_prompt'', fm_min := Fin (5 / 2)\<rparr>"
  let ?g = "?f\<lparr>fm_min := Fin 3\<rparr>"
  have "metric_guards (formula_request ?f) = None \<longleftrightarrow> formula_acceptable ?f"
    "metric_guards (formula_request ?g) = None \<longleftrightarrow> formula_acceptable ?g"
    by (rule formula_accepted_iff; simp add: formula_start_def FORMULA_TYPES_def)+
  moreover have "\<not> formula_acceptable ?f" "formula_acceptable ?g" by code_simp+
  ultimately show ?thesis unfolding Let_def by blast
qed

subsection \<open>Goals, policies, jobs and annotations on the server\<close>

record goal_form =
  gl_name :: string
  gl_metric :: string
  gl_target :: jnum
  gl_comparator :: string
  gl_period :: string
  gl_environment :: string

definition PERIODS :: "string list" where
  "PERIODS = [''day'', ''week'', ''month'', ''quarter'']"

text \<open>\<open>active\<close> are the pairs of a site and one of its active metrics.\<close>

definition goal_guards :: "(string \<times> string) set \<Rightarrow> string \<Rightarrow> goal_form \<Rightarrow> engineering_refusal option" where
  "goal_guards active site g =
     (if \<not> registry_name (gl_metric g) \<or> js_trim (gl_name g) = [] then Some INVALID_GOAL
      else if (site, gl_metric g) \<notin> active then Some INVALID_GOAL
      else if or_str (gl_comparator g) ''gte'' \<notin> {''gte'', ''lte''} then Some INVALID_GOAL
      else if gl_period g \<notin> set PERIODS then Some INVALID_GOAL else None)"

text \<open>A number that is not finite is null on the wire and leaves zero.\<close>

definition go_float :: "val \<Rightarrow> rat option" where
  "go_float v = (case v of VNum (Fin q) \<Rightarrow> Some q | VNum n \<Rightarrow> Some 0 | VNull \<Rightarrow> Some 0 | VUndef \<Rightarrow> Some 0 | _ \<Rightarrow> None)"

definition go_whole :: "val \<Rightarrow> int option" where
  "go_whole v = (case v of VNum n \<Rightarrow> go_int n | VNull \<Rightarrow> Some 0 | VUndef \<Rightarrow> Some 0 | _ \<Rightarrow> None)"

definition policy_guards :: "props \<Rightarrow> engineering_refusal option" where
  "policy_guards p =
     (case (go_whole (getp p ''max_exact_days''), go_whole (getp p ''max_complexity_score''),
            go_whole (getp p ''background_threshold''), go_float (getp p ''fast_sample_percent''),
            go_float (getp p ''preview_sample_percent'')) of
        (Some exact, Some score, Some background, Some fast, Some preview) \<Rightarrow>
          if exact < 1 \<or> exact > 3650 \<or> score < 10 \<or> score > 500 \<or> background < 10 \<or> background > score
            \<or> fast < 1 / 10 \<or> fast > 100 \<or> preview < 1 / 10 \<or> preview > fast
          then Some INVALID_POLICY else None
      | _ \<Rightarrow> Some PAYLOAD_REFUSED)"

record job_form =
  jb_type :: string
  jb_from :: string
  jb_to :: string
  jb_reason :: string
  jb_environment :: string

definition job_guards :: "job_form \<Rightarrow> engineering_refusal option" where
  "job_guards j =
     (if jb_type j \<noteq> ''date_range'' \<and> jb_type j \<noteq> ''full_rebuild'' then Some INVALID_JOB
      else if jb_type j = ''date_range'' then
        (case (go_date (jb_from j), go_date (jb_to j)) of
           (Some a, Some b) \<Rightarrow> if b < a \<or> b - a > 366 then Some INVALID_JOB_RANGE else None
         | _ \<Rightarrow> Some INVALID_JOB_RANGE)
      else None)"

text \<open>
  An annotation; the field of its time holds the minute that the reader's clock shows, or nothing,
  and the request carries an instant in minutes. \<open>GO_ZERO\<close> is the instant \<open>IsZero\<close> asks for, the
  first minute of the year 1.
\<close>

record annotation_form =
  an_kind :: string
  an_title :: string
  an_description :: string
  an_clock :: "int option"
  an_environment :: string

definition ANNOTATION_KINDS :: "string list" where
  "ANNOTATION_KINDS = [''deployment'', ''release'', ''incident'', ''campaign'', ''training'', ''feature_flag'',
     ''organization'', ''manual'']"

definition GO_ZERO :: int where
  "GO_ZERO = - 1035593280"

definition annotation_guards :: "annotation_form \<Rightarrow> int \<Rightarrow> engineering_refusal option" where
  "annotation_guards a instant =
     (if instant = GO_ZERO \<or> js_trim (an_title a) = [] \<or> an_kind a \<notin> set ANNOTATION_KINDS
      then Some INVALID_ANNOTATION else None)"

subsection \<open>The page\<close>

definition PANELS :: "string list" where
  "PANELS = [''metrics'', ''query-cost'', ''aggregate'', ''calendar'', ''catalog'']"

fun position :: "string \<Rightarrow> string list \<Rightarrow> nat option" where
  "position t [] = None"
| "position t (x # xs) = (if x = t then Some 0 else map_option Suc (position t xs))"

text \<open>The panel that the address asks for, and the address that a tab leaves behind.\<close>

definition panel_of :: "string list \<Rightarrow> string option \<Rightarrow> nat" where
  "panel_of names param =
     (case position (case param of None \<Rightarrow> hd names | Some t \<Rightarrow> or_str t (hd names)) names of
        None \<Rightarrow> 0 | Some i \<Rightarrow> i)"

definition select_panel :: "string list \<Rightarrow> nat \<Rightarrow> string option" where
  "select_panel names i = (if i = 0 then None else Some (names ! i))"

lemma position_nth: "distinct xs \<Longrightarrow> i < length xs \<Longrightarrow> position (xs ! i) xs = Some i"
  by (induction xs arbitrary: i) (auto simp: nth_Cons split: nat.split)

lemma panel_roundtrip:
  assumes "distinct names" "[] \<notin> set names" "i < length names"
  shows "panel_of names (select_panel names i) = i"
proof (cases "i = 0")
  case True
  then have "hd names = names ! 0" using assms(3) by (cases names) simp_all
  then show ?thesis using True assms position_nth [of names 0] by (simp add: panel_of_def select_panel_def)
next
  case False
  have "names ! i \<noteq> []" using assms(2,3) nth_mem by fastforce
  then show ?thesis using False assms by (simp add: panel_of_def select_panel_def or_str_def position_nth)
qed

datatype engineering_request =
    PostFormula string formula_post
  | PostGoal string goal_form
  | PutPolicy string props
  | PostJob string job_form
  | PostAnnotation string annotation_form int

record engineering_page =
  en_site :: string
  en_environment :: string
  en_param :: "string option"
  en_metrics :: "(string \<times> string list) list"
  en_policies :: "(string \<times> val) list"
  en_formula :: formula_form
  en_goal :: goal_form
  en_policy :: props
  en_job :: job_form
  en_annotation :: annotation_form
  en_confirm :: bool
  en_formula_saving :: bool
  en_goal_saving :: bool
  en_policy_saving :: bool
  en_job_saving :: bool
  en_annotation_saving :: bool
  en_requests :: "engineering_request list"

text \<open>
  The page opens at the instant \<open>now\<close>: the time field is filled with the first sixteen characters of
  \<open>toISOString()\<close>, the clock of Greenwich. The reason that the job form starts with is a Korean one,
  here in English.
\<close>

definition engineering_start :: "int \<Rightarrow> string \<Rightarrow> string \<Rightarrow> string option \<Rightarrow> engineering_page" where
  "engineering_start now site env param =
     \<lparr>en_site = site, en_environment = env, en_param = param, en_metrics = [], en_policies = [],
      en_formula = formula_start,
      en_goal = \<lparr>gl_name = [], gl_metric = [], gl_target = Fin 0, gl_comparator = ''gte'', gl_period = ''month'',
        gl_environment = env\<rparr>,
      en_policy = defaultQueryPolicyForm,
      en_job = \<lparr>jb_type = ''date_range'', jb_from = [], jb_to = [], jb_reason = ''rebuild'', jb_environment = env\<rparr>,
      en_annotation = \<lparr>an_kind = ''deployment'', an_title = [], an_description = [], an_clock = Some now,
        an_environment = env\<rparr>,
      en_confirm = False, en_formula_saving = False, en_goal_saving = False, en_policy_saving = False,
      en_job_saving = False, en_annotation_saving = False, en_requests = []\<rparr>"

definition engineering_shown :: "engineering_page \<Rightarrow> bool" where
  "engineering_shown s \<longleftrightarrow> map_of (en_metrics s) (en_site s) \<noteq> None \<and> map_of (en_policies s) (en_site s) \<noteq> None"

definition offered_metrics :: "engineering_page \<Rightarrow> string list" where
  "offered_metrics s = (case map_of (en_metrics s) (en_site s) of Some ms \<Rightarrow> ms | None \<Rightarrow> [])"

text \<open>The effect on \<open>policy.data\<close>: it runs when the answer that is shown becomes another one.\<close>

definition read_policy :: "engineering_page \<Rightarrow> engineering_page" where
  "read_policy s =
     (case map_of (en_policies s) (en_site s) of
        None \<Rightarrow> s
      | Some v \<Rightarrow> if truthy v then s\<lparr>en_policy := readQueryPolicy v (en_policy s)\<rparr> else s)"

definition save_formula :: "engineering_page \<Rightarrow> engineering_page" where
  "save_formula s =
     (if fm_name (en_formula s) = [] \<or> en_formula_saving s then s
      else s\<lparr>en_formula_saving := True,
        en_requests := en_requests s @ [PostFormula (en_site s) (formula_request (en_formula s))]\<rparr>)"

definition save_goal :: "engineering_page \<Rightarrow> engineering_page" where
  "save_goal s =
     (if gl_name (en_goal s) = [] \<or> gl_metric (en_goal s) = [] \<or> en_goal_saving s then s
      else s\<lparr>en_goal_saving := True, en_requests := en_requests s @ [PostGoal (en_site s) (en_goal s)]\<rparr>)"

definition save_policy :: "engineering_page \<Rightarrow> engineering_page" where
  "save_policy s =
     (if en_policy_saving s then s
      else s\<lparr>en_policy_saving := True, en_requests := en_requests s @ [PutPolicy (en_site s) (en_policy s)]\<rparr>)"

definition create_job :: "engineering_page \<Rightarrow> engineering_page" where
  "create_job s = s\<lparr>en_job_saving := True, en_requests := en_requests s @ [PostJob (en_site s) (en_job s)]\<rparr>"

text \<open>The button of the jobs, which asks before a full rebuild, and the button of its dialog.\<close>

definition press_job :: "engineering_page \<Rightarrow> engineering_page" where
  "press_job s =
     (if en_job_saving s
        \<or> jb_type (en_job s) = ''date_range'' \<and> (jb_from (en_job s) = [] \<or> jb_to (en_job s) = []) then s
      else if jb_type (en_job s) = ''full_rebuild'' then s\<lparr>en_confirm := True\<rparr>
      else create_job s)"

definition confirm_job :: "engineering_page \<Rightarrow> engineering_page" where
  "confirm_job s = (if \<not> en_confirm s \<or> en_job_saving s then s else create_job s)"

text \<open>
  \<open>instant\<close> is the instant of a minute on the reader's clock; an empty field is no date, whose text
  throws before anything is sent.
\<close>

definition save_annotation :: "(int \<Rightarrow> int) \<Rightarrow> engineering_page \<Rightarrow> engineering_page" where
  "save_annotation instant s =
     (if an_title (en_annotation s) = [] \<or> en_annotation_saving s then s
      else case an_clock (en_annotation s) of
        None \<Rightarrow> s
      | Some m \<Rightarrow>
          s\<lparr>en_annotation_saving := True, en_requests := en_requests s @
            [PostAnnotation (en_site s) (en_annotation s) (instant m)]\<rparr>)"

datatype formula_edit =
    FormulaName string | FormulaLabel string | FormulaOwner string | NumeratorType string
  | NumeratorEvent string | MinOccurrences string | DenominatorType string | DenominatorEvent string

fun edit_formula :: "formula_edit \<Rightarrow> formula_form \<Rightarrow> formula_form" where
  "edit_formula (FormulaName t) f = f\<lparr>fm_name := t\<rparr>"
| "edit_formula (FormulaLabel t) f = f\<lparr>fm_label := t\<rparr>"
| "edit_formula (FormulaOwner t) f = f\<lparr>fm_owner := t\<rparr>"
| "edit_formula (NumeratorType t) f = (if t \<in> set FORMULA_TYPES then f\<lparr>fm_numerator_type := t\<rparr> else f)"
| "edit_formula (NumeratorEvent t) f = f\<lparr>fm_numerator_event := t\<rparr>"
| "edit_formula (MinOccurrences t) f = f\<lparr>fm_min := js_number t\<rparr>"
| "edit_formula (DenominatorType t) f = (if t \<in> set FORMULA_TYPES then f\<lparr>fm_denominator_type := t\<rparr> else f)"
| "edit_formula (DenominatorEvent t) f = f\<lparr>fm_denominator_event := t\<rparr>"

datatype goal_edit = GoalName string | GoalMetric string | GoalTarget string | GoalComparator string | GoalPeriod string

fun edit_goal :: "string list \<Rightarrow> goal_edit \<Rightarrow> goal_form \<Rightarrow> goal_form" where
  "edit_goal offered (GoalName t) g = g\<lparr>gl_name := t\<rparr>"
| "edit_goal offered (GoalMetric t) g = (if t \<in> set offered then g\<lparr>gl_metric := t\<rparr> else g)"
| "edit_goal offered (GoalTarget t) g = g\<lparr>gl_target := js_number t\<rparr>"
| "edit_goal offered (GoalComparator t) g = (if t \<in> {''gte'', ''lte''} then g\<lparr>gl_comparator := t\<rparr> else g)"
| "edit_goal offered (GoalPeriod t) g = (if t \<in> set PERIODS then g\<lparr>gl_period := t\<rparr> else g)"

datatype job_edit = JobType string | JobFrom string | JobTo string | JobReason string

fun edit_job :: "job_edit \<Rightarrow> job_form \<Rightarrow> job_form" where
  "edit_job (JobType t) j = (if t \<in> {''date_range'', ''full_rebuild''} then j\<lparr>jb_type := t\<rparr> else j)"
| "edit_job (JobFrom t) j = (if jb_type j = ''full_rebuild'' then j else j\<lparr>jb_from := t\<rparr>)"
| "edit_job (JobTo t) j = (if jb_type j = ''full_rebuild'' then j else j\<lparr>jb_to := t\<rparr>)"
| "edit_job (JobReason t) j = j\<lparr>jb_reason := t\<rparr>"

datatype annotation_edit =
    AnnotationKind string | AnnotationTime "int option" | AnnotationTitle string | AnnotationText string

fun edit_annotation :: "annotation_edit \<Rightarrow> annotation_form \<Rightarrow> annotation_form" where
  "edit_annotation (AnnotationKind t) a = (if t \<in> set ANNOTATION_KINDS then a\<lparr>an_kind := t\<rparr> else a)"
| "edit_annotation (AnnotationTime m) a = a\<lparr>an_clock := m\<rparr>"
| "edit_annotation (AnnotationTitle t) a = a\<lparr>an_title := t\<rparr>"
| "edit_annotation (AnnotationText t) a = a\<lparr>an_description := t\<rparr>"

datatype engineering_event =
    MetricsArrived string "string list"
  | PolicyArrived string val
  | EngineeringSite string
  | EngineeringEnvironment string
  | EngineeringAddress "string option"
  | SelectTab nat
  | EditFormula formula_edit | SaveFormula | FormulaSaved bool
  | EditGoal goal_edit | SaveGoal | GoalSaved bool
  | EditPolicy string string | SavePolicy | PolicySaved bool
  | EditJob job_edit | PressJob | CancelJob | ConfirmJob | JobCreated bool
  | EditAnnotation annotation_edit | SaveAnnotation | AnnotationSaved bool

text \<open>What a reader does on the panel that is shown.\<close>

fun panel_input :: "(int \<Rightarrow> int) \<Rightarrow> nat \<Rightarrow> engineering_event \<Rightarrow> engineering_page \<Rightarrow> engineering_page" where
  "panel_input instant panel (SelectTab i) s =
     (if i < length PANELS then s\<lparr>en_param := select_panel PANELS i\<rparr> else s)"
| "panel_input instant panel (EditFormula e) s =
     (if panel = 0 then s\<lparr>en_formula := edit_formula e (en_formula s)\<rparr> else s)"
| "panel_input instant panel SaveFormula s = (if panel = 0 then save_formula s else s)"
| "panel_input instant panel (EditGoal e) s =
     (if panel = 0 then s\<lparr>en_goal := edit_goal (offered_metrics s) e (en_goal s)\<rparr> else s)"
| "panel_input instant panel SaveGoal s = (if panel = 0 then save_goal s else s)"
| "panel_input instant panel (EditPolicy k t) s =
     (if panel = 1 \<and> k \<in> set queryPolicyFields then s\<lparr>en_policy := setp k (VNum (js_number t)) (en_policy s)\<rparr> else s)"
| "panel_input instant panel SavePolicy s = (if panel = 1 then save_policy s else s)"
| "panel_input instant panel (EditJob e) s =
     (if panel = 2 then s\<lparr>en_job := edit_job e (en_job s)\<rparr> else s)"
| "panel_input instant panel PressJob s = (if panel = 2 then press_job s else s)"
| "panel_input instant panel (EditAnnotation e) s =
     (if panel = 3 then s\<lparr>en_annotation := edit_annotation e (en_annotation s)\<rparr> else s)"
| "panel_input instant panel SaveAnnotation s = (if panel = 3 then save_annotation instant s else s)"
| "panel_input instant panel _ s = s"

text \<open>The dialog covers the page, and without the lists of the site neither is there.\<close>

fun engineering_step :: "(int \<Rightarrow> int) \<Rightarrow> engineering_event \<Rightarrow> engineering_page \<Rightarrow> engineering_page" where
  "engineering_step instant (MetricsArrived site ms) s = s\<lparr>en_metrics := AList.update site ms (en_metrics s)\<rparr>"
| "engineering_step instant (PolicyArrived site v) s =
     (if map_of (en_policies s) site = Some v then s
      else let t = s\<lparr>en_policies := AList.update site v (en_policies s)\<rparr> in
        if site = en_site s then read_policy t else t)"
| "engineering_step instant (EngineeringSite site) s =
     (if site = en_site s then s else read_policy (s\<lparr>en_site := site\<rparr>))"
| "engineering_step instant (EngineeringEnvironment env) s =
     (if env = en_environment s then s
      else s\<lparr>en_environment := env, en_goal := (en_goal s)\<lparr>gl_environment := env\<rparr>,
        en_job := (en_job s)\<lparr>jb_environment := env\<rparr>,
        en_annotation := (en_annotation s)\<lparr>an_environment := env\<rparr>\<rparr>)"
| "engineering_step instant (EngineeringAddress param) s = s\<lparr>en_param := param\<rparr>"
| "engineering_step instant (FormulaSaved ok) s =
     (let t = s\<lparr>en_formula_saving := False\<rparr> in
      if ok then t\<lparr>en_formula := (en_formula t)\<lparr>fm_name := [], fm_label := []\<rparr>\<rparr> else t)"
| "engineering_step instant (GoalSaved ok) s =
     (let t = s\<lparr>en_goal_saving := False\<rparr> in if ok then t\<lparr>en_goal := (en_goal t)\<lparr>gl_name := []\<rparr>\<rparr> else t)"
| "engineering_step instant (PolicySaved ok) s = s\<lparr>en_policy_saving := False\<rparr>"
| "engineering_step instant (JobCreated ok) s =
     (let t = s\<lparr>en_job_saving := False\<rparr> in if ok then t\<lparr>en_confirm := False\<rparr> else t)"
| "engineering_step instant (AnnotationSaved ok) s =
     (let t = s\<lparr>en_annotation_saving := False\<rparr> in
      if ok then t\<lparr>en_annotation := (en_annotation t)\<lparr>an_title := [], an_description := []\<rparr>\<rparr> else t)"
| "engineering_step instant CancelJob s = (if engineering_shown s then s\<lparr>en_confirm := False\<rparr> else s)"
| "engineering_step instant ConfirmJob s = (if engineering_shown s then confirm_job s else s)"
| "engineering_step instant e s =
     (if engineering_shown s \<and> \<not> en_confirm s then panel_input instant (panel_of PANELS (en_param s)) e s else s)"

subsection \<open>A full rebuild is confirmed\<close>

definition is_rebuild :: "engineering_request \<Rightarrow> bool" where
  "is_rebuild q = (case q of PostJob site j \<Rightarrow> jb_type j = ''full_rebuild'' | _ \<Rightarrow> False)"

definition rebuilds :: "engineering_page \<Rightarrow> nat" where
  "rebuilds s = length (filter is_rebuild (en_requests s))"

lemma rebuilds_create: "rebuilds (create_job s) = rebuilds s + (if jb_type (en_job s) = ''full_rebuild'' then 1 else 0)"
  by (simp add: rebuilds_def create_job_def is_rebuild_def)

lemma rebuilds_press [simp]: "rebuilds (press_job s) = rebuilds s"
  by (simp add: press_job_def rebuilds_create) (simp add: rebuilds_def)

lemma rebuilds_confirm: "rebuilds (confirm_job s) \<le> Suc (rebuilds s)"
  by (simp add: confirm_job_def rebuilds_create)

lemma rebuilds_input [simp]: "rebuilds (panel_input instant panel e s) = rebuilds s"
proof (cases e)
  case PressJob
  then show ?thesis by simp
qed (simp_all add: rebuilds_def save_formula_def save_goal_def save_policy_def save_annotation_def is_rebuild_def
  split: option.split)

lemma rebuilds_read [simp]: "rebuilds (read_policy s) = rebuilds s"
  by (simp add: rebuilds_def read_policy_def split: option.split)

lemma rebuilds_step:
  "rebuilds (engineering_step instant e s) \<le> rebuilds s + (if e = ConfirmJob then 1 else 0)"
proof (cases e)
  case ConfirmJob
  then show ?thesis using rebuilds_confirm [of s] by simp
next
  case (PolicyArrived site v)
  have "rebuilds (s\<lparr>en_policies := x\<rparr>) = rebuilds s" for x by (simp add: rebuilds_def)
  then show ?thesis using PolicyArrived by (simp add: Let_def)
next
  case (EngineeringSite site)
  have "rebuilds (s\<lparr>en_site := x\<rparr>) = rebuilds s" for x by (simp add: rebuilds_def)
  then show ?thesis using EngineeringSite by simp
qed (auto simp: Let_def simp del: panel_input.simps, auto simp: rebuilds_def)

text \<open>
  C11: However the page is used, the whole history of a site is aggregated anew at most as often as its
  dialog was confirmed.
\<close>

theorem rebuild_is_confirmed:
  "rebuilds (fold (engineering_step instant) es (engineering_start now site env param))
     \<le> count_list es ConfirmJob"
proof -
  have "rebuilds (fold (engineering_step instant) es s) \<le> rebuilds s + count_list es ConfirmJob" for s
  proof (induction es arbitrary: s)
    case (Cons e es)
    have "rebuilds (fold (engineering_step instant) es (engineering_step instant e s))
        \<le> rebuilds (engineering_step instant e s) + count_list es ConfirmJob"
      by (rule Cons.IH)
    also have "\<dots> \<le> rebuilds s + count_list (e # es) ConfirmJob"
      using rebuilds_step [of instant e s] by (simp del: engineering_step.simps split: if_splits)
    finally show ?case by simp
  qed simp
  from this [of "engineering_start now site env param"] show ?thesis
    by (simp add: rebuilds_def engineering_start_def)
qed

subsection \<open>What the page sends\<close>

text \<open>\<open>M\<close> holds the names of metrics that the server listed, by site.\<close>

definition metrics_listed :: "(string \<times> string list) set \<Rightarrow> engineering_event \<Rightarrow> bool" where
  "metrics_listed M e = (case e of MetricsArrived site ms \<Rightarrow> (site, ms) \<in> M | _ \<Rightarrow> True)"

definition formula_ok :: "formula_form \<Rightarrow> bool" where
  "formula_ok f \<longleftrightarrow> fm_numerator_type f \<in> set FORMULA_TYPES \<and> fm_denominator_type f \<in> set FORMULA_TYPES"

definition goal_ok :: "(string \<times> string list) set \<Rightarrow> goal_form \<Rightarrow> bool" where
  "goal_ok M g \<longleftrightarrow> (gl_metric g = [] \<or> (\<exists>(site, ms) \<in> M. gl_metric g \<in> set ms))
     \<and> gl_comparator g \<in> {''gte'', ''lte''} \<and> gl_period g \<in> set PERIODS"

definition job_ok :: "job_form \<Rightarrow> bool" where
  "job_ok j \<longleftrightarrow> jb_type j \<in> {''date_range'', ''full_rebuild''}"

fun engineering_request_ok :: "(string \<times> string list) set \<Rightarrow> engineering_request \<Rightarrow> bool" where
  "engineering_request_ok M (PostFormula site m) \<longleftrightarrow> (\<exists>f. formula_ok f \<and> m = formula_request f)"
| "engineering_request_ok M (PostGoal site g) \<longleftrightarrow> goal_ok M g \<and> gl_metric g \<noteq> []"
| "engineering_request_ok M (PutPolicy site p) \<longleftrightarrow> map fst p = queryPolicyFields"
| "engineering_request_ok M (PostJob site j) \<longleftrightarrow> job_ok j"
| "engineering_request_ok M (PostAnnotation site a i) \<longleftrightarrow> an_kind a \<in> set ANNOTATION_KINDS"

definition engineering_ok :: "(string \<times> string list) set \<Rightarrow> engineering_page \<Rightarrow> bool" where
  "engineering_ok M s \<longleftrightarrow> set (en_metrics s) \<subseteq> M \<and> formula_ok (en_formula s) \<and> goal_ok M (en_goal s)
     \<and> map fst (en_policy s) = queryPolicyFields \<and> job_ok (en_job s)
     \<and> an_kind (en_annotation s) \<in> set ANNOTATION_KINDS
     \<and> list_all (engineering_request_ok M) (en_requests s)"

lemma engineering_okI:
  assumes "engineering_ok M s" "en_metrics t = en_metrics s" "formula_ok (en_formula t)" "goal_ok M (en_goal t)"
    "map fst (en_policy t) = queryPolicyFields" "job_ok (en_job t)" "an_kind (en_annotation t) \<in> set ANNOTATION_KINDS"
    "list_all (engineering_request_ok M) (en_requests t)"
  shows "engineering_ok M t"
  using assms by (simp add: engineering_ok_def)

lemma edit_formula_ok: "formula_ok f \<Longrightarrow> formula_ok (edit_formula e f)"
  by (cases e) (simp_all add: formula_ok_def)

lemma edit_goal_ok:
  "goal_ok M g \<Longrightarrow> (\<And>t. t \<in> set offered \<Longrightarrow> \<exists>(site, ms) \<in> M. t \<in> set ms) \<Longrightarrow> goal_ok M (edit_goal offered e g)"
  by (cases e) (simp_all add: goal_ok_def)

lemma edit_job_ok: "job_ok j \<Longrightarrow> job_ok (edit_job e j)"
  by (cases e) (auto simp: job_ok_def)

lemma edit_annotation_ok: "an_kind a \<in> set ANNOTATION_KINDS \<Longrightarrow> an_kind (edit_annotation e a) \<in> set ANNOTATION_KINDS"
  by (cases e) simp_all

lemma offered_listed:
  assumes "engineering_ok M s" "t \<in> set (offered_metrics s)"
  shows "\<exists>(site, ms) \<in> M. t \<in> set ms"
proof -
  obtain ms where ms: "map_of (en_metrics s) (en_site s) = Some ms" "t \<in> set ms"
    using assms(2) by (cases "map_of (en_metrics s) (en_site s)") (simp_all add: offered_metrics_def)
  then show ?thesis using map_of_SomeD [OF ms(1)] assms(1) unfolding engineering_ok_def by blast
qed

lemma keys_of_fields: "map fst p = queryPolicyFields \<Longrightarrow> k \<in> set queryPolicyFields \<Longrightarrow> map fst (setp k v p) = queryPolicyFields"
  using keys_setp_known [of k p v] by simp

lemma fold_take_keys:
  "map fst p = queryPolicyFields \<Longrightarrow> set fs \<subseteq> set queryPolicyFields \<Longrightarrow> map fst (fold (take_field src) fs p) = queryPolicyFields"
  by (induction fs arbitrary: p) (auto simp: take_field_def Let_def keys_of_fields)

lemma read_policy_ok: "engineering_ok M s \<Longrightarrow> engineering_ok M (read_policy s)"
  using fold_take_keys [of "en_policy s" queryPolicyFields]
  by (auto simp: engineering_ok_def read_policy_def readQueryPolicy_def Let_def split: option.split)

lemma form_updates_ok:
  "engineering_ok M s \<Longrightarrow> formula_ok f \<Longrightarrow> engineering_ok M (s\<lparr>en_formula := f\<rparr>)"
  "engineering_ok M s \<Longrightarrow> goal_ok M g \<Longrightarrow> engineering_ok M (s\<lparr>en_goal := g\<rparr>)"
  "engineering_ok M s \<Longrightarrow> job_ok j \<Longrightarrow> engineering_ok M (s\<lparr>en_job := j\<rparr>)"
  "engineering_ok M s \<Longrightarrow> an_kind a \<in> set ANNOTATION_KINDS \<Longrightarrow> engineering_ok M (s\<lparr>en_annotation := a\<rparr>)"
  "engineering_ok M s \<Longrightarrow> map fst p = queryPolicyFields \<Longrightarrow> engineering_ok M (s\<lparr>en_policy := p\<rparr>)"
  by (simp_all add: engineering_ok_def)

lemma engineering_okD:
  assumes "engineering_ok M s"
  shows "formula_ok (en_formula s)" "goal_ok M (en_goal s)" "job_ok (en_job s)"
    "an_kind (en_annotation s) \<in> set ANNOTATION_KINDS" "map fst (en_policy s) = queryPolicyFields"
  using assms by (simp_all add: engineering_ok_def)

lemma saves_ok:
  assumes "engineering_ok M s"
  shows "engineering_ok M (save_formula s)" "engineering_ok M (save_goal s)" "engineering_ok M (save_policy s)"
    "engineering_ok M (press_job s)" "engineering_ok M (confirm_job s)" "engineering_ok M (save_annotation instant s)"
  using assms
  by (auto simp: engineering_ok_def save_formula_def save_goal_def save_policy_def press_job_def confirm_job_def
      create_job_def save_annotation_def split: option.split)

lemma panel_input_ok:
  assumes "engineering_ok M s"
  shows "engineering_ok M (panel_input instant panel e s)"
proof (cases e)
  case (EditGoal e)
  have "goal_ok M (edit_goal (offered_metrics s) e (en_goal s))"
    using engineering_okD(2) [OF assms] offered_listed [OF assms] by (rule edit_goal_ok)
  then show ?thesis using EditGoal assms by (simp add: form_updates_ok)
next
  case (EditFormula e)
  then show ?thesis using assms by (simp add: form_updates_ok edit_formula_ok engineering_okD)
next
  case (EditJob e)
  then show ?thesis using assms by (simp add: form_updates_ok edit_job_ok engineering_okD)
next
  case (EditAnnotation e)
  then show ?thesis using assms by (simp add: form_updates_ok edit_annotation_ok engineering_okD)
next
  case (EditPolicy k t)
  then show ?thesis using assms by (simp add: form_updates_ok keys_of_fields engineering_okD)
next
  case (SelectTab i)
  then show ?thesis using assms by (simp add: engineering_ok_def)
qed (use assms in \<open>simp_all add: saves_ok\<close>)

lemma engineering_step_ok:
  assumes "engineering_ok M s" "metrics_listed M e"
  shows "engineering_ok M (engineering_step instant e s)"
proof (cases e)
  case (MetricsArrived site ms)
  then show ?thesis using assms alist_update_subset [of site ms "en_metrics s"]
    by (auto simp: engineering_ok_def metrics_listed_def)
next
  case (PolicyArrived site v)
  have "engineering_ok M (s\<lparr>en_policies := x\<rparr>)" for x using assms(1) by (simp add: engineering_ok_def)
  then show ?thesis using PolicyArrived assms(1) by (simp add: Let_def read_policy_ok)
next
  case (EngineeringSite site)
  have "engineering_ok M (s\<lparr>en_site := site\<rparr>)" using assms(1) by (simp add: engineering_ok_def)
  then show ?thesis using EngineeringSite assms(1) by (simp add: read_policy_ok)
next
  case (EngineeringEnvironment env)
  then show ?thesis using assms(1) by (simp add: engineering_ok_def goal_ok_def job_ok_def)
next
  case (EngineeringAddress param)
  then show ?thesis using assms(1) by (simp add: engineering_ok_def)
next
  case (FormulaSaved ok)
  then show ?thesis using assms(1) by (simp add: Let_def engineering_ok_def formula_ok_def)
next
  case (GoalSaved ok)
  then show ?thesis using assms(1) by (simp add: Let_def engineering_ok_def goal_ok_def)
next
  case (PolicySaved ok)
  then show ?thesis using assms(1) by (simp add: engineering_ok_def)
next
  case (JobCreated ok)
  then show ?thesis using assms(1) by (simp add: Let_def engineering_ok_def)
next
  case (AnnotationSaved ok)
  then show ?thesis using assms(1) by (simp add: Let_def engineering_ok_def)
next
  case CancelJob
  then show ?thesis using assms(1) by (simp add: engineering_ok_def)
next
  case ConfirmJob
  then show ?thesis using assms(1) by (simp add: saves_ok)
qed (use assms(1) in \<open>simp_all add: panel_input_ok del: panel_input.simps\<close>)

lemma engineering_run_ok:
  "engineering_ok M s \<Longrightarrow> list_all (metrics_listed M) es \<Longrightarrow> engineering_ok M (fold (engineering_step instant) es s)"
  by (induction es arbitrary: s) (simp_all add: engineering_step_ok)

lemma engineering_start_ok: "engineering_ok M (engineering_start now site env param)"
  by (simp add: engineering_ok_def engineering_start_def formula_ok_def formula_start_def FORMULA_TYPES_def
      goal_ok_def PERIODS_def job_ok_def ANNOTATION_KINDS_def defaultQueryPolicyForm_def queryPolicyFields_def)

text \<open>
  Whatever is typed: a goal is refused only for a blank name or a metric that is not active, a job
  only for its dates, an annotation only for a blank title (or the first minute of the year 1), and
  a policy always has its five fields.
\<close>

theorem engineering_posts_accepted:
  assumes "\<forall>(site, ms) \<in> M. list_all registry_name ms" "list_all (metrics_listed M) es"
    and "s = fold (engineering_step instant) es (engineering_start now site env param)"
    and "q \<in> set (en_requests s)"
  shows "case q of
      PostFormula at_site m \<Rightarrow> \<exists>f. m = formula_request f \<and> (metric_guards m = None \<longleftrightarrow> formula_acceptable f)
    | PostGoal at_site g \<Rightarrow> goal_guards active at_site g =
        (if js_trim (gl_name g) = [] \<or> (at_site, gl_metric g) \<notin> active then Some INVALID_GOAL else None)
    | PutPolicy at_site p \<Rightarrow> map fst p = queryPolicyFields
    | PostJob at_site j \<Rightarrow> job_guards j \<in> {None, Some INVALID_JOB_RANGE}
        \<and> (jb_type j = ''full_rebuild'' \<longrightarrow> job_guards j = None)
    | PostAnnotation at_site a i \<Rightarrow> annotation_guards a i =
        (if i = GO_ZERO \<or> js_trim (an_title a) = [] then Some INVALID_ANNOTATION else None)"
proof -
  have "engineering_ok M s"
    unfolding assms(3) by (rule engineering_run_ok [OF engineering_start_ok assms(2)])
  then have ok: "engineering_request_ok M q" using assms(4) by (simp add: engineering_ok_def list_all_iff)
  show ?thesis
  proof (cases q)
    case (PostFormula at_site m)
    then obtain f where "formula_ok f" "m = formula_request f" using ok by auto
    then show ?thesis using PostFormula formula_acceptance [of f] by (auto simp: formula_ok_def)
  next
    case (PostGoal at_site g)
    then have "registry_name (gl_metric g)" using ok assms(1) by (auto simp: goal_ok_def list_all_iff)
    then show ?thesis using PostGoal ok by (auto simp: goal_guards_def goal_ok_def or_str_def)
  next
    case (PutPolicy at_site p)
    then show ?thesis using ok by simp
  next
    case (PostJob at_site j)
    then show ?thesis using ok by (auto simp: job_guards_def job_ok_def split: option.split)
  next
    case (PostAnnotation at_site a i)
    then show ?thesis using ok by (simp add: annotation_guards_def)
  qed
qed

definition engineering_ready :: "string \<Rightarrow> engineering_event list" where
  "engineering_ready site =
     [MetricsArrived site [''ai_share''], PolicyArrived site (VObj [(''max_exact_days'', vint 30)])]"

lemma engineering_posts_accepted_witness:
  "let g = \<lparr>gl_name = ''more'', gl_metric = ''ai_share'', gl_target = Fin 40, gl_comparator = ''gte'',
         gl_period = ''month'', gl_environment = ''prd''\<rparr>;
       s = fold (engineering_step (\<lambda>m. m - 540))
         (engineering_ready ''s1'' @ [EditGoal (GoalName ''more''), SaveGoal, EditGoal (GoalMetric ''ai_share''),
            EditGoal (GoalTarget ''40''), SaveGoal]) (engineering_start 0 ''s1'' ''prd'' None)
   in en_requests s = [PostGoal ''s1'' g] \<and> goal_guards {(''s1'', ''ai_share'')} ''s1'' g = None
      \<and> goal_guards {} ''s1'' g = Some INVALID_GOAL"
proof -
  let ?g = "\<lparr>gl_name = ''more'', gl_metric = ''ai_share'', gl_target = Fin 40, gl_comparator = ''gte'',
    gl_period = ''month'', gl_environment = ''prd''\<rparr>"
  let ?es = "engineering_ready ''s1'' @ [EditGoal (GoalName ''more''), SaveGoal, EditGoal (GoalMetric ''ai_share''),
    EditGoal (GoalTarget ''40''), SaveGoal]"
  let ?s = "fold (engineering_step (\<lambda>m. m - 540)) ?es (engineering_start 0 ''s1'' ''prd'' None)"
  have posted: "en_requests ?s = [PostGoal ''s1'' ?g]" by code_simp
  have member: "PostGoal ''s1'' ?g \<in> set (en_requests ?s)" unfolding posted by simp
  have names: "\<forall>(site, ms) \<in> {(''s1'', [''ai_share''])}. list_all registry_name ms"
    by (simp add: registry_name_def char_simps)
  have listed: "list_all (metrics_listed {(''s1'', [''ai_share''])}) ?es"
    by (simp add: engineering_ready_def metrics_listed_def)
  note accepted = engineering_posts_accepted [OF names listed refl member]
  have name: "js_trim ''more'' \<noteq> []" by code_simp
  have "goal_guards A ''s1'' ?g = (if (''s1'', ''ai_share'') \<notin> A then Some INVALID_GOAL else None)" for A
    using accepted [of A] name by (simp del: fold.simps)
  then show ?thesis unfolding Let_def posted by simp
qed

text \<open>
  The time of an annotation starts as the clock of Greenwich and is read as the reader's: where that
  is nine hours ahead, what is recorded at once lies nine hours in the past.
\<close>

lemma annotation_hours_off:
  "map (\<lambda>q. case q of PostAnnotation site a i \<Rightarrow> i | _ \<Rightarrow> now)
     (en_requests (fold (engineering_step (\<lambda>m. m - 540))
       (engineering_ready ''s1'' @ [SelectTab 3, EditAnnotation (AnnotationTitle ''v2''), SaveAnnotation])
       (engineering_start now ''s1'' ''prd'' None))) = [now - 540]"
  by code_simp

text \<open>The metric chosen for a goal survives a change of the site, which need not have it.\<close>

lemma goal_of_other_site:
  "map (\<lambda>q. case q of PostGoal site g \<Rightarrow> (site, gl_metric g) | _ \<Rightarrow> ([], []))
     (en_requests (fold (engineering_step (\<lambda>m. m))
       (engineering_ready ''s1'' @ [EditGoal (GoalName ''more''), EditGoal (GoalMetric ''ai_share''),
          EngineeringSite ''s2'', MetricsArrived ''s2'' [''orders''], PolicyArrived ''s2'' (VObj []), SaveGoal])
       (engineering_start 0 ''s1'' ''prd'' None))) = [(''s2'', ''ai_share'')]"
  by code_simp

end
