(* ===== verification/PrivacyDesk.thy ===== *)
theory PrivacyDesk
  imports Policies
begin

section \<open>Privacy requests, from the form to the events\<close>

text \<open>
  \<open>PrivacyRequests\<close> of \<open>web/src/pages/EnterpriseAdminPage.tsx\<close>, beside \<open>createPrivacyRequest\<close>,
  \<open>decidePrivacyRequest\<close>, \<open>executePrivacyRequest\<close> and \<open>privacyRequestWhere\<close> of
  \<open>internal/httpapi/enterprise_governance.go\<close>.
\<close>

subsection \<open>Requests and events on the server\<close>

text \<open>
  The raw events of all sites and the requests. An approval is a transaction: it marks the request,
  deletes the events and completes the request, or none of it. The visitors that a user was seen as
  (\<open>visitor_identities\<close>) and the instant at which a day of a site begins (its time zone) are
  parameters. The queued copies of events, the derived tables and the file of an export are left
  out, as is the type \<open>property_delete\<close>, which no route creates.
\<close>

record privacy_form =
  pf_type :: string
  pf_identity :: string
  pf_value :: string
  pf_from :: string
  pf_to :: string
  pf_reason :: string

record privacy_row =
  pr_id :: string
  pr_site :: string
  pr_type :: string
  pr_identity :: string
  pr_value :: string
  pr_period :: "(int \<times> int) option"
  pr_status :: string

record raw_event =
  re_site :: string
  re_visitor :: string
  re_user :: string
  re_time :: int

record privacy_store =
  ps_rows :: "privacy_row list"
  ps_events :: "raw_event list"
  ps_executed :: "string list"

datatype privacy_refusal =
    INVALID_REQUEST | INVALID_RANGE | INVALID_IDENTITY | REQUEST_CREATE_FAILED
  | INVALID_DECISION | REQUEST_NOT_PENDING | PRIVACY_REQUEST_FAILED

definition REQUEST_TYPES :: "string list" where
  "REQUEST_TYPES = [''delete'', ''export'']"

definition IDENTITY_TYPES :: "string list" where
  "IDENTITY_TYPES = [''user_id'', ''visitor_id'', ''period'']"

definition request_period :: "privacy_form \<Rightarrow> (int \<times> int) option" where
  "request_period f =
     (case (go_date (pf_from f), go_date (pf_to f)) of
        (Some a, Some b) \<Rightarrow> if b < a then None else Some (a, b)
      | _ \<Rightarrow> None)"

definition privacy_guards :: "privacy_form \<Rightarrow> privacy_refusal option" where
  "privacy_guards f =
     (if pf_type f \<notin> set REQUEST_TYPES \<or> pf_identity f \<notin> set IDENTITY_TYPES then Some INVALID_REQUEST
      else if pf_identity f = ''period'' then (if request_period f = None then Some INVALID_RANGE else None)
      else if js_trim (pf_value f) = [] then Some INVALID_IDENTITY else None)"

text \<open>The id is drawn by the database and a primary key.\<close>

definition createPrivacyRequest ::
  "string \<Rightarrow> string \<Rightarrow> privacy_form \<Rightarrow> privacy_store \<Rightarrow> privacy_refusal + privacy_store"
where
  "createPrivacyRequest i site f st =
     (case privacy_guards f of
        Some why \<Rightarrow> Inl why
      | None \<Rightarrow>
          if i \<in> pr_id ` set (ps_rows st) then Inl REQUEST_CREATE_FAILED
          else Inr (st\<lparr>ps_rows := ps_rows st @
            [\<lparr>pr_id = i, pr_site = site, pr_type = pf_type f, pr_identity = pf_identity f, pr_value = pf_value f,
              pr_period = (if pf_identity f = ''period'' then request_period f else None),
              pr_status = ''pending''\<rparr>]\<rparr>))"

text \<open>\<open>privacyRequestWhere\<close>\<close>

definition concerns :: "(string \<Rightarrow> string \<Rightarrow> string list) \<Rightarrow> (string \<Rightarrow> int \<Rightarrow> int) \<Rightarrow> privacy_row \<Rightarrow> raw_event \<Rightarrow> bool" where
  "concerns linked day_start r ev \<longleftrightarrow> re_site ev = pr_site r
     \<and> (if pr_identity r = ''visitor_id'' then re_visitor ev = pr_value r
        else if pr_identity r = ''user_id''
        then re_user ev = pr_value r \<or> re_visitor ev \<in> set (linked (pr_site r) (pr_value r))
        else (case pr_period r of
                None \<Rightarrow> False
              | Some (a, b) \<Rightarrow> day_start (pr_site r) a \<le> re_time ev \<and> re_time ev < day_start (pr_site r) (b + 1)))"

definition set_status :: "string \<Rightarrow> string \<Rightarrow> privacy_row list \<Rightarrow> privacy_row list" where
  "set_status i status rows = map (\<lambda>r. if pr_id r = i then r\<lparr>pr_status := status\<rparr> else r) rows"

text \<open>The row that a statement with \<open>id=$1 AND site_id=$2 AND status='pending'\<close> touches.\<close>

definition pending_row :: "string \<Rightarrow> string \<Rightarrow> privacy_store \<Rightarrow> privacy_row option" where
  "pending_row site i st =
     find (\<lambda>r. pr_id r = i \<and> pr_site r = site \<and> pr_status r = ''pending'') (ps_rows st)"

definition executePrivacyRequest ::
  "(string \<Rightarrow> string \<Rightarrow> string list) \<Rightarrow> (string \<Rightarrow> int \<Rightarrow> int) \<Rightarrow> string \<Rightarrow> string \<Rightarrow> bool \<Rightarrow> privacy_store
     \<Rightarrow> privacy_store option"
where
  "executePrivacyRequest linked day_start site i works st =
     (case pending_row site i st of
        None \<Rightarrow> None
      | Some r \<Rightarrow>
          if \<not> works then None
          else Some (st\<lparr>ps_rows := set_status i ''completed'' (ps_rows st),
            ps_events := (if pr_type r = ''export'' then ps_events st
              else filter (\<lambda>ev. \<not> concerns linked day_start r ev) (ps_events st)),
            ps_executed := ps_executed st @ [i]\<rparr>))"

text \<open>\<open>works\<close> says whether the database carries the statements of an approval out.\<close>

definition decidePrivacyRequest ::
  "(string \<Rightarrow> string \<Rightarrow> string list) \<Rightarrow> (string \<Rightarrow> int \<Rightarrow> int) \<Rightarrow> string \<Rightarrow> string \<Rightarrow> string \<Rightarrow> bool \<Rightarrow> privacy_store
     \<Rightarrow> privacy_refusal + privacy_store"
where
  "decidePrivacyRequest linked day_start site i decision works st =
     (if decision \<notin> {''approve'', ''reject''} then Inl INVALID_DECISION
      else if decision = ''reject'' then
        (case pending_row site i st of
           None \<Rightarrow> Inl REQUEST_NOT_PENDING
         | Some r \<Rightarrow> Inr (st\<lparr>ps_rows := set_status i ''rejected'' (ps_rows st)\<rparr>))
      else (case executePrivacyRequest linked day_start site i works st of
              None \<Rightarrow> Inl PRIVACY_REQUEST_FAILED
            | Some st' \<Rightarrow> Inr st'))"

datatype privacy_write =
    CreateRequest string string privacy_form
  | DecideRequest string string string bool

definition served ::
  "(string \<Rightarrow> string \<Rightarrow> string list) \<Rightarrow> (string \<Rightarrow> int \<Rightarrow> int) \<Rightarrow> privacy_write \<Rightarrow> privacy_store \<Rightarrow> privacy_store"
where
  "served linked day_start w st =
     (case (case w of
              CreateRequest i site f \<Rightarrow> createPrivacyRequest i site f st
            | DecideRequest site i d works \<Rightarrow> decidePrivacyRequest linked day_start site i d works st) of
        Inl why \<Rightarrow> st
      | Inr st' \<Rightarrow> st')"

text \<open>
  What the store promises: ids are unique, a request was carried out exactly when it is completed,
  and no more than once, and the events are those that no completed deletion concerns.
\<close>

definition deleted_by :: "(string \<Rightarrow> string \<Rightarrow> string list) \<Rightarrow> (string \<Rightarrow> int \<Rightarrow> int) \<Rightarrow> privacy_row list \<Rightarrow> raw_event \<Rightarrow> bool" where
  "deleted_by linked day_start rows ev \<longleftrightarrow>
     list_ex (\<lambda>r. pr_status r = ''completed'' \<and> pr_type r = ''delete'' \<and> concerns linked day_start r ev) rows"

definition store_ok ::
  "(string \<Rightarrow> string \<Rightarrow> string list) \<Rightarrow> (string \<Rightarrow> int \<Rightarrow> int) \<Rightarrow> raw_event list \<Rightarrow> privacy_store \<Rightarrow> bool"
where
  "store_ok linked day_start evs st \<longleftrightarrow>
     distinct (map pr_id (ps_rows st)) \<and> distinct (ps_executed st)
     \<and> set (ps_executed st) = pr_id ` {r \<in> set (ps_rows st). pr_status r = ''completed''}
     \<and> (\<forall>r \<in> set (ps_rows st). pr_type r \<in> set REQUEST_TYPES
          \<and> pr_status r \<in> {''pending'', ''completed'', ''rejected''})
     \<and> ps_events st = filter (\<lambda>ev. \<not> deleted_by linked day_start (ps_rows st) ev) evs"

definition empty_store :: "raw_event list \<Rightarrow> privacy_store" where
  "empty_store evs = \<lparr>ps_rows = [], ps_events = evs, ps_executed = []\<rparr>"

lemma ids_set_status [simp]: "map pr_id (set_status i x rows) = map pr_id rows"
  by (induction rows) (auto simp: set_status_def)

lemma set_of_status:
  assumes "distinct (map pr_id rows)" "r \<in> set rows" "pr_id r = i"
  shows "set (set_status i x rows) = insert (r\<lparr>pr_status := x\<rparr>) (set rows - {r})"
  using assms
proof (induction rows)
  case (Cons a rows)
  show ?case
  proof (cases "a = r")
    case True
    then have "i \<notin> pr_id ` set rows" using Cons.prems by auto
    then have "set_status i x rows = rows" by (induction rows) (auto simp: set_status_def)
    moreover have "r \<notin> set rows" using \<open>i \<notin> pr_id ` set rows\<close> Cons.prems(3) by auto
    ultimately show ?thesis using True Cons.prems(3) by (auto simp: set_status_def)
  next
    case False
    then have "r \<in> set rows" "pr_id a \<noteq> i" using Cons.prems by auto
    then show ?thesis using Cons False by (auto simp: set_status_def)
  qed
qed simp

lemma pending_rowD:
  "pending_row site i st = Some r \<Longrightarrow>
     r \<in> set (ps_rows st) \<and> pr_id r = i \<and> pr_site r = site \<and> pr_status r = ''pending''"
  by (auto simp: pending_row_def find_Some_iff)

lemma concerns_status [simp]: "concerns linked day_start (r\<lparr>pr_status := x\<rparr>) = concerns linked day_start r"
  by (auto simp: concerns_def fun_eq_iff split: option.split)

lemma deleted_by_alt:
  "deleted_by linked day_start rows ev \<longleftrightarrow>
     (\<exists>r \<in> set rows. pr_status r = ''completed'' \<and> pr_type r = ''delete'' \<and> concerns linked day_start r ev)"
  by (auto simp: deleted_by_def list_ex_iff)

lemma deleted_by_status:
  assumes "distinct (map pr_id rows)" "r \<in> set rows" "pr_id r = i" "pr_status r = ''pending''"
  shows "deleted_by linked day_start (set_status i x rows) ev \<longleftrightarrow>
    deleted_by linked day_start rows ev
      \<or> x = ''completed'' \<and> pr_type r = ''delete'' \<and> concerns linked day_start r ev"
  using assms(4) unfolding deleted_by_alt set_of_status [OF assms(1-3)] by auto

lemma create_ok:
  assumes "store_ok linked day_start evs st" "createPrivacyRequest i site f st = Inr t"
  shows "store_ok linked day_start evs t"
proof -
  from assms(2) have ok: "privacy_guards f = None" and new: "i \<notin> pr_id ` set (ps_rows st)"
    and t: "t = st\<lparr>ps_rows := ps_rows st @
      [\<lparr>pr_id = i, pr_site = site, pr_type = pf_type f, pr_identity = pf_identity f, pr_value = pf_value f,
        pr_period = (if pf_identity f = ''period'' then request_period f else None),
        pr_status = ''pending''\<rparr>]\<rparr>"
    by (auto simp: createPrivacyRequest_def split: option.splits if_splits)
  have "pf_type f \<in> set REQUEST_TYPES" using ok by (simp add: privacy_guards_def split: if_splits)
  moreover have "deleted_by linked day_start (ps_rows t) ev = deleted_by linked day_start (ps_rows st) ev" for ev
    by (simp add: t deleted_by_def)
  moreover have "{r \<in> set (ps_rows t). pr_status r = ''completed''} = {r \<in> set (ps_rows st). pr_status r = ''completed''}"
    by (auto simp: t)
  ultimately show ?thesis using assms(1) new by (simp add: store_ok_def t)
qed

lemma reject_ok:
  assumes "store_ok linked day_start evs st" "pending_row site i st = Some r"
  shows "store_ok linked day_start evs (st\<lparr>ps_rows := set_status i ''rejected'' (ps_rows st)\<rparr>)"
proof -
  from pending_rowD [OF assms(2)] have r: "r \<in> set (ps_rows st)" "pr_id r = i" "pr_status r = ''pending''"
    by simp_all
  have d: "distinct (map pr_id (ps_rows st))" using assms(1) by (simp add: store_ok_def)
  note change = set_of_status [OF d r(1,2)] deleted_by_status [OF d r]
  have "{q \<in> set (set_status i ''rejected'' (ps_rows st)). pr_status q = ''completed''}
      = {q \<in> set (ps_rows st). pr_status q = ''completed''}"
    unfolding change using r(3) by auto
  then show ?thesis using assms(1) r(1) by (auto simp: store_ok_def change)
qed

lemma approve_ok:
  assumes "store_ok linked day_start evs st" "executePrivacyRequest linked day_start site i works st = Some t"
  shows "store_ok linked day_start evs t"
proof -
  obtain r where found: "pending_row site i st = Some r"
    and t: "t = st\<lparr>ps_rows := set_status i ''completed'' (ps_rows st),
      ps_events := (if pr_type r = ''export'' then ps_events st
        else filter (\<lambda>ev. \<not> concerns linked day_start r ev) (ps_events st)),
      ps_executed := ps_executed st @ [i]\<rparr>"
    using assms(2) by (auto simp: executePrivacyRequest_def split: option.splits if_splits)
  from pending_rowD [OF found] have r: "r \<in> set (ps_rows st)" "pr_id r = i" "pr_status r = ''pending''"
    by simp_all
  have d: "distinct (map pr_id (ps_rows st))" using assms(1) by (simp add: store_ok_def)
  have type: "pr_type r = ''export'' \<or> pr_type r = ''delete''"
    using assms(1) r(1) by (auto simp: store_ok_def REQUEST_TYPES_def)
  note change = set_of_status [OF d r(1,2)] deleted_by_status [OF d r]
  have new: "i \<notin> set (ps_executed st)"
  proof
    assume "i \<in> set (ps_executed st)"
    then obtain q where q: "q \<in> set (ps_rows st)" "pr_id q = i" "pr_status q = ''completed''"
      using assms(1) by (auto simp: store_ok_def)
    then have "q = r" using r(1,2) inj_onD [of pr_id "set (ps_rows st)" q r] d by (simp add: distinct_map)
    then show False using q r by simp
  qed
  have "{q \<in> set (set_status i ''completed'' (ps_rows st)). pr_status q = ''completed''}
      = insert (r\<lparr>pr_status := ''completed''\<rparr>) {q \<in> set (ps_rows st). pr_status q = ''completed''}"
    unfolding change using r(3) by auto
  then have carried: "set (ps_executed t) = pr_id ` {q \<in> set (ps_rows t). pr_status q = ''completed''}"
    using assms(1) r(2) by (simp add: t store_ok_def)
  have "ps_events t = filter (\<lambda>ev. \<not> deleted_by linked day_start (ps_rows t) ev) evs"
    using assms(1) type by (auto simp: t store_ok_def change intro!: filter_cong)
  then show ?thesis using assms(1) new carried r by (auto simp: t store_ok_def change)
qed

lemma served_ok:
  assumes "store_ok linked day_start evs st"
  shows "store_ok linked day_start evs (served linked day_start w st)"
proof (cases w)
  case (CreateRequest i site f)
  then show ?thesis using assms create_ok [OF assms, of i site f] by (auto simp: served_def split: sum.split)
next
  case (DecideRequest site i d works)
  then show ?thesis using assms reject_ok [OF assms, of site i] approve_ok [OF assms, of site i works]
    by (auto simp: served_def decidePrivacyRequest_def split: sum.splits option.splits if_splits)
qed

lemma served_run_ok:
  "store_ok linked day_start evs st \<Longrightarrow> store_ok linked day_start evs (fold (served linked day_start) ws st)"
  by (induction ws arbitrary: st) (simp_all add: served_ok)


text \<open>
  An identity is tested without its surrounding blanks and stored with them: the deletion is
  completed and the events of the person stay.
\<close>

lemma padded_identity_matches_nobody:
  "let ev = \<lparr>re_site = ''s1'', re_visitor = ''v1'', re_user = ''u1'', re_time = 0\<rparr>;
       f = \<lparr>pf_type = ''delete'', pf_identity = ''user_id'', pf_value = ''u1 '', pf_from = [], pf_to = [], pf_reason = ''asked''\<rparr>;
       st = fold (served (\<lambda>s u. if u = ''u1'' then [''v1''] else []) (\<lambda>s d. d))
         [CreateRequest ''p1'' ''s1'' f, DecideRequest ''s1'' ''p1'' ''approve'' True] (empty_store [ev])
   in ps_events st = [ev] \<and> map pr_status (ps_rows st) = [''completed'']"
  by code_simp

subsection \<open>The page\<close>

text \<open>
  A row of the table with what the buttons need. The lists are kept by site, as the query cache keeps
  them; \<open>pd_failed\<close> is the error of the last decision, which the dialog shows. While the dialog is open
  it covers the page. The reason that the form starts with is a Korean one, here in English.
\<close>

record privacy_item =
  pi_id :: string
  pi_type :: string
  pi_status :: string

record open_decision =
  od_id :: string
  od_type :: string
  od_action :: string

datatype privacy_request =
    PostPrivacy string privacy_form
  | PostDecision string string string

record privacy_desk =
  pd_site :: string
  pd_cache :: "(string \<times> privacy_item list) list"
  pd_form :: privacy_form
  pd_creating :: bool
  pd_decision :: "open_decision option"
  pd_deciding :: bool
  pd_failed :: bool
  pd_requests :: "privacy_request list"

definition privacy_desk_start :: "string \<Rightarrow> privacy_desk" where
  "privacy_desk_start site =
     \<lparr>pd_site = site, pd_cache = [],
      pd_form = \<lparr>pf_type = ''delete'', pf_identity = ''user_id'', pf_value = [], pf_from = [], pf_to = [],
        pf_reason = ''privacy request''\<rparr>,
      pd_creating = False, pd_decision = None, pd_deciding = False, pd_failed = False, pd_requests = []\<rparr>"

definition desk_rows :: "privacy_desk \<Rightarrow> privacy_item list" where
  "desk_rows s = (case map_of (pd_cache s) (pd_site s) of Some rows \<Rightarrow> rows | None \<Rightarrow> [])"

definition desk_shown :: "privacy_desk \<Rightarrow> bool" where
  "desk_shown s \<longleftrightarrow> map_of (pd_cache s) (pd_site s) \<noteq> None"

definition create_disabled :: "privacy_desk \<Rightarrow> bool" where
  "create_disabled s \<longleftrightarrow> pd_creating s \<or> js_trim (pf_reason (pd_form s)) = []
     \<or> (if pf_identity (pd_form s) = ''period'' then pf_from (pd_form s) = [] \<or> pf_to (pd_form s) = []
        else js_trim (pf_value (pd_form s)) = [])"

definition create_request :: "privacy_desk \<Rightarrow> privacy_desk" where
  "create_request s =
     (if create_disabled s then s
      else s\<lparr>pd_creating := True, pd_requests := pd_requests s @ [PostPrivacy (pd_site s) (pd_form s)]\<rparr>)"

definition open_dialog :: "string \<Rightarrow> string \<Rightarrow> privacy_desk \<Rightarrow> privacy_desk" where
  "open_dialog i action s =
     (case find (\<lambda>r. pi_id r = i \<and> pi_status r = ''pending'') (desk_rows s) of
        None \<Rightarrow> s
      | Some r \<Rightarrow>
          if action \<in> {''approve'', ''reject''}
          then s\<lparr>pd_decision := Some \<lparr>od_id = i, od_type = pi_type r, od_action = action\<rparr>\<rparr> else s)"

definition press_decide :: "privacy_desk \<Rightarrow> privacy_desk" where
  "press_decide s =
     (case pd_decision s of
        None \<Rightarrow> s
      | Some d \<Rightarrow>
          if pd_deciding s then s
          else s\<lparr>pd_deciding := True, pd_failed := False,
            pd_requests := pd_requests s @ [PostDecision (pd_site s) (od_id d) (od_action d)]\<rparr>)"

definition decided :: "bool \<Rightarrow> privacy_desk \<Rightarrow> privacy_desk" where
  "decided ok s =
     (if ok then s\<lparr>pd_deciding := False, pd_decision := None\<rparr> else s\<lparr>pd_deciding := False, pd_failed := True\<rparr>)"

datatype privacy_event =
    PrivacyRows string "privacy_item list"
  | PrivacySite string
  | RequestType string
  | RequestIdentity string
  | RequestValue string
  | RequestFrom string
  | RequestTo string
  | RequestReason string
  | PressCreate
  | RequestCreated bool
  | OpenDialog string string
  | CloseDialog
  | PressDecide
  | Decided bool

definition edit_request :: "(privacy_form \<Rightarrow> privacy_form) \<Rightarrow> privacy_desk \<Rightarrow> privacy_desk" where
  "edit_request f s = s\<lparr>pd_form := f (pd_form s)\<rparr>"

fun privacy_input :: "privacy_event \<Rightarrow> privacy_desk \<Rightarrow> privacy_desk" where
  "privacy_input (RequestType t) s =
     (if t \<in> set REQUEST_TYPES then edit_request (\<lambda>f. f\<lparr>pf_type := t\<rparr>) s else s)"
| "privacy_input (RequestIdentity t) s =
     (if t \<in> set IDENTITY_TYPES then edit_request (\<lambda>f. f\<lparr>pf_identity := t\<rparr>) s else s)"
| "privacy_input (RequestValue t) s =
     (if pf_identity (pd_form s) = ''period'' then s else edit_request (\<lambda>f. f\<lparr>pf_value := t\<rparr>) s)"
| "privacy_input (RequestFrom t) s =
     (if pf_identity (pd_form s) = ''period'' then edit_request (\<lambda>f. f\<lparr>pf_from := t\<rparr>) s else s)"
| "privacy_input (RequestTo t) s =
     (if pf_identity (pd_form s) = ''period'' then edit_request (\<lambda>f. f\<lparr>pf_to := t\<rparr>) s else s)"
| "privacy_input (RequestReason t) s = edit_request (\<lambda>f. f\<lparr>pf_reason := t\<rparr>) s"
| "privacy_input PressCreate s = create_request s"
| "privacy_input (OpenDialog i action) s = open_dialog i action s"
| "privacy_input _ s = s"

fun privacy_desk_step :: "privacy_event \<Rightarrow> privacy_desk \<Rightarrow> privacy_desk" where
  "privacy_desk_step (PrivacyRows site rows) s = s\<lparr>pd_cache := AList.update site rows (pd_cache s)\<rparr>"
| "privacy_desk_step (PrivacySite site) s = s\<lparr>pd_site := site\<rparr>"
| "privacy_desk_step (RequestCreated ok) s =
     (let t = s\<lparr>pd_creating := False\<rparr> in if ok then edit_request (\<lambda>f. f\<lparr>pf_value := []\<rparr>) t else t)"
| "privacy_desk_step CloseDialog s = (if desk_shown s then s\<lparr>pd_decision := None\<rparr> else s)"
| "privacy_desk_step PressDecide s = (if desk_shown s then press_decide s else s)"
| "privacy_desk_step (Decided ok) s = decided ok s"
| "privacy_desk_step e s =
     (if desk_shown s \<and> pd_decision s = None then privacy_input e s else s)"

subsection \<open>What the page sends\<close>

text \<open>\<open>L\<close> holds the lists of requests that the server answered, by site.\<close>

definition rows_listed :: "(string \<times> privacy_item list) set \<Rightarrow> privacy_event \<Rightarrow> bool" where
  "rows_listed L e = (case e of PrivacyRows site rows \<Rightarrow> (site, rows) \<in> L | _ \<Rightarrow> True)"

definition listed_pending :: "(string \<times> privacy_item list) set \<Rightarrow> string \<Rightarrow> bool" where
  "listed_pending L i \<longleftrightarrow> (\<exists>(site, rows) \<in> L. \<exists>r \<in> set rows. pi_id r = i \<and> pi_status r = ''pending'')"

fun privacy_request_ok :: "(string \<times> privacy_item list) set \<Rightarrow> privacy_request \<Rightarrow> bool" where
  "privacy_request_ok L (PostPrivacy site f) \<longleftrightarrow>
     pf_type f \<in> set REQUEST_TYPES \<and> pf_identity f \<in> set IDENTITY_TYPES
     \<and> (if pf_identity f = ''period'' then pf_from f \<noteq> [] \<and> pf_to f \<noteq> [] else js_trim (pf_value f) \<noteq> [])"
| "privacy_request_ok L (PostDecision site i d) \<longleftrightarrow> d \<in> {''approve'', ''reject''} \<and> listed_pending L i"

definition desk_ok :: "(string \<times> privacy_item list) set \<Rightarrow> privacy_desk \<Rightarrow> bool" where
  "desk_ok L s \<longleftrightarrow> set (pd_cache s) \<subseteq> L
     \<and> pf_type (pd_form s) \<in> set REQUEST_TYPES \<and> pf_identity (pd_form s) \<in> set IDENTITY_TYPES
     \<and> (\<forall>d. pd_decision s = Some d \<longrightarrow> od_action d \<in> {''approve'', ''reject''} \<and> listed_pending L (od_id d))
     \<and> list_all (privacy_request_ok L) (pd_requests s)"

lemma create_request_ok: "desk_ok L s \<Longrightarrow> desk_ok L (create_request s)"
  by (auto simp: desk_ok_def create_request_def create_disabled_def)

lemma open_dialog_ok:
  assumes "desk_ok L s"
  shows "desk_ok L (open_dialog i action s)"
proof (cases "find (\<lambda>r. pi_id r = i \<and> pi_status r = ''pending'') (desk_rows s)")
  case (Some r)
  then have r: "r \<in> set (desk_rows s)" "pi_id r = i" "pi_status r = ''pending''"
    by (auto simp: find_Some_iff)
  then obtain rows where rows: "map_of (pd_cache s) (pd_site s) = Some rows" "r \<in> set rows"
    by (cases "map_of (pd_cache s) (pd_site s)") (simp_all add: desk_rows_def)
  have "(pd_site s, rows) \<in> L"
    using map_of_SomeD [OF rows(1)] assms unfolding desk_ok_def by blast
  with rows(2) r have "listed_pending L i" by (auto simp: listed_pending_def)
  then show ?thesis using assms Some by (simp add: desk_ok_def open_dialog_def)
qed (simp add: open_dialog_def assms)

lemma press_decide_ok: "desk_ok L s \<Longrightarrow> desk_ok L (press_decide s)"
  by (auto simp: desk_ok_def press_decide_def split: option.split)

lemma edit_request_ok:
  "desk_ok L s \<Longrightarrow> pf_type (f (pd_form s)) \<in> set REQUEST_TYPES \<Longrightarrow> pf_identity (f (pd_form s)) \<in> set IDENTITY_TYPES
     \<Longrightarrow> desk_ok L (edit_request f s)"
  by (simp add: desk_ok_def edit_request_def)

lemma desk_form_ok:
  "desk_ok L s \<Longrightarrow> pf_type (pd_form s) \<in> set REQUEST_TYPES"
  "desk_ok L s \<Longrightarrow> pf_identity (pd_form s) \<in> set IDENTITY_TYPES"
  by (simp_all add: desk_ok_def)

lemma privacy_input_ok: "desk_ok L s \<Longrightarrow> desk_ok L (privacy_input e s)"
  by (cases e) (auto simp: create_request_ok open_dialog_ok intro!: edit_request_ok dest: desk_form_ok)

lemma desk_cache_ok:
  assumes "desk_ok L s" "(site, rows) \<in> L"
  shows "desk_ok L (s\<lparr>pd_cache := AList.update site rows (pd_cache s)\<rparr>)"
  using assms alist_update_subset [of site rows "pd_cache s"] by (auto simp: desk_ok_def)

lemma privacy_desk_step_ok:
  assumes "desk_ok L s" "rows_listed L e"
  shows "desk_ok L (privacy_desk_step e s)"
proof (cases e)
  case (PrivacyRows site rows)
  then show ?thesis using assms desk_cache_ok by (simp add: rows_listed_def)
next
  case (RequestCreated ok)
  have "desk_ok L (s\<lparr>pd_creating := False\<rparr>)" using assms(1) by (simp add: desk_ok_def)
  then show ?thesis using RequestCreated by (auto simp: Let_def intro!: edit_request_ok dest: desk_form_ok)
next
  case (Decided ok)
  then show ?thesis using assms(1) by (simp add: decided_def desk_ok_def)
next
  case CloseDialog
  then show ?thesis using assms(1) by (simp add: desk_ok_def)
next
  case (PrivacySite site)
  then show ?thesis using assms(1) by (simp add: desk_ok_def)
qed (use assms(1) in \<open>simp_all add: privacy_input_ok press_decide_ok del: privacy_input.simps\<close>)

lemma desk_run_ok:
  "desk_ok L s \<Longrightarrow> list_all (rows_listed L) es \<Longrightarrow> desk_ok L (fold privacy_desk_step es s)"
  by (induction es arbitrary: s) (simp_all add: privacy_desk_step_ok)

text \<open>
  A request that the page posts is refused only for its dates, and a decision is one of the two the
  server knows, on a request that was listed as pending.
\<close>

theorem privacy_posts_accepted:
  assumes "list_all (rows_listed L) es"
    and "s = fold privacy_desk_step es (privacy_desk_start site)" and "q \<in> set (pd_requests s)"
  shows "case q of
      PostPrivacy at_site f \<Rightarrow> privacy_guards f =
        (if pf_identity f = ''period'' \<and> request_period f = None then Some INVALID_RANGE else None)
    | PostDecision at_site i d \<Rightarrow> listed_pending L i
        \<and> decidePrivacyRequest linked day_start at_site i d works st \<noteq> Inl INVALID_DECISION"
proof -
  have "desk_ok L (privacy_desk_start site)"
    by (simp add: desk_ok_def privacy_desk_start_def REQUEST_TYPES_def IDENTITY_TYPES_def)
  then have "desk_ok L s" unfolding assms(2) using assms(1) by (rule desk_run_ok)
  then have ok: "privacy_request_ok L q" using assms(3) by (simp add: desk_ok_def list_all_iff)
  show ?thesis
  proof (cases q)
    case (PostPrivacy at_site f)
    then show ?thesis using ok by (simp add: privacy_guards_def split: if_splits)
  next
    case (PostDecision at_site i d)
    then show ?thesis using ok
      by (auto simp: decidePrivacyRequest_def split: option.splits)
  qed
qed

definition example_requests :: "privacy_item list" where
  "example_requests =
     [\<lparr>pi_id = ''p1'', pi_type = ''delete'', pi_status = ''pending''\<rparr>,
      \<lparr>pi_id = ''p2'', pi_type = ''export'', pi_status = ''pending''\<rparr>]"

lemma privacy_posts_accepted_witness:
  "let f = \<lparr>pf_type = ''delete'', pf_identity = ''period'', pf_value = [], pf_from = ''2024-03-02'',
         pf_to = ''2024-03-01'', pf_reason = ''asked''\<rparr>;
       s = fold privacy_desk_step
         [PrivacyRows ''s1'' example_requests, PressCreate, RequestIdentity ''period'', RequestFrom ''2024-03-02'',
          PressCreate, RequestTo ''2024-03-01'', RequestReason ''asked'', PressCreate,
          OpenDialog ''p1'' ''approve'', PressDecide] (privacy_desk_start ''s1'')
   in pd_requests s = [PostPrivacy ''s1'' f, PostDecision ''s1'' ''p1'' ''approve'']
      \<and> privacy_guards f = Some INVALID_RANGE"
proof -
  let ?es = "[PrivacyRows ''s1'' example_requests, PressCreate, RequestIdentity ''period'', RequestFrom ''2024-03-02'',
     PressCreate, RequestTo ''2024-03-01'', RequestReason ''asked'', PressCreate,
     OpenDialog ''p1'' ''approve'', PressDecide]"
  let ?f = "\<lparr>pf_type = ''delete'', pf_identity = ''period'', pf_value = [], pf_from = ''2024-03-02'',
     pf_to = ''2024-03-01'', pf_reason = ''asked''\<rparr>"
  let ?s = "fold privacy_desk_step ?es (privacy_desk_start ''s1'')"
  have posted: "pd_requests ?s = [PostPrivacy ''s1'' ?f, PostDecision ''s1'' ''p1'' ''approve'']" by code_simp
  have member: "PostPrivacy ''s1'' ?f \<in> set (pd_requests ?s)" unfolding posted by simp
  have listed: "list_all (rows_listed {(''s1'', example_requests)}) ?es" by (simp add: rows_listed_def)
  have "request_period ?f = None" by code_simp
  then have "privacy_guards ?f = Some INVALID_RANGE"
    using privacy_posts_accepted [OF listed refl member, of undefined undefined False undefined]
    by (simp only: privacy_request.case privacy_form.simps simp_thms if_True)
  with posted show ?thesis unfolding Let_def by (rule conjI)
qed

text \<open>The error of a decision is still shown in the dialog of the next request.\<close>

lemma stale_decision_error:
  "let s = fold privacy_desk_step
      [PrivacyRows ''s1'' example_requests, OpenDialog ''p1'' ''approve'', PressDecide, Decided False, CloseDialog,
       OpenDialog ''p2'' ''reject''] (privacy_desk_start ''s1'')
   in pd_failed s \<and> map_option od_id (pd_decision s) = Some ''p2''
      \<and> pd_requests s = [PostDecision ''s1'' ''p1'' ''approve'']"
  by code_simp

end
