(* ===== verification/ProductLab.thy ===== *)
theory ProductLab
  imports Engineering
begin

section \<open>Feature flags and experiments\<close>

text \<open>
  \<open>ProductLab\<close> of \<open>web/src/pages/EnterpriseAdminPage.tsx\<close>, beside the guards of \<open>saveFeatureFlag\<close> and
  \<open>saveExperiment\<close> (\<open>internal/httpapi/enterprise_analytics.go\<close>). The lists of a site are kept by the
  query cache; without one of them the page is a placeholder.
\<close>

subsection \<open>Forms and requests\<close>

record flag_form =
  fg_key :: string
  fg_name :: string
  fg_variants :: string
  fg_owner :: string

record experiment_form =
  ex_key :: string
  ex_name :: string
  ex_hypothesis :: string
  ex_metric :: string
  ex_variants :: string
  ex_status :: string
  ex_environment :: string
  ex_flag :: string

text \<open>
  A request carries the form with the list of variants in place of its text; the status of a flag
  (active) and what no field edits are constants and left away.
\<close>

datatype lab_request =
    PostFlag string flag_form "string list"
  | PostExperiment string experiment_form "string list" "string option"

definition EXPERIMENT_STATES :: "string list" where
  "EXPERIMENT_STATES = [''draft'', ''running'', ''completed'', ''archived'']"

definition LAB_PANELS :: "string list" where
  "LAB_PANELS = [''flags'', ''experiments'']"

record lab_page =
  lb_site :: string
  lb_environment :: string
  lb_param :: "string option"
  lb_flags :: "(string \<times> string list) list"
  lb_experiments :: "string list"
  lb_metrics :: "(string \<times> string list) list"
  lb_flag :: flag_form
  lb_experiment :: experiment_form
  lb_flag_saving :: bool
  lb_experiment_saving :: bool
  lb_requests :: "lab_request list"

definition lab_start :: "string \<Rightarrow> string \<Rightarrow> string option \<Rightarrow> lab_page" where
  "lab_start site env param =
     \<lparr>lb_site = site, lb_environment = env, lb_param = param, lb_flags = [], lb_experiments = [], lb_metrics = [],
      lb_flag = \<lparr>fg_key = [], fg_name = [], fg_variants = ''control,variant'', fg_owner = []\<rparr>,
      lb_experiment = \<lparr>ex_key = [], ex_name = [], ex_hypothesis = [], ex_metric = [],
        ex_variants = ''control,variant'', ex_status = ''draft'', ex_environment = env, ex_flag = []\<rparr>,
      lb_flag_saving = False, lb_experiment_saving = False, lb_requests = []\<rparr>"

definition lab_shown :: "lab_page \<Rightarrow> bool" where
  "lab_shown s \<longleftrightarrow> map_of (lb_flags s) (lb_site s) \<noteq> None \<and> map_of (lb_metrics s) (lb_site s) \<noteq> None
     \<and> lb_site s \<in> set (lb_experiments s)"

definition names_of :: "(string \<times> string list) list \<Rightarrow> string \<Rightarrow> string list" where
  "names_of cache site = (case map_of cache site of Some ns \<Rightarrow> ns | None \<Rightarrow> [])"

definition save_flag :: "lab_page \<Rightarrow> lab_page" where
  "save_flag s =
     (if fg_key (lb_flag s) = [] \<or> fg_name (lb_flag s) = [] \<or> lb_flag_saving s then s
      else s\<lparr>lb_flag_saving := True, lb_requests := lb_requests s @
        [PostFlag (lb_site s) (lb_flag s) (list_of_text (fg_variants (lb_flag s)))]\<rparr>)"

definition save_experiment :: "lab_page \<Rightarrow> lab_page" where
  "save_experiment s =
     (let x = lb_experiment s in
      if ex_key x = [] \<or> ex_name x = [] \<or> ex_metric x = [] \<or> lb_experiment_saving s then s
      else s\<lparr>lb_experiment_saving := True, lb_requests := lb_requests s @
        [PostExperiment (lb_site s) x (list_of_text (ex_variants x))
           (if ex_flag x = [] then None else Some (ex_flag x))]\<rparr>)"

datatype flag_edit = FlagKey string | FlagName string | FlagVariants string | FlagOwner string

fun edit_flag :: "flag_edit \<Rightarrow> flag_form \<Rightarrow> flag_form" where
  "edit_flag (FlagKey t) f = f\<lparr>fg_key := t\<rparr>"
| "edit_flag (FlagName t) f = f\<lparr>fg_name := t\<rparr>"
| "edit_flag (FlagVariants t) f = f\<lparr>fg_variants := t\<rparr>"
| "edit_flag (FlagOwner t) f = f\<lparr>fg_owner := t\<rparr>"

datatype experiment_edit =
    ExperimentKey string | ExperimentName string | ExperimentFlag string | ExperimentMetric string
  | ExperimentHypothesis string | ExperimentVariants string | ExperimentStatus string

text \<open>A select offers its items only; no flag is one of them.\<close>

fun edit_experiment :: "string list \<Rightarrow> string list \<Rightarrow> experiment_edit \<Rightarrow> experiment_form \<Rightarrow> experiment_form" where
  "edit_experiment flags metrics (ExperimentKey t) x = x\<lparr>ex_key := t\<rparr>"
| "edit_experiment flags metrics (ExperimentName t) x = x\<lparr>ex_name := t\<rparr>"
| "edit_experiment flags metrics (ExperimentFlag t) x =
     (if t = [] \<or> t \<in> set flags then x\<lparr>ex_flag := t\<rparr> else x)"
| "edit_experiment flags metrics (ExperimentMetric t) x = (if t \<in> set metrics then x\<lparr>ex_metric := t\<rparr> else x)"
| "edit_experiment flags metrics (ExperimentHypothesis t) x = x\<lparr>ex_hypothesis := t\<rparr>"
| "edit_experiment flags metrics (ExperimentVariants t) x = x\<lparr>ex_variants := t\<rparr>"
| "edit_experiment flags metrics (ExperimentStatus t) x =
     (if t \<in> set EXPERIMENT_STATES then x\<lparr>ex_status := t\<rparr> else x)"

datatype lab_event =
    FlagsArrived string "string list"
  | ExperimentsArrived string
  | LabMetrics string "string list"
  | LabSite string
  | LabEnvironment string
  | LabAddress "string option"
  | LabTab nat
  | EditFlag flag_edit | SaveFlag | FlagSaved bool
  | EditExperiment experiment_edit | SaveExperiment | ExperimentSaved bool

fun lab_input :: "nat \<Rightarrow> lab_event \<Rightarrow> lab_page \<Rightarrow> lab_page" where
  "lab_input panel (LabTab i) s = (if i < length LAB_PANELS then s\<lparr>lb_param := select_panel LAB_PANELS i\<rparr> else s)"
| "lab_input panel (EditFlag e) s = (if panel = 0 then s\<lparr>lb_flag := edit_flag e (lb_flag s)\<rparr> else s)"
| "lab_input panel SaveFlag s = (if panel = 0 then save_flag s else s)"
| "lab_input panel (EditExperiment e) s =
     (if panel = 1
      then s\<lparr>lb_experiment := edit_experiment (names_of (lb_flags s) (lb_site s)) (names_of (lb_metrics s) (lb_site s)) e
        (lb_experiment s)\<rparr>
      else s)"
| "lab_input panel SaveExperiment s = (if panel = 1 then save_experiment s else s)"
| "lab_input panel _ s = s"

fun lab_step :: "lab_event \<Rightarrow> lab_page \<Rightarrow> lab_page" where
  "lab_step (FlagsArrived site is) s = s\<lparr>lb_flags := AList.update site is (lb_flags s)\<rparr>"
| "lab_step (ExperimentsArrived site) s = s\<lparr>lb_experiments := site # lb_experiments s\<rparr>"
| "lab_step (LabMetrics site ns) s = s\<lparr>lb_metrics := AList.update site ns (lb_metrics s)\<rparr>"
| "lab_step (LabSite site) s = s\<lparr>lb_site := site\<rparr>"
| "lab_step (LabEnvironment env) s =
     (if env = lb_environment s then s
      else s\<lparr>lb_environment := env, lb_experiment := (lb_experiment s)\<lparr>ex_environment := env\<rparr>\<rparr>)"
| "lab_step (LabAddress param) s = s\<lparr>lb_param := param\<rparr>"
| "lab_step (FlagSaved ok) s =
     (let t = s\<lparr>lb_flag_saving := False\<rparr> in
      if ok then t\<lparr>lb_flag := (lb_flag t)\<lparr>fg_key := [], fg_name := []\<rparr>\<rparr> else t)"
| "lab_step (ExperimentSaved ok) s =
     (let t = s\<lparr>lb_experiment_saving := False\<rparr> in
      if ok then t\<lparr>lb_experiment := (lb_experiment t)\<lparr>ex_key := [], ex_name := []\<rparr>\<rparr> else t)"
| "lab_step e s = (if lab_shown s then lab_input (panel_of LAB_PANELS (lb_param s)) e s else s)"

subsection \<open>What the server makes of it\<close>

datatype lab_refusal = INVALID_FLAG | INVALID_EXPERIMENT

definition variants_ok :: "string list \<Rightarrow> bool" where
  "variants_ok vs \<longleftrightarrow> 2 \<le> length vs \<and> length vs \<le> 20"

definition flag_guards :: "flag_form \<Rightarrow> string list \<Rightarrow> lab_refusal option" where
  "flag_guards f vs =
     (if js_trim (fg_key f) = [] \<or> js_trim (fg_name f) = [] \<or> \<not> variants_ok vs then Some INVALID_FLAG else None)"

definition experiment_guards ::
  "(string \<Rightarrow> bool) \<Rightarrow> experiment_form \<Rightarrow> string list \<Rightarrow> string option \<Rightarrow> lab_refusal option"
where
  "experiment_guards uuid x vs flag =
     (if js_trim (ex_key x) = [] \<or> js_trim (ex_name x) = [] \<or> \<not> registry_name (ex_metric x) \<or> \<not> variants_ok vs
      then Some INVALID_EXPERIMENT
      else (case flag of
              None \<Rightarrow> None
            | Some i \<Rightarrow> if i \<noteq> [] \<and> \<not> uuid i then Some INVALID_FLAG else None))"

subsection \<open>What the page sends\<close>

definition lab_answers :: "(string \<Rightarrow> bool) \<Rightarrow> lab_event \<Rightarrow> bool" where
  "lab_answers uuid e =
     (case e of
        FlagsArrived site is \<Rightarrow> list_all uuid is
      | LabMetrics site ns \<Rightarrow> list_all registry_name ns
      | _ \<Rightarrow> True)"

definition experiment_ok :: "(string \<Rightarrow> bool) \<Rightarrow> experiment_form \<Rightarrow> bool" where
  "experiment_ok uuid x \<longleftrightarrow> (ex_metric x = [] \<or> registry_name (ex_metric x)) \<and> (ex_flag x = [] \<or> uuid (ex_flag x))
     \<and> ex_status x \<in> set EXPERIMENT_STATES"

text \<open>Variants on the wire are those of the text: trimmed, not blank, and none contains a comma.\<close>

definition clean_variants :: "string list \<Rightarrow> bool" where
  "clean_variants vs \<longleftrightarrow> list_all (\<lambda>v. v \<noteq> [] \<and> js_trim v = v \<and> CHR '','' \<notin> set v) vs"

fun lab_request_ok :: "(string \<Rightarrow> bool) \<Rightarrow> lab_request \<Rightarrow> bool" where
  "lab_request_ok uuid (PostFlag site f vs) \<longleftrightarrow> clean_variants vs"
| "lab_request_ok uuid (PostExperiment site x vs flag) \<longleftrightarrow>
     clean_variants vs \<and> experiment_ok uuid x \<and> ex_metric x \<noteq> [] \<and> flag = (if ex_flag x = [] then None else Some (ex_flag x))"

definition lab_ok :: "(string \<Rightarrow> bool) \<Rightarrow> lab_page \<Rightarrow> bool" where
  "lab_ok uuid s \<longleftrightarrow> (\<forall>(site, is) \<in> set (lb_flags s). list_all uuid is)
     \<and> (\<forall>(site, ns) \<in> set (lb_metrics s). list_all registry_name ns)
     \<and> experiment_ok uuid (lb_experiment s) \<and> list_all (lab_request_ok uuid) (lb_requests s)"

lemma clean_list_of_text: "clean_variants (list_of_text t)"
  using set_js_trim split_on_no_sep [of _ "CHR '',''" t]
  by (fastforce simp: clean_variants_def list_of_text_def nonempty_strings_def list_all_iff)

lemma names_of_member: "t \<in> set (names_of cache site) \<Longrightarrow> \<exists>ns. (site, ns) \<in> set cache \<and> t \<in> set ns"
  using map_of_SomeD [of cache site] by (cases "map_of cache site") (auto simp: names_of_def)

lemma edit_experiment_ok:
  assumes "lab_ok uuid s"
  shows "experiment_ok uuid (edit_experiment (names_of (lb_flags s) (lb_site s)) (names_of (lb_metrics s) (lb_site s)) e
    (lb_experiment s))"
proof (cases e)
  case (ExperimentFlag t)
  have "uuid t" if "t \<in> set (names_of (lb_flags s) (lb_site s))"
    using names_of_member [OF that] assms by (auto simp: lab_ok_def list_all_iff)
  then show ?thesis using ExperimentFlag assms by (auto simp: lab_ok_def experiment_ok_def)
next
  case (ExperimentMetric t)
  have "registry_name t" if "t \<in> set (names_of (lb_metrics s) (lb_site s))"
    using names_of_member [OF that] assms by (auto simp: lab_ok_def list_all_iff)
  then show ?thesis using ExperimentMetric assms by (auto simp: lab_ok_def experiment_ok_def)
qed (use assms in \<open>simp_all add: lab_ok_def experiment_ok_def\<close>)

lemma lab_input_ok:
  assumes "lab_ok uuid s"
  shows "lab_ok uuid (lab_input panel e s)"
proof (cases e)
  case (EditExperiment e)
  then show ?thesis using assms edit_experiment_ok [OF assms] by (simp add: lab_ok_def)
qed (use assms in \<open>simp_all add: lab_ok_def save_flag_def save_experiment_def Let_def clean_list_of_text\<close>)

lemma lab_cache_ok:
  assumes "\<forall>(site, ns) \<in> set cache. P ns" "P ms"
  shows "\<forall>(site, ns) \<in> set (AList.update site ms cache). P ns"
  using assms alist_update_subset [of site ms cache] by auto

lemma lab_step_ok:
  assumes "lab_ok uuid s" "lab_answers uuid e"
  shows "lab_ok uuid (lab_step e s)"
proof (cases e)
  case (FlagsArrived site ids)
  then show ?thesis using assms lab_cache_ok [of "lb_flags s" "list_all uuid" ids site]
    by (simp add: lab_ok_def lab_answers_def)
next
  case (LabMetrics site ns)
  then show ?thesis using assms lab_cache_ok [of "lb_metrics s" "list_all registry_name" ns site]
    by (simp add: lab_ok_def lab_answers_def)
next
  case (LabEnvironment env)
  then show ?thesis using assms(1) by (simp add: lab_ok_def experiment_ok_def)
next
  case (ExperimentSaved ok)
  then show ?thesis using assms(1) by (simp add: Let_def lab_ok_def experiment_ok_def)
next
  case (FlagSaved ok)
  then show ?thesis using assms(1) by (simp add: Let_def lab_ok_def)
next
  case (ExperimentsArrived site)
  then show ?thesis using assms(1) by (simp add: lab_ok_def)
next
  case (LabSite site)
  then show ?thesis using assms(1) by (simp add: lab_ok_def)
next
  case (LabAddress param)
  then show ?thesis using assms(1) by (simp add: lab_ok_def)
qed (use assms(1) in \<open>simp_all add: lab_input_ok del: lab_input.simps\<close>)

lemma lab_run_ok: "lab_ok uuid s \<Longrightarrow> list_all (lab_answers uuid) es \<Longrightarrow> lab_ok uuid (fold lab_step es s)"
  by (induction es arbitrary: s) (simp_all add: lab_step_ok)

text \<open>
  Whatever is typed: the server refuses a flag or an experiment only for a blank key or name or for
  the number of its variants, and every variant is trimmed, not blank and free of commas.
\<close>

theorem lab_posts_accepted:
  assumes "list_all (lab_answers uuid) es" "s = fold lab_step es (lab_start site env param)"
    and "q \<in> set (lb_requests s)"
  shows "case q of
      PostFlag at_site f vs \<Rightarrow> clean_variants vs \<and> flag_guards f vs =
        (if js_trim (fg_key f) = [] \<or> js_trim (fg_name f) = [] \<or> \<not> variants_ok vs then Some INVALID_FLAG else None)
    | PostExperiment at_site x vs flag \<Rightarrow> clean_variants vs \<and> experiment_guards uuid x vs flag =
        (if js_trim (ex_key x) = [] \<or> js_trim (ex_name x) = [] \<or> \<not> variants_ok vs then Some INVALID_EXPERIMENT
         else None)"
proof -
  have "lab_ok uuid (lab_start site env param)"
    by (simp add: lab_ok_def lab_start_def experiment_ok_def EXPERIMENT_STATES_def)
  then have "lab_ok uuid s" unfolding assms(2) using assms(1) by (rule lab_run_ok)
  then have ok: "lab_request_ok uuid q" using assms(3) by (simp add: lab_ok_def list_all_iff)
  then show ?thesis
    by (cases q) (auto simp: flag_guards_def experiment_guards_def experiment_ok_def split: if_splits)
qed

text \<open>
  An experiment keeps the metric and the flag of the site that was left, and the server, which looks
  neither up, stores them.
\<close>

lemma experiment_of_other_site:
  "let s = fold lab_step
      [FlagsArrived ''s1'' [''f1''], ExperimentsArrived ''s1'', LabMetrics ''s1'' [''ai_share''], LabTab 1,
       EditExperiment (ExperimentKey ''x''), EditExperiment (ExperimentName ''X''),
       EditExperiment (ExperimentMetric ''ai_share''), EditExperiment (ExperimentFlag ''f1''), LabSite ''s2'',
       FlagsArrived ''s2'' [], ExperimentsArrived ''s2'', LabMetrics ''s2'' [], SaveExperiment]
      (lab_start ''s1'' ''prd'' None)
   in case lb_requests s of
        [PostExperiment site x vs flag] \<Rightarrow> site = ''s2'' \<and> ex_metric x = ''ai_share'' \<and> flag = Some ''f1''
          \<and> experiment_guards (\<lambda>i. i = ''f1'') x vs flag = None
      | _ \<Rightarrow> False"
  by code_simp

end
