(* ===== verification/Spec2Isabelle.thy ===== *)
theory Spec2Isabelle
  imports Detection Navigation Csv PathFlow Period Sites Snippet Channels Insights Trace
    SegmentEdit Feedback SignalGuide Cidr AdminErrors DataGrid Shell Explore Asking Workbench
    Accounts Policies AdminCenter Registry Automation Governance Engineering PrivacyDesk ProductLab
begin

text \<open>
  Momento is a web analytics system. A tracker (\<open>sdk/src/index.ts\<close>) runs in the pages of the
  measured sites, collects events under the visitor's consent and posts them in batches; a Go
  collector stores them; a console (\<open>web/src\<close>) shows reports, edits segments, schedules and
  settings, and administers users. The two TypeScript programs are modelled here, and of the Go
  server the guards that the console meets and three stores that the console edits (settings, event
  contracts, privacy requests), beside the console code that uses them.

  The tracker. \<open>Tracker\<close> holds its state (the record \<open>tracker\<close>: one field per private field of the
  class, with the browser it lives in), the consent predicates (\<open>canTrack\<close>, \<open>isPersistent\<close>) and
  the storage keys; \<open>Session\<close> the visitor, the session and what an event carries; \<open>Delivery\<close> the
  queue: \<open>track\<close>, \<open>flush\<close>, \<open>groupBySession\<close>, \<open>deliver\<close> and the offline store. An asynchronous
  function is cut at its awaits: \<open>flush\<close> runs to its first request and leaves a suspension among
  the tracker's flights, \<open>settle\<close> and \<open>advance\<close> continue it with the answer. \<open>Signals\<close> (frustration),
  \<open>Search\<close>, \<open>Rum\<close> (web vitals) and \<open>AutoTrack\<close> (listeners, routes, timers) are the automatic
  detection; \<open>Consent\<close> is \<open>init\<close>, the consent operations and the script tag. \<open>AutoTrack\<close> ends with
  the datatype of everything that can happen to a page (calls, events of the browser, timers,
  answers) and its step function \<open>exec_now\<close>, so a run of a page is a list of actions.
  Beneath them, \<open>Prelude\<close> (strings, decimal text), \<open>JsValue\<close> (values and objects with the order
  of their keys, a \<open>kv_store\<close>), \<open>Json\<close> (printer and parser), \<open>Regex\<close> (a backtracking matcher),
  \<open>Pii\<close> and \<open>Browser\<close> (storage, addresses, ids, user agent).

  What is shown of it. \<open>Offline\<close>: what the offline store keeps and gives back; events are
  conserved as a multiset. \<open>Lifecycle\<close>: the locale \<open>page_order\<close> states which preorders on trackers
  every operation respects, once for the low level operations; its interpretations in
  \<open>Invariants\<close>, \<open>Wakeups\<close> and \<open>Withdrawal\<close> give, for every run, conservation of events, silence
  without consent, the cap of signals, the shape of user ids, pending wakeups and isolation of
  sites. \<open>Wakeups\<close> adds progress: a tracked event is on its way, an answered flush delivers.
  \<open>Withdrawal\<close> is about denying and revoking, \<open>Detection\<close> about what the detectors report.

  The console. \<open>ConsoleBase\<close> holds the text and number functions of the language that its modules
  share, \<open>Calendar\<close> the dates, \<open>UrlParams\<close> query strings. Then one theory per module or page:
  \<open>Period\<close> (periodParam.ts, usePeriodParam.ts), \<open>TableSort\<close>, \<open>TableView\<close>, \<open>Csv\<close> and
  \<open>DataGrid\<close> (the data table), \<open>Navigation\<close> (palette, shortcuts, favourites), \<open>Shell\<close>
  (AppShell.tsx and the routes of App.tsx), \<open>QueryError\<close>, \<open>Client\<close> (api/client.ts with
  AuthContext.tsx), \<open>Sites\<close> (SiteContext.tsx), \<open>PathFlow\<close>, \<open>Insights\<close>, \<open>Trace\<close>, \<open>SignalGuide\<close>,
  \<open>SegmentEdit\<close> (SegmentBuilder.tsx), \<open>Workbench\<close> (the segments page, the funnel and the explorer),
  \<open>Explore\<close> (UserExplorerPage.tsx), \<open>Asking\<close> (confirmations and the period field), \<open>Snippet\<close> (sdkGuide.ts), \<open>Feedback\<close>, and for the administration
  the rules in \<open>Cidr\<close>, \<open>Retention\<close>, \<open>Users\<close>, \<open>AdminErrors\<close>, \<open>Settings\<close> and \<open>Channels\<close>. The pages of
  AdminPage.tsx are \<open>AdminCenter\<close> (its sections and its home), \<open>Accounts\<close> (users), \<open>Policies\<close>
  (settings, privacy, deletion, retention) and \<open>Registry\<close> (sites, dimensions, networks, schemas,
  audit); those of PlatformAdminPage.tsx are \<open>Automation\<close> (channels, schedules) and \<open>Governance\<close>
  (environments, event contracts with their registry on the server, checks), those of
  EnterpriseAdminPage.tsx \<open>Engineering\<close> (formulas, goals, query policy, rebuilds, annotations),
  \<open>PrivacyDesk\<close> (privacy requests, with their execution on the events) and \<open>ProductLab\<close> (flags,
  experiments). A request is written down in the state when it leaves, and its answer is an event. React components
  that keep state (the selected site, the delayed bar, the signed-in user, the segment editor)
  are step functions on a record of that state: handlers and answers are events, an effect runs
  after the step that changes what it depends on.

  How the parts meet. The script tag that \<open>Snippet\<close> builds is read by \<open>Consent.init\<close>; \<open>Cidr\<close>,
  \<open>Retention\<close>, \<open>Users\<close>, \<open>Channels\<close>, \<open>Settings\<close> and \<open>SegmentEdit\<close> are proved against the server's
  checks; \<open>Client\<close> decodes what the server answers and \<open>AdminErrors\<close> explains it; \<open>Sites\<close> follows
  the signed-in user of \<open>Client\<close>.

  Bounds and fuel. The JSON parser runs with fuel \<open>2 * length + 2\<close>, enough for every text that
  the printer writes (the round trip is proved with that fuel); the matcher unfolds a star once
  per character left, since an empty turn of a star ends it; decimal fractions are written with
  at most 20 digits (\<open>frac_limit\<close>); the search waits for its result count at most five times, as
  the code does; the CSV reader has fuel the length of its text.

  Not modelled. Rendering and styles of the React pages, the charts, the report pages (they send
  queries and draw the answers; the modules they compute with are modelled), the Korean sentences (they
  are constructors that carry the values a sentence mentions); the collector, its SQL and the
  query service; 16-bit code units (a character is one unit, so text beyond the basic plane is
  outside) and the rounding of doubles (numbers are reals or rationals, negative zero only where
  the code tells it apart); quota errors of small writes to localStorage (large ones, those of the
  offline store, can fail); a stored session whose fields have the wrong types; several trackers
  on one page. Parameters of the model, with what is relied on as hypotheses: the parsing of
  addresses, the collator of the browser, random numbers, the clock, and the network.
\<close>

end
